(* ===== verification/RM_Prelude.thy ===== *)
theory RM_Prelude
  imports Main "HOL-Library.Word"
begin

text \<open>
  Shared vocabulary of the development: the fixed width integer types of the C code, the
  wrapping arithmetic of \<open>size_t\<close>, bslices of byte sequences and the effect of a write at an
  offset, the outcome of \<open>malloc\<close>, and the fact collections the component proofs use.
\<close>

unbundle bit_operations_syntax

named_theorems sz_simps \<open>size_t operations that stay within range\<close>
named_theorems file_simps \<open>facts about streams that carry the I/O proofs\<close>

section \<open>Machine integers\<close>

type_synonym u8 = "8 word"
type_synonym u16 = "16 word"
type_synonym u32 = "32 word"
type_synonym u64 = "64 word"
type_synonym bytes = "u8 list"

text \<open>
  File sizes, offsets and counters are \<open>size_t\<close>, 64 bits wide. They are natural numbers here, and
  every sum, difference and product the code forms is reduced modulo \<open>2 ^ 64\<close>, so that an
  underflow is the huge number it is in C and not the zero of truncated subtraction.
\<close>

definition size_t_mod :: nat where
  "size_t_mod = 2 ^ 64"

definition sz_add :: "nat \<Rightarrow> nat \<Rightarrow> nat" where
  "sz_add a b = (a + b) mod size_t_mod"

definition sz_sub :: "nat \<Rightarrow> nat \<Rightarrow> nat" where
  "sz_sub a b = (a + (size_t_mod - b mod size_t_mod)) mod size_t_mod"

definition sz_mul :: "nat \<Rightarrow> nat \<Rightarrow> nat" where
  "sz_mul a b = (a * b) mod size_t_mod"

text \<open>The largest file the library can address: \<open>off_t\<close> is a signed 64 bit number.\<close>

definition off_max :: nat where
  "off_max = 2 ^ 63"

lemma sz_add_id [sz_simps]: "a + b < size_t_mod \<Longrightarrow> sz_add a b = a + b"
  by (simp add: sz_add_def)

lemma sz_mul_id [sz_simps]: "a * b < size_t_mod \<Longrightarrow> sz_mul a b = a * b"
  by (simp add: sz_mul_def)

lemma sz_sub_id [sz_simps]:
  assumes "b \<le> a" and "a < size_t_mod"
  shows "sz_sub a b = a - b"
proof -
  from assms have "a + (size_t_mod - b) = (a - b) + size_t_mod" by simp
  moreover have "(a - b + size_t_mod) mod size_t_mod = (a - b) mod size_t_mod" by simp
  ultimately show ?thesis using assms by (simp add: sz_sub_def)
qed

lemma sz_sub_wraps:
  assumes "a < b" and "b < size_t_mod"
  shows "sz_sub a b = size_t_mod - (b - a)"
  using assms by (simp add: sz_sub_def)

lemma sz_bound: "sz_add a b < size_t_mod" "sz_sub a b < size_t_mod" "sz_mul a b < size_t_mod"
  by (simp_all add: sz_add_def sz_sub_def sz_mul_def size_t_mod_def)

lemma off_max_size_t: "off_max + off_max = size_t_mod" "off_max < size_t_mod" "0 < off_max"
  by (simp_all add: off_max_def size_t_mod_def)

lemma sz_add_assoc: "sz_add (sz_add a b) c = sz_add a (b + c)"
  by (simp add: sz_add_def mod_add_left_eq add.assoc)

lemma sz_add_0 [simp]: "a < size_t_mod \<Longrightarrow> sz_add a 0 = a"
  by (simp add: sz_add_def)

section \<open>Slices of byte sequences\<close>

definition bslice :: "'a list \<Rightarrow> nat \<Rightarrow> nat \<Rightarrow> 'a list" where
  "bslice xs off n = take n (drop off xs)"

lemma length_bslice: "length (bslice xs off n) = min n (length xs - off)"
  by (simp add: bslice_def)

lemma length_bslice_full [simp]: "off + n \<le> length xs \<Longrightarrow> length (bslice xs off n) = n"
  by (simp add: bslice_def)

lemma bslice_0 [simp]: "bslice xs off 0 = []"
  by (simp add: bslice_def)

lemma bslice_append: "bslice xs off (m + n) = bslice xs off m @ bslice xs (off + m) n"
  by (simp add: bslice_def take_add add.commute)

lemma take_bslice_snoc: "take (off + n) xs = take off xs @ bslice xs off n"
  by (simp add: bslice_def take_add)

lemma bslice_whole [simp]: "length xs \<le> n \<Longrightarrow> bslice xs 0 n = xs"
  by (simp add: bslice_def)

lemma bslice_take: "off + n \<le> m \<Longrightarrow> bslice (take m xs) off n = bslice xs off n"
  by (simp add: bslice_def drop_take)

lemma take_bslice: "take m (bslice xs off n) = bslice xs off (min m n)"
  by (simp add: bslice_def)

lemma bslice_single: "off < length xs \<Longrightarrow> bslice xs off 1 = [xs ! off]"
  by (simp add: bslice_def take_Suc_conv_app_nth)

lemma bslice_Cons: "off < length xs \<Longrightarrow> bslice xs off (Suc n) = xs ! off # bslice xs (Suc off) n"
  by (metis Cons_nth_drop_Suc bslice_def take_Suc_Cons)

lemma bslice_snoc:
  "off + n < length xs \<Longrightarrow> bslice xs off (Suc n) = bslice xs off n @ [xs ! (off + n)]"
  using bslice_append [of xs off n 1] bslice_single [of "off + n" xs] by simp

lemma bslice_slide:
  assumes "off + n < length xs" and "0 < n"
  shows "bslice xs off n = xs ! off # bslice xs (Suc off) (n - 1)"
    and "bslice xs (Suc off) n = bslice xs (Suc off) (n - 1) @ [xs ! (off + n)]"
proof -
  from assms obtain k where k: "n = Suc k" by (cases n) auto
  from assms k show "bslice xs off n = xs ! off # bslice xs (Suc off) (n - 1)"
    by (simp add: bslice_Cons)
  from assms k show "bslice xs (Suc off) n = bslice xs (Suc off) (n - 1) @ [xs ! (off + n)]"
    by (simp add: bslice_snoc)
qed

lemma bslice_to_end: "off + n = length xs \<Longrightarrow> bslice xs off n = drop off xs"
  by (simp add: bslice_def)

lemma take_Suc_bslice: "p < length xs \<Longrightarrow> take (Suc p) xs = take p xs @ [xs ! p]"
  by (rule take_Suc_conv_app_nth)

text \<open>
  The effect of writing \<open>data\<close> at offset \<open>off\<close> of a file: a gap between the end of the file and the
  offset is filled with zeros, and writing nothing changes nothing.
\<close>

definition write_at :: "bytes \<Rightarrow> nat \<Rightarrow> bytes \<Rightarrow> bytes" where
  "write_at bs off data =
     (if data = [] then bs
      else take off bs @ replicate (off - length bs) 0 @ data @ drop (off + length data) bs)"

lemma write_at_Nil [simp]: "write_at bs off [] = bs"
  by (simp add: write_at_def)

lemma write_at_end: "off = length bs \<Longrightarrow> write_at bs off data = bs @ data"
  by (simp add: write_at_def)

lemma write_at_overwrite:
  "length bs \<le> length data \<Longrightarrow> write_at bs 0 data = data"
  by (auto simp: write_at_def)

lemma length_write_at:
  "length (write_at bs off data) = (if data = [] then length bs else max (length bs) (off + length data))"
  by (auto simp: write_at_def)

lemma write_at_append:
  "write_at (write_at bs off d1) (off + length d1) d2 = write_at bs off (d1 @ d2)"
proof (cases "d1 = [] \<or> d2 = []")
  case True
  then show ?thesis by auto
next
  case False
  let ?w = "write_at bs off d1"
  have pre: "take (off + length d1) ?w = take off bs @ replicate (off - length bs) 0 @ d1"
    using False by (auto simp: write_at_def min_def)
  have len: "off + length d1 \<le> length ?w"
    using False by (simp add: length_write_at)
  have gap: "off - length bs + min (length bs) off = off" by simp
  have post: "drop (off + length d1 + length d2) ?w = drop (off + length d1 + length d2) bs"
    using False by (simp add: write_at_def gap add.commute add.left_commute)
  have "write_at ?w (off + length d1) d2 =
      take (off + length d1) ?w @ d2 @ drop (off + length d1 + length d2) ?w"
    using False len by (simp add: write_at_def [of ?w])
  then show ?thesis
    using False pre post by (simp add: write_at_def [of bs off "d1 @ d2"] add.assoc)
qed

lemma bslice_write_at: "bslice (write_at bs off data) off (length data) = data"
proof (cases "data = []")
  case False
  then have "length (take off bs @ replicate (off - length bs) (0::u8)) = off" by simp
  with False show ?thesis
    by (simp add: write_at_def bslice_def)
qed simp

end
