(* ===== verification/RM_Defs.thy ===== *)
theory RM_Defs
  imports RM_Prelude
begin

text \<open>
  The constants, enumerations and structures of \<^verbatim>\<open>include/rm_defs.h\<close> and \<^verbatim>\<open>include/rm.h\<close> that the
  other theories share: error codes, session and message types, log levels, the checksum and
  delta element structures and the reconstruction context.
\<close>

section \<open>Error codes\<close>

text \<open>
  \<open>enum rm_error\<close>. An error travels between the hosts as one byte of the acknowledgement header,
  so the numeric values matter: \<open>rm_error_code\<close> is the value, \<open>rm_error_of_code\<close> its inverse on
  the values in use.
\<close>

datatype (plugins only: size code) rm_error =
  RM_ERR_OK | RM_ERR_FAIL | RM_ERR_IO_ERROR | RM_ERR_GENERAL_ERROR | RM_ERR_BAD_CALL
  | RM_ERR_OPEN_X | RM_ERR_OPEN_Y | RM_ERR_OPEN_Z | RM_ERR_OPEN_TMP | RM_ERR_READ | RM_ERR_WRITE
  | RM_ERR_FSTAT | RM_ERR_FSTAT_X | RM_ERR_FSTAT_Y | RM_ERR_FSTAT_Z | RM_ERR_FOPEN
  | RM_ERR_FOPEN_STDOUT | RM_ERR_FOPEN_STDERR | RM_ERR_FREOPEN | RM_ERR_FREOPEN_STDOUT
  | RM_ERR_FREOPEN_STDERR | RM_ERR_NONOVERLAPPING_INSERT | RM_ERR_COPY_BUFFERED
  | RM_ERR_COPY_BUFFERED_2 | RM_ERR_X_ZERO_SIZE | RM_ERR_COPY_OFFSET | RM_ERR_ROLLING_CHECKSUM
  | RM_ERR_RECONSTRUCTION | RM_ERR_CREATE_SESSION | RM_ERR_DELTA_TX_THREAD_LAUNCH
  | RM_ERR_DELTA_RX_THREAD_LAUNCH | RM_ERR_DELTA_TX_THREAD | RM_ERR_DELTA_RX_THREAD
  | RM_ERR_CH_CH_RX_THREAD_LAUNCH | RM_ERR_FILE_SIZE | RM_ERR_FILE_SIZE_REC_MISMATCH
  | RM_ERR_UNLINK_Y | RM_ERR_RENAME_TMP_Y | RM_ERR_RENAME_TMP_Z | RM_ERR_MEM | RM_ERR_CHDIR
  | RM_ERR_CHDIR_Y | RM_ERR_CHDIR_Z | RM_ERR_GETCWD | RM_ERR_TOO_MUCH_REQUESTED | RM_ERR_FERROR
  | RM_ERR_FEOF | RM_ERR_FSEEK | RM_ERR_RX | RM_ERR_TX | RM_ERR_TX_RAW | RM_ERR_TX_ZERO_DIFF
  | RM_ERR_TX_TAIL | RM_ERR_TX_REF | RM_ERR_FILE | RM_ERR_DIR | RM_ERR_SETSID | RM_ERR_FORK
  | RM_ERR_ARG | RM_ERR_QUEUE_NOT_EMPTY | RM_ERR_LAUNCH_WORKER | RM_ERR_WORKQUEUE_CREATE
  | RM_ERR_WORKQUEUE_STOP | RM_ERR_GETADDRINFO | RM_ERR_GETPEERNAME | RM_ERR_CONNECT_GEN_ERR
  | RM_ERR_CONNECT_TIMEOUT | RM_ERR_CONNECT_REFUSED | RM_ERR_CONNECT_HOSTUNREACH
  | RM_ERR_MSG_PT_UNKNOWN | RM_ERR_EOF | RM_ERR_CH_CH_TX_THREAD | RM_ERR_CH_CH_RX_THREAD
  | RM_ERR_Y_NULL | RM_ERR_Y_Z_SYNC | RM_ERR_BLOCK_SIZE | RM_ERR_RESULT_F_NAME | RM_ERR_BUSY
  | RM_ERR_AUTH | RM_ERR_Y_ZERO_SIZE | RM_ERR_Z_ZERO_SIZE | RM_ERR_FSTAT_TMP | RM_ERR_TCP
  | RM_ERR_TCP_DISCONNECT | RM_ERR_UNKNOWN_ERROR

primrec rm_error_code :: "rm_error \<Rightarrow> nat" where
  "rm_error_code RM_ERR_OK = 0"
| "rm_error_code RM_ERR_FAIL = 1"
| "rm_error_code RM_ERR_IO_ERROR = 2"
| "rm_error_code RM_ERR_GENERAL_ERROR = 3"
| "rm_error_code RM_ERR_BAD_CALL = 4"
| "rm_error_code RM_ERR_OPEN_X = 5"
| "rm_error_code RM_ERR_OPEN_Y = 6"
| "rm_error_code RM_ERR_OPEN_Z = 7"
| "rm_error_code RM_ERR_OPEN_TMP = 8"
| "rm_error_code RM_ERR_READ = 9"
| "rm_error_code RM_ERR_WRITE = 10"
| "rm_error_code RM_ERR_FSTAT = 11"
| "rm_error_code RM_ERR_FSTAT_X = 12"
| "rm_error_code RM_ERR_FSTAT_Y = 13"
| "rm_error_code RM_ERR_FSTAT_Z = 14"
| "rm_error_code RM_ERR_FOPEN = 15"
| "rm_error_code RM_ERR_FOPEN_STDOUT = 16"
| "rm_error_code RM_ERR_FOPEN_STDERR = 17"
| "rm_error_code RM_ERR_FREOPEN = 18"
| "rm_error_code RM_ERR_FREOPEN_STDOUT = 19"
| "rm_error_code RM_ERR_FREOPEN_STDERR = 20"
| "rm_error_code RM_ERR_NONOVERLAPPING_INSERT = 21"
| "rm_error_code RM_ERR_COPY_BUFFERED = 22"
| "rm_error_code RM_ERR_COPY_BUFFERED_2 = 23"
| "rm_error_code RM_ERR_X_ZERO_SIZE = 24"
| "rm_error_code RM_ERR_COPY_OFFSET = 25"
| "rm_error_code RM_ERR_ROLLING_CHECKSUM = 26"
| "rm_error_code RM_ERR_RECONSTRUCTION = 27"
| "rm_error_code RM_ERR_CREATE_SESSION = 28"
| "rm_error_code RM_ERR_DELTA_TX_THREAD_LAUNCH = 29"
| "rm_error_code RM_ERR_DELTA_RX_THREAD_LAUNCH = 30"
| "rm_error_code RM_ERR_DELTA_TX_THREAD = 31"
| "rm_error_code RM_ERR_DELTA_RX_THREAD = 32"
| "rm_error_code RM_ERR_CH_CH_RX_THREAD_LAUNCH = 33"
| "rm_error_code RM_ERR_FILE_SIZE = 34"
| "rm_error_code RM_ERR_FILE_SIZE_REC_MISMATCH = 35"
| "rm_error_code RM_ERR_UNLINK_Y = 36"
| "rm_error_code RM_ERR_RENAME_TMP_Y = 37"
| "rm_error_code RM_ERR_RENAME_TMP_Z = 38"
| "rm_error_code RM_ERR_MEM = 39"
| "rm_error_code RM_ERR_CHDIR = 40"
| "rm_error_code RM_ERR_CHDIR_Y = 41"
| "rm_error_code RM_ERR_CHDIR_Z = 42"
| "rm_error_code RM_ERR_GETCWD = 43"
| "rm_error_code RM_ERR_TOO_MUCH_REQUESTED = 44"
| "rm_error_code RM_ERR_FERROR = 45"
| "rm_error_code RM_ERR_FEOF = 46"
| "rm_error_code RM_ERR_FSEEK = 47"
| "rm_error_code RM_ERR_RX = 48"
| "rm_error_code RM_ERR_TX = 49"
| "rm_error_code RM_ERR_TX_RAW = 50"
| "rm_error_code RM_ERR_TX_ZERO_DIFF = 51"
| "rm_error_code RM_ERR_TX_TAIL = 52"
| "rm_error_code RM_ERR_TX_REF = 53"
| "rm_error_code RM_ERR_FILE = 54"
| "rm_error_code RM_ERR_DIR = 55"
| "rm_error_code RM_ERR_SETSID = 56"
| "rm_error_code RM_ERR_FORK = 57"
| "rm_error_code RM_ERR_ARG = 58"
| "rm_error_code RM_ERR_QUEUE_NOT_EMPTY = 59"
| "rm_error_code RM_ERR_LAUNCH_WORKER = 60"
| "rm_error_code RM_ERR_WORKQUEUE_CREATE = 61"
| "rm_error_code RM_ERR_WORKQUEUE_STOP = 62"
| "rm_error_code RM_ERR_GETADDRINFO = 63"
| "rm_error_code RM_ERR_GETPEERNAME = 64"
| "rm_error_code RM_ERR_CONNECT_GEN_ERR = 65"
| "rm_error_code RM_ERR_CONNECT_TIMEOUT = 66"
| "rm_error_code RM_ERR_CONNECT_REFUSED = 67"
| "rm_error_code RM_ERR_CONNECT_HOSTUNREACH = 68"
| "rm_error_code RM_ERR_MSG_PT_UNKNOWN = 69"
| "rm_error_code RM_ERR_EOF = 70"
| "rm_error_code RM_ERR_CH_CH_TX_THREAD = 71"
| "rm_error_code RM_ERR_CH_CH_RX_THREAD = 72"
| "rm_error_code RM_ERR_Y_NULL = 73"
| "rm_error_code RM_ERR_Y_Z_SYNC = 74"
| "rm_error_code RM_ERR_BLOCK_SIZE = 75"
| "rm_error_code RM_ERR_RESULT_F_NAME = 76"
| "rm_error_code RM_ERR_BUSY = 77"
| "rm_error_code RM_ERR_AUTH = 78"
| "rm_error_code RM_ERR_Y_ZERO_SIZE = 79"
| "rm_error_code RM_ERR_Z_ZERO_SIZE = 80"
| "rm_error_code RM_ERR_FSTAT_TMP = 81"
| "rm_error_code RM_ERR_TCP = 82"
| "rm_error_code RM_ERR_TCP_DISCONNECT = 83"
| "rm_error_code RM_ERR_UNKNOWN_ERROR = 84"

definition rm_error_list :: "rm_error list" where
  "rm_error_list =
  [   RM_ERR_OK, RM_ERR_FAIL, RM_ERR_IO_ERROR, RM_ERR_GENERAL_ERROR, RM_ERR_BAD_CALL, RM_ERR_OPEN_X
   , RM_ERR_OPEN_Y, RM_ERR_OPEN_Z, RM_ERR_OPEN_TMP, RM_ERR_READ, RM_ERR_WRITE, RM_ERR_FSTAT
   , RM_ERR_FSTAT_X, RM_ERR_FSTAT_Y, RM_ERR_FSTAT_Z, RM_ERR_FOPEN, RM_ERR_FOPEN_STDOUT
   , RM_ERR_FOPEN_STDERR, RM_ERR_FREOPEN, RM_ERR_FREOPEN_STDOUT, RM_ERR_FREOPEN_STDERR
   , RM_ERR_NONOVERLAPPING_INSERT, RM_ERR_COPY_BUFFERED, RM_ERR_COPY_BUFFERED_2
   , RM_ERR_X_ZERO_SIZE, RM_ERR_COPY_OFFSET, RM_ERR_ROLLING_CHECKSUM, RM_ERR_RECONSTRUCTION
   , RM_ERR_CREATE_SESSION, RM_ERR_DELTA_TX_THREAD_LAUNCH, RM_ERR_DELTA_RX_THREAD_LAUNCH
   , RM_ERR_DELTA_TX_THREAD, RM_ERR_DELTA_RX_THREAD, RM_ERR_CH_CH_RX_THREAD_LAUNCH
   , RM_ERR_FILE_SIZE, RM_ERR_FILE_SIZE_REC_MISMATCH, RM_ERR_UNLINK_Y, RM_ERR_RENAME_TMP_Y
   , RM_ERR_RENAME_TMP_Z, RM_ERR_MEM, RM_ERR_CHDIR, RM_ERR_CHDIR_Y, RM_ERR_CHDIR_Z
   , RM_ERR_GETCWD, RM_ERR_TOO_MUCH_REQUESTED, RM_ERR_FERROR, RM_ERR_FEOF, RM_ERR_FSEEK
   , RM_ERR_RX, RM_ERR_TX, RM_ERR_TX_RAW, RM_ERR_TX_ZERO_DIFF, RM_ERR_TX_TAIL, RM_ERR_TX_REF
   , RM_ERR_FILE, RM_ERR_DIR, RM_ERR_SETSID, RM_ERR_FORK, RM_ERR_ARG, RM_ERR_QUEUE_NOT_EMPTY
   , RM_ERR_LAUNCH_WORKER, RM_ERR_WORKQUEUE_CREATE, RM_ERR_WORKQUEUE_STOP, RM_ERR_GETADDRINFO
   , RM_ERR_GETPEERNAME, RM_ERR_CONNECT_GEN_ERR, RM_ERR_CONNECT_TIMEOUT, RM_ERR_CONNECT_REFUSED
   , RM_ERR_CONNECT_HOSTUNREACH, RM_ERR_MSG_PT_UNKNOWN, RM_ERR_EOF, RM_ERR_CH_CH_TX_THREAD
   , RM_ERR_CH_CH_RX_THREAD, RM_ERR_Y_NULL, RM_ERR_Y_Z_SYNC, RM_ERR_BLOCK_SIZE
   , RM_ERR_RESULT_F_NAME, RM_ERR_BUSY, RM_ERR_AUTH, RM_ERR_Y_ZERO_SIZE, RM_ERR_Z_ZERO_SIZE
   , RM_ERR_FSTAT_TMP, RM_ERR_TCP, RM_ERR_TCP_DISCONNECT, RM_ERR_UNKNOWN_ERROR]"

definition rm_error_of_code :: "nat \<Rightarrow> rm_error option" where
  "rm_error_of_code n = (if n < length rm_error_list then Some (rm_error_list ! n) else None)"

lemma length_rm_error_list [simp]: "length rm_error_list = 85"
  by (simp add: rm_error_list_def)

lemma rm_error_list_nth: "rm_error_list ! rm_error_code e = e"
  by (cases e; simp only: rm_error_code.simps; simp add: rm_error_list_def)

lemma rm_error_code_bound: "rm_error_code e < 85"
  by (cases e; simp only: rm_error_code.simps; simp)

lemma rm_error_of_code [simp]: "rm_error_of_code (rm_error_code e) = Some e"
  by (simp add: rm_error_of_code_def rm_error_code_bound rm_error_list_nth)

lemma rm_error_code_inject: "rm_error_code a = rm_error_code b \<longleftrightarrow> a = b"
  by (metis rm_error_list_nth)

section \<open>Enumerations\<close>

datatype rm_session_type = RM_PUSH_LOCAL | RM_PUSH_RX | RM_PUSH_TX | RM_PULL_RX | RM_PULL_TX

datatype rm_loglevel =
  RM_LOGLEVEL_NOTHING | RM_LOGLEVEL_NORMAL | RM_LOGLEVEL_THREADS | RM_LOGLEVEL_VERBOSE

primrec rm_loglevel_code :: "rm_loglevel \<Rightarrow> nat" where
  "rm_loglevel_code RM_LOGLEVEL_NOTHING = 0"
| "rm_loglevel_code RM_LOGLEVEL_NORMAL = 1"
| "rm_loglevel_code RM_LOGLEVEL_THREADS = 2"
| "rm_loglevel_code RM_LOGLEVEL_VERBOSE = 3"

text \<open>The code compares log levels with \<open>>=\<close>.\<close>

instantiation rm_loglevel :: linorder
begin
definition less_eq_rm_loglevel :: "rm_loglevel \<Rightarrow> rm_loglevel \<Rightarrow> bool" where
  "less_eq_rm_loglevel a b = (rm_loglevel_code a \<le> rm_loglevel_code b)"
definition less_rm_loglevel :: "rm_loglevel \<Rightarrow> rm_loglevel \<Rightarrow> bool" where
  "less_rm_loglevel a b = (rm_loglevel_code a < rm_loglevel_code b)"
instance
proof
  fix a b :: rm_loglevel
  show "a \<le> b \<Longrightarrow> b \<le> a \<Longrightarrow> a = b"
    by (cases a; cases b; simp add: less_eq_rm_loglevel_def)
qed (auto simp: less_eq_rm_loglevel_def less_rm_loglevel_def)
end

datatype rm_pt_type =
  RM_PT_MSG_PUSH | RM_PT_MSG_PUSH_ACK | RM_PT_MSG_PULL | RM_PT_MSG_PULL_ACK | RM_PT_MSG_ACK
| RM_PT_MSG_BYE

primrec rm_pt_code :: "rm_pt_type \<Rightarrow> u8" where
  "rm_pt_code RM_PT_MSG_PUSH = 0"
| "rm_pt_code RM_PT_MSG_PUSH_ACK = 1"
| "rm_pt_code RM_PT_MSG_PULL = 2"
| "rm_pt_code RM_PT_MSG_PULL_ACK = 3"
| "rm_pt_code RM_PT_MSG_ACK = 4"
| "rm_pt_code RM_PT_MSG_BYE = 5"

datatype rm_tx_status = RM_TX_STATUS_OK | RM_TX_STATUS_ROLLING_PROC_FAIL

datatype rm_rx_status =
  RM_RX_STATUS_OK | RM_RX_STATUS_INTERNAL_ERR | RM_RX_STATUS_DELTA_RX_ACCEPT_FAIL
| RM_RX_STATUS_DELTA_RX_TCP_FAIL | RM_RX_STATUS_DELTA_PROC_FAIL
| RM_RX_STATUS_CH_CH_RX_TCP_DISCONNECT | RM_RX_STATUS_CH_CH_RX_TCP_FAIL
| RM_RX_STATUS_CH_CH_RX_MEM | RM_RX_STATUS_CONNECT_TIMEOUT | RM_RX_STATUS_CONNECT_REFUSED
| RM_RX_STATUS_CONNECT_HOSTUNREACH | RM_RX_STATUS_CONNECT_GEN_ERR

datatype rm_reconstruct_method =
  RM_RECONSTRUCT_METHOD_DELTA_RECONSTRUCTION | RM_RECONSTRUCT_METHOD_COPY_BUFFERED

datatype rm_delta_element_type =
  RM_DELTA_ELEMENT_REFERENCE | RM_DELTA_ELEMENT_RAW_BYTES | RM_DELTA_ELEMENT_ZERO_DIFF
| RM_DELTA_ELEMENT_TAIL

section \<open>Constants\<close>

definition RM_STRONG_CHECK_BYTES :: nat where "RM_STRONG_CHECK_BYTES = 16"
definition RM_CH_CH_SIZE :: nat where "RM_CH_CH_SIZE = 20"
definition RM_CH_CH_REF_SIZE :: nat where "RM_CH_CH_REF_SIZE = RM_CH_CH_SIZE + 8"
definition RM_FILE_LEN_MAX :: nat where "RM_FILE_LEN_MAX = 1000"
definition RM_UUID_LEN :: nat where "RM_UUID_LEN = 16"
definition RM_L1_CACHE_RECOMMENDED :: nat where "RM_L1_CACHE_RECOMMENDED = 8192"
definition RM_ADLER32_NMAX :: nat where "RM_ADLER32_NMAX = 5552"
definition RM_DELTA_RAW_OVERHEAD :: nat where "RM_DELTA_RAW_OVERHEAD = 1 + 8"
definition RM_DELTA_REF_OVERHEAD :: nat where "RM_DELTA_REF_OVERHEAD = 1 + 8"
definition RM_CH_OVERHEAD :: nat where "RM_CH_OVERHEAD = RM_CH_CH_SIZE"
definition RM_MSG_HDR_LEN :: nat where "RM_MSG_HDR_LEN = 8"
definition RM_MSG_PUSH_ACK_LEN :: nat where "RM_MSG_PUSH_ACK_LEN = RM_MSG_HDR_LEN + 2 + 8"
definition RM_NONOVERLAPPING_HASH_BITS :: nat where "RM_NONOVERLAPPING_HASH_BITS = 17"
definition RM_SESSION_HASH_BITS :: nat where "RM_SESSION_HASH_BITS = 10"
definition RM_BIT_4 :: u8 where "RM_BIT_4 = 16"
definition RM_BIT_6 :: u8 where "RM_BIT_6 = 64"

section \<open>Checksums, delta elements, reconstruction context\<close>

text \<open>\<open>struct rm_ch_ch_ref\<close>: fast and strong checksum of a block and the number of the block.\<close>

record rm_ch_ch_ref =
  f_ch :: u32
  s_ch :: bytes
  ch_ref :: nat

text \<open>
  \<open>struct rm_delta_e\<close>. The pointer \<open>raw_bytes\<close> is \<open>None\<close> when it is \<open>NULL\<close> and otherwise the bytes
  of the buffer up to \<open>raw_bytes_n\<close>.
\<close>

record rm_delta_e =
  d_type :: rm_delta_element_type
  d_ref :: nat
  raw_bytes :: "bytes option"
  raw_bytes_n :: nat

text \<open>
  \<open>struct rm_delta_reconstruct_ctx\<close>, without the two time fields, which are only printed.
\<close>

record rm_delta_reconstruct_ctx =
  rec_method :: rm_reconstruct_method
  rec_by_ref :: nat
  rec_by_raw :: nat
  delta_ref_n :: nat
  delta_raw_n :: nat
  rec_by_tail :: nat
  rec_by_zero_diff :: nat
  delta_tail_n :: nat
  delta_zero_diff_n :: nat
  ctx_L :: nat
  copy_all_threshold :: nat
  copy_tail_threshold :: nat
  send_threshold :: nat
  copy_all_threshold_fired :: bool
  copy_tail_threshold_fired :: bool
  collisions_1st_level :: nat
  collisions_2nd_level :: nat
  collisions_3rd_level :: nat
  msg_push_len :: u16

text \<open>The all-zero context a session starts from.\<close>

definition ctx_zero :: rm_delta_reconstruct_ctx where
  "ctx_zero = \<lparr>rec_method = RM_RECONSTRUCT_METHOD_DELTA_RECONSTRUCTION,
     rec_by_ref = 0, rec_by_raw = 0, delta_ref_n = 0, delta_raw_n = 0, rec_by_tail = 0,
     rec_by_zero_diff = 0, delta_tail_n = 0, delta_zero_diff_n = 0, ctx_L = 0,
     copy_all_threshold = 0, copy_tail_threshold = 0, send_threshold = 0,
     copy_all_threshold_fired = False, copy_tail_threshold_fired = False,
     collisions_1st_level = 0, collisions_2nd_level = 0, collisions_3rd_level = 0,
     msg_push_len = 0\<rparr>"

text \<open>
  \<open>malloc\<close> may fail. The model takes the outcomes of the successive calls as a function of their
  position in the run: \<open>mem k\<close> says whether the \<open>k\<close>-th allocation succeeds.
\<close>

type_synonym mem_oracle = "nat \<Rightarrow> bool"

definition mem_ok :: mem_oracle where
  "mem_ok = (\<lambda>_. True)"

lemma mem_ok_apply: "mem_ok k"
  by (simp add: mem_ok_def)

end
