(* ===== verification/RM_Checksum.thy ===== *)
theory RM_Checksum
  imports RM_Defs
begin

text \<open>
  The fast checksums of \<^verbatim>\<open>src/rm.c\<close>: the block checksum with modulus \<open>2 ^ 16\<close> and its rolling
  updates, the two Adler-32 routines (the second defers the reduction and unrolls the loop) and the
  parametric checksum. All arithmetic is that of the C types: \<open>r1\<close> and \<open>r2\<close> are 32 bit words, and
  the products with the \<open>size_t\<close> block length are 64 bit words.
\<close>

section \<open>The code\<close>

definition RM_FASTCHECK_MODULUS :: u32 where "RM_FASTCHECK_MODULUS = 65536"
definition RM_ADLER32_MODULUS :: u32 where "RM_ADLER32_MODULUS = 65521"

definition ch_pack :: "u32 \<times> u32 \<Rightarrow> u32" where
  "ch_pack r = (push_bit 16 (snd r)) OR fst r"

definition fast_check_step :: "u8 \<Rightarrow> u32 \<times> u32 \<Rightarrow> u32 \<times> u32" where
  "fast_check_step b r =
     (let r1 = (fst r + ucast b) mod RM_FASTCHECK_MODULUS in
      (r1, (snd r + r1) mod RM_FASTCHECK_MODULUS))"

definition rm_fast_check_block :: "bytes \<Rightarrow> u32" where
  "rm_fast_check_block data = ch_pack (fold fast_check_step data (0, 0))"

definition adler32_step :: "u8 \<Rightarrow> u32 \<times> u32 \<Rightarrow> u32 \<times> u32" where
  "adler32_step b r =
     (let r1 = (fst r + ucast b) mod RM_ADLER32_MODULUS in
      (r1, (snd r + r1) mod RM_ADLER32_MODULUS))"

definition rm_adler32_1 :: "bytes \<Rightarrow> u32" where
  "rm_adler32_1 data = ch_pack (fold adler32_step data (1, 0))"

text \<open>The macros \<open>RM_DO1\<close> to \<open>RM_DO16\<close>: sums without reduction at fixed indices of the buffer.\<close>

definition rm_do1 :: "bytes \<Rightarrow> nat \<Rightarrow> u32 \<times> u32 \<Rightarrow> u32 \<times> u32" where
  "rm_do1 buf i r = (let r1 = fst r + ucast (buf ! i) in (r1, snd r + r1))"

definition rm_do2 :: "bytes \<Rightarrow> nat \<Rightarrow> u32 \<times> u32 \<Rightarrow> u32 \<times> u32" where
  "rm_do2 buf i r = rm_do1 buf (i + 1) (rm_do1 buf i r)"

definition rm_do4 :: "bytes \<Rightarrow> nat \<Rightarrow> u32 \<times> u32 \<Rightarrow> u32 \<times> u32" where
  "rm_do4 buf i r = rm_do2 buf (i + 2) (rm_do2 buf i r)"

definition rm_do8 :: "bytes \<Rightarrow> nat \<Rightarrow> u32 \<times> u32 \<Rightarrow> u32 \<times> u32" where
  "rm_do8 buf i r = rm_do4 buf (i + 4) (rm_do4 buf i r)"

definition rm_do16 :: "bytes \<Rightarrow> u32 \<times> u32 \<Rightarrow> u32 \<times> u32" where
  "rm_do16 buf r = rm_do8 buf 8 (rm_do8 buf 0 r)"

text \<open>
  The two inner loops of \<open>rm_adler32_2\<close> over \<open>k\<close> bytes at the data pointer: groups of 16 while at
  least 16 are left, then single bytes. They return the sums and the advanced pointer.
\<close>

fun adler32_remainder :: "nat \<Rightarrow> bytes \<Rightarrow> u32 \<times> u32 \<Rightarrow> (u32 \<times> u32) \<times> bytes" where
  "adler32_remainder 0 data r = (r, data)"
| "adler32_remainder (Suc k) data r = adler32_remainder k (tl data) (rm_do1 data 0 r)"

function adler32_chunk :: "nat \<Rightarrow> bytes \<Rightarrow> u32 \<times> u32 \<Rightarrow> (u32 \<times> u32) \<times> bytes" where
  "adler32_chunk k data r =
     (if 16 \<le> k then adler32_chunk (k - 16) (drop 16 data) (rm_do16 data r)
      else adler32_remainder k data r)"
  by pat_completeness auto
termination
  by (relation "measure (\<lambda>(k, data, r). k)") auto

declare adler32_chunk.simps [simp del]

text \<open>The outer loop: the reduction is deferred to the end of each chunk of \<open>RM_ADLER32_NMAX\<close>.\<close>

function adler32_loop :: "nat \<Rightarrow> bytes \<Rightarrow> u32 \<times> u32 \<Rightarrow> u32 \<times> u32" where
  "adler32_loop L data r =
     (if L = 0 then r
      else let k = (if L < RM_ADLER32_NMAX then L else RM_ADLER32_NMAX);
               (r', data') = adler32_chunk k data r
           in adler32_loop (L - k) data'
                (fst r' mod RM_ADLER32_MODULUS, snd r' mod RM_ADLER32_MODULUS))"
  by pat_completeness auto
termination
  by (relation "measure (\<lambda>(L, data, r). L)") (auto simp: RM_ADLER32_NMAX_def)

declare adler32_loop.simps [simp del]

definition rm_adler32_2 :: "u32 \<Rightarrow> bytes \<Rightarrow> u32" where
  "rm_adler32_2 adler data =
     ch_pack (adler32_loop (length data) data (adler AND 0xffff, (drop_bit 16 adler) AND 0xffff))"

definition rm_adler32_roll :: "u32 \<Rightarrow> u8 \<Rightarrow> u8 \<Rightarrow> u64 \<Rightarrow> u32" where
  "rm_adler32_roll adler a_k a_kL L =
     (let r1 = adler AND 0xFFFF;
          r2 = (drop_bit 16 adler) AND 0xFFFF;
          r1' = (r1 - ucast a_k + ucast a_kL) mod RM_ADLER32_MODULUS;
          r2' = (ucast (r2 + r1') - L * ucast a_k - 1 :: u64) mod ucast RM_ADLER32_MODULUS
      in ch_pack (r1', ucast r2'))"

definition rm_fast_check_roll :: "u32 \<Rightarrow> u8 \<Rightarrow> u8 \<Rightarrow> u64 \<Rightarrow> u32" where
  "rm_fast_check_roll adler a_k a_kL L =
     (let r1 = adler AND 0xFFFF;
          r2 = (drop_bit 16 adler) AND 0xFFFF;
          r1' = (r1 - ucast a_k + ucast a_kL) mod RM_FASTCHECK_MODULUS;
          r2' = (ucast (r2 + r1') - L * ucast a_k :: u64) mod ucast RM_FASTCHECK_MODULUS
      in ch_pack (r1', ucast r2'))"

definition rm_fast_check_roll_tail :: "u32 \<Rightarrow> u8 \<Rightarrow> u64 \<Rightarrow> u32" where
  "rm_fast_check_roll_tail adler a_k L =
     (let r1 = adler AND 0xFFFF;
          r2 = (drop_bit 16 adler) AND 0xFFFF;
          r1' = (r1 - ucast a_k) mod RM_FASTCHECK_MODULUS;
          r2' = (ucast r2 - L * ucast a_k :: u64) mod ucast RM_FASTCHECK_MODULUS
      in ch_pack (r1', ucast r2'))"

definition rolling_ch_step :: "u32 \<Rightarrow> u8 \<Rightarrow> u32 \<times> u32 \<Rightarrow> u32 \<times> u32" where
  "rolling_ch_step M b r = (let r1 = (fst r + ucast b) mod M in (r1, (snd r + r1) mod M))"

definition rm_rolling_ch :: "bytes \<Rightarrow> u32 \<Rightarrow> u32" where
  "rm_rolling_ch data M = ch_pack (fold (rolling_ch_step M) data (0, 0))"

section \<open>The two sums\<close>

text \<open>
  The specification both checksums are measured against: the plain sum of the bytes and the sum
  weighted by the distance to the end of the block.
\<close>

fun byte_sum :: "bytes \<Rightarrow> nat" where
  "byte_sum [] = 0"
| "byte_sum (b # bs) = unat b + byte_sum bs"

fun weighted_sum :: "bytes \<Rightarrow> nat" where
  "weighted_sum [] = 0"
| "weighted_sum (b # bs) = (length bs + 1) * unat b + weighted_sum bs"

lemma byte_sum_append [simp]: "byte_sum (a @ b) = byte_sum a + byte_sum b"
  by (induction a) auto

lemma weighted_sum_snoc: "weighted_sum (bs @ [b]) = weighted_sum bs + byte_sum bs + unat b"
  by (induction bs) (auto simp: algebra_simps)

lemma unat_u8_le: "unat (b :: u8) \<le> 255"
  using unsigned_less [of b, where ?'a = nat] by simp

lemma byte_sum_bound: "byte_sum bs \<le> 255 * length bs"
  by (induction bs) (use unat_u8_le in \<open>auto intro: add_mono\<close>)

text \<open>The pair of residues both folds compute.\<close>

definition residues :: "nat \<Rightarrow> nat \<Rightarrow> nat \<Rightarrow> bytes \<Rightarrow> u32 \<times> u32" where
  "residues M a0 b0 bs =
     (of_nat ((a0 + byte_sum bs) mod M),
      of_nat ((b0 + length bs * a0 + weighted_sum bs) mod M))"

lemma unat_ucast_u8 [simp]: "unat (ucast (b :: u8) :: u32) = unat b"
  by (simp add: unsigned_ucast_eq take_bit_nat_eq_self_iff) (use unat_u8_le [of b] in simp)

lemma word32_eqI: "unat (x :: u32) = unat y \<Longrightarrow> x = y"
  by (rule word_unat_eq_iff [THEN iffD2])

lemma residue_word:
  assumes "0 < M" and "M \<le> 65536"
  shows "unat (of_nat (n mod M) :: u32) = n mod M"
proof -
  have "n mod M < M" using assms by simp
  with assms(2) have "n mod M < 65536" by linarith
  then show ?thesis by (simp add: unat_of_nat)
qed

text \<open>One reducing step on residues, for any modulus the code uses.\<close>

lemma residues_step:
  assumes M: "0 < M" "M \<le> 65536"
  defines "m \<equiv> of_nat M :: u32"
  shows "(let r1 = (fst (residues M a0 b0 bs) + ucast b) mod m in
           (r1, (snd (residues M a0 b0 bs) + r1) mod m)) = residues M a0 b0 (bs @ [b])"
proof -
  let ?s = "a0 + byte_sum bs" and ?w = "b0 + length bs * a0 + weighted_sum bs"
  have um: "unat m = M" using M by (simp add: m_def unat_of_nat)
  have small: "?s mod M < 65536" "?w mod M < 65536"
    using M by (meson less_le_trans mod_less_divisor)+
  have r1: "(fst (residues M a0 b0 bs) + ucast b) mod m = of_nat ((?s + unat b) mod M)"
  proof (rule word32_eqI)
    have "unat ((of_nat (?s mod M) :: u32) + ucast b) = ?s mod M + unat b"
      using small(1) unat_u8_le [of b] M
      by (subst unat_add_lem [THEN iffD1]) (simp_all add: residue_word)
    then show "unat ((fst (residues M a0 b0 bs) + ucast b) mod m) =
        unat (of_nat ((?s + unat b) mod M) :: u32)"
      using M by (simp add: residues_def unat_mod um residue_word mod_add_left_eq)
  qed
  have small': "(?s + unat b) mod M < 65536"
    using M by (meson less_le_trans mod_less_divisor)
  have r2: "(snd (residues M a0 b0 bs) + of_nat ((?s + unat b) mod M)) mod m =
      of_nat ((?w + (?s + unat b)) mod M)"
  proof (rule word32_eqI)
    have "unat ((of_nat (?w mod M) :: u32) + of_nat ((?s + unat b) mod M)) =
        ?w mod M + (?s + unat b) mod M"
      using small(2) small' M
      by (subst unat_add_lem [THEN iffD1]) (simp_all add: residue_word)
    then show "unat ((snd (residues M a0 b0 bs) + of_nat ((?s + unat b) mod M)) mod m) =
        unat (of_nat ((?w + (?s + unat b)) mod M) :: u32)"
      using M by (simp add: residues_def unat_mod um residue_word mod_add_eq)
  qed
  have "?s + unat b = a0 + byte_sum (bs @ [b])"
    and "?w + (?s + unat b) = b0 + length (bs @ [b]) * a0 + weighted_sum (bs @ [b])"
    by (simp_all add: weighted_sum_snoc)
  then show ?thesis
    unfolding Let_def r1 r2 by (simp only: residues_def)
qed

lemma residues_Nil: "a0 < M \<Longrightarrow> b0 < M \<Longrightarrow> residues M a0 b0 [] = (of_nat a0, of_nat b0)"
  by (simp add: residues_def)

lemma rolling_ch_fold:
  assumes "0 < M" and "M \<le> 65536" and "a0 < M" and "b0 < M"
  shows "fold (rolling_ch_step (of_nat M)) bs (of_nat a0, of_nat b0) = residues M a0 b0 bs"
proof (induction bs rule: rev_induct)
  case Nil
  with assms show ?case by (simp add: residues_Nil)
next
  case (snoc b bs)
  then show ?case
    using residues_step [OF assms(1,2), of a0 b0 bs b] by (simp add: rolling_ch_step_def)
qed

lemma fast_check_step_rolling: "fast_check_step = rolling_ch_step (of_nat 65536)"
  by (simp add: fun_eq_iff fast_check_step_def rolling_ch_step_def RM_FASTCHECK_MODULUS_def)

lemma adler32_step_rolling: "adler32_step = rolling_ch_step (of_nat 65521)"
  by (simp add: fun_eq_iff adler32_step_def rolling_ch_step_def RM_ADLER32_MODULUS_def)

lemma fast_check_fold: "fold fast_check_step bs (0, 0) = residues 65536 0 0 bs"
  using rolling_ch_fold [of 65536 0 0 bs] by (simp add: fast_check_step_rolling)

section \<open>Packing and unpacking\<close>

lemma word32_small_take_bit: "unat (x :: u32) < 65536 \<Longrightarrow> take_bit 16 x = x"
  by (rule word32_eqI) (simp add: unsigned_take_bit_eq take_bit_nat_eq_self_iff)

lemma and_FFFF: "(x :: u32) AND 0xFFFF = take_bit 16 x"
  by (simp add: take_bit_eq_mask mask_eq_exp_minus_1)

lemma ch_pack_low:
  assumes "unat (fst r) < 65536" and "unat (snd r) < 65536"
  shows "ch_pack r AND 0xFFFF = fst r"
proof -
  have "take_bit 16 (push_bit 16 (snd r)) = 0" by (simp add: take_bit_push_bit)
  then show ?thesis
    using word32_small_take_bit [OF assms(1)] by (simp add: and_FFFF ch_pack_def)
qed

lemma ch_pack_high:
  assumes "unat (fst r) < 65536" and "unat (snd r) < 65536"
  shows "drop_bit 16 (ch_pack r) AND 0xFFFF = snd r"
proof -
  have f: "take_bit 16 (fst r) = fst r" and s: "take_bit 16 (snd r) = snd r"
    using assms by (simp_all add: word32_small_take_bit)
  have "drop_bit 16 (fst r) = 0"
    using f by (metis drop_bit_take_bit diff_self_eq_0 take_bit_0)
  moreover have "drop_bit 16 (push_bit 16 (snd r)) = take_bit 16 (snd r)"
    by (rule bit_word_eqI) (auto simp: bit_simps)
  ultimately show ?thesis
    using s by (simp add: and_FFFF ch_pack_def)
qed

lemma unat_ch_pack:
  assumes "unat (fst r) < 65536" and "unat (snd r) < 65536"
  shows "unat (ch_pack r) = unat (snd r) * 65536 + unat (fst r)"
proof -
  have f: "take_bit 16 (fst r) = fst r"
    using assms by (simp add: word32_small_take_bit)
  have hi: "n < 16" if "bit (fst r) n" for n
    using f that by (metis bit_take_bit_iff)
  have "push_bit 16 (snd r) AND fst r = 0"
    by (rule bit_word_eqI) (use hi in \<open>fastforce simp: bit_simps\<close>)
  then have "ch_pack r = push_bit 16 (snd r) + fst r"
    unfolding ch_pack_def by (simp add: disjunctive_add_eq_or)
  moreover have "unat (push_bit 16 (snd r)) = unat (snd r) * 65536"
    using assms by (simp add: push_bit_eq_mult unat_word_ariths)
  ultimately show ?thesis
    using assms by (simp add: unat_word_ariths)
qed

lemma residues_bound:
  assumes "0 < M" and "M \<le> 65536"
  shows "unat (fst (residues M a0 b0 bs)) < 65536" and "unat (snd (residues M a0 b0 bs)) < 65536"
  using assms by (simp_all add: residues_def residue_word) (meson less_le_trans mod_less_divisor)+

lemmas residues16_bound = residues_bound [of 65536, simplified]

lemma rm_fast_check_block_residues: "rm_fast_check_block bs = ch_pack (residues 65536 0 0 bs)"
  by (simp add: rm_fast_check_block_def fast_check_fold)

section \<open>Rolling\<close>

lemma uint_residue: "uint (of_nat (n mod 65536) :: u32) = int n mod 65536"
proof -
  have "uint (of_nat (n mod 65536) :: u32) = int (n mod 65536) mod 2 ^ 32"
    by (simp add: unsigned_of_nat take_bit_nat_def zmod_int)
  also have "\<dots> = int (n mod 65536)"
    by (rule mod_pos_pos_trivial) (auto intro: less_trans [of _ 65536])
  finally show ?thesis by (simp add: zmod_int)
qed

lemma uint_ucast_u8: "uint (ucast (a :: u8) :: u32) = int (unat a)"
  "uint (ucast (a :: u8) :: u64) = int (unat a)"
  by (simp_all add: unsigned_ucast_eq take_bit_int_eq_self_iff)
    (use unsigned_less [of a, where ?'a = int] in simp_all)

lemma uint_roll_r1:
  "uint ((x - ucast a + ucast b :: u32) mod 65536) =
     (uint x - int (unat (a :: u8)) + int (unat (b :: u8))) mod 65536"
  by (simp add: uint_mod uint_word_ariths uint_ucast_u8 mod_mod_cancel mod_simps)

lemma uint_roll_r2:
  "uint (ucast ((ucast (x :: u32) - L * ucast (a :: u8) :: u64) mod 65536) :: u32) =
     (uint x - uint L * int (unat a)) mod 65536"
proof -
  have "uint (ucast x :: u64) = uint x"
    using unsigned_less [of x, where ?'a = int]
    by (simp add: unsigned_ucast_eq take_bit_int_eq_self_iff)
  then have "uint ((ucast x - L * ucast a :: u64) mod 65536) =
      (uint x - uint L * int (unat a)) mod 65536"
    by (simp add: uint_mod uint_word_ariths uint_ucast_u8 mod_mod_cancel mod_simps)
  then show ?thesis
    by (simp add: unsigned_ucast_eq take_bit_int_def)
qed

lemma mod_roll_cong:
  assumes "x mod 65536 = x' mod (65536 :: int)" and "l mod 65536 = l' mod (65536 :: int)"
  shows "(x - l * a) mod 65536 = (x' - l' * a) mod 65536"
  using assms by (intro mod_diff_cong mod_mult_cong refl)

lemma uint_len_mod: "uint (of_nat n :: u64) mod 65536 = int n mod 65536"
  by (simp add: unsigned_of_nat take_bit_nat_def zmod_int mod_mod_cancel)

lemma mod_sub_add: "(s mod m - a + b) mod m = (s - a + b) mod (m :: int)"
  by (metis mod_add_left_eq mod_diff_left_eq)

lemma ch_pack_residuesI:
  assumes "uint r1 = int (byte_sum bs) mod 65536" and "uint r2 = int (weighted_sum bs) mod 65536"
  shows "ch_pack (r1, r2) = rm_fast_check_block bs"
proof -
  have "r1 = fst (residues 65536 0 0 bs)" and "r2 = snd (residues 65536 0 0 bs)"
    using assms by (simp_all add: residues_def word_uint_eq_iff uint_residue)
  then show ?thesis by (simp add: rm_fast_check_block_residues)
qed

lemma unpack_block:
  "rm_fast_check_block bs AND 0xFFFF = of_nat (byte_sum bs mod 65536)"
  "drop_bit 16 (rm_fast_check_block bs) AND 0xFFFF = of_nat (weighted_sum bs mod 65536)"
  using ch_pack_low [OF residues16_bound, of 0 0 bs] ch_pack_high [OF residues16_bound, of 0 0 bs]
  by (simp_all add: rm_fast_check_block_residues residues_def)

lemma rm_fast_check_roll_block:
  "rm_fast_check_roll (rm_fast_check_block (a # w)) a b (of_nat (Suc (length w))) =
     rm_fast_check_block (w @ [b])"
proof -
  let ?S = "byte_sum (a # w)" and ?W = "weighted_sum (a # w)" and ?n = "Suc (length w)"
  define r1 where "r1 = ((of_nat (?S mod 65536) :: u32) - ucast a + ucast b) mod 65536"
  have u1: "uint r1 = int (byte_sum (w @ [b])) mod 65536"
    unfolding r1_def uint_roll_r1 uint_residue mod_sub_add by simp
  have "uint (of_nat (?W mod 65536) + r1 :: u32) mod 65536 = int (?W + byte_sum (w @ [b])) mod 65536"
    by (simp add: uint_word_ariths mod_mod_cancel uint_residue u1 mod_simps)
  then have "(uint (of_nat (?W mod 65536) + r1 :: u32) - uint (of_nat ?n :: u64) * int (unat a)) mod 65536
      = (int (?W + byte_sum (w @ [b])) - int ?n * int (unat a)) mod 65536"
    by (rule mod_roll_cong) (rule uint_len_mod)
  also have "\<dots> = int (weighted_sum (w @ [b])) mod 65536"
    by (simp add: weighted_sum_snoc algebra_simps)
  finally have u2: "uint (ucast ((ucast (of_nat (?W mod 65536) + r1 :: u32) -
      of_nat ?n * ucast a :: u64) mod 65536) :: u32) = int (weighted_sum (w @ [b])) mod 65536"
    unfolding uint_roll_r2 .
  show ?thesis
    using ch_pack_residuesI [OF u1 u2]
    by (simp add: rm_fast_check_roll_def Let_def unpack_block r1_def RM_FASTCHECK_MODULUS_def)
qed

lemma rm_fast_check_roll_tail_block:
  "rm_fast_check_roll_tail (rm_fast_check_block (a # w)) a (of_nat (Suc (length w))) =
     rm_fast_check_block w"
proof -
  let ?S = "byte_sum (a # w)" and ?W = "weighted_sum (a # w)" and ?n = "Suc (length w)"
  have u1: "uint (((of_nat (?S mod 65536) :: u32) - ucast a) mod 65536) = int (byte_sum w) mod 65536"
    using uint_roll_r1 [of "of_nat (?S mod 65536)" a 0] by (simp add: uint_residue mod_diff_left_eq)
  have "uint (of_nat (?W mod 65536) :: u32) mod 65536 = int ?W mod 65536"
    by (simp add: uint_residue)
  then have "(uint (of_nat (?W mod 65536) :: u32) - uint (of_nat ?n :: u64) * int (unat a)) mod 65536
      = (int ?W - int ?n * int (unat a)) mod 65536"
    by (rule mod_roll_cong) (rule uint_len_mod)
  also have "\<dots> = int (weighted_sum w) mod 65536"
    by (simp add: algebra_simps)
  finally have u2: "uint (ucast ((ucast (of_nat (?W mod 65536) :: u32) -
      of_nat ?n * ucast a :: u64) mod 65536) :: u32) = int (weighted_sum w) mod 65536"
    unfolding uint_roll_r2 .
  show ?thesis
    using ch_pack_residuesI [OF u1 u2]
    by (simp add: rm_fast_check_roll_tail_def Let_def unpack_block RM_FASTCHECK_MODULUS_def)
qed

section \<open>The contract of a rolling checksum\<close>

text \<open>
  What the rolling checksum procedure relies on: moving the window by one byte, and shortening it by
  its first byte, give the checksum of the new window. Its clients slide the window along a file.
\<close>

locale rolling_checksum =
  fixes block :: "bytes \<Rightarrow> u32"
    and roll :: "u32 \<Rightarrow> u8 \<Rightarrow> u8 \<Rightarrow> u64 \<Rightarrow> u32"
    and roll_tail :: "u32 \<Rightarrow> u8 \<Rightarrow> u64 \<Rightarrow> u32"
  assumes roll_block: "roll (block (a # w)) a b (of_nat (Suc (length w))) = block (w @ [b])"
    and roll_tail_block: "roll_tail (block (a # w)) a (of_nat (Suc (length w))) = block w"
begin

lemma roll_bslice:
  assumes "p + n < length xs" and "0 < n"
  shows "roll (block (bslice xs p n)) (xs ! p) (xs ! (p + n)) (of_nat n) = block (bslice xs (Suc p) n)"
proof -
  let ?w = "bslice xs (Suc p) (n - 1)"
  have "length ?w = n - 1" using assms by simp
  then have "Suc (length ?w) = n" using assms by simp
  then show ?thesis
    using roll_block [of "xs ! p" ?w "xs ! (p + n)"] bslice_slide [OF assms] by simp
qed

lemma roll_tail_bslice:
  assumes "p + n \<le> length xs" and "0 < n"
  shows "roll_tail (block (bslice xs p n)) (xs ! p) (of_nat n) = block (bslice xs (Suc p) (n - 1))"
proof -
  from assms have p: "p < length xs" by simp
  obtain m where m: "n = Suc m" using assms by (cases n) auto
  have "length (bslice xs (Suc p) m) = m" using assms m by simp
  then show ?thesis
    using roll_tail_block [of "xs ! p" "bslice xs (Suc p) m"] bslice_Cons [OF p, of m] m by simp
qed

end

interpretation fast: rolling_checksum rm_fast_check_block rm_fast_check_roll rm_fast_check_roll_tail
  by unfold_locales (simp_all only: rm_fast_check_roll_block rm_fast_check_roll_tail_block)

section \<open>Deferred reduction\<close>

definition plain_step :: "u8 \<Rightarrow> u32 \<times> u32 \<Rightarrow> u32 \<times> u32" where
  "plain_step b r = (let r1 = fst r + ucast b in (r1, snd r + r1))"

lemma rm_do1_plain: "rm_do1 buf i r = plain_step (buf ! i) r"
  by (simp add: rm_do1_def plain_step_def)

lemma fold_plain_bslice2:
  "i + 2 * n \<le> length buf \<Longrightarrow>
   fold plain_step (bslice buf (i + n) n) (fold plain_step (bslice buf i n) r) =
   fold plain_step (bslice buf i (2 * n)) r"
  using bslice_append [of buf i n n] by (simp add: mult_2)

lemma rm_do2_plain: "i + 2 \<le> length buf \<Longrightarrow> rm_do2 buf i r = fold plain_step (bslice buf i 2) r"
  using fold_plain_bslice2 [of i 1 buf r]
  by (simp add: rm_do2_def rm_do1_plain bslice_single [simplified])

lemma rm_do4_plain: "i + 4 \<le> length buf \<Longrightarrow> rm_do4 buf i r = fold plain_step (bslice buf i 4) r"
  using fold_plain_bslice2 [of i 2 buf r] by (simp add: rm_do4_def rm_do2_plain)

lemma rm_do8_plain: "i + 8 \<le> length buf \<Longrightarrow> rm_do8 buf i r = fold plain_step (bslice buf i 8) r"
  using fold_plain_bslice2 [of i 4 buf r] by (simp add: rm_do8_def rm_do4_plain)

lemma rm_do16_plain: "16 \<le> length buf \<Longrightarrow> rm_do16 buf r = fold plain_step (take 16 buf) r"
  using fold_plain_bslice2 [of 0 8 buf r] by (simp add: rm_do16_def rm_do8_plain bslice_def)

lemma adler32_remainder_plain:
  "k \<le> length data \<Longrightarrow>
   adler32_remainder k data r = (fold plain_step (take k data) r, drop k data)"
proof (induction k arbitrary: data r)
  case (Suc k)
  then obtain d ds where "data = d # ds" by (cases data) auto
  with Suc show ?case by (simp add: rm_do1_plain)
qed simp

lemma adler32_chunk_plain:
  "k \<le> length data \<Longrightarrow>
   adler32_chunk k data r = (fold plain_step (take k data) r, drop k data)"
proof (induction k data r rule: adler32_chunk.induct)
  case (1 k data r)
  show ?case
  proof (cases "16 \<le> k")
    case True
    have "take 16 data @ take (k - 16) (drop 16 data) = take k data"
      using take_add [of 16 "k - 16" data] True by simp
    then have "fold plain_step (take (k - 16) (drop 16 data)) (fold plain_step (take 16 data) r) =
        fold plain_step (take k data) r"
      by (metis fold_append comp_apply)
    with 1 True show ?thesis
      by (simp add: adler32_chunk.simps [of k] rm_do16_plain)
  next
    case False
    with 1 show ?thesis by (simp add: adler32_chunk.simps [of k] adler32_remainder_plain)
  qed
qed

lemma fold_plain:
  "fold plain_step bs (of_nat a, of_nat b) =
     (of_nat (a + byte_sum bs), of_nat (b + length bs * a + weighted_sum bs))"
proof (induction bs rule: rev_induct)
  case (snoc c bs)
  have "ucast c = (of_nat (unat c) :: u32)"
    by simp
  with snoc show ?case
    by (simp add: plain_step_def weighted_sum_snoc algebra_simps)
qed simp

lemma weighted_sum_bound: "2 * weighted_sum bs \<le> 255 * (length bs * (length bs + 1))"
proof (induction bs)
  case (Cons b bs)
  let ?n = "length bs"
  have "(?n + 1) * unat b \<le> (?n + 1) * 255"
    using unat_u8_le [of b] by (rule mult_le_mono2)
  with Cons show ?case by (simp add: algebra_simps)
qed simp

text \<open>
  The choice of \<open>RM_ADLER32_NMAX\<close>: over a chunk of that length neither sum leaves 32 bits,
  whatever the 16 bit sums the chunk starts from.
\<close>

lemma deferred_sums_fit:
  assumes "a \<le> 65535" and "b \<le> 65535" and "length bs \<le> RM_ADLER32_NMAX"
  shows "a + byte_sum bs < 2 ^ 32" and "b + length bs * a + weighted_sum bs < 2 ^ 32"
proof -
  let ?n = "length bs"
  have n: "?n \<le> 5552" using assms(3) by (simp add: RM_ADLER32_NMAX_def)
  have "255 * ?n \<le> 255 * 5552" using n by simp
  then show "a + byte_sum bs < 2 ^ 32"
    using assms(1) byte_sum_bound [of bs] by simp
  have "?n * a \<le> 5552 * 65535" using n assms(1) by (rule mult_le_mono)
  moreover have "?n * (?n + 1) \<le> 5552 * 5553" using n by (intro mult_le_mono) simp_all
  ultimately show "b + ?n * a + weighted_sum bs < 2 ^ 32"
    using assms(2) weighted_sum_bound [of bs] by simp
qed

lemma of_nat_mod_word32:
  assumes "n < 2 ^ 32"
  shows "(of_nat n :: u32) mod 65521 = of_nat (n mod 65521)"
proof (rule word32_eqI)
  have "unat (of_nat n :: u32) = n"
    using assms by (simp add: unsigned_of_nat take_bit_nat_eq_self_iff)
  then show "unat ((of_nat n :: u32) mod 65521) = unat (of_nat (n mod 65521) :: u32)"
    by (simp add: unat_mod residue_word)
qed

lemma residues_chain:
  "residues M ((a0 + byte_sum bs) mod M) ((b0 + length bs * a0 + weighted_sum bs) mod M) cs =
     residues M a0 b0 (bs @ cs)"
proof -
  let ?s = "a0 + byte_sum bs" and ?w = "b0 + length bs * a0 + weighted_sum bs"
  have ws: "weighted_sum (bs @ cs) = weighted_sum bs + length cs * byte_sum bs + weighted_sum cs"
    by (induction bs) (auto simp: algebra_simps)
  have "(?s mod M + byte_sum cs) mod M = (a0 + byte_sum (bs @ cs)) mod M"
    by (simp add: mod_add_left_eq add.assoc)
  moreover have "(?w mod M + length cs * (?s mod M) + weighted_sum cs) mod M =
      (?w + length cs * ?s + weighted_sum cs) mod M"
    by (intro mod_add_cong mod_mult_cong) simp_all
  moreover have "?w + length cs * ?s + weighted_sum cs =
      b0 + length (bs @ cs) * a0 + weighted_sum (bs @ cs)"
    by (simp add: ws algebra_simps)
  ultimately show ?thesis by (simp add: residues_def)
qed

lemma adler32_loop_residues:
  assumes "a \<le> 65535" and "b \<le> 65535" and "data \<noteq> []"
  shows "adler32_loop (length data) data (of_nat a, of_nat b) = residues 65521 a b data"
  using assms
proof (induction data arbitrary: a b rule: length_induct)
  case (1 data)
  define k where "k = (if length data < RM_ADLER32_NMAX then length data else RM_ADLER32_NMAX)"
  let ?bs = "take k data" and ?cs = "drop k data"
  let ?s = "a + byte_sum ?bs" and ?w = "b + length ?bs * a + weighted_sum ?bs"
  have k: "k \<le> length data" "0 < k" "length ?bs \<le> RM_ADLER32_NMAX" "length ?bs = k"
    using "1.prems" by (auto simp: k_def RM_ADLER32_NMAX_def)
  have fit: "?s < 2 ^ 32" "?w < 2 ^ 32"
    using deferred_sums_fit [OF "1.prems"(1,2) k(3)] by simp_all
  have step: "adler32_loop (length data) data (of_nat a, of_nat b) =
      adler32_loop (length ?cs) ?cs (of_nat (?s mod 65521), of_nat (?w mod 65521))"
    using "1.prems" k(1) of_nat_mod_word32 [OF fit(1)] of_nat_mod_word32 [OF fit(2)]
    by (subst adler32_loop.simps)
      (simp add: adler32_chunk_plain fold_plain RM_ADLER32_MODULUS_def flip: k_def)
  show ?case
  proof (cases "?cs = []")
    case True
    then have "adler32_loop (length ?cs) ?cs r = r" for r
      by (simp add: adler32_loop.simps)
    with step True show ?thesis
      using residues_chain [of 65521 a ?bs b "[]"] k(1) by (simp add: residues_def)
  next
    case False
    have small: "n mod 65521 \<le> 65535" for n :: nat
      using mod_less_divisor [of 65521 n] by linarith
    have "length ?cs < length data" using k "1.prems" by simp
    then have "adler32_loop (length ?cs) ?cs (of_nat (?s mod 65521), of_nat (?w mod 65521)) =
        residues 65521 (?s mod 65521) (?w mod 65521) ?cs"
      using "1.IH" small False by blast
    with step show ?thesis
      using residues_chain [of 65521 a ?bs b ?cs] by simp
  qed
qed

lemma rm_adler32_1_residues: "rm_adler32_1 data = ch_pack (residues 65521 1 0 data)"
  using rolling_ch_fold [of 65521 1 0 data]
  by (simp add: rm_adler32_1_def adler32_step_rolling)

lemma unpack_adler:
  "rm_adler32_1 bs AND 0xFFFF = of_nat ((1 + byte_sum bs) mod 65521)"
  "drop_bit 16 (rm_adler32_1 bs) AND 0xFFFF = of_nat ((length bs + weighted_sum bs) mod 65521)"
  using ch_pack_low [OF residues_bound, of 65521 1 0 bs]
    ch_pack_high [OF residues_bound, of 65521 1 0 bs]
  by (simp_all add: rm_adler32_1_residues residues_def)

section \<open>Properties\<close>

text \<open>
  C20. Rolling is exact: the rolled checksum of a window of a file is the checksum computed from
  scratch on the window one byte further, and the tail update gives the checksum of the window
  without its first byte, although every intermediate sum wraps in its C type.
\<close>
theorem fast_check_rolling:
  assumes "p + n < length xs" and "0 < n"
  shows "rm_fast_check_roll (rm_fast_check_block (bslice xs p n)) (xs ! p) (xs ! (p + n)) (of_nat n) =
           rm_fast_check_block (bslice xs (Suc p) n) \<and>
         rm_fast_check_roll_tail (rm_fast_check_block (bslice xs p n)) (xs ! p) (of_nat n) =
           rm_fast_check_block (bslice xs (Suc p) (n - 1))"
  using assms fast.roll_bslice [of p n xs] fast.roll_tail_bslice [of p n xs] by simp

theorem fast_check_rolling_witness:
  "rm_fast_check_roll (rm_fast_check_block (bslice [9, 200, 255, 3] 0 3)) 9 3 3 =
     rm_fast_check_block (bslice [9, 200, 255, 3] 1 3)"
  using fast_check_rolling [of 0 3 "[9, 200, 255, 3]"] by simp

text \<open>
  The block checksum has the closed form of the algorithm's description: the low half is the
  sum of the bytes and the high half the sum weighted by the distance to the end of the block, both
  modulo \<open>2 ^ 16\<close>, and the parametric checksum with modulus \<open>2 ^ 16\<close> is the same function.
\<close>
theorem fast_check_closed_form:
  "unat (rm_fast_check_block bs) = (weighted_sum bs mod 65536) * 65536 + byte_sum bs mod 65536 \<and>
   rm_rolling_ch bs 65536 = rm_fast_check_block bs"
proof
  show "unat (rm_fast_check_block bs) = (weighted_sum bs mod 65536) * 65536 + byte_sum bs mod 65536"
    using unat_ch_pack [OF residues16_bound, of 0 0 bs]
    by (simp add: rm_fast_check_block_residues) (simp add: residues_def residue_word)
  show "rm_rolling_ch bs 65536 = rm_fast_check_block bs"
    by (simp add: rm_rolling_ch_def rm_fast_check_block_def fast_check_step_rolling)
qed

text \<open>
  C26. The optimised Adler-32 (unrolled, reduction deferred over chunks of 5552 bytes) computes the
  plain one, and can be continued: run from the checksum of a prefix over the rest it gives the
  checksum of the whole.
\<close>
theorem adler32_2_refines_adler32_1:
  "rm_adler32_2 (rm_adler32_1 xs) ys = rm_adler32_1 (xs @ ys) \<and> rm_adler32_2 1 ys = rm_adler32_1 ys"
proof -
  have main: "rm_adler32_2 (rm_adler32_1 xs) ys = rm_adler32_1 (xs @ ys)" for xs ys
  proof (cases "ys = []")
    case True
    then show ?thesis
      by (simp add: rm_adler32_2_def adler32_loop.simps unpack_adler)
        (simp add: rm_adler32_1_residues residues_def)
  next
    case False
    let ?a = "(1 + byte_sum xs) mod 65521" and ?b = "(0 + length xs * 1 + weighted_sum xs) mod 65521"
    have "?a \<le> 65535" "?b \<le> 65535"
      using mod_less_divisor [of 65521 "1 + byte_sum xs"]
        mod_less_divisor [of 65521 "0 + length xs * 1 + weighted_sum xs"] by linarith+
    then have "adler32_loop (length ys) ys (of_nat ?a, of_nat ?b) = residues 65521 1 0 (xs @ ys)"
      using adler32_loop_residues False residues_chain [of 65521 1 xs 0 ys] by simp
    then show ?thesis
      by (simp add: rm_adler32_2_def unpack_adler) (simp add: rm_adler32_1_residues)
  qed
  have "rm_adler32_1 [] = 1"
    by (simp add: rm_adler32_1_def ch_pack_def)
  with main [of "[]" ys] main show ?thesis by simp
qed

text \<open>
  The rolling update of Adler-32 is not exact: on this block of 23 bytes the second sum
  underflows, and the rolled value differs from the checksum of the moved block.
\<close>
theorem adler32_roll_not_exact:
  "let w = replicate 3 255 @ [5] @ replicate 18 255 in
   rm_adler32_roll (rm_adler32_1 (255 # w)) 255 0 23 \<noteq> rm_adler32_1 (w @ [0])"
  by code_simp

end
