(* ===== verification/RM_MD5.thy ===== *)
theory RM_MD5
  imports RM_Defs
begin

text \<open>
  The strong checksum: \<^verbatim>\<open>src/md5.c\<close> and the wrapper \<open>rm_md5\<close> of \<^verbatim>\<open>src/rm.c\<close>. The context is the
  structure of the code (a 64 byte buffer, its fill level, the bit count and four words of state);
  the specification it is proved against is the padded message cut into 64 byte blocks.
\<close>

section \<open>The code\<close>

type_synonym md5_regs = "u32 \<times> u32 \<times> u32 \<times> u32"

record MD5_CTX =
  md_data :: bytes
  md_datalen :: u32
  md_bitlen :: u64
  md_state :: md5_regs

definition ROTLEFT :: "u32 \<Rightarrow> nat \<Rightarrow> u32" where
  "ROTLEFT a b = (push_bit b a) OR (drop_bit (32 - b) a)"

definition md5_F :: "u32 \<Rightarrow> u32 \<Rightarrow> u32 \<Rightarrow> u32" where
  "md5_F x y z = (x AND y) OR (NOT x AND z)"

definition md5_G :: "u32 \<Rightarrow> u32 \<Rightarrow> u32 \<Rightarrow> u32" where
  "md5_G x y z = (x AND z) OR (y AND NOT z)"

definition md5_H :: "u32 \<Rightarrow> u32 \<Rightarrow> u32 \<Rightarrow> u32" where
  "md5_H x y z = x XOR y XOR z"

definition md5_I :: "u32 \<Rightarrow> u32 \<Rightarrow> u32 \<Rightarrow> u32" where
  "md5_I x y z = y XOR (x OR NOT z)"

text \<open>
  One of the macros \<open>FF\<close>, \<open>GG\<close>, \<open>HH\<close>, \<open>II\<close> applied to \<open>(a, b, c, d)\<close>, message word \<open>m[i]\<close>, shift
  \<open>s\<close> and constant \<open>t\<close>. The code names the registers \<open>(a,b,c,d)\<close>, \<open>(d,a,b,c)\<close>, \<open>(c,d,a,b)\<close>,
  \<open>(b,c,d,a)\<close> in turn, so the result is the register tuple in the order of the next call.
\<close>

definition md5_op ::
    "(u32 \<Rightarrow> u32 \<Rightarrow> u32 \<Rightarrow> u32) \<Rightarrow> u32 list \<Rightarrow> nat \<times> nat \<times> u32 \<Rightarrow> md5_regs \<Rightarrow> md5_regs" where
  "md5_op f m k r =
     (case r of (a, b, c, d) \<Rightarrow> case k of (i, s, t) \<Rightarrow>
        let a' = a + (f b c d + m ! i + t) in (d, b + ROTLEFT a' s, b, c))"

definition md5_round1 :: "(nat \<times> nat \<times> u32) list" where
  "md5_round1 =
   [(0, 7, 0xd76aa478), (1, 12, 0xe8c7b756), (2, 17, 0x242070db), (3, 22, 0xc1bdceee),
    (4, 7, 0xf57c0faf), (5, 12, 0x4787c62a), (6, 17, 0xa8304613), (7, 22, 0xfd469501),
    (8, 7, 0x698098d8), (9, 12, 0x8b44f7af), (10, 17, 0xffff5bb1), (11, 22, 0x895cd7be),
    (12, 7, 0x6b901122), (13, 12, 0xfd987193), (14, 17, 0xa679438e), (15, 22, 0x49b40821)]"

definition md5_round2 :: "(nat \<times> nat \<times> u32) list" where
  "md5_round2 =
   [(1, 5, 0xf61e2562), (6, 9, 0xc040b340), (11, 14, 0x265e5a51), (0, 20, 0xe9b6c7aa),
    (5, 5, 0xd62f105d), (10, 9, 0x02441453), (15, 14, 0xd8a1e681), (4, 20, 0xe7d3fbc8),
    (9, 5, 0x21e1cde6), (14, 9, 0xc33707d6), (3, 14, 0xf4d50d87), (8, 20, 0x455a14ed),
    (13, 5, 0xa9e3e905), (2, 9, 0xfcefa3f8), (7, 14, 0x676f02d9), (12, 20, 0x8d2a4c8a)]"

definition md5_round3 :: "(nat \<times> nat \<times> u32) list" where
  "md5_round3 =
   [(5, 4, 0xfffa3942), (8, 11, 0x8771f681), (11, 16, 0x6d9d6122), (14, 23, 0xfde5380c),
    (1, 4, 0xa4beea44), (4, 11, 0x4bdecfa9), (7, 16, 0xf6bb4b60), (10, 23, 0xbebfbc70),
    (13, 4, 0x289b7ec6), (0, 11, 0xeaa127fa), (3, 16, 0xd4ef3085), (6, 23, 0x04881d05),
    (9, 4, 0xd9d4d039), (12, 11, 0xe6db99e5), (15, 16, 0x1fa27cf8), (2, 23, 0xc4ac5665)]"

definition md5_round4 :: "(nat \<times> nat \<times> u32) list" where
  "md5_round4 =
   [(0, 6, 0xf4292244), (7, 10, 0x432aff97), (14, 15, 0xab9423a7), (5, 21, 0xfc93a039),
    (12, 6, 0x655b59c3), (3, 10, 0x8f0ccc92), (10, 15, 0xffeff47d), (1, 21, 0x85845dd1),
    (8, 6, 0x6fa87e4f), (15, 10, 0xfe2ce6e0), (6, 15, 0xa3014314), (13, 21, 0x4e0811a1),
    (4, 6, 0xf7537e82), (11, 10, 0xbd3af235), (2, 15, 0x2ad7d2bb), (9, 21, 0xeb86d391)]"

definition md5_word :: "bytes \<Rightarrow> nat \<Rightarrow> u32" where
  "md5_word data j =
     ucast (data ! j) + push_bit 8 (ucast (data ! (j + 1))) +
     push_bit 16 (ucast (data ! (j + 2))) + push_bit 24 (ucast (data ! (j + 3)))"

definition md5_compress :: "md5_regs \<Rightarrow> bytes \<Rightarrow> md5_regs" where
  "md5_compress st data =
     (let m = map (\<lambda>i. md5_word data (4 * i)) [0..<16];
          r = fold (md5_op md5_I m) md5_round4 (fold (md5_op md5_H m) md5_round3
                (fold (md5_op md5_G m) md5_round2 (fold (md5_op md5_F m) md5_round1 st)))
      in case st of (s0, s1, s2, s3) \<Rightarrow> case r of (a, b, c, d) \<Rightarrow>
           (s0 + a, s1 + b, s2 + c, s3 + d))"

definition md5_transform :: "MD5_CTX \<Rightarrow> bytes \<Rightarrow> MD5_CTX" where
  "md5_transform ctx data = ctx\<lparr>md_state := md5_compress (md_state ctx) data\<rparr>"

definition md5_init :: "MD5_CTX \<Rightarrow> MD5_CTX" where
  "md5_init ctx = ctx\<lparr>md_datalen := 0, md_bitlen := 0,
     md_state := (0x67452301, 0xEFCDAB89, 0x98BADCFE, 0x10325476)\<rparr>"

definition md5_update_byte :: "u8 \<Rightarrow> MD5_CTX \<Rightarrow> MD5_CTX" where
  "md5_update_byte b ctx =
     (let ctx1 = ctx\<lparr>md_data := (md_data ctx)[unat (md_datalen ctx) := b],
                     md_datalen := md_datalen ctx + 1\<rparr>
      in if md_datalen ctx1 = 64
         then (md5_transform ctx1 (md_data ctx1))
                \<lparr>md_bitlen := md_bitlen ctx1 + 512, md_datalen := 0\<rparr>
         else ctx1)"

definition md5_update :: "MD5_CTX \<Rightarrow> bytes \<Rightarrow> MD5_CTX" where
  "md5_update ctx data = fold md5_update_byte data ctx"

text \<open>The loop \<open>while (i < n) ctx->data[i++] = 0x00\<close>.\<close>

function zero_fill :: "nat \<Rightarrow> nat \<Rightarrow> bytes \<Rightarrow> bytes" where
  "zero_fill i n data = (if i < n then zero_fill (Suc i) n (data[i := 0]) else data)"
  by pat_completeness auto
termination
  by (relation "measure (\<lambda>(i, n, data). n - i)") auto

declare zero_fill.simps [simp del]

definition md5_final_pad :: "MD5_CTX \<Rightarrow> MD5_CTX" where
  "md5_final_pad ctx =
     (let i = unat (md_datalen ctx); d = (md_data ctx)[i := 0x80]
      in if md_datalen ctx < 56
         then ctx\<lparr>md_data := zero_fill (i + 1) 56 d\<rparr>
         else let ctx1 = ctx\<lparr>md_data := zero_fill (i + 1) 64 d\<rparr>;
                  ctx2 = md5_transform ctx1 (md_data ctx1)
              in ctx2\<lparr>md_data := replicate 56 0 @ drop 56 (md_data ctx2)\<rparr>)"

definition le32_bytes :: "u32 \<Rightarrow> bytes" where
  "le32_bytes w = map (\<lambda>i. ucast (drop_bit (i * 8) w AND 0xff)) [0..<4]"

definition le64_bytes :: "u64 \<Rightarrow> bytes" where
  "le64_bytes w = map (\<lambda>i. ucast (drop_bit (i * 8) w)) [0..<8]"

definition md5_output :: "md5_regs \<Rightarrow> bytes" where
  "md5_output st =
     (case st of (a, b, c, d) \<Rightarrow> le32_bytes a @ le32_bytes b @ le32_bytes c @ le32_bytes d)"

definition md5_final :: "MD5_CTX \<Rightarrow> bytes" where
  "md5_final ctx =
     (let ctx1 = md5_final_pad ctx;
          bits = md_bitlen ctx1 + ucast (md_datalen ctx1 * 8);
          ctx2 = ctx1\<lparr>md_bitlen := bits, md_data := take 56 (md_data ctx1) @ le64_bytes bits\<rparr>
      in md5_output (md_state (md5_transform ctx2 (md_data ctx2))))"

text \<open>\<open>rm_md5\<close> runs the three calls on a context that starts uninitialised on the stack.\<close>

definition md5_run :: "MD5_CTX \<Rightarrow> bytes \<Rightarrow> bytes" where
  "md5_run ctx data = md5_final (md5_update (md5_init ctx) data)"

definition md5_stack_ctx :: MD5_CTX where
  "md5_stack_ctx = \<lparr>md_data = replicate 64 0, md_datalen = 0, md_bitlen = 0, md_state = (0, 0, 0, 0)\<rparr>"

definition rm_md5 :: "bytes \<Rightarrow> bytes" where
  "rm_md5 data = md5_run md5_stack_ctx data"

section \<open>The specification\<close>

definition md5_iv :: md5_regs where
  "md5_iv = (0x67452301, 0xEFCDAB89, 0x98BADCFE, 0x10325476)"

function md5_blocks :: "md5_regs \<Rightarrow> bytes \<Rightarrow> md5_regs" where
  "md5_blocks st xs =
     (if length xs < 64 then st else md5_blocks (md5_compress st (take 64 xs)) (drop 64 xs))"
  by pat_completeness auto
termination
  by (relation "measure (\<lambda>(st, xs). length xs)") auto

declare md5_blocks.simps [simp del]

definition md5_pad :: "bytes \<Rightarrow> bytes" where
  "md5_pad msg =
     msg @ [0x80] @ replicate ((119 - length msg mod 64) mod 64) 0 @ le64_bytes (of_nat (8 * length msg))"

definition md5_spec :: "bytes \<Rightarrow> bytes" where
  "md5_spec msg = md5_output (md5_blocks md5_iv (md5_pad msg))"

section \<open>The buffered computation refines the specification\<close>

lemma length_le32_bytes [simp]: "length (le32_bytes w) = 4"
  by (simp add: le32_bytes_def)

lemma length_le64_bytes [simp]: "length (le64_bytes w) = 8"
  by (simp add: le64_bytes_def)

lemma length_md5_output: "length (md5_output st) = RM_STRONG_CHECK_BYTES"
  by (simp add: md5_output_def RM_STRONG_CHECK_BYTES_def split: prod.splits)

lemma length_rm_md5: "length (rm_md5 data) = RM_STRONG_CHECK_BYTES"
  by (simp add: rm_md5_def md5_run_def md5_final_def Let_def length_md5_output)

lemma md5_blocks_short [simp]: "length xs < 64 \<Longrightarrow> md5_blocks st xs = st"
  by (simp add: md5_blocks.simps)

lemma md5_blocks_step: "64 \<le> length xs \<Longrightarrow>
    md5_blocks st xs = md5_blocks (md5_compress st (take 64 xs)) (drop 64 xs)"
  by (simp add: md5_blocks.simps)

lemma md5_blocks_single: "length xs = 64 \<Longrightarrow> md5_blocks st xs = md5_compress st xs"
  by (simp add: md5_blocks_step)

lemma md5_blocks_append:
  "length xs mod 64 = 0 \<Longrightarrow> md5_blocks st (xs @ ys) = md5_blocks (md5_blocks st xs) ys"
proof (induction st xs rule: md5_blocks.induct)
  case (1 st xs)
  show ?case
  proof (cases "length xs < 64")
    case True
    with "1.prems" have "xs = []" by simp
    then show ?thesis by simp
  next
    case False
    then have l: "64 \<le> length xs" by simp
    with "1.prems" have "length (drop 64 xs) mod 64 = 0"
      by (simp add: mod_if [of "length xs"])
    with "1.IH" False have
      "md5_blocks (md5_compress st (take 64 xs)) (drop 64 xs @ ys) =
         md5_blocks (md5_blocks (md5_compress st (take 64 xs)) (drop 64 xs)) ys"
      by simp
    with l show ?thesis
      by (simp add: md5_blocks_step [of "xs @ ys"] md5_blocks_step [of xs])
  qed
qed

text \<open>What the context says about the bytes it has absorbed.\<close>

definition md5_absorbed :: "bytes \<Rightarrow> MD5_CTX \<Rightarrow> bool" where
  "md5_absorbed msg ctx \<longleftrightarrow>
     (let n = length msg mod 64; m = length msg - n in
      length (md_data ctx) = 64 \<and>
      md_datalen ctx = of_nat n \<and>
      take n (md_data ctx) = drop m msg \<and>
      md_bitlen ctx = of_nat (8 * m) \<and>
      md_state ctx = md5_blocks md5_iv (take m msg))"

lemma md5_absorbed_init: "length (md_data ctx) = 64 \<Longrightarrow> md5_absorbed [] (md5_init ctx)"
  by (simp add: md5_absorbed_def md5_init_def md5_iv_def)

lemma word32_of_nat_eq: "a < 128 \<Longrightarrow> b < 128 \<Longrightarrow> (of_nat a = (of_nat b :: u32)) = (a = b)"
  by (simp add: word_unat_eq_iff unsigned_of_nat take_bit_nat_eq_self)

lemma md5_absorbed_update_byte:
  assumes "md5_absorbed msg ctx"
  shows "md5_absorbed (msg @ [b]) (md5_update_byte b ctx)"
proof -
  define n where "n = length msg mod 64"
  define m where "m = length msg - n"
  define d where "d = (md_data ctx)[n := b]"
  from assms have ctx: "length (md_data ctx) = 64" "md_datalen ctx = of_nat n"
      "take n (md_data ctx) = drop m msg" "md_bitlen ctx = of_nat (8 * m)"
      "md_state ctx = md5_blocks md5_iv (take m msg)"
    by (simp_all add: md5_absorbed_def Let_def n_def m_def)
  have n: "n < 64" by (simp add: n_def)
  have len: "length msg = m + n" by (simp add: m_def n_def)
  have m64: "m mod 64 = 0" by (simp add: m_def n_def)
  have un: "unat (md_datalen ctx) = n"
    using n ctx(2) by (simp add: unsigned_of_nat take_bit_nat_eq_self_iff)
  have full: "(md_datalen ctx + 1 = 64) = (n + 1 = 64)"
    using word32_of_nat_eq [of "n + 1" 64] n ctx(2) by (simp add: add.commute)
  have tk: "take (Suc n) d = drop m msg @ [b]"
    using n ctx(1,3) by (simp add: d_def take_Suc_conv_app_nth)
  show ?thesis
  proof (cases "n + 1 = 64")
    case True
    then have "d = drop m msg @ [b]" using tk ctx(1) by (simp add: d_def)
    moreover have "length d = 64" using ctx(1) by (simp add: d_def)
    ultimately have "md5_compress (md5_blocks md5_iv (take m msg)) d =
        md5_blocks md5_iv (take m msg @ drop m msg @ [b])"
      using m64 len by (simp add: md5_blocks_append md5_blocks_single)
    then have "md5_compress (md_state ctx) d = md5_blocks md5_iv (msg @ [b])"
      using ctx(5) by (metis append_assoc append_take_drop_id)
    moreover have "Suc (length msg) mod 64 = 0" using True by (simp add: n_def mod_Suc)
    moreover have "of_nat (8 * m) + (512 :: u64) = of_nat (8 * Suc (length msg))"
      using True len by simp
    moreover have "md5_update_byte b ctx = ctx\<lparr>md_data := d, md_datalen := 0,
        md_bitlen := of_nat (8 * m) + 512, md_state := md5_compress (md_state ctx) d\<rparr>"
      using True full un ctx(4)
      by (cases ctx) (simp add: md5_update_byte_def Let_def md5_transform_def d_def)
    moreover have "length d = 64" using ctx(1) by (simp add: d_def)
    ultimately show ?thesis by (simp add: md5_absorbed_def)
  next
    case False
    then have "Suc (length msg) mod 64 = Suc n" using False by (simp add: n_def mod_Suc)
    moreover have "md5_update_byte b ctx = ctx\<lparr>md_data := d, md_datalen := of_nat (Suc n)\<rparr>"
      using False full un ctx(2)
      by (simp add: md5_update_byte_def Let_def add.commute flip: d_def)
    moreover have "length d = 64" using ctx(1) by (simp add: d_def)
    ultimately show ?thesis
      using ctx(4,5) len tk by (simp add: md5_absorbed_def Let_def)
  qed
qed

lemma md5_absorbed_update:
  "md5_absorbed msg ctx \<Longrightarrow> md5_absorbed (msg @ data) (md5_update ctx data)"
  unfolding md5_update_def
proof (induction data arbitrary: msg ctx)
  case (Cons b data)
  from Cons.IH [OF md5_absorbed_update_byte [OF Cons.prems]] show ?case by simp
qed simp

lemma zero_fill_eq:
  "i \<le> n \<Longrightarrow> n \<le> length data \<Longrightarrow>
   zero_fill i n data = take i data @ replicate (n - i) 0 @ drop n data"
proof (induction i n data rule: zero_fill.induct)
  case (1 i n data)
  show ?case
  proof (cases "i < n")
    case True
    with 1 have "zero_fill (Suc i) n (data[i := 0]) =
        take (Suc i) (data[i := 0]) @ replicate (n - Suc i) 0 @ drop n (data[i := 0])"
      by simp
    moreover have "take (Suc i) (data[i := 0]) = take i data @ [0]"
      using True 1 by (simp add: take_Suc_conv_app_nth)
    moreover have "n - i = Suc (n - Suc i)" using True by simp
    ultimately show ?thesis
      using True by (simp add: zero_fill.simps [of i])
  next
    case False
    with 1 have "i = n" by simp
    then show ?thesis by (subst zero_fill.simps) simp
  qed
qed

lemma md5_final_bits:
  assumes "n < 64"
  shows "of_nat (8 * m) + ucast ((of_nat n :: u32) * 8) = (of_nat (8 * (m + n)) :: u64)"
proof -
  have "unat ((of_nat n :: u32) * 8) = n * 8"
    using assms by (simp add: unat_word_ariths unsigned_of_nat take_bit_nat_eq_self)
  then have "ucast ((of_nat n :: u32) * 8) = (of_nat (n * 8) :: u64)"
    by (metis of_nat_unat)
  then show ?thesis by (simp add: algebra_simps)
qed

lemma md5_final_absorbed:
  assumes "md5_absorbed msg ctx"
  shows "md5_final ctx = md5_spec msg"
proof -
  define n where "n = length msg mod 64"
  define m where "m = length msg - n"
  let ?st = "md5_blocks md5_iv (take m msg)" and ?le = "le64_bytes (of_nat (8 * length msg))"
  from assms have ctx: "length (md_data ctx) = 64" "md_datalen ctx = of_nat n"
      "take n (md_data ctx) = drop m msg" "md_bitlen ctx = of_nat (8 * m)" "md_state ctx = ?st"
    by (simp_all add: md5_absorbed_def Let_def n_def m_def)
  have n: "n < 64" and len: "length msg = m + n" and m64: "length (take m msg) mod 64 = 0"
    by (simp_all add: m_def n_def)
  have un: "unat (md_datalen ctx) = n"
    using n ctx(2) by (simp add: unsigned_of_nat take_bit_nat_eq_self_iff)
  have small: "md_datalen ctx < 56 \<longleftrightarrow> n < 56"
    by (simp add: word_less_nat_alt un)
  have bits: "md_bitlen ctx + ucast (md_datalen ctx * 8) = of_nat (8 * length msg)"
    using md5_final_bits [OF n, of m] by (simp add: ctx(2,4) len)
  have tk: "take (Suc n) ((md_data ctx)[n := 0x80]) = drop m msg @ [0x80]"
    using n ctx(1,3) by (simp add: take_Suc_conv_app_nth)
  have cut: "md5_spec msg = md5_output (md5_blocks ?st
      (drop m msg @ [0x80] @ replicate ((119 - n) mod 64) 0 @ ?le))"
    using md5_blocks_append [OF m64, of md5_iv] unfolding md5_spec_def md5_pad_def n_def [symmetric]
    by (metis append_assoc append_take_drop_id)
  show ?thesis
  proof (cases "n < 56")
    case True
    then have "(119 - n) mod 64 = 55 - n" by (simp add: mod_if)
    moreover have "length (drop m msg @ [0x80] @ replicate (55 - n) 0 @ ?le) = 64"
      using True len by simp
    ultimately have "md5_spec msg =
        md5_output (md5_compress ?st (drop m msg @ [0x80] @ replicate (55 - n) 0 @ ?le))"
      using cut md5_blocks_single by metis
    moreover have "take 56 (zero_fill (Suc n) 56 ((md_data ctx)[n := 0x80])) =
        drop m msg @ [0x80] @ replicate (55 - n) 0"
      using True ctx(1) tk len by (simp add: zero_fill_eq Suc_diff_le take_Cons')
    ultimately show ?thesis
      using True small un bits ctx(5)
      by (simp add: md5_final_def md5_final_pad_def md5_transform_def Let_def)
  next
    case False
    let ?b1 = "drop m msg @ [0x80] @ replicate (63 - n) 0" and ?b2 = "replicate 56 0 @ ?le"
    have "(119 - n) mod 64 = (63 - n) + 56" using False n by (simp add: mod_if)
    then have "md5_spec msg = md5_output (md5_blocks ?st (?b1 @ ?b2))"
      using cut by (simp only: replicate_add append_assoc)
    moreover have "length ?b1 = 64" "length ?b2 = 64"
      using False n len by simp_all
    then have "md5_blocks ?st (?b1 @ ?b2) = md5_compress (md5_compress ?st ?b1) ?b2"
      using md5_blocks_append [of ?b1 ?st ?b2] md5_blocks_single [of ?b1] md5_blocks_single [of ?b2]
      by (metis mod_self)
    moreover have "zero_fill (Suc n) 64 ((md_data ctx)[n := 0x80]) = ?b1"
      using False n ctx(1) tk len by (simp add: zero_fill_eq)
    ultimately show ?thesis
      using False small un bits ctx(5)
      by (simp add: md5_final_def md5_final_pad_def md5_transform_def Let_def)
  qed
qed

lemma md5_run_spec: "length (md_data ctx) = 64 \<Longrightarrow> md5_run ctx data = md5_spec data"
  using md5_final_absorbed [OF md5_absorbed_update [OF md5_absorbed_init, of ctx data]]
  by (simp add: md5_run_def)

text \<open>A caller that hands the message over in pieces makes one call of \<open>md5_update\<close> for each.\<close>

definition md5_update_all :: "MD5_CTX \<Rightarrow> bytes list \<Rightarrow> MD5_CTX" where
  "md5_update_all ctx parts = foldl md5_update ctx parts"

lemma md5_absorbed_update_all:
  "md5_absorbed msg ctx \<Longrightarrow> md5_absorbed (msg @ concat parts) (md5_update_all ctx parts)"
  unfolding md5_update_all_def
proof (induction parts arbitrary: msg ctx)
  case (Cons data parts)
  from Cons.IH [OF md5_absorbed_update [OF Cons.prems]] show ?case by simp
qed simp

section \<open>Properties\<close>

text \<open>
  C23. The strong checksum is the digest of the padded message: filling the 64 byte buffer byte by
  byte, compressing it whenever it is full and padding what is left in place computes the
  block-by-block digest of the message followed by \<open>0x80\<close>, zeros and the 64 bit length. This holds
  for every cut of the message into pieces, empty ones included, each absorbed by an
  \<open>md5_update\<close> of its own, and whatever the uninitialised context on the stack held; \<open>rm_md5\<close>, which
  makes one update of the whole, is the instance with one piece. The digest has 16 bytes.
\<close>
theorem md5_refines_block_digest:
  assumes "length (md_data ctx) = 64"
  shows "md5_final (md5_update_all (md5_init ctx) parts) = md5_spec (concat parts) \<and>
         md5_run ctx data = md5_spec data \<and> rm_md5 data = md5_spec data \<and>
         length (rm_md5 data) = RM_STRONG_CHECK_BYTES"
  using assms md5_run_spec [of md5_stack_ctx data] length_rm_md5 [of data]
    md5_final_absorbed [OF md5_absorbed_update_all [OF md5_absorbed_init, of ctx parts]]
  by (simp add: rm_md5_def md5_run_spec md5_stack_ctx_def)

theorem md5_refines_block_digest_witness:
  "md5_final (md5_update_all (md5_init \<lparr>md_data = replicate 64 7, md_datalen = 9, md_bitlen = 1,
      md_state = (1, 2, 3, 4)\<rparr>) [[97], [], replicate 70 1, [99]])
     = md5_spec (97 # replicate 70 1 @ [99])"
  using md5_refines_block_digest [of "\<lparr>md_data = replicate 64 7, md_datalen = 9, md_bitlen = 1,
    md_state = (1, 2, 3, 4)\<rparr>" "[[97], [], replicate 70 1, [99]]" "[]"]
  by simp

text \<open>
  On the message \<open>abc\<close> the code computes the digest of RFC 1321:
  \<open>900150983cd24fb0d6963f7d28e17f72\<close>.
\<close>
theorem md5_abc:
  "rm_md5 [97, 98, 99] =
     [0x90, 0x01, 0x50, 0x98, 0x3c, 0xd2, 0x4f, 0xb0, 0xd6, 0x96, 0x3f, 0x7d, 0x28, 0xe1, 0x7f, 0x72]"
  by code_simp

end
