(* ===== verification/RM_File.thy ===== *)
theory RM_File
  imports RM_Defs
begin

text \<open>
  Streams and the copy routines of \<^verbatim>\<open>src/rm.c\<close>. A stream is what the C standard says of a
  \<open>FILE\<close> opened on a regular file: its bytes, the position, the two indicators; whether it can be
  positioned and how many more bytes can be transferred before the device fails are the faults the
  error paths of the code are about. A mutex is free, held, or locked a second time by the thread
  that holds it, which is a deadlock; a \<open>NULL\<close> mutex is \<open>None\<close>.
\<close>

section \<open>Streams\<close>

record stream =
  fs_bytes :: bytes
  fs_pos :: nat
  fs_eof :: bool
  fs_err :: bool
  fs_seekable :: bool
  fs_stat_ok :: bool
  fs_rbudget :: "nat option"
  fs_wbudget :: "nat option"

definition open_stream :: "bytes \<Rightarrow> stream" where
  "open_stream bs = \<lparr>fs_bytes = bs, fs_pos = 0, fs_eof = False, fs_err = False, fs_seekable = True,
     fs_stat_ok = True, fs_rbudget = None, fs_wbudget = None\<rparr>"

definition within :: "nat option \<Rightarrow> nat \<Rightarrow> nat" where
  "within budget n = (case budget of None \<Rightarrow> n | Some k \<Rightarrow> min k n)"

definition spend :: "nat option \<Rightarrow> nat \<Rightarrow> nat option" where
  "spend budget n = map_option (\<lambda>k. k - n) budget"

text \<open>
  \<open>fread(buf, size, items, f)\<close>: the bytes transferred, the number of complete items and the stream
  afterwards. A short transfer sets the end of file indicator, or the error indicator when the device
  failed.
\<close>

definition fread :: "nat \<Rightarrow> nat \<Rightarrow> stream \<Rightarrow> bytes \<times> nat \<times> stream" where
  "fread sz items f =
     (let avail = bslice (fs_bytes f) (fs_pos f) (sz * items);
          got = take (within (fs_rbudget f) (length avail)) avail;
          failed = length got < length avail
      in (got, length got div sz,
          f\<lparr>fs_pos := fs_pos f + length got,
            fs_eof := fs_eof f \<or> (\<not> failed \<and> length got < sz * items),
            fs_err := fs_err f \<or> failed,
            fs_rbudget := spend (fs_rbudget f) (length got)\<rparr>))"

definition fwrite :: "bytes \<Rightarrow> nat \<Rightarrow> nat \<Rightarrow> stream \<Rightarrow> nat \<times> stream" where
  "fwrite buf sz items f =
     (let data = take (sz * items) buf;
          put = take (within (fs_wbudget f) (length data)) data
      in (length put div sz,
          f\<lparr>fs_bytes := write_at (fs_bytes f) (fs_pos f) put,
            fs_pos := fs_pos f + length put,
            fs_err := fs_err f \<or> length put < length data,
            fs_wbudget := spend (fs_wbudget f) (length put)\<rparr>))"

text \<open>
  \<open>fseek(f, off, SEEK_SET)\<close> takes a signed 64 bit offset: a \<open>size_t\<close> with the top bit set is a
  negative offset and fails. On success the end of file indicator is cleared.
\<close>

definition fseek :: "stream \<Rightarrow> nat \<Rightarrow> bool \<times> stream" where
  "fseek f off =
     (if fs_seekable f \<and> off < off_max then (True, f\<lparr>fs_pos := off, fs_eof := False\<rparr>) else (False, f))"

definition rewind :: "stream \<Rightarrow> stream" where
  "rewind f = (snd (fseek f 0))\<lparr>fs_err := False\<rparr>"

text \<open>\<open>fstat\<close>: the sz of the file, \<open>None\<close> when the call fails.\<close>

definition fstat_size :: "stream \<Rightarrow> nat option" where
  "fstat_size f = (if fs_stat_ok f then Some (length (fs_bytes f)) else None)"

section \<open>Mutexes\<close>

datatype mutex = Mutex_Free | Mutex_Held | Mutex_Deadlock

definition mutex_lock :: "mutex option \<Rightarrow> mutex option" where
  "mutex_lock m = map_option (\<lambda>s. case s of Mutex_Free \<Rightarrow> Mutex_Held | _ \<Rightarrow> Mutex_Deadlock) m"

definition mutex_unlock :: "mutex option \<Rightarrow> mutex option" where
  "mutex_unlock m = map_option (\<lambda>s. case s of Mutex_Deadlock \<Rightarrow> Mutex_Deadlock | _ \<Rightarrow> Mutex_Free) m"

lemma mutex_lock_unlock [simp]:
  "mutex_unlock (mutex_lock (Some Mutex_Free)) = Some Mutex_Free" "mutex_lock None = None"
  "mutex_unlock None = None" "mutex_lock (Some Mutex_Free) = Some Mutex_Held"
  "mutex_unlock (Some Mutex_Held) = Some Mutex_Free"
  by (simp_all add: mutex_lock_def mutex_unlock_def)

section \<open>The copy routines\<close>

definition read_chunk :: "nat \<Rightarrow> nat" where
  "read_chunk bytes_n = (if RM_L1_CACHE_RECOMMENDED < bytes_n then RM_L1_CACHE_RECOMMENDED else bytes_n)"

lemma read_chunk_bounds: "read_chunk n \<le> n" "0 < n \<Longrightarrow> 0 < read_chunk n"
  "0 < n \<Longrightarrow> n - read_chunk n < n"
  by (simp_all add: read_chunk_def RM_L1_CACHE_RECOMMENDED_def)

definition rm_fpread ::
    "nat \<Rightarrow> nat \<Rightarrow> nat \<Rightarrow> stream \<Rightarrow> mutex option \<Rightarrow> bytes \<times> nat \<times> stream \<times> mutex option" where
  "rm_fpread sz items_n offset f m =
     (let m1 = mutex_lock m; (ok, f1) = fseek f offset
      in if \<not> ok then ([], 0, f1, m1)
         else let (buf, res, f2) = fread sz items_n f1 in (buf, res, f2, mutex_unlock m1))"

definition rm_fpwrite ::
    "bytes \<Rightarrow> nat \<Rightarrow> nat \<Rightarrow> nat \<Rightarrow> stream \<Rightarrow> mutex option \<Rightarrow> nat \<times> stream \<times> mutex option" where
  "rm_fpwrite buf sz items_n offset f m =
     (let m1 = mutex_lock m; (ok, f1) = fseek f offset
      in if \<not> ok then (0, f1, m1)
         else let (res, f2) = fwrite buf sz items_n f1 in (res, f2, mutex_unlock m1))"

text \<open>
  The copying loops return the error that ended them, if any, and the number of bytes still wanted.
\<close>

function copy_loop :: "nat \<Rightarrow> stream \<Rightarrow> stream \<Rightarrow> rm_error option \<times> nat \<times> stream \<times> stream" where
  "copy_loop bytes_n x y =
     (if 0 < bytes_n then
        let read_exp = read_chunk bytes_n; (buf, read, x1) = fread 1 read_exp x in
        if read = read_exp then
          let (written, y1) = fwrite buf 1 read_exp y in
          if written \<noteq> read_exp then (Some RM_ERR_WRITE, bytes_n, x1, y1)
          else copy_loop (bytes_n - read) x1 y1
        else (None, bytes_n, x1, y)
      else (None, bytes_n, x, y))"
  by pat_completeness auto
termination
  by (relation "measure (\<lambda>(n, x, y). n)") (auto simp: read_chunk_bounds)

declare copy_loop.simps [simp del]

definition copy_verdict :: "nat \<Rightarrow> stream \<Rightarrow> stream \<Rightarrow> rm_error" where
  "copy_verdict bytes_n x y =
     (if bytes_n = 0 then (if fs_eof x then RM_ERR_FEOF else RM_ERR_OK)
      else if fs_err x \<or> fs_err y then RM_ERR_FERROR
      else RM_ERR_TOO_MUCH_REQUESTED)"

definition rm_copy_buffered ::
    "stream \<Rightarrow> stream \<Rightarrow> nat \<Rightarrow> mutex option \<Rightarrow> rm_error \<times> stream \<times> stream \<times> mutex option" where
  "rm_copy_buffered x y bytes_n m =
     (let m1 = mutex_lock m;
          (e, left, x1, y1) = copy_loop bytes_n (rewind x) (rewind y);
          err = (case e of Some err \<Rightarrow> err | None \<Rightarrow> copy_verdict left x1 y1)
      in (err, x1, y1, mutex_unlock m1))"

function copy2_loop :: "nat \<Rightarrow> bytes \<Rightarrow> stream \<Rightarrow> nat \<times> bytes \<times> stream" where
  "copy2_loop bytes_n dst x =
     (if 0 < bytes_n then
        let read_exp = read_chunk bytes_n; (buf, read, x1) = fread 1 read_exp x in
        if read = read_exp then copy2_loop (bytes_n - read) (dst @ buf) x1
        else (bytes_n, dst @ buf, x1)
      else (bytes_n, dst, x))"
  by pat_completeness auto
termination
  by (relation "measure (\<lambda>(n, d, x). n)") (auto simp: read_chunk_bounds)

declare copy2_loop.simps [simp del]

text \<open>
  \<open>rm_copy_buffered_2\<close> returns what it has stored at \<open>dst\<close>. At its exit label it locks the mutex
  again where the other routines unlock it.
\<close>

definition rm_copy_buffered_2 ::
    "stream \<Rightarrow> nat \<Rightarrow> nat \<Rightarrow> mutex option \<Rightarrow> rm_error \<times> bytes \<times> stream \<times> mutex option" where
  "rm_copy_buffered_2 x offset bytes_n m =
     (let m1 = mutex_lock m; (ok, x1) = fseek x offset
      in if \<not> ok then (RM_ERR_FSEEK, [], x1, mutex_lock m1)
         else let (left, dst, x2) = copy2_loop bytes_n [] x1;
                  err = (if left = 0 then RM_ERR_OK
                         else if fs_err x2 then RM_ERR_FERROR
                         else RM_ERR_TOO_MUCH_REQUESTED)
              in (err, dst, x2, mutex_lock m1))"

function copy_off_loop ::
    "nat \<Rightarrow> nat \<Rightarrow> nat \<Rightarrow> nat \<Rightarrow> stream \<Rightarrow> stream \<Rightarrow> rm_error option \<times> nat \<times> stream \<times> stream" where
  "copy_off_loop bytes_n x_offset y_offset offset x y =
     (if 0 < bytes_n then
        let read_exp = read_chunk bytes_n;
            (buf, read, x1, _) = rm_fpread 1 read_exp (sz_add x_offset offset) x None in
        if read = read_exp then
          let (written, y1, _) = rm_fpwrite buf 1 read_exp (sz_add y_offset offset) y None in
          if written \<noteq> read_exp then (Some RM_ERR_WRITE, bytes_n, x1, y1)
          else copy_off_loop (bytes_n - read) x_offset y_offset (sz_add offset read) x1 y1
        else (None, bytes_n, x1, y)
      else (None, bytes_n, x, y))"
  by pat_completeness auto
termination
  by (relation "measure (\<lambda>(n, xo, yo, off, x, y). n)") (auto simp: read_chunk_bounds)

declare copy_off_loop.simps [simp del]

definition rm_copy_buffered_offset ::
    "stream \<Rightarrow> stream \<Rightarrow> nat \<Rightarrow> nat \<Rightarrow> nat \<Rightarrow> mutex option \<Rightarrow>
     rm_error \<times> stream \<times> stream \<times> mutex option" where
  "rm_copy_buffered_offset x y bytes_n x_offset y_offset m =
     (let m1 = mutex_lock m;
          (e, left, x1, y1) = copy_off_loop bytes_n x_offset y_offset 0 x y;
          err = (case e of Some err \<Rightarrow> err | None \<Rightarrow> copy_verdict left x1 y1)
      in (err, x1, y1, mutex_unlock m1))"

function cmp_loop :: "nat \<Rightarrow> stream \<Rightarrow> stream \<Rightarrow> rm_error option \<times> nat \<times> stream \<times> stream" where
  "cmp_loop bytes_n x y =
     (if 0 < bytes_n then
        let read_exp = read_chunk bytes_n; (buf1, read, x1) = fread 1 read_exp x in
        if read = read_exp then
          let (buf2, read2, y1) = fread 1 read_exp y in
          if read2 \<noteq> read_exp then (Some RM_ERR_READ, bytes_n, x1, y1)
          else if buf1 \<noteq> buf2 then (Some RM_ERR_FAIL, bytes_n, x1, y1)
          else cmp_loop (bytes_n - read) x1 y1
        else (None, bytes_n, x1, y)
      else (None, bytes_n, x, y))"
  by pat_completeness auto
termination
  by (relation "measure (\<lambda>(n, x, y). n)") (auto simp: read_chunk_bounds)

declare cmp_loop.simps [simp del]

definition rm_file_cmp ::
    "stream \<Rightarrow> stream \<Rightarrow> nat \<Rightarrow> nat \<Rightarrow> nat \<Rightarrow> rm_error \<times> stream \<times> stream" where
  "rm_file_cmp x y x_offset y_offset bytes_n =
     (let (okx, x1) = fseek x x_offset in
      if \<not> okx then (RM_ERR_FSEEK, x1, y)
      else let (oky, y1) = fseek y y_offset in
      if \<not> oky then (RM_ERR_FSEEK, x1, y1)
      else let (e, left, x2, y2) = cmp_loop bytes_n x1 y1;
               err = (case e of Some err \<Rightarrow> err
                      | None \<Rightarrow> if left = 0
                               then (if fs_eof x2 \<or> fs_eof y2 then RM_ERR_FEOF
                                     else if fs_err x2 \<or> fs_err y2 then RM_ERR_FERROR
                                     else RM_ERR_OK)
                               else RM_ERR_IO_ERROR)
           in (err, x2, y2))"

section \<open>Transfers\<close>

lemma length_fread: "length (fst (fread 1 n f)) = fst (snd (fread 1 n f))"
  by (simp add: fread_def Let_def)

lemma take_full: "length (take k xs) = length xs \<Longrightarrow> take k xs = xs"
  by (simp add: min_def split: if_splits)

text \<open>Whatever faults the stream has: a complete transfer moved the bytes at the position.\<close>

lemma fread_complete:
  assumes "fread 1 n f = (buf, n, f')"
  shows "buf = bslice (fs_bytes f) (fs_pos f) n" "n = 0 \<or> fs_pos f + n \<le> length (fs_bytes f)"
    "fs_bytes f' = fs_bytes f" "fs_pos f' = fs_pos f + n" "fs_seekable f' = fs_seekable f"
    "fs_eof f' = fs_eof f" "fs_err f' = fs_err f" "length buf = n"
proof -
  let ?avail = "bslice (fs_bytes f) (fs_pos f) n"
  let ?got = "take (within (fs_rbudget f) (length ?avail)) ?avail"
  from assms have b: "buf = ?got" and l: "length ?got = n"
    by (auto simp: fread_def Let_def)
  have "length ?avail \<le> n" "length ?got \<le> length ?avail"
    by (simp_all only: length_bslice length_take min.cobounded1 min.cobounded2)
  with l have full: "length ?avail = n" by linarith
  with l have got: "?got = ?avail" by (intro take_full) simp
  then show "buf = ?avail" using b by simp
  show "n = 0 \<or> fs_pos f + n \<le> length (fs_bytes f)"
    using full by (auto simp: length_bslice)
  show "fs_bytes f' = fs_bytes f" "fs_pos f' = fs_pos f + n" "fs_seekable f' = fs_seekable f"
    "fs_eof f' = fs_eof f" "fs_err f' = fs_err f" "length buf = n"
    using assms full got b by (auto simp: fread_def Let_def)
qed

lemma fwrite_complete:
  assumes "fwrite buf 1 n f = (n, f')" and "length buf = n"
  shows "fs_bytes f' = write_at (fs_bytes f) (fs_pos f) buf" "fs_pos f' = fs_pos f + n"
    "fs_seekable f' = fs_seekable f" "fs_err f' = fs_err f" "fs_eof f' = fs_eof f"
proof -
  from assms have "length (take (within (fs_wbudget f) n) buf) = length buf"
    by (auto simp: fwrite_def Let_def)
  then have "take (within (fs_wbudget f) n) buf = buf" by (rule take_full)
  with assms show "fs_bytes f' = write_at (fs_bytes f) (fs_pos f) buf" "fs_pos f' = fs_pos f + n"
    "fs_seekable f' = fs_seekable f" "fs_err f' = fs_err f" "fs_eof f' = fs_eof f"
    by (auto simp: fwrite_def Let_def)
qed

text \<open>A stream without faults: transfers are only limited by the end of the file.\<close>

definition healthy :: "stream \<Rightarrow> bool" where
  "healthy f \<longleftrightarrow> fs_seekable f \<and> fs_stat_ok f \<and> fs_rbudget f = None \<and> fs_wbudget f = None"

lemma healthy_open [simp]: "healthy (open_stream bs)" "fs_bytes (open_stream bs) = bs"
    "fs_err (open_stream bs) = False" "fs_eof (open_stream bs) = False" "fs_pos (open_stream bs) = 0"
  by (simp_all add: healthy_def open_stream_def)

lemma healthy_update [simp]:
  "healthy (f\<lparr>fs_pos := p\<rparr>) = healthy f" "healthy (f\<lparr>fs_eof := b\<rparr>) = healthy f"
  "healthy (f\<lparr>fs_err := b\<rparr>) = healthy f" "healthy (f\<lparr>fs_bytes := bs\<rparr>) = healthy f"
  by (simp_all add: healthy_def)

lemma stream_update_same [simp]:
  "f\<lparr>fs_pos := a, fs_eof := fs_eof f\<rparr> = f\<lparr>fs_pos := a\<rparr>" "f\<lparr>fs_pos := fs_pos f\<rparr> = f"
  "f\<lparr>fs_bytes := fs_bytes f, fs_pos := fs_pos f\<rparr> = f"
  by (cases f; simp)+

lemma fread_healthy [file_simps]:
  "healthy f \<Longrightarrow> fread 1 n f =
     (bslice (fs_bytes f) (fs_pos f) n, min n (length (fs_bytes f) - fs_pos f),
      f\<lparr>fs_pos := fs_pos f + min n (length (fs_bytes f) - fs_pos f),
        fs_eof := fs_eof f \<or> length (fs_bytes f) - fs_pos f < n\<rparr>)"
  by (cases f) (auto simp: healthy_def fread_def Let_def within_def spend_def length_bslice)

lemmas fread_healthy_Suc [file_simps] = fread_healthy [unfolded One_nat_def]

lemma fwrite_healthy [file_simps]:
  "healthy f \<Longrightarrow> length buf = n \<Longrightarrow> fwrite buf 1 n f =
     (n, f\<lparr>fs_bytes := write_at (fs_bytes f) (fs_pos f) buf, fs_pos := fs_pos f + n\<rparr>)"
  by (cases f) (auto simp: healthy_def fwrite_def Let_def within_def spend_def)

lemmas fwrite_healthy_Suc [file_simps] = fwrite_healthy [unfolded One_nat_def]

lemma fwrite_item_healthy [file_simps]:
  "healthy f \<Longrightarrow> length buf = n \<Longrightarrow> 0 < n \<Longrightarrow> fwrite buf n 1 f =
     (1, f\<lparr>fs_bytes := write_at (fs_bytes f) (fs_pos f) buf, fs_pos := fs_pos f + n\<rparr>)"
  by (cases f) (auto simp: healthy_def fwrite_def Let_def within_def spend_def)

lemmas fwrite_item_healthy_Suc [file_simps] = fwrite_item_healthy [unfolded One_nat_def]

lemma fseek_healthy [file_simps]:
  "healthy f \<Longrightarrow> off < off_max \<Longrightarrow> fseek f off = (True, f\<lparr>fs_pos := off, fs_eof := False\<rparr>)"
  by (simp add: healthy_def fseek_def)

lemma rewind_healthy [file_simps]:
  "healthy f \<Longrightarrow> rewind f = f\<lparr>fs_pos := 0, fs_eof := False, fs_err := False\<rparr>"
  by (simp add: rewind_def file_simps off_max_def)

lemma rm_fpread_healthy [file_simps]:
  "healthy f \<Longrightarrow> off < off_max \<Longrightarrow> rm_fpread 1 n off f m =
     (bslice (fs_bytes f) off n, min n (length (fs_bytes f) - off),
      f\<lparr>fs_pos := off + min n (length (fs_bytes f) - off),
        fs_eof := length (fs_bytes f) - off < n\<rparr>, mutex_unlock (mutex_lock m))"
  by (simp add: rm_fpread_def file_simps)

lemmas rm_fpread_healthy_Suc [file_simps] = rm_fpread_healthy [unfolded One_nat_def]

lemma rm_fpwrite_healthy [file_simps]:
  "healthy f \<Longrightarrow> off < off_max \<Longrightarrow> length buf = n \<Longrightarrow> rm_fpwrite buf 1 n off f m =
     (n, f\<lparr>fs_bytes := write_at (fs_bytes f) off buf, fs_pos := off + n, fs_eof := False\<rparr>,
      mutex_unlock (mutex_lock m))"
  by (simp add: rm_fpwrite_def file_simps)

lemmas rm_fpwrite_healthy_Suc [file_simps] = rm_fpwrite_healthy [unfolded One_nat_def]

lemma rm_fpwrite_item_healthy [file_simps]:
  "healthy f \<Longrightarrow> off < off_max \<Longrightarrow> length buf = n \<Longrightarrow> 0 < n \<Longrightarrow> rm_fpwrite buf n 1 off f m =
     (1, f\<lparr>fs_bytes := write_at (fs_bytes f) off buf, fs_pos := off + n, fs_eof := False\<rparr>,
      mutex_unlock (mutex_lock m))"
  by (simp add: rm_fpwrite_def file_simps)

lemmas rm_fpwrite_item_healthy_Suc [file_simps] = rm_fpwrite_item_healthy [unfolded One_nat_def]

section \<open>The loops\<close>

lemma bslice_chunks:
  "c \<le> n \<Longrightarrow> bslice xs p c @ bslice xs (p + c) (n - c) = bslice xs p n"
  by (metis bslice_append le_add_diff_inverse)

lemma write_at_chunks:
  assumes "c \<le> n" and "length (bslice xs p c) = c"
  shows "write_at (write_at ys q (bslice xs p c)) (q + c) (bslice xs (p + c) (n - c)) =
    write_at ys q (bslice xs p n)"
  using write_at_append [of ys q "bslice xs p c" "bslice xs (p + c) (n - c)"] assms
  by (simp add: bslice_chunks)

lemma copy_loop_complete:
  "copy_loop n x y = (None, 0, x', y') \<Longrightarrow>
     (n = 0 \<or> fs_pos x + n \<le> length (fs_bytes x)) \<and> fs_bytes x' = fs_bytes x \<and>
     fs_bytes y' = write_at (fs_bytes y) (fs_pos y) (bslice (fs_bytes x) (fs_pos x) n)"
proof (induction n x y rule: copy_loop.induct)
  case (1 n x y)
  show ?case
  proof (cases "0 < n")
    case True
    let ?c = "read_chunk n"
    note chunk = read_chunk_bounds [of n]
    obtain buf read x1 where r: "fread 1 ?c x = (buf, read, x1)" by (metis prod_cases3)
    obtain written y1 where w: "fwrite buf 1 ?c y = (written, y1)" by (metis surj_pair)
    have read: "read = ?c" and written: "written = ?c"
      and rest: "copy_loop (n - ?c) x1 y1 = (None, 0, x', y')"
      using "1.prems" True r w by (auto simp: copy_loop.simps [of n] Let_def split: if_splits)
    note r' = fread_complete [OF r [unfolded read]]
    note w' = fwrite_complete [OF w [unfolded written] r'(8)]
    from "1.IH" [OF True refl refl r [symmetric] refl read refl w [symmetric]] read written rest
    have ih: "(n - ?c = 0 \<or> fs_pos x1 + (n - ?c) \<le> length (fs_bytes x1)) \<and>
        fs_bytes x' = fs_bytes x1 \<and>
        fs_bytes y' = write_at (fs_bytes y1) (fs_pos y1) (bslice (fs_bytes x1) (fs_pos x1) (n - ?c))"
      by simp
    have "length (bslice (fs_bytes x) (fs_pos x) ?c) = ?c" using r'(1,8) by simp
    from write_at_chunks [OF chunk(1) this, of "fs_bytes y" "fs_pos y"] ih r' w' chunk True
    show ?thesis by auto
  next
    case False
    with "1.prems" show ?thesis by (simp add: copy_loop.simps)
  qed
qed

lemma copy_loop_healthy:
  "healthy x \<Longrightarrow> healthy y \<Longrightarrow> fs_pos x + n \<le> length (fs_bytes x) \<Longrightarrow>
     copy_loop n x y = (None, 0, x\<lparr>fs_pos := fs_pos x + n\<rparr>,
       y\<lparr>fs_bytes := write_at (fs_bytes y) (fs_pos y) (bslice (fs_bytes x) (fs_pos x) n),
         fs_pos := fs_pos y + n\<rparr>)"
proof (induction n arbitrary: x y rule: less_induct)
  case (less n)
  show ?case
  proof (cases "0 < n")
    case True
    let ?c = "read_chunk n"
    note chunk = read_chunk_bounds [of n]
    let ?x = "x\<lparr>fs_pos := fs_pos x + ?c\<rparr>"
    let ?y = "y\<lparr>fs_bytes := write_at (fs_bytes y) (fs_pos y) (bslice (fs_bytes x) (fs_pos x) ?c),
      fs_pos := fs_pos y + ?c\<rparr>"
    have b: "length (bslice (fs_bytes x) (fs_pos x) ?c) = ?c" "?c \<le> length (fs_bytes x) - fs_pos x"
      using less.prems chunk by simp_all
    have "copy_loop n x y = copy_loop (n - ?c) ?x ?y"
      using less.prems True chunk b
      by (subst copy_loop.simps) (simp add: file_simps min_def Let_def)
    also have "\<dots> = (None, 0, ?x\<lparr>fs_pos := fs_pos ?x + (n - ?c)\<rparr>,
       ?y\<lparr>fs_bytes := write_at (fs_bytes ?y) (fs_pos ?y) (bslice (fs_bytes ?x) (fs_pos ?x) (n - ?c)),
         fs_pos := fs_pos ?y + (n - ?c)\<rparr>)"
      using less.prems True chunk by (intro less.IH) simp_all
    finally show ?thesis
      using chunk write_at_chunks [OF chunk(1) b(1)] by simp
  next
    case False
    then show ?thesis by (simp add: copy_loop.simps)
  qed
qed

lemma copy_loop_short:
  "healthy x \<Longrightarrow> healthy y \<Longrightarrow> length (fs_bytes x) - fs_pos x < n \<Longrightarrow>
     \<exists>left x' y'. copy_loop n x y = (None, left, x', y') \<and> 0 < left \<and>
       fs_err x' = fs_err x \<and> fs_err y' = fs_err y"
proof (induction n arbitrary: x y rule: less_induct)
  case (less n)
  let ?c = "read_chunk n"
  note chunk = read_chunk_bounds [of n]
  let ?x = "x\<lparr>fs_pos := fs_pos x + ?c\<rparr>"
  let ?y = "y\<lparr>fs_bytes := write_at (fs_bytes y) (fs_pos y) (bslice (fs_bytes x) (fs_pos x) ?c),
    fs_pos := fs_pos y + ?c\<rparr>"
  show ?case
  proof (cases "length (fs_bytes x) - fs_pos x < ?c")
    case True
    with less.prems show ?thesis
      by (subst copy_loop.simps) (simp add: file_simps min_def Let_def)
  next
    case False
    have "copy_loop n x y = copy_loop (n - ?c) ?x ?y"
      using less.prems False chunk
      by (subst copy_loop.simps) (simp add: file_simps min_def Let_def length_bslice)
    moreover have "\<exists>left x' y'. copy_loop (n - ?c) ?x ?y = (None, left, x', y') \<and> 0 < left \<and>
        fs_err x' = fs_err ?x \<and> fs_err y' = fs_err ?y"
      using less.prems False chunk by (intro less.IH) auto
    ultimately show ?thesis by simp
  qed
qed

lemma copy2_loop_complete:
  "copy2_loop n dst x = (0, dst', x') \<Longrightarrow>
     (n = 0 \<or> fs_pos x + n \<le> length (fs_bytes x)) \<and> fs_bytes x' = fs_bytes x \<and>
     dst' = dst @ bslice (fs_bytes x) (fs_pos x) n"
proof (induction n dst x rule: copy2_loop.induct)
  case (1 n dst x)
  show ?case
  proof (cases "0 < n")
    case True
    let ?c = "read_chunk n"
    note chunk = read_chunk_bounds [of n]
    obtain buf read x1 where r: "fread 1 ?c x = (buf, read, x1)" by (metis prod_cases3)
    have read: "read = ?c" and rest: "copy2_loop (n - ?c) (dst @ buf) x1 = (0, dst', x')"
      using "1.prems" True r by (auto simp: copy2_loop.simps [of n] Let_def split: if_splits)
    note r' = fread_complete [OF r [unfolded read]]
    from "1.IH" [OF True refl refl r [symmetric] refl read] read rest
    have "(n - ?c = 0 \<or> fs_pos x1 + (n - ?c) \<le> length (fs_bytes x1)) \<and>
        fs_bytes x' = fs_bytes x1 \<and> dst' = (dst @ buf) @ bslice (fs_bytes x1) (fs_pos x1) (n - ?c)"
      by simp
    with r' chunk True show ?thesis by (auto simp: bslice_chunks)
  next
    case False
    with "1.prems" show ?thesis by (simp add: copy2_loop.simps)
  qed
qed

lemma copy2_loop_healthy:
  "healthy x \<Longrightarrow> fs_pos x + n \<le> length (fs_bytes x) \<Longrightarrow>
     copy2_loop n dst x =
       (0, dst @ bslice (fs_bytes x) (fs_pos x) n, x\<lparr>fs_pos := fs_pos x + n\<rparr>)"
proof (induction n arbitrary: dst x rule: less_induct)
  case (less n)
  show ?case
  proof (cases "0 < n")
    case True
    let ?c = "read_chunk n" and ?b = "bslice (fs_bytes x) (fs_pos x) (read_chunk n)"
    note chunk = read_chunk_bounds [of n]
    let ?x = "x\<lparr>fs_pos := fs_pos x + ?c\<rparr>"
    have "?c \<le> length (fs_bytes x) - fs_pos x" using less.prems chunk by simp
    then have "copy2_loop n dst x = copy2_loop (n - ?c) (dst @ ?b) ?x"
      using less.prems True chunk
      by (subst copy2_loop.simps) (simp add: file_simps min_def Let_def)
    also have "\<dots> = (0, (dst @ ?b) @ bslice (fs_bytes ?x) (fs_pos ?x) (n - ?c),
        ?x\<lparr>fs_pos := fs_pos ?x + (n - ?c)\<rparr>)"
      using less.prems True chunk by (intro less.IH) simp_all
    finally show ?thesis using chunk by (simp add: bslice_chunks)
  next
    case False
    then show ?thesis by (simp add: copy2_loop.simps)
  qed
qed

lemma rm_fpread_complete:
  assumes "rm_fpread 1 n off f m = (buf, n, f', m')" and "0 < n"
  shows "buf = bslice (fs_bytes f) off n" "off + n \<le> length (fs_bytes f)"
    "fs_bytes f' = fs_bytes f" "fs_err f' = fs_err f" "length buf = n" "\<not> fs_eof f'"
proof -
  obtain ok f1 where s: "fseek f off = (ok, f1)" by (metis surj_pair)
  obtain b r f2 where r: "fread 1 n f1 = (b, r, f2)" by (metis prod_cases3)
  have ok: "ok" and r': "fread 1 n f1 = (buf, n, f')"
    using assms s r by (auto simp: rm_fpread_def Let_def split: if_splits)
  then have "fs_pos f1 = off" "fs_bytes f1 = fs_bytes f" "fs_err f1 = fs_err f" "\<not> fs_eof f1"
    using s by (auto simp: fseek_def split: if_splits)
  with fread_complete [OF r'] assms(2)
  show "buf = bslice (fs_bytes f) off n" "off + n \<le> length (fs_bytes f)"
    "fs_bytes f' = fs_bytes f" "fs_err f' = fs_err f" "length buf = n" "\<not> fs_eof f'" by auto
qed

lemma rm_fpwrite_complete:
  assumes "rm_fpwrite buf 1 n off f m = (n, f', m')" and "0 < n" and "length buf = n"
  shows "fs_bytes f' = write_at (fs_bytes f) off buf" "fs_err f' = fs_err f"
proof -
  obtain ok f1 where s: "fseek f off = (ok, f1)" by (metis surj_pair)
  obtain r f2 where w: "fwrite buf 1 n f1 = (r, f2)" by (metis surj_pair)
  have ok: "ok" and w': "fwrite buf 1 n f1 = (n, f')"
    using assms s w by (auto simp: rm_fpwrite_def Let_def split: if_splits)
  then have "fs_pos f1 = off" "fs_bytes f1 = fs_bytes f" "fs_err f1 = fs_err f"
    using s by (auto simp: fseek_def split: if_splits)
  with fwrite_complete [OF w' assms(3)]
  show "fs_bytes f' = write_at (fs_bytes f) off buf" "fs_err f' = fs_err f" by auto
qed

lemma copy_off_loop_complete:
  "copy_off_loop n xo yo off x y = (None, 0, x', y') \<Longrightarrow>
     xo + off + n < size_t_mod \<Longrightarrow> yo + off + n < size_t_mod \<Longrightarrow>
     (n = 0 \<or> xo + off + n \<le> length (fs_bytes x)) \<and> fs_bytes x' = fs_bytes x \<and>
     fs_bytes y' = write_at (fs_bytes y) (yo + off) (bslice (fs_bytes x) (xo + off) n)"
proof (induction n xo yo off x y rule: copy_off_loop.induct)
  case (1 n xo yo off x y)
  show ?case
  proof (cases "0 < n")
    case True
    let ?c = "read_chunk n"
    note chunk = read_chunk_bounds [of n]
    have offs: "sz_add xo off = xo + off" "sz_add yo off = yo + off" "sz_add off ?c = off + ?c"
      using "1.prems" chunk by (simp_all add: sz_simps)
    obtain buf read x1 m1 where r: "rm_fpread 1 ?c (xo + off) x None = (buf, read, x1, m1)"
      by (metis prod_cases4)
    obtain written y1 m2 where w: "rm_fpwrite buf 1 ?c (yo + off) y None = (written, y1, m2)"
      by (metis prod_cases3)
    have read: "read = ?c" and written: "written = ?c"
      and rest: "copy_off_loop (n - ?c) xo yo (off + ?c) x1 y1 = (None, 0, x', y')"
      using "1.prems" True r w offs
      by (auto simp: copy_off_loop.simps [of n] Let_def split: if_splits)
    note r' = rm_fpread_complete [OF r [unfolded read] chunk(2) [OF True]]
    note w' = rm_fpwrite_complete [OF w [unfolded written] chunk(2) [OF True] r'(5)]
    from "1.IH" [OF True refl refl r [folded offs, symmetric] refl refl read refl
        w [folded offs, symmetric] refl] read written rest offs "1.prems"(2,3) chunk
    have ih: "(n - ?c = 0 \<or> xo + (off + ?c) + (n - ?c) \<le> length (fs_bytes x1)) \<and>
        fs_bytes x' = fs_bytes x1 \<and>
        fs_bytes y' = write_at (fs_bytes y1) (yo + (off + ?c))
          (bslice (fs_bytes x1) (xo + (off + ?c)) (n - ?c))"
      by simp
    have "length (bslice (fs_bytes x) (xo + off) ?c) = ?c" using r'(1,5) by simp
    from write_at_chunks [OF chunk(1) this, of "fs_bytes y" "yo + off"] ih r' w' chunk True
    show ?thesis by (auto simp: add.assoc)
  next
    case False
    with "1.prems" show ?thesis by (simp add: copy_off_loop.simps)
  qed
qed

lemma copy_off_loop_healthy:
  "healthy x \<Longrightarrow> healthy y \<Longrightarrow> xo + off + n \<le> length (fs_bytes x) \<Longrightarrow>
     xo + off + n \<le> off_max \<Longrightarrow> yo + off + n \<le> off_max \<Longrightarrow> (n = 0 \<longrightarrow> \<not> fs_eof x) \<Longrightarrow>
     \<exists>x' y'. copy_off_loop n xo yo off x y = (None, 0, x', y') \<and> \<not> fs_eof x' \<and>
       healthy x' \<and> healthy y'"
proof (induction n arbitrary: off x y rule: less_induct)
  case (less n)
  show ?case
  proof (cases "0 < n")
    case True
    let ?c = "read_chunk n"
    note chunk = read_chunk_bounds [of n]
    have c: "?c \<le> length (fs_bytes x) - (xo + off)" "0 < ?c"
      using less.prems chunk True by simp_all
    have offs: "sz_add xo off = xo + off" "sz_add yo off = yo + off" "sz_add off ?c = off + ?c"
      using less.prems chunk off_max_size_t by (simp_all add: sz_simps)
    let ?x = "x\<lparr>fs_pos := xo + off + ?c, fs_eof := False\<rparr>"
    let ?y = "y\<lparr>fs_bytes := write_at (fs_bytes y) (yo + off) (bslice (fs_bytes x) (xo + off) ?c),
      fs_pos := yo + off + ?c, fs_eof := False\<rparr>"
    have "copy_off_loop n xo yo off x y = copy_off_loop (n - ?c) xo yo (off + ?c) ?x ?y"
      using less.prems True chunk c offs
      by (subst copy_off_loop.simps) (simp add: file_simps min_def Let_def not_less)
    moreover have "\<exists>x' y'. copy_off_loop (n - ?c) xo yo (off + ?c) ?x ?y = (None, 0, x', y') \<and>
        \<not> fs_eof x' \<and> healthy x' \<and> healthy y'"
      using less.prems True chunk by (intro less.IH) simp_all
    ultimately show ?thesis by simp
  next
    case False
    with less.prems show ?thesis by (simp add: copy_off_loop.simps)
  qed
qed

lemma cmp_loop_healthy:
  "healthy x \<Longrightarrow> healthy y \<Longrightarrow> fs_pos x + n \<le> length (fs_bytes x) \<Longrightarrow>
     fs_pos y + n \<le> length (fs_bytes y) \<Longrightarrow>
     \<exists>left x' y'. cmp_loop n x y =
       (if bslice (fs_bytes x) (fs_pos x) n = bslice (fs_bytes y) (fs_pos y) n then None
        else Some RM_ERR_FAIL, left, x', y') \<and>
       (bslice (fs_bytes x) (fs_pos x) n = bslice (fs_bytes y) (fs_pos y) n \<longrightarrow> left = 0) \<and>
       fs_eof x' = fs_eof x \<and> fs_eof y' = fs_eof y \<and> fs_err x' = fs_err x \<and> fs_err y' = fs_err y"
proof (induction n arbitrary: x y rule: less_induct)
  case (less n)
  show ?case
  proof (cases "0 < n")
    case True
    let ?c = "read_chunk n"
    note chunk = read_chunk_bounds [of n]
    let ?x = "x\<lparr>fs_pos := fs_pos x + ?c\<rparr>" and ?y = "y\<lparr>fs_pos := fs_pos y + ?c\<rparr>"
    let ?bx = "bslice (fs_bytes x) (fs_pos x)" and ?by = "bslice (fs_bytes y) (fs_pos y)"
    have c: "?c \<le> length (fs_bytes x) - fs_pos x" "?c \<le> length (fs_bytes y) - fs_pos y" "0 < ?c"
      using less.prems chunk True by simp_all
    then have len: "length (?bx ?c) = ?c" "length (?by ?c) = ?c"
      using less.prems chunk by simp_all
    have step: "cmp_loop n x y = (if ?bx ?c \<noteq> ?by ?c then (Some RM_ERR_FAIL, n, ?x, ?y)
        else cmp_loop (n - ?c) ?x ?y)"
      using less.prems True c by (subst cmp_loop.simps) (simp add: file_simps min_def Let_def not_less)
    have "?bx n = ?bx ?c @ bslice (fs_bytes x) (fs_pos x + ?c) (n - ?c)"
      "?by n = ?by ?c @ bslice (fs_bytes y) (fs_pos y + ?c) (n - ?c)"
      using chunk by (simp_all add: bslice_chunks)
    then have split: "?bx n = ?by n \<longleftrightarrow> ?bx ?c = ?by ?c \<and>
        bslice (fs_bytes x) (fs_pos x + ?c) (n - ?c) = bslice (fs_bytes y) (fs_pos y + ?c) (n - ?c)"
      using len by simp
    have n: "n - ?c < n" using True c by simp
    show ?thesis
    proof (cases "?bx ?c = ?by ?c")
      case True
      with less.IH [OF n, of ?x ?y] less.prems chunk split step show ?thesis by simp
    next
      case False
      with split step show ?thesis by simp
    qed
  next
    case False
    then show ?thesis by (simp add: cmp_loop.simps)
  qed
qed

text \<open>The loops never produce \<open>RM_ERR_OK\<close> themselves: the only error they return is a failed write.\<close>

lemma copy_loop_err: "copy_loop n x y = (Some e, left, x', y') \<Longrightarrow> e = RM_ERR_WRITE"
proof (induction n arbitrary: x y rule: less_induct)
  case (less n)
  show ?case
  proof (cases "0 < n")
    case True
    note ih = less.IH [OF read_chunk_bounds(3) [OF True]]
    from less.prems True ih show ?thesis
      by (auto simp: copy_loop.simps [of n] Let_def split: if_splits prod.splits)
  next
    case False
    with less.prems show ?thesis by (simp add: copy_loop.simps)
  qed
qed

lemma copy_off_loop_err: "copy_off_loop n xo yo off x y = (Some e, left, x', y') \<Longrightarrow> e = RM_ERR_WRITE"
proof (induction n arbitrary: off x y rule: less_induct)
  case (less n)
  show ?case
  proof (cases "0 < n")
    case True
    note ih = less.IH [OF read_chunk_bounds(3) [OF True]]
    from less.prems True ih show ?thesis
      by (auto simp: copy_off_loop.simps [of n] Let_def split: if_splits prod.splits)
  next
    case False
    with less.prems show ?thesis by (simp add: copy_off_loop.simps)
  qed
qed

section \<open>The routines\<close>

lemma rm_copy_buffered_sound:
  assumes "rm_copy_buffered x y n m = (RM_ERR_OK, x', y', m')" and "fs_seekable x" and "fs_seekable y"
  shows "n \<le> length (fs_bytes x)" and "fs_bytes x' = fs_bytes x"
    and "fs_bytes y' = write_at (fs_bytes y) 0 (take n (fs_bytes x))"
proof -
  obtain e left x1 y1 where l: "copy_loop n (rewind x) (rewind y) = (e, left, x1, y1)"
    by (metis prod_cases4)
  have "copy_loop n (rewind x) (rewind y) = (None, 0, x', y')"
    using assms(1) l
    by (cases e; cases "left = 0")
      (auto simp: rm_copy_buffered_def copy_verdict_def Let_def split: if_splits
        dest: copy_loop_err)
  from copy_loop_complete [OF this] assms(2,3)
  show "n \<le> length (fs_bytes x)" "fs_bytes x' = fs_bytes x"
    "fs_bytes y' = write_at (fs_bytes y) 0 (take n (fs_bytes x))"
    by (auto simp: rewind_def fseek_def off_max_def bslice_def)
qed

lemma rm_copy_buffered_healthy:
  assumes "healthy x" and "healthy y" and "n \<le> length (fs_bytes x)"
  shows "\<exists>x' y'. rm_copy_buffered x y n m = (RM_ERR_OK, x', y', mutex_unlock (mutex_lock m)) \<and>
    healthy x' \<and> healthy y' \<and> fs_bytes x' = fs_bytes x \<and>
    fs_bytes y' = write_at (fs_bytes y) 0 (take n (fs_bytes x))"
  using assms copy_loop_healthy [of "rewind x" "rewind y" n]
  by (simp add: rm_copy_buffered_def copy_verdict_def file_simps Let_def bslice_def)

lemma rm_copy_buffered_short:
  assumes "healthy x" and "healthy y" and "length (fs_bytes x) < n"
  shows "fst (rm_copy_buffered x y n m) = RM_ERR_TOO_MUCH_REQUESTED"
  using assms copy_loop_short [of "rewind x" "rewind y" n]
  by (auto simp: rm_copy_buffered_def copy_verdict_def file_simps Let_def)

lemma rm_copy_buffered_2_sound:
  assumes "rm_copy_buffered_2 x off n m = (RM_ERR_OK, dst, x', m')"
  shows "dst = bslice (fs_bytes x) off n" and "n = 0 \<or> off + n \<le> length (fs_bytes x)"
    and "fs_bytes x' = fs_bytes x"
proof -
  obtain ok x1 where s: "fseek x off = (ok, x1)" by (metis surj_pair)
  obtain left d x2 where l: "copy2_loop n [] x1 = (left, d, x2)" by (metis prod_cases3)
  have ok: "ok" and l': "copy2_loop n [] x1 = (0, dst, x')"
    using assms s l by (auto simp: rm_copy_buffered_2_def Let_def split: if_splits)
  with s have "fs_pos x1 = off" "fs_bytes x1 = fs_bytes x"
    by (auto simp: fseek_def split: if_splits)
  with copy2_loop_complete [OF l']
  show "dst = bslice (fs_bytes x) off n" "n = 0 \<or> off + n \<le> length (fs_bytes x)"
    "fs_bytes x' = fs_bytes x" by auto
qed

lemma rm_copy_buffered_2_healthy:
  assumes "healthy x" and "off + n \<le> length (fs_bytes x)" and "off < off_max"
  shows "rm_copy_buffered_2 x off n m = (RM_ERR_OK, bslice (fs_bytes x) off n,
    x\<lparr>fs_pos := off + n, fs_eof := False\<rparr>, mutex_lock (mutex_lock m))"
  using assms copy2_loop_healthy [of "x\<lparr>fs_pos := off, fs_eof := False\<rparr>" n "[]"]
  by (simp add: rm_copy_buffered_2_def file_simps Let_def)

lemma rm_copy_buffered_offset_sound:
  assumes "rm_copy_buffered_offset x y n xo yo m = (RM_ERR_OK, x', y', m')"
    and "xo + n < size_t_mod" and "yo + n < size_t_mod"
  shows "n = 0 \<or> xo + n \<le> length (fs_bytes x)" and "fs_bytes x' = fs_bytes x"
    and "fs_bytes y' = write_at (fs_bytes y) yo (bslice (fs_bytes x) xo n)"
proof -
  obtain e left x1 y1 where l: "copy_off_loop n xo yo 0 x y = (e, left, x1, y1)"
    by (metis prod_cases4)
  have "copy_off_loop n xo yo 0 x y = (None, 0, x', y')"
    using assms(1) l
    by (cases e; cases "left = 0")
      (auto simp: rm_copy_buffered_offset_def copy_verdict_def Let_def split: if_splits
        dest: copy_off_loop_err)
  from copy_off_loop_complete [OF this] assms(2,3)
  show "n = 0 \<or> xo + n \<le> length (fs_bytes x)" "fs_bytes x' = fs_bytes x"
    "fs_bytes y' = write_at (fs_bytes y) yo (bslice (fs_bytes x) xo n)" by auto
qed

lemma rm_copy_buffered_offset_healthy:
  assumes "healthy x" and "healthy y" and "0 < n" and "xo + n \<le> length (fs_bytes x)"
    and "xo + n \<le> off_max" and "yo + n \<le> off_max"
  shows "\<exists>x' y'. rm_copy_buffered_offset x y n xo yo m =
      (RM_ERR_OK, x', y', mutex_unlock (mutex_lock m)) \<and>
    healthy x' \<and> healthy y' \<and> fs_bytes x' = fs_bytes x \<and>
    fs_bytes y' = write_at (fs_bytes y) yo (bslice (fs_bytes x) xo n)"
proof -
  obtain x' y' where l: "copy_off_loop n xo yo 0 x y = (None, 0, x', y')"
      "\<not> fs_eof x'" "healthy x'" "healthy y'"
    using copy_off_loop_healthy [of x y xo 0 n yo] assms by auto
  with copy_off_loop_complete [OF l(1)] assms off_max_size_t show ?thesis
    by (simp add: rm_copy_buffered_offset_def copy_verdict_def Let_def)
qed

section \<open>Properties\<close>

text \<open>
  Copying the first \<open>n\<close> bytes: on streams without faults the call succeeds exactly when the
  source has \<open>n\<close> bytes, then the target starts with them and is otherwise unchanged; a shorter
  source gives \<open>RM_ERR_TOO_MUCH_REQUESTED\<close>. The mutex is released on every path.
\<close>
theorem copy_buffered_correct:
  assumes "healthy x" and "healthy y"
  shows "(case rm_copy_buffered x y n (Some Mutex_Free) of (err, x', y', m') \<Rightarrow>
     err = (if n \<le> length (fs_bytes x) then RM_ERR_OK else RM_ERR_TOO_MUCH_REQUESTED) \<and>
     (err = RM_ERR_OK \<longrightarrow> fs_bytes y' = write_at (fs_bytes y) 0 (take n (fs_bytes x))) \<and>
     m' = Some Mutex_Free)"
proof (cases "n \<le> length (fs_bytes x)")
  case True
  then obtain x' y' where "rm_copy_buffered x y n (Some Mutex_Free) = (RM_ERR_OK, x', y', Some Mutex_Free)"
      "fs_bytes y' = write_at (fs_bytes y) 0 (take n (fs_bytes x))"
    using rm_copy_buffered_healthy [OF assms, of n "Some Mutex_Free"] by auto
  with True show ?thesis by simp
next
  case False
  with rm_copy_buffered_short [OF assms, of n "Some Mutex_Free"] show ?thesis
    by (auto simp: rm_copy_buffered_def Let_def split: prod.splits)
qed

theorem copy_buffered_correct_witness:
  "(case rm_copy_buffered (open_stream [1, 2, 3]) (open_stream [7, 7, 7, 7]) 2 (Some Mutex_Free) of
     (err, x', y', m') \<Rightarrow>
     err = (if 2 \<le> length (fs_bytes (open_stream [1, 2, 3])) then RM_ERR_OK
            else RM_ERR_TOO_MUCH_REQUESTED) \<and>
     (err = RM_ERR_OK \<longrightarrow> fs_bytes y' = write_at (fs_bytes (open_stream [7, 7, 7, 7])) 0
        (take 2 (fs_bytes (open_stream [1, 2, 3])))) \<and> m' = Some Mutex_Free)"
  by (rule copy_buffered_correct) simp_all

text \<open>
  Success is never reported wrongly, whatever read, write and positioning faults the streams
  have: if the copy at offsets returns \<open>RM_ERR_OK\<close> then all the bytes requested were in the source
  and are now at the requested place of the target, and nothing else of it changed.
\<close>
theorem copy_buffered_offset_ok_sound:
  assumes "rm_copy_buffered_offset x y n xo yo m = (RM_ERR_OK, x', y', m')"
    and "xo + n < size_t_mod" and "yo + n < size_t_mod" and "0 < n"
  shows "xo + n \<le> length (fs_bytes x) \<and>
    fs_bytes y' = write_at (fs_bytes y) yo (bslice (fs_bytes x) xo n)"
  using assms rm_copy_buffered_offset_sound [OF assms(1-3)] by simp

theorem copy_buffered_offset_ok_sound_witness:
  "fs_bytes (fst (snd (snd (rm_copy_buffered_offset (open_stream [1, 2, 3, 4]) (open_stream [7]) 2 1 1 None))))
     = write_at [7] 1 [2, 3]"
proof -
  obtain x' y' where run: "rm_copy_buffered_offset (open_stream [1, 2, 3, 4]) (open_stream [7]) 2 1 1 None =
      (RM_ERR_OK, x', y', None)"
    using rm_copy_buffered_offset_healthy [of "open_stream [1, 2, 3, 4]" "open_stream [7]" 2 1 1 None]
    by (auto simp: off_max_def)
  from copy_buffered_offset_ok_sound [OF run] show ?thesis
    by (simp add: run [unfolded One_nat_def] size_t_mod_def bslice_def)
qed

text \<open>
  Comparing \<open>n\<close> bytes of two files gives \<open>RM_ERR_OK\<close> exactly when the two ranges hold the same
  bytes and \<open>RM_ERR_FAIL\<close> otherwise.
\<close>
theorem file_cmp_decides_equality:
  assumes "healthy x" and "healthy y" and "\<not> fs_err x" and "\<not> fs_err y"
    and "xo + n \<le> length (fs_bytes x)" and "yo + n \<le> length (fs_bytes y)"
    and "xo < off_max" and "yo < off_max"
  shows "fst (rm_file_cmp x y xo yo n) =
    (if bslice (fs_bytes x) xo n = bslice (fs_bytes y) yo n then RM_ERR_OK else RM_ERR_FAIL)"
  using assms cmp_loop_healthy [of "x\<lparr>fs_pos := xo, fs_eof := False\<rparr>" "y\<lparr>fs_pos := yo, fs_eof := False\<rparr>" n]
  by (auto simp: rm_file_cmp_def file_simps Let_def split: if_splits)

theorem file_cmp_decides_equality_witness:
  "fst (rm_file_cmp (open_stream [1, 2, 3]) (open_stream [2, 3]) 1 0 2) = RM_ERR_OK"
  using file_cmp_decides_equality [of "open_stream [1, 2, 3]" "open_stream [2, 3]" 1 2 0]
  by (simp add: off_max_def bslice_def)

text \<open>
  Two routines do not give the mutex back: \<open>rm_copy_buffered_2\<close> always locks a second time
  instead of unlocking, so a call with a mutex deadlocks, and \<open>rm_fpread\<close> and \<open>rm_fpwrite\<close> return
  with the mutex held when the stream cannot be positioned.
\<close>
theorem mutex_leaks:
  "snd (snd (snd (rm_copy_buffered_2 x off n (Some Mutex_Free)))) = Some Mutex_Deadlock \<and>
   snd (snd (snd (rm_fpread 1 n off (x\<lparr>fs_seekable := False\<rparr>) (Some Mutex_Free)))) = Some Mutex_Held \<and>
   snd (snd (rm_fpwrite buf 1 n off (x\<lparr>fs_seekable := False\<rparr>) (Some Mutex_Free))) = Some Mutex_Held"
  by (simp add: rm_copy_buffered_2_def rm_fpread_def rm_fpwrite_def Let_def fseek_def mutex_lock_def
      split: prod.splits)

end
