(* ===== verification/RM_Rx.thy ===== *)
theory RM_Rx
  imports RM_File RM_Checksum RM_MD5
begin

text \<open>
  The receiver's routines of \<^verbatim>\<open>src/rm_rx.c\<close>: computing the checksums of the nonoverlapping
  blocks of a file (into a hash table, an array or a list), applying one delta element to the
  reconstructed file, and the numbers of the statistics. The hash table is a container of the twlist
  submodule, which is not part of the repository: it is a record of operations, and what is used of
  them is \<open>twhash_ok\<close>.
\<close>

section \<open>The hash table of the twlist submodule\<close>

record 'h twhash =
  tw_add_bits :: "'h \<Rightarrow> rm_ch_ch_ref \<Rightarrow> u32 \<Rightarrow> nat \<Rightarrow> 'h"
  tw_bucket :: "'h \<Rightarrow> u32 \<Rightarrow> rm_ch_ch_ref list"
  tw_min :: "u32 \<Rightarrow> nat \<Rightarrow> u32"

text \<open>
  Adding an entry under a key puts it into the bucket the key hashes to and leaves the other buckets
  as they are.
\<close>

definition twhash_ok :: "'h twhash \<Rightarrow> bool" where
  "twhash_ok tw \<longleftrightarrow> (\<forall>h e key bits i.
     set (tw_bucket tw (tw_add_bits tw h e key bits) i) =
       (if i = tw_min tw key bits then insert e (set (tw_bucket tw h i)) else set (tw_bucket tw h i)))"

text \<open>An instance: buckets as lists, the key reduced to its low bits.\<close>

definition tw_lists :: "(u32 \<Rightarrow> rm_ch_ch_ref list) twhash" where
  "tw_lists = \<lparr>tw_add_bits = (\<lambda>h e key bits. h(take_bit bits key := e # h (take_bit bits key))),
     tw_bucket = (\<lambda>h i. h i), tw_min = (\<lambda>key bits. take_bit bits key)\<rparr>"

lemma tw_lists_ok: "twhash_ok tw_lists"
  by (auto simp: twhash_ok_def tw_lists_def)

section \<open>Checksums of nonoverlapping blocks\<close>

type_synonym 'w tx_ch_ch_ref = "int \<Rightarrow> rm_ch_ch_ref \<Rightarrow> 'w \<Rightarrow> rm_error \<times> 'w"

record ('h, 'w) ins_state =
  ins_f :: stream
  ins_mutex :: "mutex option"
  ins_h :: "'h option"
  ins_w :: 'w
  ins_n :: nat
  ins_k :: nat

text \<open>
  One pass of the loop of \<open>rm_rx_insert_nonoverlapping_ch_ch_ref\<close>: \<open>Some err\<close> is a jump to \<open>done\<close>.
  \<open>ins_n\<close> is \<open>entries_n\<close> and \<open>ins_k\<close> counts the calls of \<open>malloc\<close>.
\<close>

definition insert_ref_step ::
    "'h twhash \<Rightarrow> mem_oracle \<Rightarrow> int \<Rightarrow> nat \<Rightarrow> 'w tx_ch_ch_ref option \<Rightarrow> nat \<Rightarrow>
     ('h, 'w) ins_state \<Rightarrow> rm_error option \<times> ('h, 'w) ins_state" where
  "insert_ref_step tw mem fd L tx read_now s =
     (let (buf, read, f, m) = rm_fpread 1 read_now (sz_mul L (ins_n s)) (ins_f s) (ins_mutex s);
          s1 = s\<lparr>ins_f := f, ins_mutex := m\<rparr>
      in if read \<noteq> read_now then (Some RM_ERR_READ, s1)
         else if \<not> mem (ins_k s1) then (Some RM_ERR_MEM, s1\<lparr>ins_k := ins_k s1 + 1\<rparr>)
         else
           let s2 = s1\<lparr>ins_k := ins_k s1 + 1\<rparr>;
               e = \<lparr>f_ch = rm_fast_check_block buf, s_ch = rm_md5 buf, ch_ref = ins_n s2\<rparr>;
               (res, w) = (case tx of None \<Rightarrow> (RM_ERR_OK, ins_w s2) | Some g \<Rightarrow> g fd e (ins_w s2));
               s3 = s2\<lparr>ins_w := w\<rparr>
           in if res \<noteq> RM_ERR_OK then (Some RM_ERR_TX, s3)
              else (None, s3\<lparr>ins_h := map_option (\<lambda>h. tw_add_bits tw h e (f_ch e)
                                RM_NONOVERLAPPING_HASH_BITS) (ins_h s3),
                             ins_n := ins_n s3 + 1\<rparr>))"

function insert_ref_loop ::
    "'h twhash \<Rightarrow> mem_oracle \<Rightarrow> int \<Rightarrow> nat \<Rightarrow> 'w tx_ch_ch_ref option \<Rightarrow> nat \<Rightarrow> nat \<Rightarrow> nat \<Rightarrow>
     ('h, 'w) ins_state \<Rightarrow> rm_error \<times> ('h, 'w) ins_state" where
  "insert_ref_loop tw mem fd L tx limit read_left read_now s =
     (case insert_ref_step tw mem fd L tx read_now s of
        (Some err, s') \<Rightarrow> (err, s')
      | (None, s') \<Rightarrow>
          let left = read_left - read_now; now = min L left
          in if 0 < now \<and> ins_n s' < limit
             then insert_ref_loop tw mem fd L tx limit left now s'
             else (RM_ERR_OK, s'))"
  by pat_completeness auto
termination
  by (relation "measures [\<lambda>(tw, mem, fd, L, tx, limit, left, now, s). left,
    \<lambda>(tw, mem, fd, L, tx, limit, left, now, s). if now = 0 then 1 else 0]") auto

declare insert_ref_loop.simps [simp del]

text \<open>The result is the error, the value stored at \<open>blocks_n\<close>, and the state.\<close>

definition rm_rx_insert_nonoverlapping_ch_ch_ref ::
    "'h twhash \<Rightarrow> mem_oracle \<Rightarrow> int \<Rightarrow> stream \<Rightarrow> 'h option \<Rightarrow> nat \<Rightarrow> 'w tx_ch_ch_ref option \<Rightarrow> nat \<Rightarrow>
     mutex option \<Rightarrow> 'w \<Rightarrow> rm_error \<times> nat \<times> ('h, 'w) ins_state" where
  "rm_rx_insert_nonoverlapping_ch_ch_ref tw mem fd f h L tx limit m w =
     (let s = \<lparr>ins_f = f, ins_mutex = m, ins_h = h, ins_w = w, ins_n = 0, ins_k = 0\<rparr>
      in if L = 0 \<or> fd < 0 then (RM_ERR_BAD_CALL, 0, s)
         else
           let s0 = s\<lparr>ins_mutex := mutex_unlock (mutex_lock m)\<rparr>
           in case fstat_size f of
                None \<Rightarrow> (RM_ERR_FSTAT, 0, s0)
              | Some file_sz \<Rightarrow>
                  if file_sz = 0 then (RM_ERR_OK, 0, s0)
                  else
                    let read_now = min L file_sz; s1 = s0\<lparr>ins_k := 1\<rparr>
                    in if \<not> mem 0 then (RM_ERR_MEM, 0, s1)
                       else let (err, s2) = insert_ref_loop tw mem fd L tx limit file_sz read_now s1
                            in (err, ins_n s2, s2))"

text \<open>\<open>struct rm_ch_ch\<close>: the checksums without the block number.\<close>

record rm_ch_ch =
  c_f_ch :: u32
  c_s_ch :: bytes

type_synonym 'w tx_ch_ch = "rm_ch_ch \<Rightarrow> 'w \<Rightarrow> rm_error \<times> 'w"

text \<open>
  The array variant. Its sizes are \<open>uint32_t\<close>; the array of the caller has the length of the list,
  and storing past its end is the outcome \<open>None\<close>.
\<close>

function insert_array_loop ::
    "nat \<Rightarrow> 'w tx_ch_ch option \<Rightarrow> nat \<Rightarrow> nat \<Rightarrow> nat \<Rightarrow> nat \<Rightarrow> stream \<Rightarrow> rm_ch_ch list \<Rightarrow> 'w \<Rightarrow>
     (rm_error \<times> nat \<times> stream \<times> rm_ch_ch list \<times> 'w) option" where
  "insert_array_loop L tx limit read_left read_now entries_n f checksums w =
     (let (buf, read, f1) = fread 1 read_now f in
      if read \<noteq> read_now then Some (RM_ERR_READ, entries_n, f1, checksums, w)
      else if length checksums \<le> entries_n then None
      else
        let e = \<lparr>c_f_ch = rm_fast_check_block buf, c_s_ch = rm_md5 buf\<rparr>;
            cs = checksums[entries_n := e];
            (res, w1) = (case tx of None \<Rightarrow> (RM_ERR_OK, w) | Some g \<Rightarrow> g e w)
        in if res \<noteq> RM_ERR_OK then Some (RM_ERR_TX, entries_n, f1, cs, w1)
           else
             let n = entries_n + 1; left = read_left - read_now; now = min L left
             in if 0 < now \<and> n < limit then insert_array_loop L tx limit left now n f1 cs w1
                else Some (RM_ERR_OK, n, f1, cs, w1))"
  by pat_completeness auto
termination
  by (relation "measures [\<lambda>(L, tx, limit, left, now, n, f, cs, w). left,
    \<lambda>(L, tx, limit, left, now, n, f, cs, w). if now = 0 then 1 else 0]") auto

declare insert_array_loop.simps [simp del]

definition rm_rx_insert_nonoverlapping_ch_ch_array ::
    "mem_oracle \<Rightarrow> stream \<Rightarrow> rm_ch_ch list \<Rightarrow> nat \<Rightarrow> 'w tx_ch_ch option \<Rightarrow> nat \<Rightarrow> nat \<Rightarrow> 'w \<Rightarrow>
     (rm_error \<times> nat \<times> stream \<times> rm_ch_ch list \<times> 'w) option" where
  "rm_rx_insert_nonoverlapping_ch_ch_array mem f checksums L tx limit blocks_n w =
     (if L = 0 then Some (RM_ERR_BAD_CALL, blocks_n, f, checksums, w)
      else case fstat_size f of
        None \<Rightarrow> Some (RM_ERR_FSTAT, blocks_n, f, checksums, w)
      | Some sz \<Rightarrow>
          let file_sz = sz mod 2 ^ 32; read_now = min L file_sz
          in if \<not> mem 0 then Some (RM_ERR_MEM, blocks_n, f, checksums, w)
             else map_option (\<lambda>(err, n, st). (err, if err = RM_ERR_OK then n else blocks_n, st))
                    (insert_array_loop L tx limit file_sz read_now 0 f checksums w))"

text \<open>The list variant appends entries with their block number to a list.\<close>

function insert_link_loop ::
    "mem_oracle \<Rightarrow> nat \<Rightarrow> nat \<Rightarrow> nat \<Rightarrow> nat \<Rightarrow> nat \<Rightarrow> stream \<Rightarrow> rm_ch_ch_ref list \<Rightarrow>
     rm_error \<times> nat \<times> stream \<times> rm_ch_ch_ref list" where
  "insert_link_loop mem L limit read_left read_now entries_n f l =
     (let (buf, read, f1) = fread 1 read_now f in
      if read \<noteq> read_now then (RM_ERR_READ, entries_n, f1, l)
      else if \<not> mem (Suc entries_n) then (RM_ERR_MEM, entries_n, f1, l)
      else
        let l1 = l @ [\<lparr>f_ch = rm_fast_check_block buf, s_ch = rm_md5 buf, ch_ref = entries_n\<rparr>];
            n = entries_n + 1; left = read_left - read_now; now = min L left
        in if 0 < now \<and> n < limit then insert_link_loop mem L limit left now n f1 l1
           else (RM_ERR_OK, n, f1, l1))"
  by pat_completeness auto
termination
  by (relation "measures [\<lambda>(mem, L, limit, left, now, n, f, l). left,
    \<lambda>(mem, L, limit, left, now, n, f, l). if now = 0 then 1 else 0]") auto

declare insert_link_loop.simps [simp del]

definition rm_rx_insert_nonoverlapping_ch_ch_ref_link ::
    "mem_oracle \<Rightarrow> stream \<Rightarrow> rm_ch_ch_ref list \<Rightarrow> nat \<Rightarrow> nat \<Rightarrow> nat \<Rightarrow>
     rm_error \<times> nat \<times> stream \<times> rm_ch_ch_ref list" where
  "rm_rx_insert_nonoverlapping_ch_ch_ref_link mem f l L limit blocks_n =
     (if L = 0 then (RM_ERR_BAD_CALL, blocks_n, f, l)
      else case fstat_size f of
        None \<Rightarrow> (RM_ERR_FSTAT, blocks_n, f, l)
      | Some sz \<Rightarrow>
          let file_sz = sz mod 2 ^ 32; read_now = min L file_sz
          in if \<not> mem 0 then (RM_ERR_MEM, blocks_n, f, l)
             else let (err, n, st) = insert_link_loop mem L limit file_sz read_now 0 f l
                  in (err, if err = RM_ERR_OK then n else blocks_n, st))"

section \<open>Applying a delta element\<close>

text \<open>
  \<open>rm_rx_process_delta_element\<close> on the fields of \<open>struct rm_rx_delta_element_arg\<close> it uses. A
  \<open>NULL\<close> pointer is \<open>None\<close>; a raw element always carries its buffer.
\<close>

definition rx_apply_delta ::
    "rm_delta_e \<Rightarrow> stream \<Rightarrow> stream \<Rightarrow> rm_delta_reconstruct_ctx \<Rightarrow> mutex option \<Rightarrow>
     rm_error \<times> stream \<times> stream \<times> rm_delta_reconstruct_ctx \<times> mutex option" where
  "rx_apply_delta d f_y f_z ctx m =
     (let z_offset = sz_add (rec_by_ref ctx) (rec_by_raw ctx) in
      case d_type d of
        RM_DELTA_ELEMENT_REFERENCE \<Rightarrow>
          (let (err, y, z, m1) = rm_copy_buffered_offset f_y f_z (raw_bytes_n d)
                 (sz_mul (d_ref d) (ctx_L ctx)) z_offset m
           in if err \<noteq> RM_ERR_OK then (RM_ERR_COPY_OFFSET, y, z, ctx, m1)
              else (RM_ERR_OK, y, z,
                ctx\<lparr>rec_by_ref := sz_add (rec_by_ref ctx) (ctx_L ctx),
                    delta_ref_n := sz_add (delta_ref_n ctx) 1\<rparr>, m1))
      | RM_DELTA_ELEMENT_RAW_BYTES \<Rightarrow>
          (let data = (case raw_bytes d of None \<Rightarrow> [] | Some bs \<Rightarrow> bs);
               (n, z, m1) = rm_fpwrite data (raw_bytes_n d) 1 z_offset f_z m
           in if n \<noteq> 1 then (RM_ERR_WRITE, f_y, z, ctx, m1)
              else (RM_ERR_OK, f_y, z,
                ctx\<lparr>rec_by_raw := sz_add (rec_by_raw ctx) (raw_bytes_n d),
                    delta_raw_n := sz_add (delta_raw_n ctx) 1\<rparr>, m1))
      | RM_DELTA_ELEMENT_ZERO_DIFF \<Rightarrow>
          (let (err, y, z, m1) = rm_copy_buffered f_y f_z (raw_bytes_n d) m
           in if err \<noteq> RM_ERR_OK then (RM_ERR_COPY_BUFFERED, y, z, ctx, m1)
              else (RM_ERR_OK, y, z,
                ctx\<lparr>rec_by_ref := sz_add (rec_by_ref ctx) (raw_bytes_n d),
                    delta_ref_n := sz_add (delta_ref_n ctx) 1,
                    rec_by_zero_diff := sz_add (rec_by_zero_diff ctx) (raw_bytes_n d),
                    delta_zero_diff_n := sz_add (delta_zero_diff_n ctx) 1\<rparr>, m1))
      | RM_DELTA_ELEMENT_TAIL \<Rightarrow>
          (let (err, y, z, m1) = rm_copy_buffered_offset f_y f_z (raw_bytes_n d)
                 (sz_mul (d_ref d) (ctx_L ctx)) z_offset m
           in if err \<noteq> RM_ERR_OK then (RM_ERR_COPY_OFFSET, y, z, ctx, m1)
              else (RM_ERR_OK, y, z,
                ctx\<lparr>rec_by_ref := sz_add (rec_by_ref ctx) (raw_bytes_n d),
                    delta_ref_n := sz_add (delta_ref_n ctx) 1,
                    rec_by_tail := sz_add (rec_by_tail ctx) (raw_bytes_n d),
                    delta_tail_n := 1\<rparr>, m1)))"

definition rm_rx_process_delta_element ::
    "rm_delta_e option \<Rightarrow> stream \<Rightarrow> stream option \<Rightarrow> rm_delta_reconstruct_ctx option \<Rightarrow> mutex option \<Rightarrow>
     rm_error \<times> stream \<times> stream option \<times> rm_delta_reconstruct_ctx option \<times> mutex option" where
  "rm_rx_process_delta_element de f_y fz ctx m =
     (case (de, fz, ctx) of
        (Some d, Some f_z, Some c) \<Rightarrow>
          (let (err, y, z, c', m1) = rx_apply_delta d f_y f_z c m in (err, y, Some z, Some c', m1))
      | _ \<Rightarrow> (RM_ERR_BAD_CALL, f_y, fz, ctx, m))"

section \<open>Statistics\<close>

record rx_stats =
  st_bytes :: nat
  st_real_bytes :: nat
  st_ch_n :: nat
  st_ch_overhead :: nat
  st_raw_overhead :: nat
  st_ref_overhead :: nat
  st_improved :: bool

text \<open>The whole numbers \<open>rm_rx_print_stats\<close> computes; the times and rates are not modelled.\<close>

definition rm_rx_print_stats :: "rm_delta_reconstruct_ctx \<Rightarrow> bool \<Rightarrow> rx_stats" where
  "rm_rx_print_stats ctx remote =
     (let bytes = sz_add (rec_by_raw ctx) (rec_by_ref ctx);
          raw_ov = sz_mul (delta_raw_n ctx) RM_DELTA_RAW_OVERHEAD;
          ref_ov = sz_mul (delta_ref_n ctx) RM_DELTA_REF_OVERHEAD;
          real = sz_add (sz_add (sz_add raw_ov ref_ov) (rec_by_raw ctx))
                   (if remote then unat (msg_push_len ctx) + RM_MSG_PUSH_ACK_LEN else 0);
          ch_n = (if 0 < ctx_L ctx
                  then bytes div ctx_L ctx + (if bytes mod ctx_L ctx \<noteq> 0 then 1 else 0) else 0)
      in \<lparr>st_bytes = bytes, st_real_bytes = real, st_ch_n = ch_n,
          st_ch_overhead = sz_mul ch_n RM_CH_OVERHEAD, st_raw_overhead = raw_ov,
          st_ref_overhead = ref_ov, st_improved = (real \<le> bytes)\<rparr>)"

section \<open>The blocks of a file\<close>

definition nblocks :: "nat \<Rightarrow> bytes \<Rightarrow> nat" where
  "nblocks L y = (length y + L - 1) div L"

definition block_entry :: "nat \<Rightarrow> bytes \<Rightarrow> nat \<Rightarrow> rm_ch_ch_ref" where
  "block_entry L y i = \<lparr>f_ch = rm_fast_check_block (bslice y (i * L) L),
     s_ch = rm_md5 (bslice y (i * L) L), ch_ref = i\<rparr>"

lemma nblocks_iff:
  assumes "0 < L"
  shows "i < nblocks L y \<longleftrightarrow> i * L < length y"
proof -
  have "i < nblocks L y \<longleftrightarrow> Suc i * L \<le> length y + L - 1"
    using assms by (simp add: nblocks_def less_eq_div_iff_mult_less_eq Suc_le_eq [symmetric] del: mult_Suc)
  also have "\<dots> \<longleftrightarrow> i * L < length y" using assms by auto
  finally show ?thesis .
qed

text \<open>The number of blocks as the code computes it.\<close>

lemma blocks_n_exp:
  fixes n L :: nat
  assumes "0 < L"
  shows "n div L + (if n mod L \<noteq> 0 then 1 else 0) = (n + L - 1) div L"
proof -
  have eq: "n + L - 1 = n div L * L + (n mod L + L - 1)"
    using assms div_mult_mod_eq [of n L] by linarith
  have "(n mod L + L - 1) div L = (if n mod L \<noteq> 0 then 1 else 0)"
  proof (cases "n mod L = 0")
    case False
    then have e2: "n mod L + L - 1 = L + (n mod L - 1)" by simp
    have "n mod L - 1 < L"
      using mod_less_divisor [OF assms, of n] by linarith
    then have "(L + (n mod L - 1)) div L = 1"
      using assms by (simp only: div_add_self1 div_less)
    with False show ?thesis by (simp only: e2 if_True simp_thms)
  qed (use assms in simp)
  moreover have "(n + L - 1) div L = n div L + (n mod L + L - 1) div L"
    unfolding eq by (rule div_mult_self3) (use assms in simp)
  ultimately show ?thesis by simp
qed

lemma nblocks_Nil [simp]: "0 < L \<Longrightarrow> nblocks L [] = 0"
  by (simp add: nblocks_def)

lemma bslice_min: "bslice xs off (min n (length xs - off)) = bslice xs off n"
  by (simp add: bslice_def min_def)

text \<open>After block \<open>i\<close>, the loops go on exactly when there is another block.\<close>

lemma next_block:
  assumes "0 < L" and "i * L < length y"
  shows "length y - i * L - min L (length y - i * L) = length y - Suc i * L"
    and "0 < min L (length y - Suc i * L) \<longleftrightarrow> Suc i < nblocks L y"
  using assms by (auto simp: nblocks_iff)

text \<open>A transmit callback that works as long as its state satisfies \<open>P\<close>, and keeps \<open>P\<close>.\<close>

definition tx_keeps :: "('w \<Rightarrow> bool) \<Rightarrow> 'w tx_ch_ch_ref option \<Rightarrow> bool" where
  "tx_keeps P tx \<longleftrightarrow>
     (\<forall>g fd e w. tx = Some g \<longrightarrow> P w \<longrightarrow> fst (g fd e w) = RM_ERR_OK \<and> P (snd (g fd e w)))"

definition tx_run :: "'w tx_ch_ch_ref option \<Rightarrow> int \<Rightarrow> rm_ch_ch_ref \<Rightarrow> 'w \<Rightarrow> 'w" where
  "tx_run tx fd e w = (case tx of None \<Rightarrow> w | Some g \<Rightarrow> snd (g fd e w))"

definition tw_insert :: "'h twhash \<Rightarrow> rm_ch_ch_ref \<Rightarrow> 'h \<Rightarrow> 'h" where
  "tw_insert tw e = (\<lambda>h. tw_add_bits tw h e (f_ch e) RM_NONOVERLAPPING_HASH_BITS)"

lemma insert_ref_step_healthy:
  assumes "healthy (ins_f s)" and "fs_bytes (ins_f s) = y" and "length y < off_max"
    and "ins_n s * L < length y" and "tx_keeps P tx" and "P (ins_w s)"
    and "read_now = min L (length y - ins_n s * L)"
  shows "\<exists>s'. insert_ref_step tw mem_ok fd L tx read_now s = (None, s') \<and>
    healthy (ins_f s') \<and> fs_bytes (ins_f s') = y \<and> ins_n s' = Suc (ins_n s) \<and>
    ins_h s' = map_option (tw_insert tw (block_entry L y (ins_n s))) (ins_h s) \<and>
    ins_w s' = tx_run tx fd (block_entry L y (ins_n s)) (ins_w s) \<and> P (ins_w s') \<and>
    (ins_mutex s = Some Mutex_Free \<longrightarrow> ins_mutex s' = Some Mutex_Free)"
proof -
  have off: "sz_mul L (ins_n s) = ins_n s * L"
    using assms(3,4) off_max_size_t by (simp add: sz_mul_def mult.commute)
  have buf: "bslice y (ins_n s * L) read_now = bslice y (ins_n s * L) L"
    using bslice_min [of y "ins_n s * L" L] assms(7) by simp
  have tx: "fst (g fd e (ins_w s)) = RM_ERR_OK \<and> P (snd (g fd e (ins_w s)))" if "tx = Some g" for g e
    using assms(5,6) that by (simp add: tx_keeps_def)
  show ?thesis
    using assms buf off tx
    by (cases tx)
      (auto simp: insert_ref_step_def Let_def file_simps mem_ok_apply block_entry_def tw_insert_def tx_run_def
        split_beta)
qed

lemma insert_ref_loop_healthy:
  assumes "healthy (ins_f s)" and "fs_bytes (ins_f s) = y" and "length y < off_max" and "0 < L"
    and "ins_n s * L < length y" and "tx_keeps P tx" and "P (ins_w s)"
    and "left = length y - ins_n s * L" and "now = min L left"
  shows "\<exists>s'. insert_ref_loop tw mem_ok fd L tx limit left now s = (RM_ERR_OK, s') \<and>
    ins_n s' = max (Suc (ins_n s)) (min limit (nblocks L y)) \<and>
    ins_h s' = map_option (fold (tw_insert tw) (map (block_entry L y) [ins_n s..<ins_n s'])) (ins_h s) \<and>
    ins_w s' = fold (tx_run tx fd) (map (block_entry L y) [ins_n s..<ins_n s']) (ins_w s) \<and> P (ins_w s') \<and>
    healthy (ins_f s') \<and> fs_bytes (ins_f s') = y \<and>
    (ins_mutex s = Some Mutex_Free \<longrightarrow> ins_mutex s' = Some Mutex_Free)"
  using assms
proof (induction left arbitrary: now s rule: less_induct)
  case (less left)
  let ?i = "ins_n s" and ?L = "length y - Suc (ins_n s) * L"
  obtain s1 where s1: "insert_ref_step tw mem_ok fd L tx now s = (None, s1)"
      "healthy (ins_f s1)" "fs_bytes (ins_f s1) = y" "ins_n s1 = Suc ?i"
      "ins_h s1 = map_option (tw_insert tw (block_entry L y ?i)) (ins_h s)"
      "ins_w s1 = tx_run tx fd (block_entry L y ?i) (ins_w s)" "P (ins_w s1)"
      "ins_mutex s = Some Mutex_Free \<longrightarrow> ins_mutex s1 = Some Mutex_Free"
    using insert_ref_step_healthy [of s y L P tx now tw fd] less.prems by blast
  note nb = next_block [OF less.prems(4,5)]
  have unfold: "insert_ref_loop tw mem_ok fd L tx limit left now s =
      (if Suc ?i < nblocks L y \<and> Suc ?i < limit
       then insert_ref_loop tw mem_ok fd L tx limit ?L (min L ?L) s1 else (RM_ERR_OK, s1))"
    using nb less.prems s1 by (subst insert_ref_loop.simps) (simp add: Let_def)
  show ?case
  proof (cases "Suc ?i < nblocks L y \<and> Suc ?i < limit")
    case True
    then have more: "Suc ?i * L < length y" using less.prems by (simp add: nblocks_iff)
    have "?L < left" using less.prems more by simp
    have at: "ins_n s1 * L < length y" "?L = length y - ins_n s1 * L" using more s1(4) by simp_all
    from less.IH [OF \<open>?L < left\<close> s1(2,3) less.prems(3,4) at(1) less.prems(6) s1(7) at(2) refl, unfolded s1(4)]
    obtain s2 where s2: "insert_ref_loop tw mem_ok fd L tx limit ?L (min L ?L) s1 = (RM_ERR_OK, s2)"
      "ins_n s2 = max (Suc (Suc ?i)) (min limit (nblocks L y))"
      "ins_h s2 = map_option (fold (tw_insert tw) (map (block_entry L y) [Suc ?i..<ins_n s2])) (ins_h s1)"
      "ins_w s2 = fold (tx_run tx fd) (map (block_entry L y) [Suc ?i..<ins_n s2]) (ins_w s1)" "P (ins_w s2)"
      "healthy (ins_f s2)" "fs_bytes (ins_f s2) = y"
      "ins_mutex s1 = Some Mutex_Free \<longrightarrow> ins_mutex s2 = Some Mutex_Free"
      by blast
    have "[?i..<ins_n s2] = ?i # [Suc ?i..<ins_n s2]"
      using s2(2) by (simp add: upt_conv_Cons)
    with unfold True s1(5,6,8) s2 show ?thesis
      by (auto simp: option.map_comp comp_def)
  next
    case False
    have "?i < nblocks L y" using less.prems by (simp add: nblocks_iff)
    with False have "max (Suc ?i) (min limit (nblocks L y)) = Suc ?i" by auto
    with unfold False s1 show ?thesis by auto
  qed
qed

lemma tw_insert_bucket:
  assumes "twhash_ok tw"
  shows "set (tw_bucket tw (fold (tw_insert tw) es h) b) =
    set (tw_bucket tw h b) \<union> {e \<in> set es. tw_min tw (f_ch e) RM_NONOVERLAPPING_HASH_BITS = b}"
  using assms by (induction es arbitrary: h) (auto simp: tw_insert_def twhash_ok_def)

lemma insert_ref_total:
  assumes "healthy f" and "length (fs_bytes f) < off_max" and "0 < L" and "0 \<le> fd"
    and "tx_keeps P tx" and "P w" and "nblocks L (fs_bytes f) \<le> limit"
  shows "\<exists>s. rm_rx_insert_nonoverlapping_ch_ch_ref tw mem_ok fd f h L tx limit m w =
      (RM_ERR_OK, nblocks L (fs_bytes f), s) \<and>
    ins_h s = map_option (fold (tw_insert tw)
      (map (block_entry L (fs_bytes f)) [0..<nblocks L (fs_bytes f)])) h \<and>
    ins_w s = fold (tx_run tx fd) (map (block_entry L (fs_bytes f)) [0..<nblocks L (fs_bytes f)]) w \<and> P (ins_w s) \<and>
    healthy (ins_f s) \<and> fs_bytes (ins_f s) = fs_bytes f \<and>
    (m = Some Mutex_Free \<longrightarrow> ins_mutex s = Some Mutex_Free)"
proof (cases "fs_bytes f = []")
  case True
  with assms show ?thesis
    by (auto simp: rm_rx_insert_nonoverlapping_ch_ch_ref_def Let_def fstat_size_def healthy_def
        option.map_id)
next
  case False
  let ?y = "fs_bytes f"
  let ?s = "\<lparr>ins_f = f, ins_mutex = mutex_unlock (mutex_lock m), ins_h = h, ins_w = w, ins_n = 0, ins_k = 1\<rparr>"
  have "\<exists>s'. insert_ref_loop tw mem_ok fd L tx limit (length ?y) (min L (length ?y)) ?s = (RM_ERR_OK, s') \<and>
    ins_n s' = max (Suc (ins_n ?s)) (min limit (nblocks L ?y)) \<and>
    ins_h s' = map_option (fold (tw_insert tw) (map (block_entry L ?y) [ins_n ?s..<ins_n s'])) (ins_h ?s) \<and>
    ins_w s' = fold (tx_run tx fd) (map (block_entry L ?y) [ins_n ?s..<ins_n s']) (ins_w ?s) \<and> P (ins_w s') \<and>
    healthy (ins_f s') \<and> fs_bytes (ins_f s') = ?y \<and>
    (ins_mutex ?s = Some Mutex_Free \<longrightarrow> ins_mutex s' = Some Mutex_Free)"
    using assms False by (intro insert_ref_loop_healthy) auto
  moreover have "0 < nblocks L ?y" using False assms by (simp add: nblocks_iff)
  then have "max (Suc 0) (min limit (nblocks L ?y)) = nblocks L ?y" using assms(7) by simp
  ultimately show ?thesis
    using assms False
    by (auto simp: rm_rx_insert_nonoverlapping_ch_ch_ref_def Let_def fstat_size_def healthy_def mem_ok_apply)
qed

lemma insert_link_loop_healthy:
  assumes "healthy f" and "fs_bytes f = y" and "0 < L" and "fs_pos f = i * L" and "i * L < length y"
    and "left = length y - i * L" and "now = min L left"
  shows "\<exists>f'. insert_link_loop mem_ok L limit left now i f l =
    (RM_ERR_OK, max (Suc i) (min limit (nblocks L y)), f',
     l @ map (block_entry L y) [i..<max (Suc i) (min limit (nblocks L y))])"
  using assms
proof (induction left arbitrary: now i f l rule: less_induct)
  case (less left)
  let ?L = "length y - Suc i * L"
  let ?f = "f\<lparr>fs_pos := i * L + now\<rparr>" and ?l = "l @ [block_entry L y i]"
  note nb = next_block [OF less.prems(3,5)]
  have buf: "bslice y (i * L) now = bslice y (i * L) L"
    using bslice_min [of y "i * L" L] less.prems by simp
  have now: "now \<le> length y - i * L" using less.prems by simp
  have unfold: "insert_link_loop mem_ok L limit left now i f l =
      (if Suc i < nblocks L y \<and> Suc i < limit
       then insert_link_loop mem_ok L limit ?L (min L ?L) (Suc i) ?f ?l
       else (RM_ERR_OK, Suc i, ?f, ?l))"
    using less.prems nb buf now
    by (subst insert_link_loop.simps)
      (simp add: Let_def file_simps mem_ok_apply block_entry_def min_def not_less)
  show ?case
  proof (cases "Suc i < nblocks L y \<and> Suc i < limit")
    case True
    then have more: "Suc i * L < length y" using less.prems by (simp add: nblocks_iff)
    then have "now = L" and "?L < left" using less.prems by auto
    from less.IH [OF this(2), of ?f "Suc i" "min L ?L" ?l] this(1) more less.prems
    obtain f' where "insert_link_loop mem_ok L limit ?L (min L ?L) (Suc i) ?f ?l =
      (RM_ERR_OK, max (Suc (Suc i)) (min limit (nblocks L y)), f',
       ?l @ map (block_entry L y) [Suc i..<max (Suc (Suc i)) (min limit (nblocks L y))])"
      by auto
    moreover have "max (Suc (Suc i)) (min limit (nblocks L y)) = min limit (nblocks L y)"
      "max (Suc i) (min limit (nblocks L y)) = min limit (nblocks L y)"
      "[i..<min limit (nblocks L y)] = i # [Suc i..<min limit (nblocks L y)]"
      using True by (auto simp: upt_conv_Cons)
    ultimately show ?thesis using unfold True by simp
  next
    case False
    have "i < nblocks L y" using less.prems by (simp add: nblocks_iff)
    with False have "max (Suc i) (min limit (nblocks L y)) = Suc i" by auto
    with unfold False show ?thesis by auto
  qed
qed

section \<open>The bytes of a delta element\<close>

text \<open>
  What an element stands for, given the reference file and the block size, and when it is one a
  receiver with that file and that result so far can apply.
\<close>

definition delta_data :: "nat \<Rightarrow> bytes \<Rightarrow> rm_delta_e \<Rightarrow> bytes" where
  "delta_data L y d =
     (case d_type d of
        RM_DELTA_ELEMENT_RAW_BYTES \<Rightarrow> (case raw_bytes d of None \<Rightarrow> [] | Some bs \<Rightarrow> bs)
      | RM_DELTA_ELEMENT_ZERO_DIFF \<Rightarrow> take (raw_bytes_n d) y
      | _ \<Rightarrow> bslice y (d_ref d * L) (raw_bytes_n d))"

definition delta_wf :: "nat \<Rightarrow> bytes \<Rightarrow> rm_delta_e \<Rightarrow> bool" where
  "delta_wf L y d \<longleftrightarrow> 0 < raw_bytes_n d \<and>
     (case d_type d of
        RM_DELTA_ELEMENT_RAW_BYTES \<Rightarrow> (\<exists>bs. raw_bytes d = Some bs \<and> length bs = raw_bytes_n d)
      | RM_DELTA_ELEMENT_ZERO_DIFF \<Rightarrow> raw_bytes_n d \<le> length y
      | RM_DELTA_ELEMENT_REFERENCE \<Rightarrow> raw_bytes_n d = L \<and> d_ref d * L + L \<le> length y
      | RM_DELTA_ELEMENT_TAIL \<Rightarrow> d_ref d * L + raw_bytes_n d \<le> length y)"

definition is_zero_diff :: "rm_delta_e \<Rightarrow> bool" where
  "is_zero_diff d \<longleftrightarrow> d_type d = RM_DELTA_ELEMENT_ZERO_DIFF"

lemma length_delta_data: "delta_wf L y d \<Longrightarrow> length (delta_data L y d) = raw_bytes_n d"
  by (auto simp: delta_wf_def delta_data_def split: rm_delta_element_type.splits)

text \<open>How an applied element is accounted for in the reconstruction context.\<close>

definition ctx_account :: "rm_delta_e \<Rightarrow> rm_delta_reconstruct_ctx \<Rightarrow> rm_delta_reconstruct_ctx" where
  "ctx_account d ctx =
     (case d_type d of
        RM_DELTA_ELEMENT_REFERENCE \<Rightarrow>
          ctx\<lparr>rec_by_ref := sz_add (rec_by_ref ctx) (raw_bytes_n d),
              delta_ref_n := sz_add (delta_ref_n ctx) 1\<rparr>
      | RM_DELTA_ELEMENT_RAW_BYTES \<Rightarrow>
          ctx\<lparr>rec_by_raw := sz_add (rec_by_raw ctx) (raw_bytes_n d),
              delta_raw_n := sz_add (delta_raw_n ctx) 1\<rparr>
      | RM_DELTA_ELEMENT_ZERO_DIFF \<Rightarrow>
          ctx\<lparr>rec_by_ref := sz_add (rec_by_ref ctx) (raw_bytes_n d),
              delta_ref_n := sz_add (delta_ref_n ctx) 1,
              rec_by_zero_diff := sz_add (rec_by_zero_diff ctx) (raw_bytes_n d),
              delta_zero_diff_n := sz_add (delta_zero_diff_n ctx) 1\<rparr>
      | RM_DELTA_ELEMENT_TAIL \<Rightarrow>
          ctx\<lparr>rec_by_ref := sz_add (rec_by_ref ctx) (raw_bytes_n d),
              delta_ref_n := sz_add (delta_ref_n ctx) 1,
              rec_by_tail := sz_add (rec_by_tail ctx) (raw_bytes_n d),
              delta_tail_n := 1\<rparr>)"

lemma ctx_account_L [simp]: "ctx_L (ctx_account d ctx) = ctx_L ctx"
  by (simp add: ctx_account_def split: rm_delta_element_type.splits)

lemma ctx_account_total:
  assumes "rec_by_ref ctx + rec_by_raw ctx + raw_bytes_n d < size_t_mod"
  shows "rec_by_ref (ctx_account d ctx) + rec_by_raw (ctx_account d ctx) =
    rec_by_ref ctx + rec_by_raw ctx + raw_bytes_n d"
  using assms by (simp add: ctx_account_def sz_simps split: rm_delta_element_type.splits)

lemma rx_apply_delta_ok:
  assumes "healthy f_y" and "healthy f_z" and "fs_bytes f_y = y" and "length y \<le> off_max"
    and "ctx_L ctx = L" and "delta_wf L y d"
    and "rec_by_ref ctx + rec_by_raw ctx = length (fs_bytes f_z)"
    and "length (fs_bytes f_z) + raw_bytes_n d \<le> off_max"
    and "is_zero_diff d \<longrightarrow> fs_bytes f_z = []"
  shows "\<exists>y' z'. rx_apply_delta d f_y f_z ctx m =
      (RM_ERR_OK, y', z', ctx_account d ctx, mutex_unlock (mutex_lock m)) \<and>
    healthy y' \<and> healthy z' \<and> fs_bytes y' = y \<and> fs_bytes z' = fs_bytes f_z @ delta_data L y d"
proof -
  let ?z = "fs_bytes f_z" and ?n = "raw_bytes_n d"
  have zoff: "sz_add (rec_by_ref ctx) (rec_by_raw ctx) = length ?z"
    using assms(7,8) off_max_size_t by (simp add: sz_simps)
  have wr: "write_at ?z (length ?z) bs = ?z @ bs" for bs
    by (simp add: write_at_end)
  have roff: "sz_mul (d_ref d) L = d_ref d * L" if "d_ref d * L + ?n \<le> length y"
    using that assms(4) off_max_size_t by (simp add: sz_simps)
  show ?thesis
  proof (cases "d_type d")
    case RM_DELTA_ELEMENT_REFERENCE
    then have w: "?n = L" "0 < ?n" "d_ref d * L + ?n \<le> length y"
      using assms(6) by (auto simp: delta_wf_def)
    with RM_DELTA_ELEMENT_REFERENCE
      rm_copy_buffered_offset_healthy [OF assms(1,2), of ?n "d_ref d * L" "length ?z" m] assms
    show ?thesis
      by (auto simp: rx_apply_delta_def delta_data_def ctx_account_def zoff roff wr)
  next
    case RM_DELTA_ELEMENT_RAW_BYTES
    then obtain bs where w: "raw_bytes d = Some bs" "length bs = ?n" "0 < ?n"
      using assms(6) by (auto simp: delta_wf_def)
    have "length ?z < off_max" using w assms(8) by simp
    with RM_DELTA_ELEMENT_RAW_BYTES w assms show ?thesis
      by (simp add: rx_apply_delta_def delta_data_def ctx_account_def zoff wr file_simps)
  next
    case RM_DELTA_ELEMENT_ZERO_DIFF
    then have w: "0 < ?n" "?n \<le> length y" "?z = []"
      using assms(6,9) by (auto simp: delta_wf_def is_zero_diff_def)
    with RM_DELTA_ELEMENT_ZERO_DIFF rm_copy_buffered_healthy [OF assms(1,2), of ?n m] assms(3)
    show ?thesis
      by (auto simp: rx_apply_delta_def delta_data_def ctx_account_def write_at_end)
  next
    case RM_DELTA_ELEMENT_TAIL
    then have w: "0 < ?n" "d_ref d * L + ?n \<le> length y"
      using assms(6) by (auto simp: delta_wf_def)
    with RM_DELTA_ELEMENT_TAIL
      rm_copy_buffered_offset_healthy [OF assms(1,2), of ?n "d_ref d * L" "length ?z" m] assms
    show ?thesis
      by (auto simp: rx_apply_delta_def delta_data_def ctx_account_def zoff roff wr)
  qed
qed

text \<open>Whatever faults the streams have, success means the bytes of the element were written.\<close>

lemma rm_fpwrite_item_complete:
  assumes "rm_fpwrite buf n 1 off f m = (1, f', m')" and "0 < n" and "length buf = n"
  shows "fs_bytes f' = write_at (fs_bytes f) off buf"
proof -
  obtain ok f1 where s: "fseek f off = (ok, f1)" by (metis surj_pair)
  obtain r f2 where w: "fwrite buf n 1 f1 = (r, f2)" by (metis surj_pair)
  have ok: "ok" and w': "fwrite buf n 1 f1 = (1, f')"
    using assms s w by (auto simp: rm_fpwrite_def Let_def split: if_splits)
  then have f1: "fs_pos f1 = off" "fs_bytes f1 = fs_bytes f"
    using s by (auto simp: fseek_def split: if_splits)
  let ?put = "take (within (fs_wbudget f1) n) buf"
  have "length ?put div n = 1"
    using w' assms(3) by (auto simp: fwrite_def Let_def)
  then have "n \<le> length ?put"
    by (metis div_less linorder_not_less zero_neq_one)
  then have "?put = buf" using assms(3) by (intro take_full) auto
  with w' f1 assms(3) show ?thesis by (auto simp: fwrite_def Let_def)
qed

lemma rx_apply_delta_sound:
  assumes run: "rx_apply_delta d f_y f_z ctx m = (RM_ERR_OK, y', z', ctx', m')"
    and "fs_seekable f_y" and "fs_seekable f_z" and "delta_wf (ctx_L ctx) (fs_bytes f_y) d"
    and "rec_by_ref ctx + rec_by_raw ctx = length (fs_bytes f_z)"
    and "length (fs_bytes f_z) + raw_bytes_n d < size_t_mod"
    and "length (fs_bytes f_y) < size_t_mod"
    and "is_zero_diff d \<longrightarrow> fs_bytes f_z = []"
  shows "fs_bytes z' = fs_bytes f_z @ delta_data (ctx_L ctx) (fs_bytes f_y) d"
    and "ctx' = ctx_account d ctx"
proof -
  let ?z = "fs_bytes f_z" and ?n = "raw_bytes_n d" and ?y = "fs_bytes f_y" and ?L = "ctx_L ctx"
  have zoff: "sz_add (rec_by_ref ctx) (rec_by_raw ctx) = length ?z"
    using assms(5,6) by (simp add: sz_simps)
  have wr: "write_at ?z (length ?z) bs = ?z @ bs" for bs
    by (simp add: write_at_end)
  have roff: "sz_mul (d_ref d) ?L = d_ref d * ?L" if "d_ref d * ?L + ?n \<le> length ?y"
    using that assms(7) by (simp add: sz_simps)
  have "fs_bytes z' = ?z @ delta_data ?L ?y d \<and> ctx' = ctx_account d ctx"
  proof (cases "d_type d")
    case RM_DELTA_ELEMENT_REFERENCE
    then have w: "?n = ?L" "0 < ?n" "d_ref d * ?L + ?n \<le> length ?y"
      using assms(4) by (auto simp: delta_wf_def)
    with run RM_DELTA_ELEMENT_REFERENCE obtain mm where
      c: "rm_copy_buffered_offset f_y f_z ?n (d_ref d * ?L) (length ?z) m = (RM_ERR_OK, y', z', mm)"
      and "ctx' = ctx_account d ctx"
      by (auto simp: rx_apply_delta_def ctx_account_def zoff roff Let_def split: if_splits prod.splits)
    with rm_copy_buffered_offset_sound [OF c] w assms(6,7) RM_DELTA_ELEMENT_REFERENCE show ?thesis
      by (simp add: delta_data_def wr)
  next
    case RM_DELTA_ELEMENT_RAW_BYTES
    then obtain bs where w: "raw_bytes d = Some bs" "length bs = ?n" "0 < ?n"
      using assms(4) by (auto simp: delta_wf_def)
    with run RM_DELTA_ELEMENT_RAW_BYTES obtain mm where
      c: "rm_fpwrite bs ?n 1 (length ?z) f_z m = (1, z', mm)" and "ctx' = ctx_account d ctx"
      by (auto simp: rx_apply_delta_def ctx_account_def zoff Let_def split: if_splits prod.splits)
    with rm_fpwrite_item_complete [OF c w(3,2)] w RM_DELTA_ELEMENT_RAW_BYTES show ?thesis
      by (simp add: delta_data_def wr)
  next
    case RM_DELTA_ELEMENT_ZERO_DIFF
    then have w: "?z = []" using assms(8) by (simp add: is_zero_diff_def)
    from run RM_DELTA_ELEMENT_ZERO_DIFF obtain mm where
      c: "rm_copy_buffered f_y f_z ?n m = (RM_ERR_OK, y', z', mm)" and "ctx' = ctx_account d ctx"
      by (auto simp: rx_apply_delta_def ctx_account_def Let_def split: if_splits prod.splits)
    with rm_copy_buffered_sound [OF c assms(2,3)] w RM_DELTA_ELEMENT_ZERO_DIFF show ?thesis
      by (simp add: delta_data_def write_at_end)
  next
    case RM_DELTA_ELEMENT_TAIL
    then have w: "0 < ?n" "d_ref d * ?L + ?n \<le> length ?y"
      using assms(4) by (auto simp: delta_wf_def)
    with run RM_DELTA_ELEMENT_TAIL obtain mm where
      c: "rm_copy_buffered_offset f_y f_z ?n (d_ref d * ?L) (length ?z) m = (RM_ERR_OK, y', z', mm)"
      and "ctx' = ctx_account d ctx"
      by (auto simp: rx_apply_delta_def ctx_account_def zoff roff Let_def split: if_splits prod.splits)
    with rm_copy_buffered_offset_sound [OF c] w assms(6,7) RM_DELTA_ELEMENT_TAIL show ?thesis
      by (simp add: delta_data_def wr)
  qed
  then show "fs_bytes z' = ?z @ delta_data ?L ?y d" "ctx' = ctx_account d ctx" by auto
qed

section \<open>Properties\<close>

text \<open>
  C22. The checksums of a file: with memory and a working transmit callback, the insertion succeeds,
  reports one entry per block of \<open>L\<close> bytes (the last one may be shorter), transmits the entries in
  block order, and each bucket gains exactly the entries whose fast checksum hashes to it, each with
  the checksums of its block and the number of the block.
\<close>
theorem insert_ref_indexes_blocks:
  assumes "healthy f" and "length (fs_bytes f) < off_max" and "0 < L" and "0 \<le> fd"
    and "tx_keeps P tx" and "P w" and "nblocks L (fs_bytes f) \<le> limit" and "twhash_ok tw"
  shows "\<exists>s h'. rm_rx_insert_nonoverlapping_ch_ch_ref tw mem_ok fd f (Some h) L tx limit m w =
      (RM_ERR_OK, nblocks L (fs_bytes f), s) \<and> ins_h s = Some h' \<and>
    ins_w s = fold (tx_run tx fd) (map (block_entry L (fs_bytes f)) [0..<nblocks L (fs_bytes f)]) w \<and>
    (\<forall>b. set (tw_bucket tw h' b) = set (tw_bucket tw h b) \<union>
      {e. \<exists>i. i * L < length (fs_bytes f) \<and> e = block_entry L (fs_bytes f) i \<and>
         tw_min tw (f_ch e) RM_NONOVERLAPPING_HASH_BITS = b})"
proof -
  let ?es = "map (block_entry L (fs_bytes f)) [0..<nblocks L (fs_bytes f)]"
  have "{e \<in> set ?es. tw_min tw (f_ch e) RM_NONOVERLAPPING_HASH_BITS = b} =
      {e. \<exists>i. i * L < length (fs_bytes f) \<and> e = block_entry L (fs_bytes f) i \<and>
         tw_min tw (f_ch e) RM_NONOVERLAPPING_HASH_BITS = b}" for b
    by (auto simp: nblocks_iff [OF assms(3), symmetric])
  with insert_ref_total [OF assms(1-7), of tw "Some h" m] tw_insert_bucket [OF assms(8), of ?es h]
  show ?thesis by auto
qed

theorem insert_ref_indexes_blocks_witness:
  "\<exists>s h'. rm_rx_insert_nonoverlapping_ch_ch_ref tw_lists mem_ok 3 (open_stream [1, 2, 3])
      (Some (\<lambda>_. [])) 2 (Some (\<lambda>fd e w. (RM_ERR_OK, w @ [ch_ref e]))) 9 None [] =
      (RM_ERR_OK, nblocks 2 (fs_bytes (open_stream [1, 2, 3])), s) \<and> ins_h s = Some h' \<and> ins_w s = [0, 1]"
proof -
  let ?tx = "Some (\<lambda>fd e w. (RM_ERR_OK, w @ [ch_ref e]))"
  have "nblocks 2 (fs_bytes (open_stream [1, 2, 3])) = 2" by (simp add: nblocks_def)
  moreover have "[0..<2] = [0, 1::nat]" by (simp add: upt_rec)
  then have "fold (tx_run ?tx 3) (map (block_entry 2 y) [0..<2]) [] = [0, 1]" for y
    by (simp add: tx_run_def block_entry_def)
  ultimately show ?thesis
    using insert_ref_indexes_blocks [of "open_stream [1, 2, 3]" 2 3 "\<lambda>_. True" ?tx "[]" 9 tw_lists "\<lambda>_. []" None]
    by (auto simp: off_max_def tx_keeps_def tw_lists_ok)
qed

text \<open>
  Reconstruction step: on streams without faults every well formed element is applied, appends
  exactly the bytes it stands for to the result (block \<open>ref\<close> of the reference file, the literal
  bytes, the tail, or the whole file when nothing was written yet), accounts for their number, leaves
  the reference file alone and gives the mutex back.
\<close>
theorem process_delta_appends:
  assumes "healthy f_y" and "healthy f_z" and "length (fs_bytes f_y) \<le> off_max"
    and "delta_wf (ctx_L ctx) (fs_bytes f_y) d"
    and "rec_by_ref ctx + rec_by_raw ctx = length (fs_bytes f_z)"
    and "length (fs_bytes f_z) + raw_bytes_n d \<le> off_max"
    and "is_zero_diff d \<longrightarrow> fs_bytes f_z = []"
  shows "\<exists>y' z' ctx'. rm_rx_process_delta_element (Some d) f_y (Some f_z) (Some ctx) (Some Mutex_Free) =
      (RM_ERR_OK, y', Some z', Some ctx', Some Mutex_Free) \<and>
    fs_bytes y' = fs_bytes f_y \<and>
    fs_bytes z' = fs_bytes f_z @ delta_data (ctx_L ctx) (fs_bytes f_y) d \<and>
    rec_by_ref ctx' + rec_by_raw ctx' = length (fs_bytes z')"
  using rx_apply_delta_ok [OF assms(1,2) refl assms(3) refl assms(4-7), of "Some Mutex_Free"]
    ctx_account_total [of ctx d] assms off_max_size_t length_delta_data [OF assms(4)]
  by (auto simp: rm_rx_process_delta_element_def)

theorem process_delta_appends_witness:
  "\<exists>y' z' ctx'. rm_rx_process_delta_element
      (Some \<lparr>d_type = RM_DELTA_ELEMENT_TAIL, d_ref = 1, raw_bytes = None, raw_bytes_n = 1\<rparr>)
      (open_stream [1, 2, 3]) (Some (open_stream [9])) (Some (ctx_zero\<lparr>ctx_L := 2, rec_by_raw := 1\<rparr>))
      (Some Mutex_Free) = (RM_ERR_OK, y', Some z', Some ctx', Some Mutex_Free) \<and> fs_bytes z' = [9, 3]"
  using process_delta_appends [of "open_stream [1, 2, 3]" "open_stream [9]"
      "ctx_zero\<lparr>ctx_L := 2, rec_by_raw := 1\<rparr>"
      "\<lparr>d_type = RM_DELTA_ELEMENT_TAIL, d_ref = 1, raw_bytes = None, raw_bytes_n = 1\<rparr>"]
  by (auto simp: off_max_def ctx_zero_def delta_wf_def delta_data_def is_zero_diff_def bslice_def)

text \<open>
  C25. A reconstruction step that reports success has done its work, whatever read, write and
  positioning faults happened: the result was extended by the bytes of the element.
\<close>
theorem process_delta_success_sound:
  assumes "rm_rx_process_delta_element (Some d) f_y (Some f_z) (Some ctx) m =
      (RM_ERR_OK, y', Some z', Some ctx', m')"
    and "fs_seekable f_y" and "fs_seekable f_z" and "delta_wf (ctx_L ctx) (fs_bytes f_y) d"
    and "rec_by_ref ctx + rec_by_raw ctx = length (fs_bytes f_z)"
    and "length (fs_bytes f_z) + raw_bytes_n d < size_t_mod"
    and "length (fs_bytes f_y) < size_t_mod" and "is_zero_diff d \<longrightarrow> fs_bytes f_z = []"
  shows "fs_bytes z' = fs_bytes f_z @ delta_data (ctx_L ctx) (fs_bytes f_y) d \<and>
    ctx' = ctx_account d ctx"
proof -
  have "rx_apply_delta d f_y f_z ctx m = (RM_ERR_OK, y', z', ctx', m')"
    using assms(1) by (auto simp: rm_rx_process_delta_element_def split: prod.splits)
  from rx_apply_delta_sound [OF this assms(2-8)] show ?thesis by simp
qed

theorem process_delta_success_sound_witness:
  "fs_bytes ((open_stream [])\<lparr>fs_bytes := [5], fs_pos := 1, fs_wbudget := Some 0\<rparr>) =
     [] @ delta_data 4 [] \<lparr>d_type = RM_DELTA_ELEMENT_RAW_BYTES, d_ref = 0, raw_bytes = Some [5], raw_bytes_n = 1\<rparr>"
  using process_delta_success_sound [of
      "\<lparr>d_type = RM_DELTA_ELEMENT_RAW_BYTES, d_ref = 0, raw_bytes = Some [5], raw_bytes_n = 1\<rparr>"
      "open_stream []" "(open_stream [])\<lparr>fs_wbudget := Some 1\<rparr>" "ctx_zero\<lparr>ctx_L := 4\<rparr>" None
      "open_stream []" "(open_stream [])\<lparr>fs_bytes := [5], fs_pos := 1, fs_wbudget := Some 0\<rparr>"
      "ctx_zero\<lparr>ctx_L := 4, rec_by_raw := 1, delta_raw_n := 1\<rparr>" None]
  by (simp add: rm_rx_process_delta_element_def rx_apply_delta_def ctx_zero_def open_stream_def
      delta_wf_def is_zero_diff_def rm_fpwrite_def fseek_def fwrite_def within_def spend_def
      off_max_def size_t_mod_def sz_add_def write_at_def Let_def)

text \<open>
  An empty file breaks the array and the list variants: the list gets an entry for a block that
  does not exist, and the array of no elements that an empty file needs is written past its end. The
  hash table variant has the test for an empty file the others lack.
\<close>
theorem insert_empty_file:
  assumes "0 < L" and "0 < limit"
  shows "(\<exists>f'. rm_rx_insert_nonoverlapping_ch_ch_ref_link mem_ok (open_stream []) [] L limit n =
      (RM_ERR_OK, 1, f', [block_entry L [] 0])) \<and>
    rm_rx_insert_nonoverlapping_ch_ch_array mem_ok (open_stream []) [] L tx limit n w = None \<and>
    (\<exists>s. rm_rx_insert_nonoverlapping_ch_ch_ref tw mem_ok 0 (open_stream []) h L tx' limit None w' =
      (RM_ERR_OK, 0, s))"
  using assms
  by (simp add: rm_rx_insert_nonoverlapping_ch_ch_ref_link_def
      rm_rx_insert_nonoverlapping_ch_ch_array_def rm_rx_insert_nonoverlapping_ch_ch_ref_def
      insert_link_loop.simps insert_array_loop.simps fstat_size_def open_stream_def fread_def within_def
      block_entry_def mem_ok_apply Let_def bslice_def)

theorem insert_empty_file_witness:
  "rm_rx_insert_nonoverlapping_ch_ch_array mem_ok (open_stream []) [] 4 None 1 0 () = None"
  using insert_empty_file [where L = 4 and limit = 1 and n = 0 and tx = None and w = "()"
    and tw = tw_lists and h = None and tx' = None and w' = "()"] by simp

text \<open>
  The number of checksums the statistics report is the number of blocks of the reconstructed
  file, so it is the number of entries the receiver computes for a file of that size.
\<close>
theorem stats_count_blocks:
  assumes "0 < ctx_L ctx" and "rec_by_raw ctx + rec_by_ref ctx = length z" and "length z < off_max"
  shows "st_ch_n (rm_rx_print_stats ctx remote) = nblocks (ctx_L ctx) z \<and>
    st_bytes (rm_rx_print_stats ctx remote) = length z"
proof -
  let ?L = "ctx_L ctx" and ?n = "length z"
  have "sz_add (rec_by_raw ctx) (rec_by_ref ctx) = ?n"
    using assms off_max_size_t by (simp add: sz_simps)
  moreover note blocks_n_exp [OF assms(1), of ?n]
  ultimately show ?thesis
    using assms(1) by (simp add: rm_rx_print_stats_def Let_def nblocks_def)
qed

theorem stats_count_blocks_witness:
  "st_ch_n (rm_rx_print_stats (ctx_zero\<lparr>ctx_L := 2, rec_by_ref := 3\<rparr>) True) = 2"
  using stats_count_blocks [of "ctx_zero\<lparr>ctx_L := 2, rec_by_ref := 3\<rparr>" "[1, 2, 3]" True]
  by (simp add: ctx_zero_def off_max_def nblocks_def)

end
