(* ===== verification/RM_Roll.thy ===== *)
theory RM_Roll
  imports RM_Rx
begin

text \<open>
  The rolling checksum procedure of \<^verbatim>\<open>src/rm.c\<close>: it slides a window of \<open>L\<close> bytes along \<open>@x\<close>, looks
  its fast checksum up in the table of the blocks of \<open>@y\<close>, confirms a candidate with the strong
  checksum and hands delta elements to a callback. The local variables are a record; the body of the
  loop is cut where the code has its comments, and each part says how it ends: falling through,
  jumping to \<open>copy_tail\<close>, returning, or doing something C does not define.
\<close>

section \<open>State\<close>

text \<open>The part of \<open>struct rm_session\<close> the procedure and its callback use; \<open>'q\<close> is the rest.\<close>

record 'q sess =
  s_rec_ctx :: rm_delta_reconstruct_ctx
  s_prvt :: 'q

type_synonym 'q rm_delta_f = "rm_delta_e \<Rightarrow> 'q sess \<Rightarrow> rm_error \<times> 'q sess"

text \<open>
  What stays fixed during the loop. The receiver thread of a remote push may still be inserting into
  the table, so \<open>e_h i\<close> is the table as the \<open>i\<close>-th lookup finds it.
\<close>

record ('h, 'q) roll_env =
  e_tw :: "'h twhash"
  e_h :: "(nat \<Rightarrow> 'h) option"
  e_delta_f :: "'q rm_delta_f"
  e_mem :: mem_oracle
  e_file_sz :: nat
  e_L :: nat
  e_copy_tail :: nat
  e_send :: nat
  e_raw_max :: nat

record 'q roll =
  r_fx :: stream
  r_sess :: "'q sess"
  r_hm :: "mutex option"
  r_mem :: nat
  r_iter :: nat
  r_buf :: bytes
  r_send_left :: nat
  r_read :: nat
  r_read_begin :: nat
  r_match :: bool
  r_begin_in_buf :: bool
  r_ref :: nat
  r_f_ch :: u32
  r_raw :: "bytes option"
  r_raw_n :: nat
  r_a_k_pos :: nat
  r_a_kL_pos :: nat
  r_a_k :: u8
  r_a_kL :: u8
  r_coll1 :: nat
  r_coll2 :: nat

text \<open>
  \<open>r_buf\<close> is the buffer for the window, of the size it is allocated with, and \<open>[]\<close> while the pointer is
  \<open>NULL\<close>; \<open>r_raw\<close> is the buffer of literal bytes, and \<open>None\<close> while that pointer is \<open>NULL\<close>. What is given
  back with \<open>free\<close> counts as \<open>NULL\<close> from then on, so a buffer that is still there at a return is lost. A
  write or a read outside either buffer is \<open>Undefined\<close>.
\<close>

datatype 'r step = Continue 'r | Copy_Tail 'r | Return rm_error 'r | Undefined

definition overlay :: "bytes \<Rightarrow> bytes \<Rightarrow> bytes" where
  "overlay data buf = take (length buf) (data @ drop (length data) buf)"

definition roll_release :: "'q roll \<Rightarrow> 'q roll" where
  "roll_release s = s\<lparr>r_buf := [], r_raw := None\<rparr>"

section \<open>Handing over a delta element\<close>

text \<open>
  \<open>rm_rolling_ch_proc_tx\<close> allocates the element and calls the callback, whose result it ignores.
  The result has the error, the number of calls of \<open>malloc\<close> so far and the session.
\<close>

definition rm_rolling_ch_proc_tx ::
    "'q rm_delta_f option \<Rightarrow> mem_oracle \<Rightarrow> nat \<Rightarrow> rm_delta_element_type \<Rightarrow> nat \<Rightarrow> bytes option \<Rightarrow> nat \<Rightarrow>
     'q sess \<Rightarrow> rm_error \<times> nat \<times> 'q sess" where
  "rm_rolling_ch_proc_tx delta_f mem k type ref raw raw_n s =
     (case delta_f of
        None \<Rightarrow> (RM_ERR_BAD_CALL, k, s)
      | Some f \<Rightarrow>
          if \<not> mem k then (RM_ERR_MEM, k + 1, s)
          else if type = RM_DELTA_ELEMENT_RAW_BYTES \<and> raw = None then (RM_ERR_IO_ERROR, k + 1, s)
          else
            let d = \<lparr>d_type = type, d_ref = ref,
                     raw_bytes = (if type = RM_DELTA_ELEMENT_RAW_BYTES then raw else None),
                     raw_bytes_n = raw_n\<rparr>
            in (RM_ERR_OK, k + 1, snd (f d s)))"

text \<open>The calls in the procedure: an error of the helper is returned as \<open>err\<close>.\<close>

definition roll_tx ::
    "('h, 'q) roll_env \<Rightarrow> rm_error \<Rightarrow> rm_delta_element_type \<Rightarrow> nat \<Rightarrow> bytes option \<Rightarrow> nat \<Rightarrow>
     'q roll \<Rightarrow> 'q roll step" where
  "roll_tx env err type ref raw raw_n s =
     (let (e, k, sess) = rm_rolling_ch_proc_tx (Some (e_delta_f env)) (e_mem env) (r_mem s)
                           type ref raw raw_n (r_sess s);
          s1 = s\<lparr>r_mem := k, r_sess := sess\<rparr>
      in if e \<noteq> RM_ERR_OK then Return err s1 else Continue s1)"

definition then_do :: "'r step \<Rightarrow> ('r \<Rightarrow> 'r step) \<Rightarrow> 'r step" where
  "then_do r g = (case r of Continue s \<Rightarrow> g s | _ \<Rightarrow> r)"

text \<open>Buffered literal bytes go out first, and the buffer passes to the receiver of the element.\<close>

definition roll_flush :: "('h, 'q) roll_env \<Rightarrow> nat \<Rightarrow> 'q roll \<Rightarrow> 'q roll step" where
  "roll_flush env ref s =
     (if 0 < r_raw_n s then
        then_do (roll_tx env RM_ERR_TX_RAW RM_DELTA_ELEMENT_RAW_BYTES ref
                   (map_option (take (r_raw_n s)) (r_raw s)) (r_raw_n s) s)
          (\<lambda>s1. Continue (s1\<lparr>r_raw_n := 0, r_raw := None\<rparr>))
      else Continue s)"

section \<open>The body of the loop\<close>

text \<open>After a match, and at the start: read the next window and compute its checksum.\<close>

definition roll_window :: "('h, 'q) roll_env \<Rightarrow> 'q roll \<Rightarrow> 'q roll step" where
  "roll_window env s =
     (let read_now = min (e_L env) (r_send_left s);
          (data, read, fx, _) = rm_fpread 1 read_now (r_a_kL_pos s) (r_fx s) None;
          s1 = s\<lparr>r_fx := fx, r_buf := overlay data (r_buf s), r_read := read\<rparr>
      in if length (r_buf s) < read_now then Undefined
         else if read \<noteq> read_now then Return RM_ERR_READ s1
         else
           let s2 = (if r_read_begin s1 = 0 then s1\<lparr>r_read_begin := read, r_begin_in_buf := True\<rparr>
                     else s1\<lparr>r_begin_in_buf := False\<rparr>);
               s3 = s2\<lparr>r_f_ch := rm_fast_check_block (take read (r_buf s2)),
                       r_a_k_pos := r_a_kL_pos s2\<rparr>
           in Continue (s3\<lparr>r_a_kL_pos := min (sz_sub (e_file_sz env) 1)
                                           (sz_add (r_a_k_pos s3) (e_L env))\<rparr>))"

text \<open>After a mismatch: move the window by one byte, or shorten it when it is at the end of @x.\<close>

definition roll_shift :: "('h, 'q) roll_env \<Rightarrow> 'q roll \<Rightarrow> 'q roll step" where
  "roll_shift env s =
     (let gap = sz_sub (r_a_kL_pos s) (r_a_k_pos s) in
      if r_read s = e_L env \<and> gap = e_L env then
        let (data, n, fx, _) = rm_fpread 1 1 (r_a_kL_pos s) (r_fx s) None;
            s1 = s\<lparr>r_fx := fx\<rparr>
        in if n \<noteq> 1 then Return RM_ERR_READ s1
           else
             let s2 = s1\<lparr>r_a_kL := hd data,
                        r_f_ch := rm_fast_check_roll (r_f_ch s1) (r_a_k s1) (hd data) (of_nat (e_L env)),
                        r_read := max 1 gap, r_a_k_pos := sz_add (r_a_k_pos s1) 1\<rparr>
             in Continue (s2\<lparr>r_a_kL_pos := min (sz_add (r_a_kL_pos s2) 1) (sz_sub (e_file_sz env) 1)\<rparr>)
      else
        Continue (s\<lparr>r_read := max 1 gap,
          r_f_ch := rm_fast_check_roll_tail (r_f_ch s) (r_a_k s) (of_nat (sz_add gap 1)),
          r_a_k_pos := sz_add (r_a_k_pos s) 1\<rparr>))"

text \<open>The entries of the bucket, until one has the fast and the strong checksum of the window.\<close>

fun roll_bucket :: "rm_ch_ch_ref list \<Rightarrow> 'q roll \<Rightarrow> 'q roll step" where
  "roll_bucket [] s = Continue s"
| "roll_bucket (e # es) s =
     (if f_ch e = r_f_ch s then
        let (err, dst, fx, _) = rm_copy_buffered_2 (r_fx s) (r_a_k_pos s) (r_read s) None;
            s1 = s\<lparr>r_fx := fx, r_buf := overlay dst (r_buf s)\<rparr>
        in if length (r_buf s) < r_read s then Undefined
           else if err \<noteq> RM_ERR_OK then Return RM_ERR_COPY_BUFFERED s1
           else
             let s2 = s1\<lparr>r_begin_in_buf := False\<rparr> in
             if s_ch e = rm_md5 (take (r_read s2) (r_buf s2))
             then Continue (s2\<lparr>r_match := True, r_ref := ch_ref e\<rparr>)
             else roll_bucket es (s2\<lparr>r_coll2 := sz_add (r_coll2 s2) 1\<rparr>)
      else roll_bucket es (s\<lparr>r_coll1 := sz_add (r_coll1 s) 1\<rparr>))"

definition roll_lookup :: "('h, 'q) roll_env \<Rightarrow> 'q roll \<Rightarrow> 'q roll step" where
  "roll_lookup env s =
     (case e_h env of
        None \<Rightarrow> Undefined
      | Some h \<Rightarrow>
          let s1 = s\<lparr>r_match := False, r_hm := mutex_lock (r_hm s), r_iter := r_iter s + 1\<rparr>;
              hash = tw_min (e_tw env) (r_f_ch s) RM_NONOVERLAPPING_HASH_BITS
          in then_do (roll_bucket (tw_bucket (e_tw env) (h (r_iter s)) hash) s1)
               (\<lambda>s2. Continue (s2\<lparr>r_hm := mutex_unlock (r_hm s2)\<rparr>)))"

definition roll_emit_match :: "('h, 'q) roll_env \<Rightarrow> 'q roll \<Rightarrow> 'q roll step" where
  "roll_emit_match env s =
     then_do (roll_flush env (sz_sub (r_ref s) (r_raw_n s)) s)
       (\<lambda>s1. then_do
          (if r_read s1 = e_file_sz env
           then roll_tx env RM_ERR_TX_ZERO_DIFF RM_DELTA_ELEMENT_ZERO_DIFF (r_ref s1) None (e_file_sz env) s1
           else if r_read s1 < e_L env
           then roll_tx env RM_ERR_TX_TAIL RM_DELTA_ELEMENT_TAIL (r_ref s1) None (r_read s1) s1
           else roll_tx env RM_ERR_TX_REF RM_DELTA_ELEMENT_REFERENCE (r_ref s1) None (e_L env) s1)
          (\<lambda>s2. Continue (s2\<lparr>r_send_left := sz_sub (r_send_left s2) (r_read s2)\<rparr>)))"

text \<open>No match: the first byte of the window becomes a literal byte.\<close>

definition roll_raw_alloc :: "('h, 'q) roll_env \<Rightarrow> 'q roll \<Rightarrow> 'q roll step" where
  "roll_raw_alloc env s =
     (if r_raw_n s = 0 then
        let s1 = s\<lparr>r_mem := r_mem s + 1\<rparr> in
        if \<not> e_mem env (r_mem s) then Return RM_ERR_MEM (s1\<lparr>r_raw := None\<rparr>)
        else Continue (s1\<lparr>r_raw := Some (replicate (e_raw_max env) 0)\<rparr>)
      else Continue s)"

definition roll_raw_byte :: "'q roll \<Rightarrow> 'q roll step" where
  "roll_raw_byte s =
     (if r_begin_in_buf s \<and> r_a_k_pos s < r_read_begin s
      then if length (r_buf s) \<le> r_a_k_pos s then Undefined
           else Continue (s\<lparr>r_a_k := r_buf s ! r_a_k_pos s\<rparr>)
      else
        let (data, n, fx, _) = rm_fpread 1 1 (r_a_k_pos s) (r_fx s) None; s1 = s\<lparr>r_fx := fx\<rparr>
        in if n \<noteq> 1 then Return RM_ERR_READ s1 else Continue (s1\<lparr>r_a_k := hd data\<rparr>))"

definition roll_raw_store :: "('h, 'q) roll_env \<Rightarrow> 'q roll \<Rightarrow> 'q roll step" where
  "roll_raw_store env s =
     (case r_raw s of
        None \<Rightarrow> Undefined
      | Some buf \<Rightarrow>
          if length buf \<le> r_raw_n s then Undefined
          else
            let s1 = s\<lparr>r_raw := Some (buf[r_raw_n s := r_a_k s]),
                       r_send_left := sz_sub (r_send_left s) 1, r_raw_n := sz_add (r_raw_n s) 1\<rparr>
            in if r_raw_n s1 = e_send env \<or> r_send_left s1 = 0
               then roll_flush env (r_a_k_pos s1) s1
               else Continue s1)"

definition roll_emit_raw :: "('h, 'q) roll_env \<Rightarrow> 'q roll \<Rightarrow> 'q roll step" where
  "roll_emit_raw env s =
     then_do (roll_raw_alloc env s) (\<lambda>s1. then_do (roll_raw_byte s1) (roll_raw_store env))"

definition roll_iter :: "('h, 'q) roll_env \<Rightarrow> 'q roll \<Rightarrow> 'q roll step" where
  "roll_iter env s =
     (if r_send_left s \<le> e_copy_tail env then Copy_Tail s
      else then_do (if r_match s then roll_window env s else roll_shift env s)
        (\<lambda>s1. then_do (roll_lookup env s1)
           (\<lambda>s2. if r_match s2 then roll_emit_match env s2 else roll_emit_raw env s2)))"

text \<open>The \<open>do ... while (send_left > 0)\<close> loop; \<open>None\<close> is a run that does not end.\<close>

partial_function (option) roll_loop :: "('h, 'q) roll_env \<Rightarrow> 'q roll \<Rightarrow> 'q roll step option" where
  "roll_loop env s =
     (case roll_iter env s of
        Continue s' \<Rightarrow> if 0 < r_send_left s' then roll_loop env s' else Some (Continue s')
      | r \<Rightarrow> Some r)"

declare roll_loop.simps [code]

section \<open>The ends and the beginning\<close>

definition roll_report :: "bool \<Rightarrow> bool \<Rightarrow> 'q roll \<Rightarrow> 'q roll" where
  "roll_report all_fired tail_fired s =
     s\<lparr>r_sess := (r_sess s)\<lparr>s_rec_ctx := (s_rec_ctx (r_sess s))
         \<lparr>collisions_1st_level := r_coll1 s, collisions_2nd_level := r_coll2 s,
          copy_all_threshold_fired := all_fired, copy_tail_threshold_fired := tail_fired\<rparr>\<rparr>\<rparr>"

text \<open>
  The label \<open>copy_tail\<close>: everything not sent yet goes out as literal bytes. From the allocation of their
  buffer on every exit gives back both buffers, or hands the second one over; a failure to send the literal bytes
  collected before gives back none.
\<close>

definition roll_copy_tail ::
    "('h, 'q) roll_env \<Rightarrow> bool \<Rightarrow> bool \<Rightarrow> bool \<Rightarrow> 'q roll \<Rightarrow> 'q roll step" where
  "roll_copy_tail env copy_all all_fired tail_fired s =
     (let s1 = roll_report all_fired tail_fired s;
          s2 = (if \<not> copy_all \<and> tail_fired
                then if \<not> r_match s1 then s1\<lparr>r_a_k_pos := sz_add (r_a_k_pos s1) 1\<rparr>
                     else s1\<lparr>r_a_k_pos := r_a_kL_pos s1\<rparr>
                else s1)
      in then_do (roll_flush env (sz_sub (r_a_k_pos s2) (r_raw_n s2)) s2)
           (\<lambda>s3. let s4 = s3\<lparr>r_mem := r_mem s3 + 1\<rparr> in
             if \<not> e_mem env (r_mem s3) then Return RM_ERR_MEM (roll_release s4)
             else
               let (err, dst, fx, _) = rm_copy_buffered_2 (r_fx s4) (r_a_k_pos s4) (r_send_left s4) None;
                   s5 = s4\<lparr>r_fx := fx, r_raw := Some dst\<rparr>
               in if err \<noteq> RM_ERR_OK then Return RM_ERR_COPY_BUFFERED_2 (roll_release s5)
                  else case roll_tx env RM_ERR_TX_RAW RM_DELTA_ELEMENT_RAW_BYTES (r_a_k_pos s5)
                              (Some dst) (r_send_left s5) s5 of
                    Continue s6 \<Rightarrow> Return RM_ERR_OK (roll_release (s6\<lparr>r_raw := None\<rparr>))
                  | Return e s6 \<Rightarrow> Return e (roll_release s6)
                  | r \<Rightarrow> r))"

definition roll_start :: "stream \<Rightarrow> 'q sess \<Rightarrow> mutex option \<Rightarrow> nat \<Rightarrow> 'q roll" where
  "roll_start f_x s hm send_left =
     \<lparr>r_fx = f_x, r_sess = s, r_hm = hm, r_mem = 0, r_iter = 0, r_buf = [], r_send_left = send_left,
      r_read = 0, r_read_begin = 0, r_match = True, r_begin_in_buf = False, r_ref = 0, r_f_ch = 0,
      r_raw = None, r_raw_n = 0, r_a_k_pos = 0, r_a_kL_pos = 0, r_a_k = 0, r_a_kL = 0,
      r_coll1 = 0, r_coll2 = 0\<rparr>"

text \<open>How the loop's outcome ends the procedure.\<close>

definition roll_end :: "('h, 'q) roll_env \<Rightarrow> 'q roll step \<Rightarrow> 'q roll step" where
  "roll_end env r =
     (case r of
        Continue s \<Rightarrow> Return RM_ERR_OK (roll_release (roll_report False False s))
      | Copy_Tail s \<Rightarrow> roll_copy_tail env False False True s
      | _ \<Rightarrow> r)"

definition roll_proc ::
    "'h twhash \<Rightarrow> mem_oracle \<Rightarrow> 'q sess \<Rightarrow> (nat \<Rightarrow> 'h) option \<Rightarrow> mutex option \<Rightarrow> stream \<Rightarrow>
     'q rm_delta_f \<Rightarrow> nat \<Rightarrow> 'q roll step option" where
  "roll_proc tw mem s h hm f_x delta_f from =
     (let ctx = s_rec_ctx s; s0 = roll_start f_x s hm 0 in
      if ctx_L ctx = 0 then Some (Return RM_ERR_BAD_CALL s0)
      else if send_threshold ctx = 0 then Some (Return RM_ERR_BAD_CALL s0)
      else case fstat_size f_x of
        None \<Rightarrow> Some (Return RM_ERR_FSTAT_X s0)
      | Some file_sz \<Rightarrow>
          if file_sz \<le> from then Some (Return RM_ERR_TOO_MUCH_REQUESTED s0)
          else
            let send_left = sz_sub file_sz from;
                s1 = s0\<lparr>r_send_left := send_left\<rparr>;
                env = \<lparr>e_tw = tw, e_h = h, e_delta_f = delta_f, e_mem = mem,
                  e_file_sz = file_sz, e_L = ctx_L ctx, e_copy_tail = copy_tail_threshold ctx,
                  e_send = send_threshold ctx, e_raw_max = max (ctx_L ctx) (send_threshold ctx)\<rparr>
            in if send_left < copy_all_threshold ctx \<or> h = None
               then Some (roll_copy_tail env True True False s1)
               else if send_left \<le> copy_tail_threshold ctx
               then Some (roll_copy_tail env True False True s1)
               else if \<not> mem 0 then Some (Return RM_ERR_MEM (s1\<lparr>r_mem := 1\<rparr>))
               else map_option (roll_end env)
                 (roll_loop env (s1\<lparr>r_mem := 1, r_buf := replicate (ctx_L ctx) 0\<rparr>)))"

text \<open>The buffers that are still allocated when the procedure has returned: nobody can release them.\<close>

definition roll_left :: "'q roll step option \<Rightarrow> bool \<times> bool" where
  "roll_left z = (case z of Some (Return e r) \<Rightarrow> (r_buf r \<noteq> [], r_raw r \<noteq> None) | _ \<Rightarrow> (False, False))"

text \<open>
  The procedure with its three pointers. The result is the error, the session, the stream and the
  mutex of the table; \<open>None\<close> is a run that does not return or leaves the defined behaviour of C.
\<close>

definition rm_rolling_ch_proc ::
    "'h twhash \<Rightarrow> mem_oracle \<Rightarrow> 'q sess option \<Rightarrow> (nat \<Rightarrow> 'h) option \<Rightarrow> mutex option \<Rightarrow>
     stream option \<Rightarrow> 'q rm_delta_f option \<Rightarrow> nat \<Rightarrow>
     (rm_error \<times> 'q sess option \<times> stream option \<times> mutex option) option" where
  "rm_rolling_ch_proc tw mem s h hm f_x delta_f from =
     (case (s, f_x, delta_f) of
        (Some s', Some fx, Some df) \<Rightarrow>
          (case roll_proc tw mem s' h hm fx df from of
             Some (Return err r) \<Rightarrow> Some (err, Some (r_sess r), Some (r_fx r), r_hm r)
           | _ \<Rightarrow> None)
      | _ \<Rightarrow> Some (RM_ERR_BAD_CALL, s, f_x, hm))"

end
