(* ===== verification/RM_Sync.thy ===== *)
theory RM_Sync
  imports RM_Roll
begin

text \<open>
  Correctness of the rolling checksum procedure: on a readable file the loop ends, and the elements
  it hands over stand for exactly the bytes of \<open>@x\<close>. The proof follows the parts of the loop body;
  its invariant says that the elements handed over so far and the buffered literal bytes are the
  prefix of \<open>@x\<close> already dealt with, and where the window and its checksum are.
\<close>

section \<open>Sequences of elements\<close>

definition deltas_data :: "nat \<Rightarrow> bytes \<Rightarrow> rm_delta_e list \<Rightarrow> bytes" where
  "deltas_data L y ds = concat (map (delta_data L y) ds)"

text \<open>
  How an element fits a file of \<open>n\<close> bytes at position \<open>p\<close>: a reference covers a whole block, a tail
  goes to the end of the file, and zero difference covers the whole file. A remote receiver relies
  on this, for it is told neither the length of a tail nor of a zero difference.
\<close>

definition delta_fits :: "nat \<Rightarrow> nat \<Rightarrow> nat \<Rightarrow> rm_delta_e \<Rightarrow> bool" where
  "delta_fits L n p d \<longleftrightarrow>
     (case d_type d of
        RM_DELTA_ELEMENT_REFERENCE \<Rightarrow> raw_bytes_n d = L
      | RM_DELTA_ELEMENT_RAW_BYTES \<Rightarrow> True
      | RM_DELTA_ELEMENT_ZERO_DIFF \<Rightarrow> p = 0 \<and> raw_bytes_n d = n \<and> n \<le> L
      | RM_DELTA_ELEMENT_TAIL \<Rightarrow> p + raw_bytes_n d = n)"

fun deltas_fit :: "nat \<Rightarrow> nat \<Rightarrow> nat \<Rightarrow> rm_delta_e list \<Rightarrow> bool" where
  "deltas_fit L n p [] = True"
| "deltas_fit L n p (d # ds) = (delta_fits L n p d \<and> deltas_fit L n (p + raw_bytes_n d) ds)"

lemma deltas_data_simps [simp]:
  "deltas_data L y [] = []" "deltas_data L y (d # ds) = delta_data L y d @ deltas_data L y ds"
  "deltas_data L y (ds @ es) = deltas_data L y ds @ deltas_data L y es"
  by (simp_all add: deltas_data_def)

lemma length_deltas_data:
  "\<forall>d\<in>set ds. delta_wf L y d \<Longrightarrow> length (deltas_data L y ds) = sum_list (map raw_bytes_n ds)"
  by (induction ds) (auto simp: length_delta_data)

lemma deltas_fit_append:
  "deltas_fit L n p (ds @ es) \<longleftrightarrow>
     deltas_fit L n p ds \<and> deltas_fit L n (p + sum_list (map raw_bytes_n ds)) es"
  by (induction ds arbitrary: p) (auto simp: add.assoc)

text \<open>A list of elements that is right up to position \<open>p\<close> of \<open>x\<close>.\<close>

definition deltas_upto :: "nat \<Rightarrow> bytes \<Rightarrow> bytes \<Rightarrow> nat \<Rightarrow> rm_delta_e list \<Rightarrow> bool" where
  "deltas_upto L y x p ds \<longleftrightarrow>
     deltas_data L y ds = take p x \<and> (\<forall>d\<in>set ds. delta_wf L y d) \<and> deltas_fit L (length x) 0 ds"

lemma deltas_upto_Nil [simp]: "deltas_upto L y x 0 []"
  by (simp add: deltas_upto_def)

lemma deltas_upto_snoc:
  assumes "deltas_upto L y x p ds" and "p + raw_bytes_n d \<le> length x"
    and "delta_wf L y d" and "delta_data L y d = bslice x p (raw_bytes_n d)"
    and "delta_fits L (length x) p d"
  shows "deltas_upto L y x (p + raw_bytes_n d) (ds @ [d])"
proof -
  have "sum_list (map raw_bytes_n ds) = p"
    using assms(1,2) length_deltas_data [of ds L y] by (auto simp: deltas_upto_def)
  with assms show ?thesis
    by (auto simp: deltas_upto_def deltas_fit_append take_bslice_snoc)
qed

section \<open>The setting\<close>

text \<open>
  The callback appends the element to what \<open>em\<close> reads off the session; the rolling procedure only
  touches \<open>s_rec_ctx\<close>.
\<close>

definition sink_ok :: "'q rm_delta_f \<Rightarrow> ('q \<Rightarrow> rm_delta_e list) \<Rightarrow> bool" where
  "sink_ok f em \<longleftrightarrow> (\<forall>d s. em (s_prvt (snd (f d s))) = em (s_prvt s) @ [d])"

text \<open>Every entry any lookup can find describes a block of \<open>y\<close>.\<close>

definition table_sound :: "'h twhash \<Rightarrow> (nat \<Rightarrow> 'h) \<Rightarrow> nat \<Rightarrow> bytes \<Rightarrow> bool" where
  "table_sound tw h L y \<longleftrightarrow>
     (\<forall>i b e. e \<in> set (tw_bucket tw (h i) b) \<longrightarrow> (\<exists>k. k * L < length y \<and> e = block_entry L y k))"

text \<open>
  What the checksums are trusted for: a window of \<open>x\<close> and a block of \<open>y\<close> that agree in the fast and
  in the strong checksum are equal.
\<close>

definition no_collision :: "nat \<Rightarrow> bytes \<Rightarrow> bytes \<Rightarrow> bool" where
  "no_collision L x y \<longleftrightarrow>
     (\<forall>p r k. p + r \<le> length x \<longrightarrow> k * L < length y \<longrightarrow>
        rm_fast_check_block (bslice x p r) = rm_fast_check_block (bslice y (k * L) L) \<longrightarrow>
        rm_md5 (bslice x p r) = rm_md5 (bslice y (k * L) L) \<longrightarrow>
        bslice x p r = bslice y (k * L) L)"

text \<open>
  Zero difference makes the receiver copy the beginning of \<open>y\<close>, whichever block matched. It is right
  only if a block equal to all of \<open>x\<close> is matched at the beginning as well.
\<close>

definition zero_diff_safe :: "nat \<Rightarrow> bytes \<Rightarrow> bytes \<Rightarrow> bool" where
  "zero_diff_safe L x y \<longleftrightarrow>
     (\<forall>k. k * L < length y \<longrightarrow> bslice y (k * L) L = x \<longrightarrow> take (length x) y = x)"

lemma zero_diff_safe_long: "L < length x \<Longrightarrow> zero_diff_safe L x y"
  by (auto simp: zero_diff_safe_def length_bslice dest: arg_cong [where f = length])

lemma zero_diff_safe_one_block: "length y \<le> L \<Longrightarrow> zero_diff_safe L x y"
proof (unfold zero_diff_safe_def, intro allI impI)
  fix k assume y: "length y \<le> L" "k * L < length y" and eq: "bslice y (k * L) L = x"
  then have "k = 0" by (cases k) auto
  with eq y show "take (length x) y = x" by simp
qed

definition roll_ok :: "('h, 'q) roll_env \<Rightarrow> bytes \<Rightarrow> bytes \<Rightarrow> ('q \<Rightarrow> rm_delta_e list) \<Rightarrow> bool" where
  "roll_ok env x y em \<longleftrightarrow>
     e_file_sz env = length x \<and> x \<noteq> [] \<and> length x < off_max \<and> 0 < e_L env \<and> e_L env < off_max \<and>
     0 < e_send env \<and> e_raw_max env = max (e_L env) (e_send env) \<and> e_mem env = mem_ok \<and>
     sink_ok (e_delta_f env) em \<and>
     (\<exists>h. e_h env = Some h \<and> table_sound (e_tw env) h (e_L env) y) \<and>
     no_collision (e_L env) x y \<and> zero_diff_safe (e_L env) x y"

section \<open>The invariant\<close>

text \<open>The window at position \<open>p\<close>, its checksum, and the byte that would enter it next.\<close>

definition win_at :: "nat \<Rightarrow> bytes \<Rightarrow> nat \<Rightarrow> 'q roll \<Rightarrow> bool" where
  "win_at L x p s \<longleftrightarrow> length (r_buf s) = L \<and>
     0 < r_read_begin s \<and> r_a_k_pos s = p \<and> 0 < r_read s \<and> r_read s \<le> L \<and>
     r_f_ch s = rm_fast_check_block (bslice x p (r_read s)) \<and>
     (r_read s = L \<and> r_a_kL_pos s = p + L \<and> p + L < length x \<or>
      p + r_read s = length x \<and> r_a_kL_pos s = length x - 1)"

lemma win_at_inside: "win_at L x p s \<Longrightarrow> p + r_read s \<le> length x \<and> p < length x"
  by (auto simp: win_at_def)

definition file_ok :: "bytes \<Rightarrow> 'q roll \<Rightarrow> bool" where
  "file_ok x s \<longleftrightarrow> healthy (r_fx s) \<and> fs_bytes (r_fx s) = x \<and>
     (r_begin_in_buf s \<longrightarrow> take (r_read_begin s) (r_buf s) = take (r_read_begin s) x \<and>
        r_read_begin s \<le> length x)"

definition raw_data :: "'q roll \<Rightarrow> bytes" where
  "raw_data s = (case r_raw s of None \<Rightarrow> [] | Some b \<Rightarrow> take (r_raw_n s) b)"

definition raw_ok :: "('h, 'q) roll_env \<Rightarrow> 'q roll \<Rightarrow> bool" where
  "raw_ok env s \<longleftrightarrow> r_raw_n s < e_send env \<and>
     (0 < r_raw_n s \<longrightarrow> (\<exists>b. r_raw s = Some b \<and> length b = e_raw_max env)) \<and>
     (r_raw_n s = 0 \<longrightarrow> r_raw s = None)"

text \<open>The elements handed over and the literal bytes in the buffer reach up to position \<open>p\<close>.\<close>

definition sent_upto ::
    "('h, 'q) roll_env \<Rightarrow> bytes \<Rightarrow> bytes \<Rightarrow> ('q \<Rightarrow> rm_delta_e list) \<Rightarrow> rm_delta_e list \<Rightarrow> nat \<Rightarrow>
     'q roll \<Rightarrow> bool" where
  "sent_upto env x y em es0 p s \<longleftrightarrow>
     raw_ok env s \<and> r_raw_n s \<le> p \<and> p \<le> length x \<and>
     raw_data s = bslice x (p - r_raw_n s) (r_raw_n s) \<and>
     (\<exists>ds. em (s_prvt (r_sess s)) = es0 @ ds \<and>
        deltas_upto (e_L env) y x (p - r_raw_n s) ds)"

definition roll_inv ::
    "('h, 'q) roll_env \<Rightarrow> bytes \<Rightarrow> bytes \<Rightarrow> ('q \<Rightarrow> rm_delta_e list) \<Rightarrow> rm_delta_e list \<Rightarrow> nat \<Rightarrow>
     'q roll \<Rightarrow> bool" where
  "roll_inv env x y em es0 p s \<longleftrightarrow>
     p + r_send_left s = length x \<and> 0 < r_send_left s \<and> file_ok x s \<and> length (r_buf s) = e_L env \<and>
     sent_upto env x y em es0 p s \<and>
     (if r_match s then r_a_kL_pos s = p \<and> (r_read_begin s = 0 \<longrightarrow> p = 0)
      else 0 < p \<and> win_at (e_L env) x (p - 1) s \<and> r_a_k s = x ! (p - 1))"

text \<open>What the parts before the emission leave alone.\<close>

definition same_sent :: "'q roll \<Rightarrow> 'q roll \<Rightarrow> bool" where
  "same_sent s s' \<longleftrightarrow> r_sess s' = r_sess s \<and> r_send_left s' = r_send_left s \<and>
     r_raw s' = r_raw s \<and> r_raw_n s' = r_raw_n s"

lemma sent_upto_cong:
  assumes "r_raw s' = r_raw s" and "r_raw_n s' = r_raw_n s" and "s_prvt (r_sess s') = s_prvt (r_sess s)"
  shows "sent_upto env x y em es0 p s' = sent_upto env x y em es0 p s"
  using assms by (cases "r_raw s") (simp_all add: sent_upto_def raw_ok_def raw_data_def)

lemma same_sent_upto:
  "same_sent s s' \<Longrightarrow> sent_upto env x y em es0 p s' = sent_upto env x y em es0 p s"
  by (rule sent_upto_cong) (simp_all add: same_sent_def)

lemma same_sent_trans: "same_sent s s' \<Longrightarrow> same_sent s' s'' \<Longrightarrow> same_sent s s''"
  by (simp add: same_sent_def)

section \<open>The parts of the loop body\<close>

lemma overlay_take: "length data = n \<Longrightarrow> n \<le> length buf \<Longrightarrow> take n (overlay data buf) = data"
  by (simp add: overlay_def min_def)

lemma length_overlay [simp]: "length (overlay data buf) = length buf"
  by (simp add: overlay_def)

lemma bslice_start: "bslice xs 0 n = take n xs"
  by (simp add: bslice_def)

lemma roll_window_ok:
  assumes ok: "roll_ok env x y em" and inv: "roll_inv env x y em es0 p s" and m: "r_match s"
  shows "\<exists>s'. roll_window env s = Continue s' \<and> win_at (e_L env) x p s' \<and> file_ok x s' \<and> same_sent s s'"
proof -
  let ?L = "e_L env" and ?n = "length x" and ?r = "min (e_L env) (r_send_left s)"
  from ok have env: "e_file_sz env = ?n" "?n < off_max" "0 < ?L" "?L < off_max"
    by (auto simp: roll_ok_def)
  from inv m have s: "p + r_send_left s = ?n" "0 < r_send_left s" "healthy (r_fx s)"
      "fs_bytes (r_fx s) = x" "r_a_kL_pos s = p"
    by (auto simp: roll_inv_def file_ok_def)
  have r: "?r \<le> ?n - p" "0 < ?r" "p + ?r \<le> ?n" and p: "p < off_max"
    using s env by auto
  have rd: "rm_fpread 1 ?r p (r_fx s) None = (bslice x p ?r, ?r,
      (r_fx s)\<lparr>fs_pos := p + ?r, fs_eof := False\<rparr>, None)"
    using rm_fpread_healthy [OF s(3) p, of ?r None] s(4) r(1)
    by (simp only: min_absorb1 not_less [symmetric] mutex_lock_unlock refl if_False)
  have len: "length (bslice x p ?r) = ?r" using r by simp
  have off: "sz_add p ?L = p + ?L" "sz_sub ?n 1 = ?n - 1"
    using p env off_max_size_t s by (simp_all add: sz_simps)
  let ?buf = "overlay (bslice x p ?r) (r_buf s)"
  have bl: "length (r_buf s) = ?L" using inv by (simp add: roll_inv_def)
  then have room: "?r \<le> length (r_buf s)" "\<not> length (r_buf s) < ?r" by simp_all
  have buf: "take ?r ?buf = bslice x p ?r"
    using len room(1) by (simp add: overlay_take)
  have start: "p = 0" if "r_read_begin s = 0"
    using inv m that by (simp add: roll_inv_def)
  have "roll_window env s = Continue (s\<lparr>r_fx := (r_fx s)\<lparr>fs_pos := p + ?r, fs_eof := False\<rparr>,
      r_buf := ?buf, r_read := ?r,
      r_read_begin := (if r_read_begin s = 0 then ?r else r_read_begin s),
      r_begin_in_buf := (r_read_begin s = 0),
      r_f_ch := rm_fast_check_block (bslice x p ?r), r_a_k_pos := p,
      r_a_kL_pos := min (?n - 1) (p + ?L)\<rparr>)"
    using s env rd off buf room by (cases s) (simp add: roll_window_def Let_def)
  moreover have "?r = ?L \<and> min (?n - 1) (p + ?L) = p + ?L \<and> p + ?L < ?n \<or>
      p + ?r = ?n \<and> min (?n - 1) (p + ?L) = ?n - 1"
    using s(1) r by (auto simp: min_def)
  ultimately show ?thesis
    using r s start buf bl by (auto simp: win_at_def file_ok_def same_sent_def bslice_start)
qed

lemma roll_shift_ok:
  assumes ok: "roll_ok env x y em" and inv: "roll_inv env x y em es0 p s" and m: "\<not> r_match s"
  shows "\<exists>s'. roll_shift env s = Continue s' \<and> win_at (e_L env) x p s' \<and> file_ok x s' \<and> same_sent s s'"
proof -
  let ?L = "e_L env" and ?n = "length x" and ?r = "r_read s"
  from ok have env: "e_file_sz env = ?n" "?n < off_max" "0 < ?L" "?L < off_max"
    by (auto simp: roll_ok_def)
  from inv m have s: "p + r_send_left s = ?n" "0 < r_send_left s" "healthy (r_fx s)"
      "fs_bytes (r_fx s) = x" "file_ok x s" "0 < p" "r_a_k s = x ! (p - 1)"
    and w: "win_at ?L x (p - 1) s"
    by (auto simp: roll_inv_def file_ok_def)
  from w have w': "r_a_k_pos s = p - 1" "0 < ?r" "?r \<le> ?L" "0 < r_read_begin s"
      "r_f_ch s = rm_fast_check_block (bslice x (p - 1) ?r)" "length (r_buf s) = ?L"
    by (auto simp: win_at_def)
  have pn: "p < ?n" using s by simp
  have off: "sz_add (p - 1) 1 = p" "sz_sub ?n 1 = ?n - 1"
    using pn env off_max_size_t s by (simp_all add: sz_simps)
  from w consider (slide) "?r = ?L" "r_a_kL_pos s = p - 1 + ?L" "p - 1 + ?L < ?n"
    | (shrink) "p - 1 + ?r = ?n" "r_a_kL_pos s = ?n - 1"
    by (auto simp: win_at_def)
  then show ?thesis
  proof cases
    case slide
    have pos: "p - 1 + ?L < off_max" using slide env by simp
    have gap: "sz_sub (r_a_kL_pos s) (r_a_k_pos s) = ?L"
      using slide w' pos off_max_size_t by (simp add: sz_simps)
    have next1: "sz_add (p - 1 + ?L) 1 = p + ?L"
      using pos s(6) off_max_size_t by (simp add: sz_simps)
    have one: "min 1 (?n - (p - 1 + ?L)) = 1" using slide by simp
    have rd: "rm_fpread 1 1 (p - 1 + ?L) (r_fx s) None = ([x ! (p - 1 + ?L)], 1,
        (r_fx s)\<lparr>fs_pos := p - 1 + ?L + 1, fs_eof := False\<rparr>, None)"
      using rm_fpread_healthy [OF s(3) pos, of 1 None] slide(3) one s(4)
      by (simp only: bslice_single mutex_lock_unlock) simp
    have "rm_fast_check_roll (r_f_ch s) (r_a_k s) (x ! (p - 1 + ?L)) (of_nat ?L) =
        rm_fast_check_block (bslice x p ?L)"
      using fast.roll_bslice [of "p - 1" ?L x] slide env w' s by simp
    then have "roll_shift env s = Continue (s\<lparr>r_fx := (r_fx s)\<lparr>fs_pos := p - 1 + ?L + 1, fs_eof := False\<rparr>,
        r_a_kL := x ! (p - 1 + ?L), r_f_ch := rm_fast_check_block (bslice x p ?L),
        r_read := ?L, r_a_k_pos := p, r_a_kL_pos := min (p + ?L) (?n - 1)\<rparr>)"
      using slide env rd off next1 gap w'(1)
      by (cases s) (simp add: roll_shift_def Let_def)
    moreover have "min (p + ?L) (?n - 1) = p + ?L \<and> p + ?L < ?n \<or>
        p + ?L = ?n \<and> min (p + ?L) (?n - 1) = ?n - 1"
      using slide s(6) by (auto simp: min_def)
    ultimately show ?thesis
      using s env w' by (auto simp: win_at_def file_ok_def same_sent_def)
  next
    case shrink
    have gap: "sz_sub (r_a_kL_pos s) (r_a_k_pos s) = ?r - 1"
      using shrink w' s(6) env off_max_size_t by (simp add: sz_simps)
    have r: "1 < ?r" "p + (?r - 1) = ?n" using shrink pn s(6) by simp_all
    have gap1: "sz_add (?r - 1) 1 = ?r"
      using r env off_max_size_t by (simp add: sz_simps)
    have "rm_fast_check_roll_tail (r_f_ch s) (r_a_k s) (of_nat ?r) =
        rm_fast_check_block (bslice x p (?r - 1))"
      using fast.roll_tail_bslice [of "p - 1" ?r x] shrink w' s by simp
    moreover have "\<not> (?r = ?L \<and> ?r - 1 = ?L)" using r by auto
    ultimately have "roll_shift env s = Continue (s\<lparr>r_read := ?r - 1,
        r_f_ch := rm_fast_check_block (bslice x p (?r - 1)), r_a_k_pos := p\<rparr>)"
      using r gap gap1 off w'(1) by (auto simp: roll_shift_def Let_def max_def)
    then show ?thesis
      using s w' r shrink by (auto simp: win_at_def file_ok_def same_sent_def)
  qed
qed

text \<open>The state after a look at the bucket: only these fields may have changed.\<close>

definition looked :: "bytes \<Rightarrow> bytes \<Rightarrow> nat \<Rightarrow> nat \<Rightarrow> 'q roll \<Rightarrow> 'q roll \<Rightarrow> bool" where
  "looked x y L p s s' \<longleftrightarrow> win_at L x p s' \<and> file_ok x s' \<and> same_sent s s' \<and>
     (r_match s' \<longrightarrow> (r_ref s' * L < length y \<and>
        bslice y (r_ref s' * L) L = bslice x p (r_read s')))"

lemma roll_bucket_ok:
  assumes "win_at L x p s" and "file_ok x s" and "\<not> r_match s" and "length x < off_max"
    and "\<forall>e\<in>set es. \<exists>k. k * L < length y \<and> e = block_entry L y k" and "no_collision L x y"
  shows "\<exists>s'. roll_bucket es s = Continue s' \<and> looked x y L p s s'"
  using assms
proof (induction es arbitrary: s)
  case Nil
  then show ?case by (auto simp: looked_def same_sent_def)
next
  case (Cons e es)
  have len: "p + r_read s \<le> length x" "p < off_max"
    using win_at_inside [OF Cons.prems(1)] Cons.prems(4) by auto
  show ?case
  proof (cases "f_ch e = r_f_ch s")
    case True
    let ?d = "bslice x p (r_read s)"
    let ?s1 = "s\<lparr>r_fx := (r_fx s)\<lparr>fs_pos := p + r_read s, fs_eof := False\<rparr>,
        r_buf := overlay ?d (r_buf s), r_begin_in_buf := False\<rparr>"
    have pos: "r_a_k_pos s = p" using Cons.prems(1) by (simp add: win_at_def)
    have c: "rm_copy_buffered_2 (r_fx s) p (r_read s) None =
        (RM_ERR_OK, ?d, (r_fx s)\<lparr>fs_pos := p + r_read s, fs_eof := False\<rparr>, None)"
      using rm_copy_buffered_2_healthy [of "r_fx s" p "r_read s" None] Cons.prems(2) len
      by (simp add: file_ok_def)
    have room: "r_read s \<le> length (r_buf s)" using Cons.prems(1) by (simp add: win_at_def)
    have buf: "take (r_read s) (overlay ?d (r_buf s)) = ?d"
      using len room by (simp add: overlay_take)
    have step: "roll_bucket (e # es) s =
        (if s_ch e = rm_md5 ?d then Continue (?s1\<lparr>r_match := True, r_ref := ch_ref e\<rparr>)
         else roll_bucket es (?s1\<lparr>r_coll2 := sz_add (r_coll2 s) 1\<rparr>))"
      using True c buf pos room by (simp add: Let_def)
    show ?thesis
    proof (cases "s_ch e = rm_md5 ?d")
      case hit: True
      from Cons.prems(5) obtain k where k: "k * L < length y" "e = block_entry L y k" by auto
      have "r_f_ch s = rm_fast_check_block ?d" using Cons.prems(1) by (simp add: win_at_def)
      then have "?d = bslice y (k * L) L"
        using Cons.prems(6) k True hit len(1) unfolding no_collision_def
        by (metis block_entry_def rm_ch_ch_ref.select_convs(1,2))
      then show ?thesis
        using step hit k Cons.prems
        by (auto simp: looked_def win_at_def file_ok_def same_sent_def block_entry_def)
    next
      case False
      have "\<exists>s'. roll_bucket es (?s1\<lparr>r_coll2 := sz_add (r_coll2 s) 1\<rparr>) = Continue s' \<and>
          looked x y L p (?s1\<lparr>r_coll2 := sz_add (r_coll2 s) 1\<rparr>) s'"
        using Cons.prems by (intro Cons.IH) (auto simp: win_at_def file_ok_def)
      with step False show ?thesis by (auto simp: looked_def same_sent_def)
    qed
  next
    case False
    have "\<exists>s'. roll_bucket es (s\<lparr>r_coll1 := sz_add (r_coll1 s) 1\<rparr>) = Continue s' \<and>
        looked x y L p (s\<lparr>r_coll1 := sz_add (r_coll1 s) 1\<rparr>) s'"
      using Cons.prems by (intro Cons.IH) (auto simp: win_at_def file_ok_def)
    with False show ?thesis by (auto simp: looked_def same_sent_def)
  qed
qed

lemma roll_lookup_ok:
  assumes ok: "roll_ok env x y em" and w: "win_at (e_L env) x p s" and f: "file_ok x s"
  shows "\<exists>s'. roll_lookup env s = Continue s' \<and> looked x y (e_L env) p s s'"
proof -
  from ok obtain h where h: "e_h env = Some h" "table_sound (e_tw env) h (e_L env) y"
    by (auto simp: roll_ok_def)
  let ?s1 = "s\<lparr>r_match := False, r_hm := mutex_lock (r_hm s), r_iter := r_iter s + 1\<rparr>"
  let ?es = "tw_bucket (e_tw env) (h (r_iter s))
    (tw_min (e_tw env) (r_f_ch s) RM_NONOVERLAPPING_HASH_BITS)"
  have "\<exists>s'. roll_bucket ?es ?s1 = Continue s' \<and> looked x y (e_L env) p ?s1 s'"
    using ok h(2) w f
    by (intro roll_bucket_ok) (auto simp: roll_ok_def table_sound_def win_at_def file_ok_def)
  then obtain s' where "roll_bucket ?es ?s1 = Continue s'" "looked x y (e_L env) p ?s1 s'"
    by auto
  then show ?thesis
    using h(1)
    by (auto simp: roll_lookup_def then_do_def Let_def looked_def win_at_def file_ok_def same_sent_def)
qed

section \<open>Handing over elements\<close>

definition pending ::
    "('h, 'q) roll_env \<Rightarrow> bytes \<Rightarrow> bytes \<Rightarrow> ('q \<Rightarrow> rm_delta_e list) \<Rightarrow> rm_delta_e list \<Rightarrow> nat \<Rightarrow>
     'q roll \<Rightarrow> bool" where
  "pending env x y em es0 q s \<longleftrightarrow>
     (\<exists>ds. em (s_prvt (r_sess s)) = es0 @ ds \<and> deltas_upto (e_L env) y x q ds)"

lemma sent_upto_no_raw:
  "r_raw_n s = 0 \<Longrightarrow> sent_upto env x y em es0 p s \<longleftrightarrow>
     0 < e_send env \<and> r_raw s = None \<and> p \<le> length x \<and> pending env x y em es0 p s"
  by (auto simp: sent_upto_def raw_ok_def raw_data_def pending_def)

lemma roll_tx_ok:
  assumes ok: "roll_ok env x y em" and "type = RM_DELTA_ELEMENT_RAW_BYTES \<Longrightarrow> raw \<noteq> None"
    and p: "pending env x y em es0 q s" and "q + n \<le> length x"
    and "d = \<lparr>d_type = type, d_ref = ref,
      raw_bytes = (if type = RM_DELTA_ELEMENT_RAW_BYTES then raw else None), raw_bytes_n = n\<rparr>"
    and "delta_wf (e_L env) y d" and "delta_data (e_L env) y d = bslice x q n"
    and "delta_fits (e_L env) (length x) q d"
  shows "\<exists>k sess. roll_tx env err type ref raw n s = Continue (s\<lparr>r_mem := k, r_sess := sess\<rparr>) \<and>
    pending env x y em es0 (q + n) (s\<lparr>r_mem := k, r_sess := sess\<rparr>)"
proof -
  let ?sess = "snd (e_delta_f env d (r_sess s))"
  have mem: "e_mem env (r_mem s)" and sink: "em (s_prvt ?sess) = em (s_prvt (r_sess s)) @ [d]"
    using ok by (simp_all add: roll_ok_def mem_ok_def sink_ok_def)
  have "roll_tx env err type ref raw n s = Continue (s\<lparr>r_mem := r_mem s + 1, r_sess := ?sess\<rparr>)"
    using mem assms(2,5) by (auto simp: roll_tx_def rm_rolling_ch_proc_tx_def Let_def)
  moreover obtain ds where ds: "em (s_prvt (r_sess s)) = es0 @ ds" "deltas_upto (e_L env) y x q ds"
    using p by (auto simp: pending_def)
  have "raw_bytes_n d = n" using assms(5) by simp
  with deltas_upto_snoc [OF ds(2), of d] assms(4,6-8)
  have "deltas_upto (e_L env) y x (q + n) (ds @ [d])" by simp
  with ds(1) sink have "pending env x y em es0 (q + n) (s\<lparr>r_mem := r_mem s + 1, r_sess := ?sess\<rparr>)"
    by (auto simp: pending_def)
  ultimately show ?thesis by blast
qed

lemma roll_tx_raw_ok:
  assumes ok: "roll_ok env x y em" and p: "pending env x y em es0 q s" and "q + n \<le> length x"
    and "0 < n" and "b = bslice x q n"
  shows "\<exists>k sess. roll_tx env err RM_DELTA_ELEMENT_RAW_BYTES ref (Some b) n s =
      Continue (s\<lparr>r_mem := k, r_sess := sess\<rparr>) \<and>
    pending env x y em es0 (q + n) (s\<lparr>r_mem := k, r_sess := sess\<rparr>)"
  using assms by (intro roll_tx_ok [OF ok _ p _ refl])
    (auto simp: delta_wf_def delta_data_def delta_fits_def)

lemma roll_flush_some:
  assumes ok: "roll_ok env x y em" and "r_raw s = Some b" and "0 < r_raw_n s" and "r_raw_n s \<le> p"
    and "p \<le> length x" and "take (r_raw_n s) b = bslice x (p - r_raw_n s) (r_raw_n s)"
    and "pending env x y em es0 (p - r_raw_n s) s"
  shows "\<exists>k sess. roll_flush env ref s =
      Continue (s\<lparr>r_mem := k, r_sess := sess, r_raw := None, r_raw_n := 0\<rparr>) \<and>
    pending env x y em es0 p (s\<lparr>r_mem := k, r_sess := sess, r_raw := None, r_raw_n := 0\<rparr>)"
proof -
  obtain k sess where tx: "roll_tx env RM_ERR_TX_RAW RM_DELTA_ELEMENT_RAW_BYTES ref
        (Some (take (r_raw_n s) b)) (r_raw_n s) s = Continue (s\<lparr>r_mem := k, r_sess := sess\<rparr>)"
      "pending env x y em es0 (p - r_raw_n s + r_raw_n s) (s\<lparr>r_mem := k, r_sess := sess\<rparr>)"
    using roll_tx_raw_ok [OF ok assms(7) _ assms(3), of "take (r_raw_n s) b" RM_ERR_TX_RAW ref] assms
    by auto
  have "roll_flush env ref s = Continue (s\<lparr>r_mem := k, r_sess := sess, r_raw := None, r_raw_n := 0\<rparr>)"
    using tx(1) assms(2,3) by (cases s) (simp add: roll_flush_def then_do_def)
  moreover have "pending env x y em es0 p (s\<lparr>r_mem := k, r_sess := sess, r_raw := None, r_raw_n := 0\<rparr>)"
    using tx(2) assms(4) by (simp add: pending_def)
  ultimately show ?thesis by blast
qed

lemma roll_flush_ok:
  assumes ok: "roll_ok env x y em" and s: "sent_upto env x y em es0 p s"
  shows "\<exists>k sess. roll_flush env ref s =
      Continue (s\<lparr>r_mem := k, r_sess := sess, r_raw := None, r_raw_n := 0\<rparr>) \<and>
    pending env x y em es0 p (s\<lparr>r_mem := k, r_sess := sess, r_raw := None, r_raw_n := 0\<rparr>)"
proof (cases "r_raw_n s = 0")
  case True
  then have "r_raw s = None" "pending env x y em es0 p s"
    using s sent_upto_no_raw by blast+
  with True have "s\<lparr>r_mem := r_mem s, r_sess := r_sess s, r_raw := None, r_raw_n := 0\<rparr> = s"
    by (cases s) simp
  moreover have "roll_flush env ref s = Continue s" using True by (simp add: roll_flush_def)
  ultimately show ?thesis
    using \<open>pending env x y em es0 p s\<close> by (intro exI [of _ "r_mem s"] exI [of _ "r_sess s"]) simp
next
  case False
  then obtain b where "r_raw s = Some b" using s by (auto simp: sent_upto_def raw_ok_def)
  then show ?thesis
    using s False by (intro roll_flush_some [OF ok]) (auto simp: sent_upto_def raw_data_def pending_def)
qed

lemma roll_emit_match_ok:
  assumes ok: "roll_ok env x y em" and s: "sent_upto env x y em es0 p s" and f: "file_ok x s"
    and w: "win_at (e_L env) x p s" and n: "p + r_send_left s = length x" and m: "r_match s"
    and blk: "r_ref s * e_L env < length y"
      "bslice y (r_ref s * e_L env) (e_L env) = bslice x p (r_read s)"
  shows "\<exists>s'. roll_emit_match env s = Continue s' \<and> r_send_left s' = r_send_left s - r_read s \<and>
    (if r_send_left s' = 0 then pending env x y em es0 (length x) s'
     else roll_inv env x y em es0 (p + r_read s) s')"
proof -
  let ?L = "e_L env" and ?n = "length x" and ?r = "r_read s" and ?k = "r_ref s"
  from ok have env: "e_file_sz env = ?n" "?n < off_max" "0 < ?L" "0 < e_send env"
      "zero_diff_safe ?L x y" by (auto simp: roll_ok_def)
  have r: "0 < ?r" "?r \<le> ?L" "p + ?r \<le> ?n" using w win_at_inside [OF w] by (auto simp: win_at_def)
  obtain k1 se1 where fl: "roll_flush env (sz_sub ?k (r_raw_n s)) s =
        Continue (s\<lparr>r_mem := k1, r_sess := se1, r_raw := None, r_raw_n := 0\<rparr>)"
      "pending env x y em es0 p (s\<lparr>r_mem := k1, r_sess := se1, r_raw := None, r_raw_n := 0\<rparr>)"
    using roll_flush_ok [OF ok s] by blast
  let ?s1 = "s\<lparr>r_mem := k1, r_sess := se1, r_raw := None, r_raw_n := 0\<rparr>"
  have len: "length (bslice x p ?r) = ?r" using r by simp
  then have kr: "?k * ?L + ?r \<le> length y"
    using blk by (auto simp: length_bslice dest: arg_cong [where f = length])
  have tl: "bslice y (?k * ?L) ?r = bslice x p ?r"
    using blk(2) len r(2) take_bslice [of ?r y "?k * ?L" ?L] by (simp add: min_absorb1)
  have "\<exists>k sess. (if ?r = ?n
        then roll_tx env RM_ERR_TX_ZERO_DIFF RM_DELTA_ELEMENT_ZERO_DIFF ?k None ?n ?s1
        else if ?r < ?L then roll_tx env RM_ERR_TX_TAIL RM_DELTA_ELEMENT_TAIL ?k None ?r ?s1
        else roll_tx env RM_ERR_TX_REF RM_DELTA_ELEMENT_REFERENCE ?k None ?L ?s1) =
      Continue (?s1\<lparr>r_mem := k, r_sess := sess\<rparr>) \<and>
    pending env x y em es0 (p + ?r) (?s1\<lparr>r_mem := k, r_sess := sess\<rparr>)"
  proof -
    consider (zero) "?r = ?n" | (tail) "?r \<noteq> ?n" "?r < ?L" | (block) "?r \<noteq> ?n" "?r = ?L"
      using r by linarith
    then show ?thesis
    proof cases
      case zero
      then have "p = 0" using r by simp
      then have "bslice y (?k * ?L) ?L = x" using blk(2) zero by simp
      then have ty: "take ?n y = x" using env(5) blk(1) by (auto simp: zero_diff_safe_def)
      then have "?n \<le> length y" by (metis length_take min.cobounded1)
      with ty zero \<open>p = 0\<close> r fl(2)
      have "\<exists>k sess. roll_tx env RM_ERR_TX_ZERO_DIFF RM_DELTA_ELEMENT_ZERO_DIFF ?k None ?n ?s1 =
          Continue (?s1\<lparr>r_mem := k, r_sess := sess\<rparr>) \<and>
        pending env x y em es0 (p + ?n) (?s1\<lparr>r_mem := k, r_sess := sess\<rparr>)"
        by (intro roll_tx_ok [OF ok _ fl(2) _ refl])
          (auto simp: delta_wf_def delta_data_def delta_fits_def)
      with zero show ?thesis by simp
    next
      case tail
      then have "p + ?r = ?n" using w by (auto simp: win_at_def)
      with tail tl kr r fl(2)
      have "\<exists>k sess. roll_tx env RM_ERR_TX_TAIL RM_DELTA_ELEMENT_TAIL ?k None ?r ?s1 =
          Continue (?s1\<lparr>r_mem := k, r_sess := sess\<rparr>) \<and>
        pending env x y em es0 (p + ?r) (?s1\<lparr>r_mem := k, r_sess := sess\<rparr>)"
        by (intro roll_tx_ok [OF ok _ fl(2) _ refl])
          (auto simp: delta_wf_def delta_data_def delta_fits_def)
      with tail show ?thesis by simp
    next
      case block
      with tl kr r fl(2)
      have "\<exists>k sess. roll_tx env RM_ERR_TX_REF RM_DELTA_ELEMENT_REFERENCE ?k None ?L ?s1 =
          Continue (?s1\<lparr>r_mem := k, r_sess := sess\<rparr>) \<and>
        pending env x y em es0 (p + ?L) (?s1\<lparr>r_mem := k, r_sess := sess\<rparr>)"
        by (intro roll_tx_ok [OF ok _ fl(2) _ refl])
          (auto simp: delta_wf_def delta_data_def delta_fits_def)
      with block show ?thesis by simp
    qed
  qed
  then obtain k2 se2 where tx: "(if ?r = ?n
        then roll_tx env RM_ERR_TX_ZERO_DIFF RM_DELTA_ELEMENT_ZERO_DIFF ?k None ?n ?s1
        else if ?r < ?L then roll_tx env RM_ERR_TX_TAIL RM_DELTA_ELEMENT_TAIL ?k None ?r ?s1
        else roll_tx env RM_ERR_TX_REF RM_DELTA_ELEMENT_REFERENCE ?k None ?L ?s1) =
      Continue (?s1\<lparr>r_mem := k2, r_sess := se2\<rparr>)"
    "pending env x y em es0 (p + ?r) (?s1\<lparr>r_mem := k2, r_sess := se2\<rparr>)" by blast
  let ?s2 = "?s1\<lparr>r_mem := k2, r_sess := se2, r_send_left := r_send_left s - ?r\<rparr>"
  have "sz_sub (r_send_left s) ?r = r_send_left s - ?r"
    using n r env off_max_size_t by (simp add: sz_simps)
  then have run: "roll_emit_match env s = Continue ?s2"
    using fl(1) tx(1) env(1) by (simp add: roll_emit_match_def then_do_def split del: if_split cong: if_cong)
  have pend: "pending env x y em es0 (p + ?r) ?s2" using tx(2) by (simp add: pending_def)
  have "roll_inv env x y em es0 (p + ?r) ?s2" if "r_send_left s - ?r \<noteq> 0"
  proof -
    have "p + ?r < ?n" using that n by simp
    then have "?r = ?L" "r_a_kL_pos s = p + ?L" using w by (auto simp: win_at_def)
    then show ?thesis
      using that n r f w m pend env by (auto simp: roll_inv_def file_ok_def win_at_def sent_upto_no_raw)
  qed
  moreover have "p + ?r = ?n" if "r_send_left s - ?r = 0" using that n r by simp
  ultimately show ?thesis using run pend by auto
qed

lemma roll_raw_alloc_ok:
  assumes ok: "roll_ok env x y em" and s: "sent_upto env x y em es0 p s"
  shows "\<exists>k b. roll_raw_alloc env s = Continue (s\<lparr>r_mem := k, r_raw := Some b\<rparr>) \<and>
    length b = e_raw_max env \<and> take (r_raw_n s) b = bslice x (p - r_raw_n s) (r_raw_n s)"
proof (cases "r_raw_n s = 0")
  case True
  then show ?thesis
    using ok by (intro exI [of _ "r_mem s + 1"] exI [of _ "replicate (e_raw_max env) 0"])
      (simp add: roll_raw_alloc_def roll_ok_def mem_ok_def Let_def)
next
  case False
  then obtain b where b: "r_raw s = Some b" "length b = e_raw_max env"
    using s by (auto simp: sent_upto_def raw_ok_def)
  then have "s\<lparr>r_mem := r_mem s, r_raw := Some b\<rparr> = s" by (cases s) simp
  then have "roll_raw_alloc env s = Continue (s\<lparr>r_mem := r_mem s, r_raw := Some b\<rparr>)"
    using False by (simp add: roll_raw_alloc_def)
  moreover have "take (r_raw_n s) b = bslice x (p - r_raw_n s) (r_raw_n s)"
    using b s by (simp add: sent_upto_def raw_data_def)
  ultimately show ?thesis using b(2) by blast
qed

lemma roll_raw_byte_ok:
  assumes f: "file_ok x s" and "r_a_k_pos s = p" and "p < length x" and "length x < off_max"
  shows "\<exists>fx. roll_raw_byte s = Continue (s\<lparr>r_fx := fx, r_a_k := x ! p\<rparr>) \<and>
    file_ok x (s\<lparr>r_fx := fx, r_a_k := x ! p\<rparr>)"
proof (cases "r_begin_in_buf s \<and> r_a_k_pos s < r_read_begin s")
  case True
  then have "take (r_read_begin s) (r_buf s) = take (r_read_begin s) x"
    using f by (simp add: file_ok_def)
  with True assms(2) have "r_buf s ! p = x ! p" by (metis nth_take)
  moreover have "min (length (r_buf s)) (r_read_begin s) = min (length x) (r_read_begin s)"
    using arg_cong [OF \<open>take (r_read_begin s) (r_buf s) = take (r_read_begin s) x\<close>, of length]
    by (simp only: length_take)
  then have "r_read_begin s \<le> length (r_buf s)"
    using f True by (simp add: file_ok_def min_def split: if_splits)
  moreover have "s\<lparr>r_fx := r_fx s, r_a_k := x ! p\<rparr> = s\<lparr>r_a_k := x ! p\<rparr>" by (cases s) simp
  ultimately show ?thesis
    using True assms by (intro exI [of _ "r_fx s"]) (auto simp: roll_raw_byte_def file_ok_def)
next
  case False
  have pos: "p < off_max" "p + 1 \<le> length x" using assms by auto
  have rd: "rm_fpread 1 1 p (r_fx s) None = ([x ! p], 1,
      (r_fx s)\<lparr>fs_pos := p + 1, fs_eof := False\<rparr>, None)"
    using rm_fpread_healthy [of "r_fx s" p 1 None] f assms(3) pos
    by (simp add: file_ok_def bslice_single [simplified] min_def)
  with False assms show ?thesis by (auto simp: roll_raw_byte_def file_ok_def)
qed

lemma roll_emit_raw_ok:
  assumes ok: "roll_ok env x y em" and s: "sent_upto env x y em es0 p s" and f: "file_ok x s"
    and w: "win_at (e_L env) x p s" and n: "p + r_send_left s = length x" and m: "\<not> r_match s"
  shows "\<exists>s'. roll_emit_raw env s = Continue s' \<and> r_send_left s' = r_send_left s - 1 \<and>
    (if r_send_left s' = 0 then pending env x y em es0 (length x) s'
     else roll_inv env x y em es0 (p + 1) s')"
proof -
  let ?n = "length x" and ?rn = "r_raw_n s"
  from ok have env: "?n < off_max" "0 < e_send env" "e_raw_max env = max (e_L env) (e_send env)"
    by (auto simp: roll_ok_def)
  have p: "p < ?n" using win_at_inside [OF w] by simp
  have rn: "?rn < e_send env" "?rn \<le> p" "pending env x y em es0 (p - ?rn) s"
    using s by (auto simp: sent_upto_def raw_ok_def pending_def)
  obtain k b where al: "roll_raw_alloc env s = Continue (s\<lparr>r_mem := k, r_raw := Some b\<rparr>)"
      "length b = e_raw_max env" "take ?rn b = bslice x (p - ?rn) ?rn"
    using roll_raw_alloc_ok [OF ok s] by blast
  let ?s1 = "s\<lparr>r_mem := k, r_raw := Some b\<rparr>"
  obtain fx where byt: "roll_raw_byte ?s1 = Continue (?s1\<lparr>r_fx := fx, r_a_k := x ! p\<rparr>)"
      "file_ok x (?s1\<lparr>r_fx := fx, r_a_k := x ! p\<rparr>)"
    using roll_raw_byte_ok [of x ?s1 p] f w p env by (auto simp: file_ok_def win_at_def)
  let ?s2 = "?s1\<lparr>r_fx := fx, r_a_k := x ! p\<rparr>"
  let ?s3 = "?s2\<lparr>r_raw := Some (b[?rn := x ! p]), r_send_left := r_send_left s - 1, r_raw_n := ?rn + 1\<rparr>"
  have "sz_sub (r_send_left s) 1 = r_send_left s - 1" "sz_add ?rn 1 = ?rn + 1"
    using n p rn env off_max_size_t by (simp_all add: sz_simps)
  moreover have inb: "?rn < length b" using rn al(2) env by simp
  ultimately have run: "roll_emit_raw env s =
      (if ?rn + 1 = e_send env \<or> r_send_left s - 1 = 0 then roll_flush env p ?s3 else Continue ?s3)"
    using al(1) byt(1) w by (auto simp: roll_emit_raw_def then_do_def roll_raw_store_def Let_def win_at_def)
  have tk: "take (?rn + 1) (b[?rn := x ! p]) = bslice x (p + 1 - (?rn + 1)) (?rn + 1)"
    using al(3) inb rn p bslice_snoc [of "p - ?rn" ?rn x] by (simp add: take_Suc_conv_app_nth)
  have pend: "pending env x y em es0 (p + 1 - (?rn + 1)) ?s3"
    using rn(3) by (simp add: pending_def)
  have keep: "roll_inv env x y em es0 (p + 1) t"
    if "r_send_left s - 1 \<noteq> 0" "sent_upto env x y em es0 (p + 1) t"
      "t = ?s3 \<or> (\<exists>k sess. t = ?s3\<lparr>r_mem := k, r_sess := sess, r_raw := None, r_raw_n := 0\<rparr>)" for t
  proof -
    have "r_send_left t = r_send_left s - 1" "\<not> r_match t" "r_a_k t = x ! p" "length (r_buf t) = e_L env"
      "win_at (e_L env) x p t" "file_ok x t"
      using that(3) w m byt(2) by (auto simp: win_at_def file_ok_def)
    with that n show ?thesis by (simp add: roll_inv_def)
  qed
  show ?thesis
  proof (cases "?rn + 1 = e_send env \<or> r_send_left s - 1 = 0")
    case True
    have "\<exists>k sess. roll_flush env p ?s3 =
        Continue (?s3\<lparr>r_mem := k, r_sess := sess, r_raw := None, r_raw_n := 0\<rparr>) \<and>
      pending env x y em es0 (p + 1) (?s3\<lparr>r_mem := k, r_sess := sess, r_raw := None, r_raw_n := 0\<rparr>)"
      using tk pend rn p by (intro roll_flush_some [OF ok]) auto
    then obtain k2 se where fl: "roll_flush env p ?s3 =
        Continue (?s3\<lparr>r_mem := k2, r_sess := se, r_raw := None, r_raw_n := 0\<rparr>)"
      "pending env x y em es0 (p + 1) (?s3\<lparr>r_mem := k2, r_sess := se, r_raw := None, r_raw_n := 0\<rparr>)"
      by blast
    let ?t = "?s3\<lparr>r_mem := k2, r_sess := se, r_raw := None, r_raw_n := 0\<rparr>"
    have "sent_upto env x y em es0 (p + 1) ?t"
      using fl(2) p env by (simp add: sent_upto_no_raw)
    moreover have "r_send_left ?t = r_send_left s - 1" by simp
    moreover have "p + 1 = ?n" if "r_send_left s - 1 = 0" using that n p by simp
    ultimately show ?thesis using True run fl keep [of ?t] by auto
  next
    case False
    have "sent_upto env x y em es0 (p + 1) ?s3"
      using tk pend rn p False inb al(2) by (auto simp: sent_upto_def raw_ok_def raw_data_def pending_def)
    with False run keep [of ?s3] show ?thesis by auto
  qed
qed

lemma roll_iter_ok:
  assumes ok: "roll_ok env x y em" and inv: "roll_inv env x y em es0 p s"
  shows "r_send_left s \<le> e_copy_tail env \<and> roll_iter env s = Copy_Tail s \<or>
    (\<exists>s'. roll_iter env s = Continue s' \<and> r_send_left s' < r_send_left s \<and>
      (if r_send_left s' = 0 then pending env x y em es0 (length x) s'
       else \<exists>p'. roll_inv env x y em es0 p' s'))"
proof (cases "r_send_left s \<le> e_copy_tail env")
  case True
  then show ?thesis by (simp add: roll_iter_def)
next
  case False
  have n: "p + r_send_left s = length x" "0 < r_send_left s" "sent_upto env x y em es0 p s"
    using inv by (auto simp: roll_inv_def)
  obtain s1 where s1: "(if r_match s then roll_window env s else roll_shift env s) = Continue s1"
      "win_at (e_L env) x p s1" "file_ok x s1" "same_sent s s1"
    using roll_window_ok [OF ok inv] roll_shift_ok [OF ok inv] by (cases "r_match s") auto
  obtain s2 where s2: "roll_lookup env s1 = Continue s2" "looked x y (e_L env) p s1 s2"
    using roll_lookup_ok [OF ok s1(2,3)] by blast
  have w: "win_at (e_L env) x p s2" "file_ok x s2" "same_sent s s2"
    using s2(2) s1(4) by (auto simp: looked_def intro: same_sent_trans)
  then have sent: "sent_upto env x y em es0 p s2" and left: "r_send_left s2 = r_send_left s"
    using n(3) by (simp_all add: same_sent_upto [of s s2], simp add: same_sent_def)
  have n2: "p + r_send_left s2 = length x" using n(1) left by simp
  have r: "0 < r_read s2" using w(1) by (simp add: win_at_def)
  have run: "roll_iter env s = (if r_match s2 then roll_emit_match env s2 else roll_emit_raw env s2)"
    using False s1(1) s2(1) by (auto simp: roll_iter_def then_do_def)
  show ?thesis
  proof (cases "r_match s2")
    case True
    then have "r_ref s2 * e_L env < length y"
        "bslice y (r_ref s2 * e_L env) (e_L env) = bslice x p (r_read s2)"
      using s2(2) by (auto simp: looked_def)
    from roll_emit_match_ok [OF ok sent w(2,1) n2 True this] run True left n(2) r
    show ?thesis by (auto split: if_splits)
  next
    case nomatch: False
    from roll_emit_raw_ok [OF ok sent w(2,1) n2 nomatch] run nomatch left n(2)
    show ?thesis by (auto split: if_splits)
  qed
qed

lemma roll_loop_ok:
  assumes ok: "roll_ok env x y em" and "roll_inv env x y em es0 p s"
  shows "\<exists>r. roll_loop env s = Some r \<and>
    ((\<exists>s'. r = Continue s' \<and> pending env x y em es0 (length x) s') \<or>
     (\<exists>s' p'. r = Copy_Tail s' \<and> roll_inv env x y em es0 p' s'))"
  using assms(2)
proof (induction "r_send_left s" arbitrary: s p rule: less_induct)
  case less
  from roll_iter_ok [OF ok less.prems] show ?case
  proof
    assume "r_send_left s \<le> e_copy_tail env \<and> roll_iter env s = Copy_Tail s"
    with less.prems show ?thesis by (auto simp: roll_loop.simps [of env s])
  next
    assume "\<exists>s'. roll_iter env s = Continue s' \<and> r_send_left s' < r_send_left s \<and>
      (if r_send_left s' = 0 then pending env x y em es0 (length x) s'
       else \<exists>p'. roll_inv env x y em es0 p' s')"
    then obtain s' where s': "roll_iter env s = Continue s'" "r_send_left s' < r_send_left s"
      "if r_send_left s' = 0 then pending env x y em es0 (length x) s'
       else \<exists>p'. roll_inv env x y em es0 p' s'" by blast
    show ?thesis
    proof (cases "r_send_left s' = 0")
      case True
      with s' show ?thesis by (auto simp: roll_loop.simps [of env s])
    next
      case False
      then obtain p' where "roll_inv env x y em es0 p' s'" using s'(3) by auto
      from less.hyps [OF s'(2) this] s'(1) False show ?thesis
        by (simp add: roll_loop.simps [of env s])
    qed
  qed
qed

section \<open>The ends of the procedure\<close>

lemma roll_release_fields [simp]:
  "r_sess (roll_release s) = r_sess s" "r_fx (roll_release s) = r_fx s" "r_hm (roll_release s) = r_hm s"
  "r_buf (roll_release s) = []" "r_raw (roll_release s) = None"
  by (simp_all add: roll_release_def)

lemma pending_release [simp]:
  "pending env x y em es0 q (roll_release s) = pending env x y em es0 q s"
  by (simp add: pending_def)

lemma pending_report [simp]:
  "pending env x y em es0 q (roll_report a b s) = pending env x y em es0 q s"
  by (simp add: pending_def roll_report_def)

text \<open>From the position the window is at, the rest of the file goes out as one literal element.\<close>

lemma roll_copy_tail_ok:
  assumes ok: "roll_ok env x y em" and s: "sent_upto env x y em es0 p s" and f: "file_ok x s"
    and n: "p + r_send_left s = length x" "0 < r_send_left s"
    and pos: "(if \<not> copy_all \<and> tail_fired then (if r_match s then r_a_kL_pos s
       else sz_add (r_a_k_pos s) 1) else r_a_k_pos s) = p"
  shows "\<exists>s'. roll_copy_tail env copy_all all_fired tail_fired s = Return RM_ERR_OK s' \<and>
    pending env x y em es0 (length x) s' \<and> fs_bytes (r_fx s') = x"
proof -
  let ?n = "length x" and ?left = "r_send_left s"
  let ?s1 = "(roll_report all_fired tail_fired s)\<lparr>r_a_k_pos := p\<rparr>"
  have env: "?n < off_max" "e_mem env = mem_ok" using ok by (auto simp: roll_ok_def)
  have start: "(let s1 = roll_report all_fired tail_fired s in
      if \<not> copy_all \<and> tail_fired
      then if \<not> r_match s1 then s1\<lparr>r_a_k_pos := sz_add (r_a_k_pos s1) 1\<rparr>
           else s1\<lparr>r_a_k_pos := r_a_kL_pos s1\<rparr>
      else s1) = ?s1"
    using pos by (cases s) (auto simp: roll_report_def Let_def split: if_splits)
  have "sent_upto env x y em es0 p ?s1"
    using s by (subst sent_upto_cong [of _ s]) (simp_all add: roll_report_def)
  then obtain k se where fl: "roll_flush env (sz_sub p (r_raw_n ?s1)) ?s1 =
        Continue (?s1\<lparr>r_mem := k, r_sess := se, r_raw := None, r_raw_n := 0\<rparr>)"
      "pending env x y em es0 p (?s1\<lparr>r_mem := k, r_sess := se, r_raw := None, r_raw_n := 0\<rparr>)"
    using roll_flush_ok [OF ok] by blast
  let ?fx = "(r_fx s)\<lparr>fs_pos := p + ?left, fs_eof := False\<rparr>"
  let ?s2 = "?s1\<lparr>r_sess := se, r_raw_n := 0, r_mem := k + 1, r_fx := ?fx, r_raw := Some (bslice x p ?left)\<rparr>"
  have "healthy (r_fx s)" "fs_bytes (r_fx s) = x" "p < off_max" "p + ?left \<le> ?n"
    using f n env by (auto simp: file_ok_def)
  then have cp: "rm_copy_buffered_2 (r_fx s) p ?left None = (RM_ERR_OK, bslice x p ?left, ?fx, None)"
    using rm_copy_buffered_2_healthy [of "r_fx s" p ?left None] by simp
  have pend: "pending env x y em es0 p ?s2" using fl(2) by (simp add: pending_def)
  obtain k3 se3 where tx: "roll_tx env RM_ERR_TX_RAW RM_DELTA_ELEMENT_RAW_BYTES p
        (Some (bslice x p ?left)) ?left ?s2 = Continue (?s2\<lparr>r_mem := k3, r_sess := se3\<rparr>)"
      "pending env x y em es0 (p + ?left) (?s2\<lparr>r_mem := k3, r_sess := se3\<rparr>)"
    using roll_tx_raw_ok [OF ok pend _ n(2) refl] n(1) by fastforce
  have fields: "r_fx ?s1 = r_fx s" "r_send_left ?s1 = ?left" by (simp_all add: roll_report_def)
  have "roll_copy_tail env copy_all all_fired tail_fired s =
      Return RM_ERR_OK (roll_release (?s2\<lparr>r_mem := k3, r_sess := se3, r_raw := None\<rparr>))"
    using fl(1) tx(1) cp fields env(2)
    unfolding roll_copy_tail_def start [unfolded Let_def] Let_def
    by (simp add: then_do_def mem_ok_apply)
  moreover have "pending env x y em es0 ?n (roll_release (?s2\<lparr>r_mem := k3, r_sess := se3, r_raw := None\<rparr>))"
    using tx(2) n(1) by (simp add: pending_def)
  ultimately show ?thesis using f by (auto simp: file_ok_def)
qed

text \<open>
  What a caller has to provide: a readable file, a session with sensible sizes, a table of the
  blocks of \<open>y\<close> and a callback that keeps the elements.
\<close>

definition roll_call_ok ::
    "'h twhash \<Rightarrow> 'q sess \<Rightarrow> (nat \<Rightarrow> 'h) option \<Rightarrow> stream \<Rightarrow> bytes \<Rightarrow> 'q rm_delta_f \<Rightarrow>
     ('q \<Rightarrow> rm_delta_e list) \<Rightarrow> bool" where
  "roll_call_ok tw s h f_x y df em \<longleftrightarrow>
     (let ctx = s_rec_ctx s; x = fs_bytes f_x; L = ctx_L ctx in
      healthy f_x \<and> x \<noteq> [] \<and> length x < off_max \<and> 0 < L \<and> L < off_max \<and> 0 < send_threshold ctx \<and>
      sink_ok df em \<and>
      (\<forall>hf. h = Some hf \<longrightarrow> table_sound tw hf L y) \<and>
      no_collision L x y \<and> zero_diff_safe L x y)"

lemma roll_proc_copy_all_ok:
  fixes f_x :: stream
  defines "x \<equiv> fs_bytes f_x"
  assumes "e_mem env = mem_ok" and "sink_ok (e_delta_f env) em" and "healthy f_x" and "x \<noteq> []"
    and "length x < off_max" and "em (s_prvt s) = es0"
  shows "\<exists>s'. roll_copy_tail env True a b (roll_start f_x s hm (length x)) = Return RM_ERR_OK s' \<and>
    fs_bytes (r_fx s') = x \<and> (\<exists>d. em (s_prvt (r_sess s')) = es0 @ [d] \<and>
      d_type d = RM_DELTA_ELEMENT_RAW_BYTES \<and> raw_bytes d = Some x \<and> raw_bytes_n d = length x)"
proof -
  have "rm_copy_buffered_2 f_x 0 (length x) None = (RM_ERR_OK, x,
      f_x\<lparr>fs_pos := length x, fs_eof := False\<rparr>, None)"
    using rm_copy_buffered_2_healthy [of f_x 0 "length x" None] assms off_max_size_t
    by (simp add: bslice_start)
  with assms show ?thesis
    by (simp add: roll_copy_tail_def roll_start_def roll_report_def roll_flush_def then_do_def
        roll_tx_def rm_rolling_ch_proc_tx_def mem_ok_apply Let_def sink_ok_def)
qed

lemma roll_proc_ok:
  fixes f_x :: stream
  defines "x \<equiv> fs_bytes f_x"
  assumes ok: "roll_call_ok tw s h f_x y df em" and em: "em (s_prvt s) = es0"
  shows "\<exists>s' ds. roll_proc tw mem_ok s h hm f_x df 0 = Some (Return RM_ERR_OK s') \<and>
    em (s_prvt (r_sess s')) = es0 @ ds \<and> deltas_upto (ctx_L (s_rec_ctx s)) y x (length x) ds"
proof -
  let ?ctx = "s_rec_ctx s" and ?n = "length x"
  define env where "env = \<lparr>e_tw = tw, e_h = h, e_delta_f = df, e_mem = mem_ok,
    e_file_sz = ?n, e_L = ctx_L ?ctx, e_copy_tail = copy_tail_threshold ?ctx,
    e_send = send_threshold ?ctx, e_raw_max = max (ctx_L ?ctx) (send_threshold ?ctx)\<rparr>"
  let ?s1 = "roll_start f_x s hm ?n"
  have x: "healthy f_x" "fs_bytes f_x = x" "x \<noteq> []" "?n < off_max" "0 < ctx_L ?ctx"
      "0 < send_threshold ?ctx" "sink_ok df em"
    using ok by (simp_all add: roll_call_ok_def Let_def x_def)
  have left: "sz_sub ?n 0 = ?n" using x(4) off_max_size_t by (simp add: sz_simps)
  have st: "(roll_start f_x s hm 0)\<lparr>r_send_left := ?n\<rparr> = ?s1" by (simp add: roll_start_def)
  have run: "roll_proc tw mem_ok s h hm f_x df 0 =
      (if ?n < copy_all_threshold ?ctx \<or> h = None then Some (roll_copy_tail env True True False ?s1)
       else if ?n \<le> copy_tail_threshold ?ctx then Some (roll_copy_tail env True False True ?s1)
       else map_option (roll_end env) (roll_loop env (?s1\<lparr>r_mem := 1, r_buf := replicate (ctx_L ?ctx) 0\<rparr>)))"
    using x left st
    by (simp add: roll_proc_def Let_def fstat_size_def healthy_def mem_ok_apply env_def [symmetric])
  have all: "\<exists>s' ds. roll_copy_tail env True a b ?s1 = Return RM_ERR_OK s' \<and>
      em (s_prvt (r_sess s')) = es0 @ ds \<and> deltas_upto (ctx_L ?ctx) y x ?n ds" for a b
  proof -
    obtain s' d where d: "roll_copy_tail env True a b ?s1 = Return RM_ERR_OK s'"
        "em (s_prvt (r_sess s')) = es0 @ [d]" "d_type d = RM_DELTA_ELEMENT_RAW_BYTES"
        "raw_bytes d = Some x" "raw_bytes_n d = ?n"
      using roll_proc_copy_all_ok [of env em f_x s es0 a b hm] x em by (auto simp: env_def)
    then have "deltas_upto (ctx_L ?ctx) y x ?n [d]"
      using x(3) by (simp add: deltas_upto_def delta_wf_def delta_data_def delta_fits_def)
    with d show ?thesis by blast
  qed
  show ?thesis
  proof (cases "?n < copy_all_threshold ?ctx \<or> h = None \<or> ?n \<le> copy_tail_threshold ?ctx")
    case True
    then show ?thesis using run all by auto
  next
    case False
    then obtain hf where h: "h = Some hf" by auto
    let ?s = "?s1\<lparr>r_mem := 1, r_buf := replicate (ctx_L ?ctx) 0\<rparr>"
    have ok': "roll_ok env x y em"
      using ok h by (simp add: roll_call_ok_def roll_ok_def env_def Let_def x_def)
    have "roll_inv env x y em es0 0 ?s"
      using x em by (simp add: roll_inv_def roll_start_def file_ok_def sent_upto_no_raw pending_def env_def)
    from roll_loop_ok [OF ok' this] obtain r where loop: "roll_loop env ?s = Some r"
      "(\<exists>s'. r = Continue s' \<and> pending env x y em es0 ?n s') \<or>
       (\<exists>s' p'. r = Copy_Tail s' \<and> roll_inv env x y em es0 p' s')" by blast
    from loop(2) have "\<exists>s'. roll_end env r = Return RM_ERR_OK s' \<and> pending env x y em es0 ?n s'"
    proof (elim disjE exE conjE)
      fix s' assume "r = Continue s'" "pending env x y em es0 ?n s'"
      then show ?thesis by (simp add: roll_end_def)
    next
      fix s' p' assume r: "r = Copy_Tail s'" and inv: "roll_inv env x y em es0 p' s'"
      have "r_match s' \<or> r_a_k_pos s' = p' - 1 \<and> 0 < p'"
        using inv by (auto simp: roll_inv_def win_at_def)
      moreover have "0 < p' \<Longrightarrow> sz_add (p' - 1) 1 = p'"
        using inv x(4) off_max_size_t by (simp add: roll_inv_def sz_simps)
      ultimately have "\<exists>s''. roll_copy_tail env False False True s' = Return RM_ERR_OK s'' \<and>
          pending env x y em es0 ?n s'' \<and> fs_bytes (r_fx s'') = x"
        using inv by (intro roll_copy_tail_ok [OF ok', of es0 p']) (auto simp: roll_inv_def)
      with r show ?thesis by (auto simp: roll_end_def)
    qed
    with run False loop(1) show ?thesis
      by (auto simp: pending_def env_def)
  qed
qed

section \<open>A session that keeps the elements\<close>

text \<open>A callback and a table to run the procedure with: the elements go to a list.\<close>

definition log_f :: "rm_delta_e list rm_delta_f" where
  "log_f = (\<lambda>d s. (RM_ERR_OK, s\<lparr>s_prvt := s_prvt s @ [d]\<rparr>))"

definition log_session :: "nat \<Rightarrow> nat \<Rightarrow> rm_delta_e list sess" where
  "log_session L n = \<lparr>s_rec_ctx = ctx_zero\<lparr>ctx_L := L, send_threshold := n\<rparr>, s_prvt = []\<rparr>"

definition block_table :: "nat \<Rightarrow> bytes \<Rightarrow> u32 \<Rightarrow> rm_ch_ch_ref list" where
  "block_table L y = fold (tw_insert tw_lists) (map (block_entry L y) [0..<nblocks L y]) (\<lambda>_. [])"

definition logged ::
    "(rm_error \<times> rm_delta_e list sess option \<times> stream option \<times> mutex option) option \<Rightarrow>
     (rm_error \<times> rm_delta_e list) option" where
  "logged r = (case r of Some (e, Some s, _) \<Rightarrow> Some (e, s_prvt s) | _ \<Rightarrow> None)"

lemma sink_log: "sink_ok log_f (\<lambda>ds. ds)"
  by (simp add: sink_ok_def log_f_def)

lemma table_sound_fold:
  assumes "twhash_ok tw" and "0 < L" and "\<forall>b. tw_bucket tw h b = []"
  shows "table_sound tw (\<lambda>_. fold (tw_insert tw) (map (block_entry L y) [0..<nblocks L y]) h) L y"
  using assms by (auto simp: table_sound_def tw_insert_bucket nblocks_iff)

lemma table_sound_block_table: "0 < L \<Longrightarrow> table_sound tw_lists (\<lambda>_. block_table L y) L y"
  unfolding block_table_def by (rule table_sound_fold) (simp_all add: tw_lists_ok, simp add: tw_lists_def)

lemma fast_check_small:
  "rm_fast_check_block [] = 0" "rm_fast_check_block [1] = 0x10001" "rm_fast_check_block [2] = 0x20002"
  "rm_fast_check_block [2, 1] = 0x50003"
  by code_simp+

lemma roll_call_ok_sample:
  assumes "sink_ok df em"
  shows "roll_call_ok tw_lists \<lparr>s_rec_ctx = ctx_zero\<lparr>ctx_L := 1, send_threshold := 1\<rparr>, s_prvt = q\<rparr>
    (Some (\<lambda>_. block_table 1 [1, 1])) (open_stream [2, 1]) [1, 1] df em"
proof -
  have "no_collision 1 [2, 1] [1, 1]"
  proof (unfold no_collision_def, intro allI impI)
    fix p r k assume pr: "p + r \<le> length [2, 1::u8]" "k * 1 < length [1, 1::u8]"
      and eq: "rm_fast_check_block (bslice [2, 1] p r) = rm_fast_check_block (bslice [1, 1] (k * 1) 1)"
    have "p = 0 \<and> r = 0 \<or> p = 0 \<and> r = 1 \<or> p = 0 \<and> r = 2 \<or> p = 1 \<and> r = 0 \<or> p = 1 \<and> r = 1 \<or> p = 2 \<and> r = 0"
      using pr(1) by auto
    with pr(2) eq show "bslice [2, 1] p r = bslice [1, 1::u8] (k * 1) 1"
      by (elim disjE) (auto simp: bslice_def fast_check_small less_Suc_eq)
  qed
  then show ?thesis
    using table_sound_block_table [of 1 "[1, 1]"] assms zero_diff_safe_long [of 1 "[2, 1]" "[1, 1]"]
    by (simp add: roll_call_ok_def Let_def off_max_def)
qed

section \<open>Properties\<close>

text \<open>
  C7. The rolling checksum procedure is total and complete: started at 0 on a readable file \<open>x\<close> that is not empty, with
  memory, a table that only holds blocks of \<open>y\<close>, checksums that tell the blocks of the two files apart, and a \<open>y\<close> that begins
  with \<open>x\<close> if one of its blocks is all of \<open>x\<close> (otherwise the zero difference stands for the wrong bytes), it returns \<open>RM_ERR_OK\<close>, and the
  elements it hands over, in their order, stand for exactly the bytes of \<open>x\<close>. Every element can be
  applied by a receiver that has \<open>y\<close>, and a tail or a zero difference comes where the receiver can
  infer its length. This holds for all block sizes and thresholds, and also while another thread
  is still inserting into the table.
\<close>
theorem rolling_proc_covers_file:
  assumes "roll_call_ok tw s h f_x y df em" and "em (s_prvt s) = []"
  shows "\<exists>s' fx m' ds. rm_rolling_ch_proc tw mem_ok (Some s) h hm (Some f_x) (Some df) 0 =
      Some (RM_ERR_OK, Some s', Some fx, m') \<and> em (s_prvt s') = ds \<and>
    deltas_data (ctx_L (s_rec_ctx s)) y ds = fs_bytes f_x \<and>
    (\<forall>d\<in>set ds. delta_wf (ctx_L (s_rec_ctx s)) y d) \<and>
    deltas_fit (ctx_L (s_rec_ctx s)) (length (fs_bytes f_x)) 0 ds"
  using roll_proc_ok [OF assms, of hm] by (auto simp: rm_rolling_ch_proc_def deltas_upto_def)

theorem rolling_proc_covers_file_witness:
  "\<exists>s' fx m'. rm_rolling_ch_proc tw_lists mem_ok (Some (log_session 1 1)) (Some (\<lambda>_. block_table 1 [1, 1]))
      None (Some (open_stream [2, 1])) (Some log_f) 0 = Some (RM_ERR_OK, Some s', Some fx, m') \<and>
    deltas_data 1 [1, 1] (s_prvt s') = [2, 1]"
  using rolling_proc_covers_file [OF roll_call_ok_sample [OF sink_log], of "[]" None]
  by (auto simp: log_session_def)

text \<open>
  The calls that are refused: a missing session, file or callback, a block size or send threshold
  of zero, a file whose size cannot be read, and a start position at or past the end. In all of them
  nothing is handed over and the session is left as it was.
\<close>
theorem rolling_proc_refusals:
  assumes "df = None \<or> ctx_L (s_rec_ctx s) = 0 \<or> send_threshold (s_rec_ctx s) = 0 \<or>
    \<not> fs_stat_ok f_x \<or> length (fs_bytes f_x) \<le> from"
  shows "rm_rolling_ch_proc tw mem (Some s) h hm (Some f_x) df from =
     Some (if df = None \<or> ctx_L (s_rec_ctx s) = 0 \<or> send_threshold (s_rec_ctx s) = 0
           then RM_ERR_BAD_CALL
           else if \<not> fs_stat_ok f_x then RM_ERR_FSTAT_X else RM_ERR_TOO_MUCH_REQUESTED,
           Some s, Some f_x, hm) \<and>
   rm_rolling_ch_proc tw mem None h hm f df from = Some (RM_ERR_BAD_CALL, None, f, hm) \<and>
   rm_rolling_ch_proc tw mem (Some s) h hm None df from = Some (RM_ERR_BAD_CALL, Some s, None, hm)"
  using assms by (auto simp: rm_rolling_ch_proc_def roll_proc_def roll_start_def fstat_size_def Let_def
      split: option.splits)

theorem rolling_proc_refusals_witness:
  "rm_rolling_ch_proc tw_lists mem_ok (Some (log_session 1 1)) None None (Some (open_stream [])) (Some log_f) 0 =
     Some (RM_ERR_TOO_MUCH_REQUESTED, Some (log_session 1 1), Some (open_stream []), None)"
  using rolling_proc_refusals [of "Some log_f" "log_session 1 1" "open_stream []" 0 tw_lists mem_ok None None]
  by (simp add: log_session_def healthy_open [unfolded healthy_def])

text \<open>
  The start position does not do what it is described to do: with a nonzero \<open>from\<close> the
  procedure sends as many bytes as there are from that position on, but takes them from the
  beginning of the file.
\<close>
theorem rolling_proc_from_ignored:
  assumes "0 < n" and "from + n < off_max" and "length x = from + n"
  shows "logged (rm_rolling_ch_proc tw mem_ok (Some (log_session 1 1)) None hm (Some (open_stream x))
      (Some log_f) from) =
    Some (RM_ERR_OK, [\<lparr>d_type = RM_DELTA_ELEMENT_RAW_BYTES, d_ref = 0, raw_bytes = Some (take n x),
      raw_bytes_n = n\<rparr>])"
proof -
  have "sz_sub (from + n) from = n" using assms off_max_size_t by (simp add: sz_simps)
  moreover have "rm_copy_buffered_2 (open_stream x) 0 n None = (RM_ERR_OK, take n x,
      (open_stream x)\<lparr>fs_pos := n, fs_eof := False\<rparr>, None)"
    using rm_copy_buffered_2_healthy [of "open_stream x" 0 n None] assms
    by (simp add: bslice_start off_max_def)
  ultimately show ?thesis
    using assms
    by (simp add: rm_rolling_ch_proc_def roll_proc_def Let_def fstat_size_def
        healthy_open [unfolded healthy_def] log_session_def ctx_zero_def roll_copy_tail_def
        roll_start_def roll_report_def roll_flush_def then_do_def roll_tx_def
        rm_rolling_ch_proc_tx_def mem_ok_apply log_f_def logged_def)
qed

theorem rolling_proc_from_ignored_witness:
  "logged (rm_rolling_ch_proc tw_lists mem_ok (Some (log_session 1 1)) None None (Some (open_stream [1, 2, 3]))
      (Some log_f) 2) =
    Some (RM_ERR_OK, [\<lparr>d_type = RM_DELTA_ELEMENT_RAW_BYTES, d_ref = 0, raw_bytes = Some [1],
      raw_bytes_n = 1\<rparr>])"
  using rolling_proc_from_ignored [of 1 2 "[1, 2, 3]" tw_lists None]
  by (simp add: off_max_def)


end
