(* ===== verification/RM_RollEnds.thy ===== *)
theory RM_RollEnds
  imports RM_Sync
begin

text \<open>
  The rolling checksum procedure returns, whatever happens: every fault of the file, every callback,
  every state of memory, and any table at all, one that changes under the loop included. The bytes
  left to send get fewer in every round, and no step leaves the defined behaviour of C: the window and the literal
  bytes stay inside their buffers.
\<close>

section \<open>Steps that end well\<close>

text \<open>A step falls through to a state with \<open>P\<close> or returns.\<close>

definition ends :: "('r \<Rightarrow> bool) \<Rightarrow> 'r step \<Rightarrow> bool" where
  "ends P r = (case r of Continue s \<Rightarrow> P s | Return _ _ \<Rightarrow> True | _ \<Rightarrow> False)"

lemma ends_simps [simp]:
  "ends P (Continue s) = P s" "ends P (Return e s)" "\<not> ends P (Copy_Tail s)" "\<not> ends P Undefined"
  by (simp_all add: ends_def)

lemma ends_then_do:
  assumes "ends Q r" and "\<And>s. Q s \<Longrightarrow> ends P (g s)"
  shows "ends P (then_do r g)"
  using assms by (cases r) (simp_all add: then_do_def)

lemma ends_mono: "ends Q r \<Longrightarrow> (\<And>s. Q s \<Longrightarrow> P s) \<Longrightarrow> ends P r"
  by (cases r) simp_all

section \<open>Positions\<close>

text \<open>
  What the emission leaves alone, the window at position \<open>p\<close> of a file of \<open>n\<close> bytes, and the state
  before a round. Of the two buffers only the sizes matter here; there is one of literal bytes exactly when there are
  such bytes, so that a new one is never stored over another.
\<close>

definition same_pos :: "'q roll \<Rightarrow> 'q roll \<Rightarrow> bool" where
  "same_pos s s' \<longleftrightarrow> r_send_left s' = r_send_left s \<and> r_read s' = r_read s \<and>
     r_a_k_pos s' = r_a_k_pos s \<and> r_a_kL_pos s' = r_a_kL_pos s \<and> length (r_buf s') = length (r_buf s) \<and>
     r_read_begin s' = r_read_begin s \<and> (r_begin_in_buf s' \<longrightarrow> r_begin_in_buf s)"

definition buf_room :: "('h, 'q) roll_env \<Rightarrow> 'q roll \<Rightarrow> bool" where
  "buf_room env s \<longleftrightarrow> length (r_buf s) = e_L env \<and> (r_begin_in_buf s \<longrightarrow> r_read_begin s \<le> e_L env)"

definition win_pos :: "('h, 'q) roll_env \<Rightarrow> 'q roll \<Rightarrow> bool" where
  "win_pos env s \<longleftrightarrow> (let n = e_file_sz env; L = e_L env in
     0 < r_read s \<and> r_read s \<le> L \<and> buf_room env s \<and>
     (r_read s = L \<and> r_a_kL_pos s = r_a_k_pos s + L \<and> r_a_k_pos s + L < n \<or>
      r_a_k_pos s + r_read s = n \<and> r_a_kL_pos s = n - 1))"

definition raw_room :: "('h, 'q) roll_env \<Rightarrow> 'q roll \<Rightarrow> bool" where
  "raw_room env s \<longleftrightarrow> r_raw_n s < e_send env \<and> r_raw_n s + r_send_left s \<le> e_file_sz env \<and>
     (if r_raw_n s = 0 then r_raw s = None else (\<exists>b. r_raw s = Some b \<and> length b = e_raw_max env))"

definition roll_pos :: "('h, 'q) roll_env \<Rightarrow> 'q roll \<Rightarrow> bool" where
  "roll_pos env s \<longleftrightarrow> (let n = e_file_sz env; L = e_L env in
     r_send_left s \<le> n \<and> raw_room env s \<and> buf_room env s \<and>
     (if r_match s then r_a_kL_pos s + r_send_left s = n \<and> (0 < r_a_kL_pos s \<longrightarrow> L \<le> n)
      else r_a_k_pos s + 1 + r_send_left s = n \<and> win_pos env s))"

definition env_ok :: "('h, 'q) roll_env \<Rightarrow> bool" where
  "env_ok env \<longleftrightarrow> e_file_sz env < off_max \<and> 0 < e_L env \<and> e_L env < size_t_mod \<and>
     0 < e_send env \<and> e_send env \<le> e_raw_max env \<and> e_h env \<noteq> None"

section \<open>The parts of the loop body\<close>

lemma roll_tx_ends: "ends (\<lambda>s'. \<exists>k se. s' = s\<lparr>r_mem := k, r_sess := se\<rparr>) (roll_tx env err type ref raw n s)"
  by (auto simp: roll_tx_def Let_def split: prod.split)

lemma roll_flush_ends:
  "ends (\<lambda>s'. same_pos s s' \<and> r_match s' = r_match s \<and> r_raw_n s' = 0 \<and>
     (0 < r_raw_n s \<or> r_raw s = None \<longrightarrow> r_raw s' = None)) (roll_flush env ref s)"
proof (cases "0 < r_raw_n s")
  case True
  then show ?thesis
    unfolding roll_flush_def by (auto simp: same_pos_def intro!: ends_then_do [OF roll_tx_ends])
qed (simp add: roll_flush_def same_pos_def)

lemma roll_window_ends:
  assumes "env_ok env" and "roll_pos env s" and "r_match s" and "0 < r_send_left s"
  shows "ends (\<lambda>s'. win_pos env s' \<and> same_sent s s' \<and> r_a_k_pos s' + r_send_left s = e_file_sz env) (roll_window env s)"
proof -
  have buf: "buf_room env s" "length (r_buf s) = e_L env"
    using assms(2) by (auto simp: roll_pos_def buf_room_def Let_def)
  let ?n = "e_file_sz env" and ?L = "e_L env" and ?p = "r_a_kL_pos s" and ?left = "r_send_left s"
  have s: "?p + ?left = ?n" "0 < ?p \<Longrightarrow> ?L \<le> ?n" "?n < off_max" "0 < ?L" "?L < size_t_mod"
    using assms by (auto simp: roll_pos_def env_ok_def Let_def)
  have "?p + ?L < size_t_mod"
    using s off_max_size_t assms(4) by (cases "?p = 0") simp_all
  then have off: "sz_add ?p ?L = ?p + ?L" "sz_sub ?n 1 = ?n - 1"
    using s off_max_size_t assms(4) by (simp_all add: sz_simps)
  obtain data read fx m where rd: "rm_fpread 1 (min ?L ?left) ?p (r_fx s) None = (data, read, fx, m)"
    by (metis prod_cases4)
  have "?L < ?left \<and> min (?n - 1) (?p + ?L) = ?p + ?L \<and> ?p + ?L < ?n \<and> min ?L ?left = ?L \<or>
      ?left \<le> ?L \<and> ?p + min ?L ?left = ?n \<and> min (?n - 1) (?p + ?L) = ?n - 1"
    using s(1) assms(4) by auto
  then show ?thesis
    using s assms(4) off rd buf
    by (cases "read = min ?L ?left")
      (auto simp: roll_window_def Let_def win_pos_def same_sent_def buf_room_def)
qed

lemma roll_shift_ends:
  assumes "env_ok env" and "roll_pos env s" and "\<not> r_match s" and "0 < r_send_left s"
  shows "ends (\<lambda>s'. win_pos env s' \<and> same_sent s s' \<and> r_a_k_pos s' + r_send_left s = e_file_sz env) (roll_shift env s)"
proof -
  let ?n = "e_file_sz env" and ?L = "e_L env" and ?p = "r_a_k_pos s" and ?r = "r_read s"
  have s: "?p + 1 + r_send_left s = ?n" "?n < off_max" "0 < ?L" and w: "win_pos env s"
    using assms by (auto simp: roll_pos_def env_ok_def Let_def)
  have off: "sz_add ?p 1 = ?p + 1" "sz_sub ?n 1 = ?n - 1"
    using s off_max_size_t by (simp_all add: sz_simps)
  from w consider (slide) "?r = ?L" "r_a_kL_pos s = ?p + ?L" "?p + ?L < ?n"
    | (shrink) "?p + ?r = ?n" "r_a_kL_pos s = ?n - 1" "?r \<le> ?L"
    by (auto simp: win_pos_def Let_def)
  then show ?thesis
  proof cases
    case slide
    have gap: "sz_sub (r_a_kL_pos s) ?p = ?L" "sz_add (?p + ?L) 1 = ?p + ?L + 1"
      using slide s off_max_size_t by (simp_all add: sz_simps)
    obtain data n fx m where rd: "rm_fpread 1 1 (?p + ?L) (r_fx s) None = (data, n, fx, m)"
      by (metis prod_cases4)
    show ?thesis
      using slide gap off s rd
      w by (cases "n = 1") (auto simp: roll_shift_def Let_def win_pos_def same_sent_def min_def buf_room_def)
  next
    case shrink
    have gap: "sz_sub (r_a_kL_pos s) ?p = ?r - 1"
      using shrink s off_max_size_t by (simp add: sz_simps)
    have r: "1 < ?r" "\<not> (?r = ?L \<and> ?r - 1 = ?L)" using shrink s(1) assms(4) by auto
    show ?thesis
      using shrink gap off s r w assms(4)
      by (auto simp: roll_shift_def Let_def win_pos_def same_sent_def max_def buf_room_def)
  qed
qed

lemma roll_bucket_ends:
  "r_read s \<le> length (r_buf s) \<Longrightarrow> ends (\<lambda>s'. same_sent s s' \<and> same_pos s s') (roll_bucket es s)"
proof (induction es arbitrary: s)
  case Nil
  then show ?case by (simp add: same_sent_def same_pos_def)
next
  case (Cons e es)
  have keep: "ends (\<lambda>s'. same_sent s s' \<and> same_pos s s') (roll_bucket es s1)"
    if "same_sent s s1" and "same_pos s s1" for s1
    using that Cons.prems by (intro ends_mono [OF Cons.IH [of s1]]) (auto simp: same_sent_def same_pos_def)
  obtain err dst fx m where c: "rm_copy_buffered_2 (r_fx s) (r_a_k_pos s) (r_read s) None = (err, dst, fx, m)"
    by (metis prod_cases4)
  show ?case
    using c Cons.prems by (auto simp: Let_def intro!: keep) (auto simp: same_sent_def same_pos_def)
qed

lemma roll_lookup_ends:
  assumes "env_ok env" and "r_read s \<le> length (r_buf s)"
  shows "ends (\<lambda>s'. same_sent s s' \<and> same_pos s s') (roll_lookup env s)"
proof -
  obtain h where h: "e_h env = Some h" using assms by (auto simp: env_ok_def)
  let ?s1 = "s\<lparr>r_match := False, r_hm := mutex_lock (r_hm s), r_iter := r_iter s + 1\<rparr>"
  show ?thesis
    unfolding roll_lookup_def h option.case Let_def
    using assms(2) by (intro ends_then_do [OF roll_bucket_ends]) (auto simp: same_sent_def same_pos_def)
qed

lemma roll_emit_match_ends:
  assumes "env_ok env" and "win_pos env s" and "raw_room env s" and "r_match s"
    and "r_a_k_pos s + r_send_left s = e_file_sz env"
  shows "ends (\<lambda>s'. r_send_left s' < r_send_left s \<and> (0 < r_send_left s' \<longrightarrow> roll_pos env s')) (roll_emit_match env s)"
proof -
  let ?n = "e_file_sz env"
  have w: "0 < r_read s" "r_read s \<le> r_send_left s" "?n < off_max" "0 < e_send env"
      "r_send_left s - r_read s = 0 \<or> r_a_kL_pos s = r_a_k_pos s + r_read s \<and> e_L env \<le> ?n"
    using assms by (auto simp: win_pos_def env_ok_def Let_def)
  have sub: "sz_sub (r_send_left s) (r_read s) = r_send_left s - r_read s"
    using w assms(5) off_max_size_t by (simp add: sz_simps)
  have buf: "buf_room env s" using assms(2) by (simp add: win_pos_def Let_def)
  let ?Q = "\<lambda>s'. same_pos s s' \<and> r_match s' \<and> r_raw_n s' = 0 \<and> r_raw s' = None"
  have tx: "ends ?Q (roll_tx env err type ref raw n s1)" if "?Q s1" for err type ref raw n s1
    using that by (intro ends_mono [OF roll_tx_ends]) (auto simp: same_pos_def)
  have flush: "ends ?Q (roll_flush env ref s)" for ref
    using assms(3,4) by (intro ends_mono [OF roll_flush_ends]) (auto simp: raw_room_def split: if_splits)
  show ?thesis
    unfolding roll_emit_match_def
  proof (rule ends_then_do [OF flush], rule ends_then_do [where Q = ?Q])
    fix s2 assume "?Q s2"
    then show "ends (\<lambda>s'. r_send_left s' < r_send_left s \<and> (0 < r_send_left s' \<longrightarrow> roll_pos env s'))
        (Continue (s2\<lparr>r_send_left := sz_sub (r_send_left s2) (r_read s2)\<rparr>))"
      using w sub buf assms(5) by (auto simp: same_pos_def roll_pos_def raw_room_def buf_room_def Let_def)
  qed (auto intro: tx)
qed

lemma roll_raw_alloc_ends:
  assumes "raw_room env s"
  shows "ends (\<lambda>s'. same_pos s s' \<and> r_match s' = r_match s \<and> r_raw_n s' = r_raw_n s \<and>
    (\<exists>b. r_raw s' = Some b \<and> length b = e_raw_max env)) (roll_raw_alloc env s)"
  using assms by (auto simp: roll_raw_alloc_def Let_def raw_room_def same_pos_def split: if_splits)

lemma roll_raw_byte_ends:
  assumes "buf_room env s"
  shows "ends (\<lambda>s'. same_pos s s' \<and> r_match s' = r_match s \<and> r_raw_n s' = r_raw_n s \<and> r_raw s' = r_raw s) (roll_raw_byte s)"
proof -
  obtain data n fx m where rd: "rm_fpread 1 1 (r_a_k_pos s) (r_fx s) None = (data, n, fx, m)"
    by (metis prod_cases4)
  with assms show ?thesis by (auto simp: roll_raw_byte_def Let_def same_pos_def buf_room_def)
qed

lemma roll_raw_store_ends:
  assumes env: "env_ok env" and w: "win_pos env s" and room: "r_raw_n s < e_send env" "r_raw_n s + r_send_left s \<le> e_file_sz env"
    and b: "r_raw s = Some b" "length b = e_raw_max env"
    and m: "\<not> r_match s" and p: "r_a_k_pos s + r_send_left s = e_file_sz env" "0 < r_send_left s"
  shows "ends (\<lambda>s'. r_send_left s' < r_send_left s \<and> (0 < r_send_left s' \<longrightarrow> roll_pos env s')) (roll_raw_store env s)"
proof -
  let ?n = "e_file_sz env"
  let ?s1 = "s\<lparr>r_raw := Some (b[r_raw_n s := r_a_k s]), r_send_left := r_send_left s - 1, r_raw_n := r_raw_n s + 1\<rparr>"
  have sz: "sz_sub (r_send_left s) 1 = r_send_left s - 1" "sz_add (r_raw_n s) 1 = r_raw_n s + 1"
    using env p room off_max_size_t by (simp_all add: env_ok_def sz_simps)
  have run: "roll_raw_store env s =
      (if r_raw_n s + 1 = e_send env \<or> r_send_left s - 1 = 0 then roll_flush env (r_a_k_pos ?s1) ?s1 else Continue ?s1)"
    using b room env sz by (auto simp: roll_raw_store_def env_ok_def)
  have w1: "win_pos env ?s1" using w by (simp add: win_pos_def buf_room_def)
  have next1: "roll_pos env s'" if "same_pos ?s1 s'" "\<not> r_match s'" "raw_room env s'" for s'
    using that w1 p by (auto simp: roll_pos_def same_pos_def win_pos_def buf_room_def Let_def)
  have flushed: "raw_room env s'" if "same_pos ?s1 s'" "r_raw_n s' = 0" "r_raw s' = None" for s'
    using that env p by (auto simp: raw_room_def same_pos_def env_ok_def)
  show ?thesis
  proof (cases "r_raw_n s + 1 = e_send env \<or> r_send_left s - 1 = 0")
    case True
    have "ends (\<lambda>s'. r_send_left s' < r_send_left s \<and> (0 < r_send_left s' \<longrightarrow> roll_pos env s'))
        (roll_flush env (r_a_k_pos ?s1) ?s1)"
    proof (rule ends_mono [OF roll_flush_ends])
      fix s' assume "same_pos ?s1 s' \<and> r_match s' = r_match ?s1 \<and> r_raw_n s' = 0 \<and>
        (0 < r_raw_n ?s1 \<or> r_raw ?s1 = None \<longrightarrow> r_raw s' = None)"
      then show "r_send_left s' < r_send_left s \<and> (0 < r_send_left s' \<longrightarrow> roll_pos env s')"
        using next1 [of s'] flushed [of s'] m p(2) by (simp add: same_pos_def)
    qed
    with True run show ?thesis by simp
  next
    case False
    have "raw_room env ?s1" using False room b p(2) by (auto simp: raw_room_def)
    then have "roll_pos env ?s1" using m by (intro next1) (simp_all add: same_pos_def)
    with False run p(2) show ?thesis by simp
  qed
qed

lemma roll_emit_raw_ends:
  assumes "env_ok env" and "win_pos env s" and "raw_room env s" and "\<not> r_match s"
    and "r_a_k_pos s + r_send_left s = e_file_sz env" and "0 < r_send_left s"
  shows "ends (\<lambda>s'. r_send_left s' < r_send_left s \<and> (0 < r_send_left s' \<longrightarrow> roll_pos env s')) (roll_emit_raw env s)"
  unfolding roll_emit_raw_def
proof (rule ends_then_do [OF roll_raw_alloc_ends [OF assms(3)]], rule ends_then_do [OF roll_raw_byte_ends [of env]])
  fix s1
  assume "same_pos s s1 \<and> r_match s1 = r_match s \<and> r_raw_n s1 = r_raw_n s \<and>
      (\<exists>b. r_raw s1 = Some b \<and> length b = e_raw_max env)"
  then show "buf_room env s1" using assms(2) by (auto simp: win_pos_def same_pos_def buf_room_def Let_def)
next
  fix s1 s2
  assume s1: "same_pos s s1 \<and> r_match s1 = r_match s \<and> r_raw_n s1 = r_raw_n s \<and>
      (\<exists>b. r_raw s1 = Some b \<and> length b = e_raw_max env)"
    and s2: "same_pos s1 s2 \<and> r_match s2 = r_match s1 \<and> r_raw_n s2 = r_raw_n s1 \<and> r_raw s2 = r_raw s1"
  then obtain b where b: "r_raw s2 = Some b" "length b = e_raw_max env" by auto
  have same: "same_pos s s2" "\<not> r_match s2" "r_raw_n s2 = r_raw_n s"
    using s1 s2 assms(4) by (auto simp: same_pos_def)
  have w: "win_pos env s2" using assms(2) same(1) by (auto simp: win_pos_def same_pos_def buf_room_def Let_def)
  have "r_send_left s2 = r_send_left s" using same(1) by (simp add: same_pos_def)
  then show "ends (\<lambda>s'. r_send_left s' < r_send_left s \<and> (0 < r_send_left s' \<longrightarrow> roll_pos env s')) (roll_raw_store env s2)"
    using roll_raw_store_ends [OF assms(1) w _ _ b same(2)] assms(3,5,6) same
    by (simp add: raw_room_def same_pos_def)
qed

section \<open>The loop and the procedure\<close>

lemma roll_iter_ends:
  assumes env: "env_ok env" and s: "roll_pos env s" "0 < r_send_left s" and tail: "\<not> r_send_left s \<le> e_copy_tail env"
  shows "ends (\<lambda>s'. r_send_left s' < r_send_left s \<and> (0 < r_send_left s' \<longrightarrow> roll_pos env s')) (roll_iter env s)"
proof -
  let ?W = "\<lambda>s'. win_pos env s' \<and> same_sent s s' \<and> r_a_k_pos s' + r_send_left s = e_file_sz env"
  have first: "ends ?W (if r_match s then roll_window env s else roll_shift env s)"
    using roll_window_ends [OF env s(1) _ s(2)] roll_shift_ends [OF env s(1) _ s(2)] by simp
  have look: "ends ?W (roll_lookup env s1)" if "?W s1" for s1
    using that by (intro ends_mono [OF roll_lookup_ends [OF env]])
      (auto simp: same_sent_def same_pos_def win_pos_def buf_room_def Let_def)
  have room: "raw_room env s2" "r_send_left s2 = r_send_left s" if "?W s2" for s2
    using that s(1) by (auto simp: roll_pos_def raw_room_def same_sent_def Let_def)
  have "ends (\<lambda>s'. r_send_left s' < r_send_left s \<and> (0 < r_send_left s' \<longrightarrow> roll_pos env s'))
      (if r_match s2 then roll_emit_match env s2 else roll_emit_raw env s2)" if "?W s2" for s2
    using roll_emit_match_ends [OF env, of s2] roll_emit_raw_ends [OF env, of s2] room [OF that] that s(2) by simp
  then show ?thesis
    unfolding roll_iter_def if_not_P [OF tail] by (intro ends_then_do [OF first] ends_then_do [OF look])
qed

lemma roll_loop_ends:
  assumes "env_ok env" and "roll_pos env s" and "0 < r_send_left s"
  shows "\<exists>r. roll_loop env s = Some r \<and> r \<noteq> Undefined"
  using assms(2,3)
proof (induction "r_send_left s" arbitrary: s rule: less_induct)
  case less
  show ?case
  proof (cases "r_send_left s \<le> e_copy_tail env")
    case True
    then show ?thesis by (simp add: roll_loop.simps [of env s] roll_iter_def)
  next
    case False
    note it = roll_iter_ends [OF assms(1) less.prems False]
    show ?thesis
    proof (cases "roll_iter env s")
      case (Continue s')
      with it have s': "r_send_left s' < r_send_left s" "0 < r_send_left s' \<longrightarrow> roll_pos env s'" by simp_all
      show ?thesis
        using less.hyps [OF s'(1)] s'(2) Continue by (cases "0 < r_send_left s'") (simp_all add: roll_loop.simps [of env s])
    qed (use it in \<open>simp_all add: roll_loop.simps [of env s]\<close>)
  qed
qed

lemma roll_copy_tail_ends: "\<exists>e s'. roll_copy_tail env all a b s = Return e s'"
proof -
  have ret: "\<exists>e s'. then_do r g = Return e s'" if "ends Q r" "\<And>s. \<exists>e s'. g s = Return e s'" for Q r and g :: "'a roll \<Rightarrow> 'a roll step"
    using that by (cases r) (simp_all add: then_do_def)
  have tx: "\<exists>e s'. (case roll_tx env err type ref raw n s1 of
        Continue s6 \<Rightarrow> Return RM_ERR_OK (roll_release (s6\<lparr>r_raw := None\<rparr>))
      | Return e s6 \<Rightarrow> Return e (roll_release s6) | r \<Rightarrow> r) = Return e s'" for err type ref raw n and s1 :: "'a roll"
    using roll_tx_ends [of s1 env err type ref raw n] by (cases "roll_tx env err type ref raw n s1") simp_all
  show ?thesis
    unfolding roll_copy_tail_def Let_def
    by (rule ret [OF roll_flush_ends]) (auto simp: tx split: prod.split)
qed

lemma roll_run_ends:
  assumes "env_ok env" and "roll_pos env s" and "0 < r_send_left s"
  shows "\<exists>e r z. roll_loop env s = Some z \<and> roll_end env z = Return e r"
proof -
  obtain r where "roll_loop env s = Some r" "r \<noteq> Undefined" using roll_loop_ends [OF assms] by blast
  then show ?thesis using roll_copy_tail_ends [of env False False True] by (cases r) (simp_all add: roll_end_def)
qed

lemma roll_proc_returns:
  assumes "length (fs_bytes f_x) < off_max" and "ctx_L (s_rec_ctx s) < size_t_mod"
  shows "\<exists>e r. roll_proc tw mem s h hm f_x df 0 = Some (Return e r)"
proof -
  let ?ctx = "s_rec_ctx s" and ?n = "length (fs_bytes f_x)"
  have left: "sz_sub ?n 0 = ?n" using assms(1) off_max_size_t by (simp add: sz_simps)
  show ?thesis
    unfolding roll_proc_def Let_def
    by (auto simp: fstat_size_def left env_ok_def roll_pos_def raw_room_def buf_room_def roll_start_def assms
        roll_copy_tail_ends intro!: roll_run_ends split: option.split)
qed

text \<open>
  C9. The rolling checksum procedure always returns: for every file a \<open>size_t\<close> can count, with any
  faults of reading and positioning, any block size and thresholds, any table (absent, not of this
  file, or changed by another thread between two lookups), any memory oracle, any callback and any
  pointers that are \<open>NULL\<close>, a start at 0 leads to a return with an error code. It is never undefined: every window read
  into the buffer of \<open>L\<close> bytes, every byte taken from it and every literal byte stored is inside the
  buffer as it was allocated.
\<close>
theorem rolling_proc_returns:
  assumes "\<And>fx. f_x = Some fx \<Longrightarrow> length (fs_bytes fx) < off_max"
    and "\<And>s'. s = Some s' \<Longrightarrow> ctx_L (s_rec_ctx s') < size_t_mod"
  shows "\<exists>e s' fx' hm'. rm_rolling_ch_proc tw mem s h hm f_x df 0 = Some (e, s', fx', hm')"
proof (cases "s = None \<or> f_x = None \<or> df = None")
  case False
  then obtain s0 fx d where "s = Some s0" "f_x = Some fx" "df = Some d" by auto
  with roll_proc_returns [of fx s0 tw mem h hm d] assms show ?thesis
    by (auto simp: rm_rolling_ch_proc_def)
qed (auto simp: rm_rolling_ch_proc_def split: option.split)

theorem rolling_proc_returns_witness:
  "\<exists>e s' fx' hm'. rm_rolling_ch_proc tw_lists (\<lambda>_. False) (Some (log_session 1 1)) (Some (\<lambda>_. block_table 1 [7, 7])) None
     (Some (open_stream [2, 1])) (Some log_f) 0 = Some (e, s', fx', hm')"
  by (rule rolling_proc_returns) (auto simp: open_stream_def log_session_def off_max_def size_t_mod_def)

end
