(* ===== verification/RM_Serialize.thy ===== *)
theory RM_Serialize
  imports RM_Defs "HOL-Library.Monad_Syntax"
begin

text \<open>
  The wire format: \<^verbatim>\<open>src/rm_serialize.c\<close>, the message structures of \<^verbatim>\<open>include/rm_do_msg.h\<close> and
  the message length of \<^verbatim>\<open>src/rm_do_msg.c\<close>. A serializer appends to the bytes written so far, which
  is what writing through the returned pointer does. A deserializer returns the value and the rest of
  the buffer, and \<open>None\<close> when it reads past the end of the buffer.
\<close>

section \<open>Messages\<close>

record rm_msg_hdr =
  h_hash :: u32
  h_pt :: u8
  h_flags :: u8
  h_len :: u16

text \<open>\<open>struct rm_msg_push\<close>; the name fields are the arrays of \<open>RM_FILE_LEN_MAX\<close> bytes.\<close>

record rm_msg_push =
  p_hdr :: rm_msg_hdr
  p_ssid :: bytes
  p_L :: u64
  p_x_sz :: u16
  p_x :: bytes
  p_y_sz :: u16
  p_y :: bytes
  p_z_sz :: u16
  p_z :: bytes
  p_ch_ch_port :: u16
  p_bytes :: u64

record rm_msg_push_ack =
  a_hdr :: rm_msg_hdr
  a_delta_port :: u16
  a_ch_ch_n :: u64

record rm_msg_pull =
  l_hdr :: rm_msg_hdr
  l_L :: u64
  l_ch_ch_n :: u32

section \<open>Serializers\<close>

definition rm_serialize_u8 :: "bytes \<Rightarrow> u8 \<Rightarrow> bytes" where
  "rm_serialize_u8 buf v = buf @ [v]"

definition rm_serialize_u16 :: "bytes \<Rightarrow> u16 \<Rightarrow> bytes" where
  "rm_serialize_u16 buf v = buf @ [ucast (drop_bit 8 v AND 0xFF), ucast (v AND 0xFF)]"

definition rm_serialize_u32 :: "bytes \<Rightarrow> u32 \<Rightarrow> bytes" where
  "rm_serialize_u32 buf v = buf @ [ucast (drop_bit 24 v AND 0xFF), ucast (drop_bit 16 v AND 0xFF),
     ucast (drop_bit 8 v AND 0xFF), ucast (v AND 0xFF)]"

definition rm_serialize_u64 :: "bytes \<Rightarrow> u64 \<Rightarrow> bytes" where
  "rm_serialize_u64 buf v = buf @
     [ucast (drop_bit (24 + 32) v AND 0xFF), ucast (drop_bit (16 + 32) v AND 0xFF),
      ucast (drop_bit (8 + 32) v AND 0xFF), ucast (drop_bit 32 v AND 0xFF),
      ucast (drop_bit 24 v AND 0xFF), ucast (drop_bit 16 v AND 0xFF),
      ucast (drop_bit 8 v AND 0xFF), ucast (v AND 0xFF)]"

text \<open>\<open>size_t\<close> has eight bytes.\<close>

definition rm_serialize_size_t :: "bytes \<Rightarrow> u64 \<Rightarrow> bytes" where
  "rm_serialize_size_t buf v = rm_serialize_u64 buf v"

text \<open>
  After copying, the last byte is overwritten with a terminator. With \<open>bytes_n = 0\<close> that is the byte
  before the string, the last one written so far.
\<close>

definition rm_serialize_string :: "bytes \<Rightarrow> bytes option \<Rightarrow> nat \<Rightarrow> bytes" where
  "rm_serialize_string buf src bytes_n =
     (case src of
        None \<Rightarrow> buf
      | Some s \<Rightarrow> let out = buf @ take bytes_n s in out[length buf + bytes_n - 1 := 0])"

definition rm_serialize_mem :: "bytes \<Rightarrow> bytes option \<Rightarrow> nat \<Rightarrow> bytes" where
  "rm_serialize_mem buf src bytes_n =
     (case src of None \<Rightarrow> buf | Some s \<Rightarrow> buf @ take bytes_n s)"

definition rm_serialize_msg_hdr :: "bytes \<Rightarrow> rm_msg_hdr \<Rightarrow> bytes" where
  "rm_serialize_msg_hdr buf h =
     (let buf = rm_serialize_u32 buf (h_hash h);
          buf = rm_serialize_u8 buf (h_pt h);
          buf = rm_serialize_u8 buf (h_flags h)
      in rm_serialize_u16 buf (h_len h))"

definition rm_serialize_msg_push_body :: "bytes \<Rightarrow> rm_msg_push \<Rightarrow> bytes" where
  "rm_serialize_msg_push_body buf m =
     (let buf = rm_serialize_mem buf (Some (p_ssid m)) 16;
          buf = rm_serialize_u64 buf (p_L m);
          buf = rm_serialize_u16 buf (p_x_sz m);
          buf = rm_serialize_string buf (Some (p_x m)) (unat (p_x_sz m));
          buf = rm_serialize_u16 buf (p_y_sz m);
          buf = rm_serialize_string buf (Some (p_y m)) (unat (p_y_sz m));
          buf = rm_serialize_u16 buf (p_z_sz m);
          buf = rm_serialize_string buf (Some (p_z m)) (unat (p_z_sz m));
          buf = rm_serialize_u16 buf (p_ch_ch_port m)
      in rm_serialize_u64 buf (p_bytes m))"

definition rm_serialize_msg_push :: "bytes \<Rightarrow> rm_msg_push \<Rightarrow> bytes" where
  "rm_serialize_msg_push buf m = rm_serialize_msg_push_body (rm_serialize_msg_hdr buf (p_hdr m)) m"

definition rm_serialize_msg_ack :: "bytes \<Rightarrow> rm_msg_hdr \<Rightarrow> bytes" where
  "rm_serialize_msg_ack buf h = rm_serialize_msg_hdr buf h"

definition rm_serialize_msg_push_ack :: "bytes \<Rightarrow> rm_msg_push_ack \<Rightarrow> bytes" where
  "rm_serialize_msg_push_ack buf m =
     (let buf = rm_serialize_msg_hdr buf (a_hdr m);
          buf = rm_serialize_u16 buf (a_delta_port m)
      in rm_serialize_u64 buf (a_ch_ch_n m))"

definition rm_serialize_msg_pull :: "bytes \<Rightarrow> rm_msg_pull \<Rightarrow> bytes" where
  "rm_serialize_msg_pull buf m =
     (let buf = rm_serialize_msg_hdr buf (l_hdr m);
          buf = rm_serialize_u32 buf (ucast (l_L m))
      in rm_serialize_u32 buf (l_ch_ch_n m))"

section \<open>Deserializers\<close>

type_synonym 'a deser = "bytes \<Rightarrow> ('a \<times> bytes) option"

fun rm_deserialize_u8 :: "u8 deser" where
  "rm_deserialize_u8 (b0 # r) = Some (b0, r)"
| "rm_deserialize_u8 _ = None"

fun rm_deserialize_u16 :: "u16 deser" where
  "rm_deserialize_u16 (b0 # b1 # r) = Some (push_bit 8 (ucast b0) + ucast b1, r)"
| "rm_deserialize_u16 _ = None"

fun rm_deserialize_u32 :: "u32 deser" where
  "rm_deserialize_u32 (b0 # b1 # b2 # b3 # r) =
     Some (push_bit 24 (ucast b0) + push_bit 16 (ucast b1) + push_bit 8 (ucast b2) + ucast b3, r)"
| "rm_deserialize_u32 _ = None"

fun rm_deserialize_u64 :: "u64 deser" where
  "rm_deserialize_u64 (b0 # b1 # b2 # b3 # b4 # b5 # b6 # b7 # r) =
     Some (push_bit (24 + 32) (ucast b0) + push_bit (16 + 32) (ucast b1) +
       push_bit (8 + 32) (ucast b2) + push_bit 32 (ucast b3) + push_bit 24 (ucast b4) +
       push_bit 16 (ucast b5) + push_bit 8 (ucast b6) + ucast b7, r)"
| "rm_deserialize_u64 _ = None"

definition rm_deserialize_size_t :: "u64 deser" where
  "rm_deserialize_size_t buf = rm_deserialize_u64 buf"

text \<open>
  \<open>strncpy\<close> copies up to the terminator and pads with zeros; it reads past the end of the buffer only
  if there is no terminator before it. Then the last of the \<open>bytes_n\<close> bytes is set to zero. \<open>dst\<close> is
  the destination array, and the returned pointer is advanced by \<open>bytes_n\<close> in any case.
\<close>

definition c_strncpy :: "bytes \<Rightarrow> bytes \<Rightarrow> nat \<Rightarrow> bytes option" where
  "c_strncpy dst src n =
     (let s = takeWhile (\<lambda>b. b \<noteq> 0) (take n src) in
      if length s = length src \<and> length s < n then None
      else Some (s @ replicate (n - length s) 0 @ drop n dst))"

definition rm_deserialize_string :: "bytes \<Rightarrow> bytes \<Rightarrow> nat \<Rightarrow> (bytes \<times> bytes) option" where
  "rm_deserialize_string buf dst bytes_n = do {
     d \<leftarrow> c_strncpy dst buf bytes_n;
     Some (d[bytes_n - 1 := 0], drop bytes_n buf)
   }"

definition rm_deserialize_mem :: "bytes \<Rightarrow> nat \<Rightarrow> (bytes \<times> bytes) option" where
  "rm_deserialize_mem buf bytes_n =
     (if bytes_n \<le> length buf then Some (take bytes_n buf, drop bytes_n buf) else None)"

definition rm_deserialize_msg_hdr :: "rm_msg_hdr deser" where
  "rm_deserialize_msg_hdr buf = do {
     (hash, buf) \<leftarrow> rm_deserialize_u32 buf;
     (pt, buf) \<leftarrow> rm_deserialize_u8 buf;
     (flags, buf) \<leftarrow> rm_deserialize_u8 buf;
     (len, buf) \<leftarrow> rm_deserialize_u16 buf;
     Some (\<lparr>h_hash = hash, h_pt = pt, h_flags = flags, h_len = len\<rparr>, buf)
   }"

text \<open>A name field: the array starts zeroed, and only a nonzero size reads anything.\<close>

definition deserialize_name :: "u16 \<Rightarrow> bytes deser" where
  "deserialize_name sz buf =
     (let dst = replicate RM_FILE_LEN_MAX 0 in
      if 0 < sz then rm_deserialize_string buf dst (min (unat sz) RM_FILE_LEN_MAX)
      else Some (dst, buf))"

definition rm_deserialize_msg_push_body :: "rm_msg_hdr \<Rightarrow> rm_msg_push deser" where
  "rm_deserialize_msg_push_body hdr buf = do {
     (ssid, buf) \<leftarrow> rm_deserialize_mem buf 16;
     (L, buf) \<leftarrow> rm_deserialize_u64 buf;
     (x_sz, buf) \<leftarrow> rm_deserialize_u16 buf;
     (x, buf) \<leftarrow> deserialize_name x_sz buf;
     (y_sz, buf) \<leftarrow> rm_deserialize_u16 buf;
     (y, buf) \<leftarrow> deserialize_name y_sz buf;
     (z_sz, buf) \<leftarrow> rm_deserialize_u16 buf;
     (z, buf) \<leftarrow> deserialize_name z_sz buf;
     (port, buf) \<leftarrow> rm_deserialize_u16 buf;
     (n, buf) \<leftarrow> rm_deserialize_u64 buf;
     Some (\<lparr>p_hdr = hdr, p_ssid = ssid, p_L = L, p_x_sz = x_sz, p_x = x, p_y_sz = y_sz, p_y = y,
            p_z_sz = z_sz, p_z = z, p_ch_ch_port = port, p_bytes = n\<rparr>, buf)
   }"

definition rm_deserialize_msg_ack :: "rm_msg_hdr deser" where
  "rm_deserialize_msg_ack buf = rm_deserialize_msg_hdr buf"

definition rm_deserialize_msg_push_ack :: "rm_msg_push_ack deser" where
  "rm_deserialize_msg_push_ack buf = do {
     (hdr, buf) \<leftarrow> rm_deserialize_msg_hdr buf;
     (port, buf) \<leftarrow> rm_deserialize_u16 buf;
     (n, buf) \<leftarrow> rm_deserialize_u64 buf;
     Some (\<lparr>a_hdr = hdr, a_delta_port = port, a_ch_ch_n = n\<rparr>, buf)
   }"

text \<open>
  \<open>rm_deserialize_msg\<close>: the outer option is reading past the end, the inner one the returned
  pointer.
\<close>

definition rm_deserialize_msg ::
    "bool \<Rightarrow> rm_pt_type \<Rightarrow> rm_msg_hdr \<Rightarrow> bytes \<Rightarrow> rm_msg_push option option" where
  "rm_deserialize_msg malloc_ok pt hdr body =
     (case pt of
        RM_PT_MSG_PUSH \<Rightarrow>
          (if \<not> malloc_ok then Some None
           else map_option (\<lambda>r. Some (fst r)) (rm_deserialize_msg_push_body hdr body))
      | _ \<Rightarrow> Some None)"

text \<open>Reading single fields of a header in place.\<close>

definition rm_get_msg_hdr_hash :: "bytes \<Rightarrow> u32" where
  "rm_get_msg_hdr_hash buf = push_bit 24 (ucast (buf ! 0)) OR push_bit 16 (ucast (buf ! 1)) OR
     push_bit 8 (ucast (buf ! 2)) OR ucast (buf ! 3)"

definition rm_get_msg_hdr_pt :: "bytes \<Rightarrow> u8" where
  "rm_get_msg_hdr_pt buf = buf ! 4"

definition rm_get_msg_hdr_flags :: "bytes \<Rightarrow> u8" where
  "rm_get_msg_hdr_flags buf = buf ! 5"

definition rm_get_msg_hdr_len :: "bytes \<Rightarrow> u16" where
  "rm_get_msg_hdr_len buf =
     (case rm_deserialize_u16 (drop 6 buf) of Some (v, _) \<Rightarrow> v | None \<Rightarrow> 0)"

section \<open>The length of a message\<close>

definition calc_name_len :: "u16 \<Rightarrow> u16 \<Rightarrow> u16" where
  "calc_name_len len sz = (if 0 < sz then len + (2 + sz) else len + 2)"

text \<open>The payload type as the byte in the header; other values are unknown types.\<close>

definition rm_pt_of_code :: "u8 \<Rightarrow> rm_pt_type option" where
  "rm_pt_of_code c = find (\<lambda>pt. rm_pt_code pt = c)
     [RM_PT_MSG_PUSH, RM_PT_MSG_PUSH_ACK, RM_PT_MSG_PULL, RM_PT_MSG_PULL_ACK, RM_PT_MSG_ACK, RM_PT_MSG_BYE]"

text \<open>
  The argument is a pointer to \<open>void\<close>, which \<open>rm_calc_msg_len\<close> takes for a pointer to a header. Its two
  callers pass different things: \<open>rm_tcp_tx_msg_ack\<close> the header itself, \<open>rm_tx_remote_push\<close> the message, whose first member
  is the \<^emph>\<open>pointer\<close> to the header. The payload type that is switched on is the byte 4 of what the argument
  points to: of the header it is the field \<open>pt\<close>, of the message it is the byte 4 of the address of the
  header, as a little endian machine with 64 bit pointers stores it. A header that has the type of a push is read beyond
  its end: \<open>None\<close>.
\<close>

datatype msg_arg = Arg_Hdr rm_msg_hdr | Arg_Push u64 rm_msg_push

definition ptr_byte :: "u64 \<Rightarrow> nat \<Rightarrow> u8" where
  "ptr_byte p i = ucast (drop_bit (8 * i) p)"

primrec arg_pt :: "msg_arg \<Rightarrow> u8" where
  "arg_pt (Arg_Hdr hdr) = h_pt hdr"
| "arg_pt (Arg_Push p m) = ptr_byte p 4"

definition rm_calc_msg_len :: "msg_arg \<Rightarrow> u16 option" where
  "rm_calc_msg_len arg =
     (case rm_pt_of_code (arg_pt arg) of
        Some RM_PT_MSG_PUSH \<Rightarrow>
          (case arg of
             Arg_Hdr _ \<Rightarrow> None
           | Arg_Push _ m \<Rightarrow>
               Some (let len = of_nat RM_MSG_HDR_LEN;
                         len = len + 16;
                         len = len + 8;
                         len = len + (2 + p_x_sz m);
                         len = calc_name_len len (p_y_sz m);
                         len = calc_name_len len (p_z_sz m);
                         len = len + 2
                     in len + 8))
      | Some RM_PT_MSG_PULL \<Rightarrow> Some 0
      | Some RM_PT_MSG_BYE \<Rightarrow> Some 0
      | Some RM_PT_MSG_PUSH_ACK \<Rightarrow> Some (of_nat RM_MSG_HDR_LEN + 2 + 8)
      | Some RM_PT_MSG_PULL_ACK \<Rightarrow> Some (of_nat RM_MSG_HDR_LEN)
      | Some RM_PT_MSG_ACK \<Rightarrow> Some (of_nat RM_MSG_HDR_LEN)
      | None \<Rightarrow> Some 0)"

lemma rm_pt_of_code [simp]: "rm_pt_of_code (rm_pt_code pt) = Some pt"
  by (cases pt) (simp_all add: rm_pt_of_code_def)

section \<open>Round trips of the integers\<close>

lemma word_add_or: "a AND b = 0 \<Longrightarrow> a + b = a OR b" for a b :: "'a::len word"
  by (rule disjunctive_add_eq_or)

lemma bit_255: "bit (255 :: int) n \<longleftrightarrow> n < 8"
proof -
  have "(255 :: int) = mask 8" by (simp add: mask_eq_exp_minus_1)
  then show ?thesis by (simp only: bit_mask_iff) simp
qed

lemma ucast_byte: "(ucast (x AND 0xFF) :: u8) = ucast (x :: 'a::len word)"
  by (rule bit_eqI) (auto simp: bit_simps bit_255 dest: bit_imp_le_length)

lemma split_byte: "w = push_bit 8 (drop_bit 8 w) + ucast (ucast w :: u8)" for w :: "'a::len word"
proof -
  have "push_bit 8 (drop_bit 8 w) AND ucast (ucast w :: u8) = 0"
    by (rule bit_eqI) (auto simp: bit_simps)
  then have "push_bit 8 (drop_bit 8 w) + ucast (ucast w :: u8) =
      push_bit 8 (drop_bit 8 w) OR ucast (ucast w :: u8)"
    by (rule word_add_or)
  also have "\<dots> = w"
    by (rule bit_eqI) (auto simp: bit_simps dest: bit_imp_le_length)
  finally show ?thesis by simp
qed

lemma push_drop_byte:
  "push_bit k (drop_bit k w) =
     push_bit (k + 8) (drop_bit (k + 8) w) + push_bit k (ucast (ucast (drop_bit k w) :: u8))"
  for w :: "'a::len word"
  using arg_cong [OF split_byte [of "drop_bit k w"], of "push_bit k"]
  by (simp add: push_bit_add push_bit_push_bit drop_bit_drop_bit ac_simps)

lemma bytes_u16:
  "push_bit 8 (ucast (ucast (drop_bit 8 v) :: u8)) +
   ucast (ucast v :: u8) = (v :: u16)"
proof -
  have "v = push_bit 8 (drop_bit 8 v) + ucast (ucast v :: u8)"
    using push_drop_byte [of 0 v] by simp
  also have "push_bit 8 (drop_bit 8 v) = push_bit 8 (ucast (ucast (drop_bit 8 v) :: u8))"
    using push_drop_byte [of 8 v] by simp
  finally show ?thesis by (rule sym)
qed

lemma bytes_u32:
  "push_bit 24 (ucast (ucast (drop_bit 24 v) :: u8)) +
   push_bit 16 (ucast (ucast (drop_bit 16 v) :: u8)) +
   push_bit 8 (ucast (ucast (drop_bit 8 v) :: u8)) +
   ucast (ucast v :: u8) = (v :: u32)"
proof -
  have "v = push_bit 8 (drop_bit 8 v) + ucast (ucast v :: u8)"
    using push_drop_byte [of 0 v] by simp
  also have "push_bit 8 (drop_bit 8 v) = push_bit 16 (drop_bit 16 v) + push_bit 8 (ucast (ucast (drop_bit 8 v) :: u8))"
    using push_drop_byte [of 8 v] by simp
  also have "push_bit 16 (drop_bit 16 v) = push_bit 24 (drop_bit 24 v) + push_bit 16 (ucast (ucast (drop_bit 16 v) :: u8))"
    using push_drop_byte [of 16 v] by simp
  also have "push_bit 24 (drop_bit 24 v) = push_bit 24 (ucast (ucast (drop_bit 24 v) :: u8))"
    using push_drop_byte [of 24 v] by simp
  finally show ?thesis by (rule sym)
qed

lemma bytes_u64:
  "push_bit 56 (ucast (ucast (drop_bit 56 v) :: u8)) +
   push_bit 48 (ucast (ucast (drop_bit 48 v) :: u8)) +
   push_bit 40 (ucast (ucast (drop_bit 40 v) :: u8)) +
   push_bit 32 (ucast (ucast (drop_bit 32 v) :: u8)) +
   push_bit 24 (ucast (ucast (drop_bit 24 v) :: u8)) +
   push_bit 16 (ucast (ucast (drop_bit 16 v) :: u8)) +
   push_bit 8 (ucast (ucast (drop_bit 8 v) :: u8)) +
   ucast (ucast v :: u8) = (v :: u64)"
proof -
  have "v = push_bit 8 (drop_bit 8 v) + ucast (ucast v :: u8)"
    using push_drop_byte [of 0 v] by simp
  also have "push_bit 8 (drop_bit 8 v) = push_bit 16 (drop_bit 16 v) + push_bit 8 (ucast (ucast (drop_bit 8 v) :: u8))"
    using push_drop_byte [of 8 v] by simp
  also have "push_bit 16 (drop_bit 16 v) = push_bit 24 (drop_bit 24 v) + push_bit 16 (ucast (ucast (drop_bit 16 v) :: u8))"
    using push_drop_byte [of 16 v] by simp
  also have "push_bit 24 (drop_bit 24 v) = push_bit 32 (drop_bit 32 v) + push_bit 24 (ucast (ucast (drop_bit 24 v) :: u8))"
    using push_drop_byte [of 24 v] by simp
  also have "push_bit 32 (drop_bit 32 v) = push_bit 40 (drop_bit 40 v) + push_bit 32 (ucast (ucast (drop_bit 32 v) :: u8))"
    using push_drop_byte [of 32 v] by simp
  also have "push_bit 40 (drop_bit 40 v) = push_bit 48 (drop_bit 48 v) + push_bit 40 (ucast (ucast (drop_bit 40 v) :: u8))"
    using push_drop_byte [of 40 v] by simp
  also have "push_bit 48 (drop_bit 48 v) = push_bit 56 (drop_bit 56 v) + push_bit 48 (ucast (ucast (drop_bit 48 v) :: u8))"
    using push_drop_byte [of 48 v] by simp
  also have "push_bit 56 (drop_bit 56 v) = push_bit 56 (ucast (ucast (drop_bit 56 v) :: u8))"
    using push_drop_byte [of 56 v] by simp
  finally show ?thesis by (rule sym)
qed

section \<open>The contract of a wire format\<close>

text \<open>
  What a sender and a receiver of a value rely on: writing appends a fixed encoding to what was
  written before, and reading the encoding, whatever follows it, gives the value and the rest.
\<close>

locale wire_codec =
  fixes ser :: "bytes \<Rightarrow> 'a \<Rightarrow> bytes"
    and deser :: "bytes \<Rightarrow> ('a \<times> bytes) option"
    and valid :: "'a \<Rightarrow> bool"
  assumes ser_append: "valid v \<Longrightarrow> ser buf v = buf @ ser [] v"
    and deser_ser: "valid v \<Longrightarrow> deser (ser [] v @ rest) = Some (v, rest)"
begin

lemma deser_at: "valid v \<Longrightarrow> deser (drop (length buf) (ser buf v @ rest)) = Some (v, rest)"
  using ser_append [of v buf] by (simp add: deser_ser)

lemma prefix_free:
  assumes "valid v" and "valid w" and "ser [] v @ r = ser [] w @ r'"
  shows "v = w \<and> r = r'"
proof -
  have "Some (v, r) = deser (ser [] v @ r)" using deser_ser [OF assms(1)] by simp
  also have "\<dots> = Some (w, r')" unfolding assms(3) by (rule deser_ser [OF assms(2)])
  finally show ?thesis by simp
qed

text \<open>A sequence of values, written one after the other, is read back in order.\<close>

primrec deser_list :: "nat \<Rightarrow> bytes \<Rightarrow> ('a list \<times> bytes) option" where
  "deser_list 0 buf = Some ([], buf)"
| "deser_list (Suc n) buf =
     (case deser buf of None \<Rightarrow> None
      | Some (v, r) \<Rightarrow> (case deser_list n r of None \<Rightarrow> None | Some (vs, r') \<Rightarrow> Some (v # vs, r')))"

lemma deser_list_ser:
  "\<forall>v\<in>set vs. valid v \<Longrightarrow>
   deser_list (length vs) (concat (map (ser []) vs) @ rest) = Some (vs, rest)"
  by (induction vs) (simp_all add: deser_ser)

end

interpretation u8: wire_codec rm_serialize_u8 rm_deserialize_u8 "\<lambda>_. True"
  by unfold_locales (simp_all add: rm_serialize_u8_def)

interpretation u16: wire_codec rm_serialize_u16 rm_deserialize_u16 "\<lambda>_. True"
  by unfold_locales (simp_all add: rm_serialize_u16_def ucast_byte bytes_u16)

interpretation u32: wire_codec rm_serialize_u32 rm_deserialize_u32 "\<lambda>_. True"
  by unfold_locales (simp_all add: rm_serialize_u32_def ucast_byte bytes_u32)

interpretation u64: wire_codec rm_serialize_u64 rm_deserialize_u64 "\<lambda>_. True"
  by unfold_locales (simp_all add: rm_serialize_u64_def ucast_byte bytes_u64)

section \<open>Headers\<close>

lemma rm_serialize_msg_hdr_append:
  "rm_serialize_msg_hdr buf h = buf @ rm_serialize_u32 [] (h_hash h) @ rm_serialize_u8 [] (h_pt h) @
     rm_serialize_u8 [] (h_flags h) @ rm_serialize_u16 [] (h_len h)"
  by (simp add: rm_serialize_msg_hdr_def rm_serialize_u32_def rm_serialize_u8_def rm_serialize_u16_def)

interpretation hdr: wire_codec rm_serialize_msg_hdr rm_deserialize_msg_hdr "\<lambda>_. True"
  by unfold_locales
    (simp_all add: rm_serialize_msg_hdr_append rm_deserialize_msg_hdr_def u32.deser_ser u8.deser_ser
      u16.deser_ser)

lemma length_rm_serialize_msg_hdr [simp]: "length (rm_serialize_msg_hdr [] h) = RM_MSG_HDR_LEN"
  by (simp add: rm_serialize_msg_hdr_append rm_serialize_u32_def rm_serialize_u8_def
      rm_serialize_u16_def RM_MSG_HDR_LEN_def)

text \<open>The accessors find the fields of a serialized header, with whatever follows it.\<close>

lemma u32_add_or:
  "push_bit 24 (ucast (b0 :: u8)) + push_bit 16 (ucast (b1 :: u8)) + push_bit 8 (ucast (b2 :: u8)) +
     ucast (b3 :: u8) =
   push_bit 24 (ucast b0) OR push_bit 16 (ucast b1) OR push_bit 8 (ucast b2) OR (ucast b3 :: u32)"
  (is "?a + ?b + ?c + ?d = _")
proof -
  have "?a AND ?b = 0" "(?a OR ?b) AND ?c = 0" "(?a OR ?b OR ?c) AND ?d = 0"
    by (rule bit_eqI, auto simp: bit_simps dest: bit_imp_le_length)+
  then show ?thesis by (simp add: word_add_or or.assoc)
qed

lemma hdr_accessors [simp]:
  "rm_get_msg_hdr_hash (rm_serialize_msg_hdr [] h @ r) = h_hash h"
  "rm_get_msg_hdr_pt (rm_serialize_msg_hdr [] h @ r) = h_pt h"
  "rm_get_msg_hdr_flags (rm_serialize_msg_hdr [] h @ r) = h_flags h"
  "rm_get_msg_hdr_len (rm_serialize_msg_hdr [] h @ r) = h_len h"
proof -
  have "rm_get_msg_hdr_hash (rm_serialize_msg_hdr [] h @ r) =
      fst (the (rm_deserialize_u32 (rm_serialize_u32 [] (h_hash h))))"
    by (simp add: rm_get_msg_hdr_hash_def rm_serialize_msg_hdr_append rm_serialize_u32_def u32_add_or)
  then show "rm_get_msg_hdr_hash (rm_serialize_msg_hdr [] h @ r) = h_hash h"
    using u32.deser_ser [of "h_hash h" "[]"] by simp
  show "rm_get_msg_hdr_pt (rm_serialize_msg_hdr [] h @ r) = h_pt h"
    "rm_get_msg_hdr_flags (rm_serialize_msg_hdr [] h @ r) = h_flags h"
    by (simp_all add: rm_get_msg_hdr_pt_def rm_get_msg_hdr_flags_def rm_serialize_msg_hdr_append
        rm_serialize_u32_def rm_serialize_u8_def)
  have "drop 6 (rm_serialize_msg_hdr [] h @ r) = rm_serialize_u16 [] (h_len h) @ r"
    by (simp add: rm_serialize_msg_hdr_append rm_serialize_u32_def rm_serialize_u8_def numeral_eq_Suc)
  then show "rm_get_msg_hdr_len (rm_serialize_msg_hdr [] h @ r) = h_len h"
    by (simp add: rm_get_msg_hdr_len_def u16.deser_ser)
qed

section \<open>Names\<close>

text \<open>
  A name field as the code fills it: a string shorter than its size field, zero padded to the
  array, and no string for size zero.
\<close>

definition name_valid :: "u16 \<times> bytes \<Rightarrow> bool" where
  "name_valid v \<longleftrightarrow> unat (fst v) \<le> RM_FILE_LEN_MAX \<and>
     (\<exists>t. 0 \<notin> set t \<and> snd v = t @ replicate (RM_FILE_LEN_MAX - length t) 0 \<and>
       (if fst v = 0 then t = [] else length t < unat (fst v)))"

definition ser_name :: "bytes \<Rightarrow> u16 \<times> bytes \<Rightarrow> bytes" where
  "ser_name buf v = rm_serialize_string (rm_serialize_u16 buf (fst v)) (Some (snd v)) (unat (fst v))"

definition deser_name :: "(u16 \<times> bytes) deser" where
  "deser_name buf = do {
     (sz, buf) \<leftarrow> rm_deserialize_u16 buf;
     (s, buf) \<leftarrow> deserialize_name sz buf;
     Some ((sz, s), buf)
   }"

lemma rm_serialize_u16_append: "rm_serialize_u16 buf v = buf @ rm_serialize_u16 [] v"
  by (simp add: rm_serialize_u16_def)

lemma ser_name_valid:
  assumes "name_valid v"
  shows "ser_name buf v = buf @ rm_serialize_u16 [] (fst v) @ take (unat (fst v)) (snd v)"
proof (cases "fst v = 0")
  case True
  then show ?thesis
    by (simp add: ser_name_def rm_serialize_string_def rm_serialize_u16_def list_update_append)
next
  case False
  let ?n = "unat (fst v)"
  obtain t where t: "snd v = t @ replicate (RM_FILE_LEN_MAX - length t) 0" "length t < ?n"
      "?n \<le> RM_FILE_LEN_MAX"
    using assms False by (auto simp: name_valid_def)
  have tk: "take ?n (snd v) = t @ replicate (?n - length t) 0"
    using t by simp
  have "(take ?n (snd v))[?n - 1 := 0] = take ?n (snd v)"
  proof (rule list_update_same_conv [THEN iffD2])
    show "?n - 1 < length (take ?n (snd v))" unfolding tk using t by simp
    have "\<not> ?n - 1 < length t" "?n - 1 - length t < ?n - length t" using t by auto
    then show "take ?n (snd v) ! (?n - 1) = 0" unfolding tk by (simp add: nth_append)
  qed
  moreover have "length (rm_serialize_u16 buf (fst v)) + ?n - 1 =
      length (rm_serialize_u16 buf (fst v)) + (?n - 1)" using t by simp
  ultimately show ?thesis
    by (simp add: ser_name_def rm_serialize_string_def Let_def list_update_append
        rm_serialize_u16_append [of buf])
qed

interpretation name: wire_codec ser_name deser_name name_valid
proof
  fix v buf
  assume v: "name_valid v"
  show "ser_name buf v = buf @ ser_name [] v"
    by (simp add: ser_name_valid [OF v])
next
  fix v rest
  assume v: "name_valid v"
  let ?n = "unat (fst v)"
  have "deserialize_name (fst v) (take ?n (snd v) @ rest) = Some (snd v, rest)"
  proof (cases "fst v = 0")
    case True
    with v show ?thesis by (auto simp: deserialize_name_def name_valid_def)
  next
    case False
    then have pos: "0 < fst v" by (simp add: word_gt_0)
    obtain t where t: "0 \<notin> set t" "snd v = t @ replicate (RM_FILE_LEN_MAX - length t) 0"
        "length t < ?n" "?n \<le> RM_FILE_LEN_MAX"
      using v False by (auto simp: name_valid_def)
    let ?src = "t @ replicate (?n - length t) 0 @ rest"
    have src: "take ?n (snd v) @ rest = ?src" using t by simp
    have len: "length (take ?n (snd v)) = ?n" using t by simp
    have "take ?n ?src = t @ replicate (?n - length t) 0" using t(3) by simp
    moreover have "replicate (?n - length t) (0::u8) = 0 # replicate (?n - length t - 1) 0"
      using t(3) by (metis Suc_diff_1 replicate_Suc zero_less_diff)
    ultimately have tw: "takeWhile (\<lambda>b. b \<noteq> 0) (take ?n ?src) = t"
      using t(1) by (simp only:) (subst takeWhile_append2, auto)
    have "t @ replicate (?n - length t) 0 @ drop ?n (replicate RM_FILE_LEN_MAX 0) = snd v"
      using t by (simp add: replicate_add [symmetric])
    then have cp: "c_strncpy (replicate RM_FILE_LEN_MAX 0) ?src ?n = Some (snd v)"
      using tw t(3) by (simp add: c_strncpy_def Let_def)
    have "(snd v)[?n - 1 := 0] = snd v"
      using t by (intro list_update_same_conv [THEN iffD2]) (auto simp: nth_append)
    with cp src len pos t(4) show ?thesis
      by (simp add: deserialize_name_def rm_deserialize_string_def min_absorb1)
  qed
  then show "deser_name (ser_name [] v @ rest) = Some (v, rest)"
    by (simp add: deser_name_def ser_name_valid [OF v] u16.deser_ser)
qed

section \<open>Whole messages\<close>

definition push_valid :: "rm_msg_push \<Rightarrow> bool" where
  "push_valid m \<longleftrightarrow> length (p_ssid m) = 16 \<and> name_valid (p_x_sz m, p_x m) \<and>
     name_valid (p_y_sz m, p_y m) \<and> name_valid (p_z_sz m, p_z m)"

lemma rm_serialize_msg_push_body_append:
  assumes "push_valid m"
  shows "rm_serialize_msg_push_body buf m = buf @ p_ssid m @ rm_serialize_u64 [] (p_L m) @
     ser_name [] (p_x_sz m, p_x m) @ ser_name [] (p_y_sz m, p_y m) @ ser_name [] (p_z_sz m, p_z m) @
     rm_serialize_u16 [] (p_ch_ch_port m) @ rm_serialize_u64 [] (p_bytes m)"
proof -
  have nm: "rm_serialize_string (rm_serialize_u16 b sz) (Some s) (unat sz) = b @ ser_name [] (sz, s)"
    if "name_valid (sz, s)" for b sz s
    using name.ser_append [OF that, of b] by (simp add: ser_name_def)
  have u: "rm_serialize_u64 b w = b @ rm_serialize_u64 [] w" "rm_serialize_u16 b q = b @ rm_serialize_u16 [] q"
    for b w q by (simp_all add: rm_serialize_u64_def rm_serialize_u16_def)
  from assms have v: "name_valid (p_x_sz m, p_x m)" "name_valid (p_y_sz m, p_y m)"
      "name_valid (p_z_sz m, p_z m)" "length (p_ssid m) = 16"
    by (simp_all add: push_valid_def)
  show ?thesis
    unfolding rm_serialize_msg_push_body_def Let_def nm [OF v(1)] nm [OF v(2)] nm [OF v(3)]
      u(1) [of "_ @ _"] u(2) [of "_ @ _"] rm_serialize_mem_def option.case
    using v(4) by (simp add: u(1) [of "_ @ _"])
qed

lemma rm_deserialize_msg_push_body_ser:
  assumes "push_valid m"
  shows "rm_deserialize_msg_push_body (p_hdr m) (rm_serialize_msg_push_body [] m @ rest) = Some (m, rest)"
proof -
  have nm: "rm_deserialize_u16 (ser_name [] (sz, s) @ r) = Some (sz, take (unat sz) s @ r)"
    "deserialize_name sz (take (unat sz) s @ r) = Some (s, r)" if "name_valid (sz, s)" for sz s r
  proof -
    show 1: "rm_deserialize_u16 (ser_name [] (sz, s) @ r) = Some (sz, take (unat sz) s @ r)"
      using ser_name_valid [OF that, of "[]"] by (simp add: u16.deser_ser)
    show "deserialize_name sz (take (unat sz) s @ r) = Some (s, r)"
      using name.deser_ser [OF that, of r] 1
      by (auto simp: deser_name_def bind_eq_Some_conv)
  qed
  have "rm_deserialize_mem (p_ssid m @ r) 16 = Some (p_ssid m, r)" for r
    using assms by (simp add: rm_deserialize_mem_def push_valid_def)
  with assms show ?thesis
    by (simp add: rm_serialize_msg_push_body_append rm_deserialize_msg_push_body_def push_valid_def
        nm u64.deser_ser u16.deser_ser)
qed

interpretation push_ack: wire_codec rm_serialize_msg_push_ack rm_deserialize_msg_push_ack "\<lambda>_. True"
proof
  fix m :: rm_msg_push_ack and buf
  show "rm_serialize_msg_push_ack buf m = buf @ rm_serialize_msg_push_ack [] m"
    by (simp add: rm_serialize_msg_push_ack_def rm_serialize_msg_hdr_append [of buf]
        rm_serialize_msg_hdr_append [of "[]"] rm_serialize_u64_def rm_serialize_u16_def)
next
  fix m :: rm_msg_push_ack and rest
  have "rm_serialize_msg_push_ack [] m = rm_serialize_msg_hdr [] (a_hdr m) @
      rm_serialize_u16 [] (a_delta_port m) @ rm_serialize_u64 [] (a_ch_ch_n m)"
    by (simp add: rm_serialize_msg_push_ack_def rm_serialize_u64_def rm_serialize_u16_def)
  then show "rm_deserialize_msg_push_ack (rm_serialize_msg_push_ack [] m @ rest) = Some (m, rest)"
    by (simp add: rm_deserialize_msg_push_ack_def hdr.deser_ser u16.deser_ser u64.deser_ser)
qed

lemma length_rm_serialize_u16 [simp]: "length (rm_serialize_u16 [] v) = 2"
  by (simp add: rm_serialize_u16_def)

lemma length_rm_serialize_u64 [simp]: "length (rm_serialize_u64 [] v) = 8"
  by (simp add: rm_serialize_u64_def)

lemma length_ser_name:
  assumes "name_valid v"
  shows "length (ser_name [] v) = 2 + unat (fst v)"
proof -
  obtain t where "snd v = t @ replicate (RM_FILE_LEN_MAX - length t) 0" "unat (fst v) \<le> RM_FILE_LEN_MAX"
    using assms by (auto simp: name_valid_def)
  then have "unat (fst v) \<le> length (snd v)" by simp
  then show ?thesis by (simp add: ser_name_valid [OF assms])
qed

lemma calc_msg_len_ack [simp]:
  "h_pt hdr = 1 \<Longrightarrow> rm_calc_msg_len (Arg_Hdr hdr) = Some 18"
  "h_pt hdr = 4 \<Longrightarrow> rm_calc_msg_len (Arg_Hdr hdr) = Some 8"
  using rm_pt_of_code [of RM_PT_MSG_PUSH_ACK] rm_pt_of_code [of RM_PT_MSG_ACK]
  by (simp_all add: rm_calc_msg_len_def RM_MSG_HDR_LEN_def)

lemma length_msg_push:
  assumes "push_valid m"
  shows "length (rm_serialize_msg_push [] m) = 48 + unat (p_x_sz m) + unat (p_y_sz m) + unat (p_z_sz m)"
  using assms by (simp add: rm_serialize_msg_push_def rm_serialize_msg_push_body_append [OF assms] push_valid_def
      length_ser_name RM_MSG_HDR_LEN_def)

lemma calc_msg_len_push:
  assumes "push_valid m"
  shows "\<exists>len. rm_calc_msg_len (Arg_Push p m) = Some len \<and>
    (if ptr_byte p 4 = rm_pt_code RM_PT_MSG_PUSH then unat len = length (rm_serialize_msg_push [] m) else unat len \<le> 18)"
proof (cases "ptr_byte p 4 = rm_pt_code RM_PT_MSG_PUSH")
  case True
  let ?x = "unat (p_x_sz m)" and ?y = "unat (p_y_sz m)" and ?z = "unat (p_z_sz m)"
  from assms have "name_valid (p_x_sz m, p_x m)" "name_valid (p_y_sz m, p_y m)" "name_valid (p_z_sz m, p_z m)"
    by (simp_all add: push_valid_def)
  then have sz: "?x \<le> 1000" "?y \<le> 1000" "?z \<le> 1000"
    by (simp_all add: name_valid_def RM_FILE_LEN_MAX_def)
  have "rm_pt_of_code (ptr_byte p 4) = Some RM_PT_MSG_PUSH"
    unfolding True by (rule rm_pt_of_code)
  then have "rm_calc_msg_len (Arg_Push p m) = Some (of_nat (48 + ?x + ?y + ?z))"
    by (simp add: rm_calc_msg_len_def calc_name_len_def Let_def RM_MSG_HDR_LEN_def word_gt_0)
  moreover have "unat (of_nat (48 + ?x + ?y + ?z) :: u16) = 48 + ?x + ?y + ?z"
    using sz by (subst unsigned_of_nat) (simp add: take_bit_nat_eq_self)
  ultimately show ?thesis using True length_msg_push [OF assms] by simp
next
  case False
  then have "rm_pt_of_code (ptr_byte p 4) \<noteq> Some RM_PT_MSG_PUSH"
    by (auto simp: rm_pt_of_code_def find_Some_iff split: if_splits)
  with False show ?thesis
    by (auto simp: rm_calc_msg_len_def RM_MSG_HDR_LEN_def split: option.split rm_pt_type.split)
qed

text \<open>Nothing checks the length of a body before its fields are read.\<close>

lemma push_body_short:
  assumes "length body < 26"
  shows "rm_deserialize_msg_push_body hdr body = None"
proof (cases "16 \<le> length body")
  case True
  have "rm_deserialize_u64 b = None" if "length b < 8" for b
    using that by (cases b rule: rm_deserialize_u64.cases) auto
  moreover have "rm_deserialize_u16 b = None" if "length b < 2" for b
    using that by (cases b rule: rm_deserialize_u16.cases) auto
  moreover have "length r + 8 = length b" if "rm_deserialize_u64 b = Some (v, r)" for b v r
    using that by (cases b rule: rm_deserialize_u64.cases) auto
  ultimately show ?thesis
    using True assms
    by (cases "rm_deserialize_u64 (drop 16 body)")
      (fastforce simp: rm_deserialize_msg_push_body_def rm_deserialize_mem_def bind_eq_None_conv)+
qed (simp add: rm_deserialize_msg_push_body_def rm_deserialize_mem_def)

section \<open>Properties\<close>

text \<open>
  C21. A push request survives the wire: what the receiver deserializes from the bytes the transmitter
  wrote, wherever they start in its buffer and whatever follows, is the same header and the same
  message, empty optional names included, and nothing of what follows is consumed.
\<close>
theorem push_message_roundtrip:
  assumes "push_valid m"
  shows "\<exists>body. rm_deserialize_msg_hdr (drop (length buf) (rm_serialize_msg_push buf m @ rest)) =
      Some (p_hdr m, body) \<and>
    rm_deserialize_msg_push_body (p_hdr m) body = Some (m, rest) \<and>
    rm_deserialize_msg True RM_PT_MSG_PUSH (p_hdr m) body = Some (Some m)"
proof -
  let ?body = "rm_serialize_msg_push_body [] m @ rest"
  have "rm_serialize_msg_push buf m = buf @ rm_serialize_msg_hdr [] (p_hdr m) @ rm_serialize_msg_push_body [] m"
    using hdr.ser_append [of buf "p_hdr m"]
    by (simp add: rm_serialize_msg_push_def rm_serialize_msg_push_body_append [OF assms])
  then have "rm_deserialize_msg_hdr (drop (length buf) (rm_serialize_msg_push buf m @ rest)) =
      Some (p_hdr m, ?body)"
    by (simp add: hdr.deser_ser)
  then show ?thesis
    using rm_deserialize_msg_push_body_ser [OF assms, of rest] by (auto simp: rm_deserialize_msg_def)
qed

text \<open>A request with the names \<open>a\<close> and \<open>b\<close> and no \<open>@z\<close>.\<close>

definition sample_push :: rm_msg_push where
  "sample_push = \<lparr>p_hdr = \<lparr>h_hash = 7, h_pt = 0, h_flags = 16, h_len = 50\<rparr>, p_ssid = replicate 16 1,
     p_L = 512, p_x_sz = 2, p_x = 97 # replicate 999 0, p_y_sz = 2, p_y = 98 # replicate 999 0,
     p_z_sz = 0, p_z = replicate 1000 0, p_ch_ch_port = 0, p_bytes = 3\<rparr>"

lemma push_valid_sample: "push_valid sample_push"
proof -
  have "name_valid (2, b # replicate 999 0)" if "b \<noteq> 0" for b
    using that unfolding name_valid_def RM_FILE_LEN_MAX_def
    by (intro conjI exI [of _ "[b]"]) auto
  moreover have "name_valid (0, replicate 1000 0)"
    by (auto simp: name_valid_def RM_FILE_LEN_MAX_def)
  ultimately show ?thesis by (simp add: push_valid_def sample_push_def)
qed

theorem push_message_roundtrip_witness:
  "rm_deserialize_msg True RM_PT_MSG_PUSH (p_hdr sample_push)
     (drop RM_MSG_HDR_LEN (rm_serialize_msg_push [] sample_push)) = Some (Some sample_push)"
proof -
  obtain body where b: "rm_deserialize_msg_hdr (rm_serialize_msg_push [] sample_push) =
        Some (p_hdr sample_push, body)"
      "rm_deserialize_msg True RM_PT_MSG_PUSH (p_hdr sample_push) body = Some (Some sample_push)"
    using push_message_roundtrip [OF push_valid_sample, of "[]" "[]"] by auto
  have "rm_serialize_msg_push [] sample_push = rm_serialize_msg_hdr [] (p_hdr sample_push) @
      drop RM_MSG_HDR_LEN (rm_serialize_msg_push [] sample_push)"
    by (simp add: rm_serialize_msg_push_def rm_serialize_msg_push_body_append [OF push_valid_sample])
  with b show ?thesis
    using hdr.deser_ser [of "p_hdr sample_push" "drop RM_MSG_HDR_LEN (rm_serialize_msg_push [] sample_push)"]
    by simp
qed

text \<open>
  The length the transmitter puts into the header is the number of bytes it then writes exactly when the
  byte 4 of the address of the header is 0, as it is for a heap below 4 gigabytes: then the 16 bit sum
  does not wrap for any request whose names fit their fields. Otherwise the length is that of
  another type of message, 18 at most.
\<close>
theorem msg_len_is_bytes_written:
  assumes "push_valid m"
  shows "\<exists>len. rm_calc_msg_len (Arg_Push p m) = Some len \<and>
    (unat len = length (rm_serialize_msg_push [] m) \<longleftrightarrow> ptr_byte p 4 = rm_pt_code RM_PT_MSG_PUSH) \<and>
    (p < 2 ^ 32 \<longrightarrow> unat len = length (rm_serialize_msg_push [] m))"
proof -
  obtain len where len: "rm_calc_msg_len (Arg_Push p m) = Some len"
      "if ptr_byte p 4 = rm_pt_code RM_PT_MSG_PUSH then unat len = length (rm_serialize_msg_push [] m) else unat len \<le> 18"
    using calc_msg_len_push [OF assms] by blast
  moreover have "ptr_byte p 4 = rm_pt_code RM_PT_MSG_PUSH" if "p < 2 ^ 32"
  proof -
    have "unat p < 2 ^ 32" using that by (simp add: word_less_nat_alt)
    then have "unat (drop_bit 32 p) = 0" by (simp add: drop_bit_eq_div unat_div)
    then show ?thesis by (simp add: ptr_byte_def unat_eq_zero)
  qed
  ultimately show ?thesis using length_msg_push [OF assms] by (auto split: if_splits)
qed

theorem msg_len_is_bytes_written_witness:
  "\<exists>len len'. rm_calc_msg_len (Arg_Push 0x602010 sample_push) = Some len \<and>
     unat len = length (rm_serialize_msg_push [] sample_push) \<and>
     rm_calc_msg_len (Arg_Push 0x5581deadbe10 sample_push) = Some len' \<and>
     unat len' \<noteq> length (rm_serialize_msg_push [] sample_push)"
proof -
  have "ptr_byte 0x602010 4 = 0" "ptr_byte 0x5581deadbe10 4 = 0x81" by (simp_all add: ptr_byte_def)
  with msg_len_is_bytes_written [where m = sample_push and p = "0x602010", OF push_valid_sample]
    msg_len_is_bytes_written [where m = sample_push and p = "0x5581deadbe10", OF push_valid_sample]
  show ?thesis by auto
qed

text \<open>
  The acknowledgement of a push request survives the wire, and so does the error code its flags
  carry: every error of the program fits into the 8 bits of the field.
\<close>
theorem push_ack_roundtrip:
  "rm_deserialize_msg_push_ack (drop (length buf) (rm_serialize_msg_push_ack buf m @ rest)) = Some (m, rest) \<and>
   rm_error_of_code (unat (of_nat (rm_error_code e) :: u8)) = Some e"
proof -
  have "unat (of_nat (rm_error_code e) :: u8) = rm_error_code e"
    using rm_error_code_bound [of e] by (subst unsigned_of_nat) (simp add: take_bit_nat_eq_self)
  then show ?thesis using push_ack.deser_at [of buf m rest] by (simp only: rm_error_of_code simp_thms)
qed

end
