(* ===== verification/RM_Tcp.thy ===== *)
theory RM_Tcp
  imports RM_Serialize
begin

text \<open>
  Transfers over a connected socket, \<^verbatim>\<open>src/rm_tcp.c\<close>. The kernel may deliver and accept any number
  of bytes at a time, interrupt a call or fail: the socket carries the bytes the peer sends, whether
  the peer closes the connection after them, and the events the successive calls meet. A call that
  waits for bytes that never come is the outcome \<open>None\<close>.
\<close>

section \<open>Sockets\<close>

datatype io_event = IO_Chunk nat | IO_Intr | IO_Err

record sock =
  sk_in :: bytes
  sk_closed :: bool
  sk_rev :: "io_event list"
  sk_out :: bytes
  sk_wev :: "io_event list"

datatype read_res = Read_Data bytes | Read_Eof | Read_Intr | Read_Err | Read_Block

text \<open>
  \<open>read(fd, buf, n)\<close> for positive \<open>n\<close>: at least one byte when there is one. Without further events
  a call takes all it asked for, as far as there is.
\<close>

definition sock_take :: "nat \<Rightarrow> nat \<Rightarrow> sock \<Rightarrow> read_res \<times> sock" where
  "sock_take k n s =
     (if sk_in s = [] then (if sk_closed s then Read_Eof else Read_Block, s)
      else let c = min (max 1 k) n
           in (Read_Data (take c (sk_in s)), s\<lparr>sk_in := drop c (sk_in s), sk_rev := tl (sk_rev s)\<rparr>))"

definition sock_read :: "nat \<Rightarrow> sock \<Rightarrow> read_res \<times> sock" where
  "sock_read n s =
     (case sk_rev s of
        [] \<Rightarrow> sock_take n n s
      | IO_Chunk k # _ \<Rightarrow> sock_take k n s
      | IO_Intr # es \<Rightarrow> (Read_Intr, s\<lparr>sk_rev := es\<rparr>)
      | IO_Err # es \<Rightarrow> (Read_Err, s\<lparr>sk_rev := es\<rparr>))"

datatype write_res = Write_N nat | Write_Intr | Write_Err

definition sock_write :: "bytes \<Rightarrow> sock \<Rightarrow> write_res \<times> sock" where
  "sock_write src s =
     (case sk_wev s of
        [] \<Rightarrow> (Write_N (length src), s\<lparr>sk_out := sk_out s @ src\<rparr>)
      | IO_Chunk k # es \<Rightarrow>
          let d = take k src in (Write_N (length d), s\<lparr>sk_out := sk_out s @ d, sk_wev := es\<rparr>)
      | IO_Intr # es \<Rightarrow> (Write_Intr, s\<lparr>sk_wev := es\<rparr>)
      | IO_Err # es \<Rightarrow> (Write_Err, s\<lparr>sk_wev := es\<rparr>))"

lemma sock_read_data:
  assumes "sock_read n s = (Read_Data d, s')" and "0 < n"
  shows "d \<noteq> []" "length d \<le> n" "length (sk_rev s') \<le> length (sk_rev s)" "sk_in s = d @ sk_in s'"
    "sk_closed s' = sk_closed s" "sk_out s' = sk_out s" "sk_wev s' = sk_wev s"
    "set (sk_rev s') \<subseteq> set (sk_rev s)"
  using assms
  by (auto simp: sock_read_def sock_take_def Let_def split: list.splits io_event.splits if_splits
      dest: list.set_sel)

lemma sock_read_intr:
  "sock_read n s = (Read_Intr, s') \<Longrightarrow>
     \<exists>es. sk_rev s = IO_Intr # es \<and> s' = s\<lparr>sk_rev := es\<rparr>"
  by (auto simp: sock_read_def sock_take_def Let_def split: list.splits io_event.splits if_splits)

section \<open>The transfer loops\<close>

function tcp_rx_loop :: "nat \<Rightarrow> bytes \<Rightarrow> sock \<Rightarrow> (rm_error \<times> bytes \<times> sock) option" where
  "tcp_rx_loop left dst s =
     (if left = 0 then Some (RM_ERR_OK, dst, s)
      else case sock_read left s of
        (Read_Intr, s') \<Rightarrow> tcp_rx_loop left dst s'
      | (Read_Eof, s') \<Rightarrow> Some (RM_ERR_EOF, dst, s')
      | (Read_Err, s') \<Rightarrow> Some (RM_ERR_READ, dst, s')
      | (Read_Block, s') \<Rightarrow> None
      | (Read_Data d, s') \<Rightarrow> tcp_rx_loop (left - length d) (dst @ d) s')"
  by pat_completeness auto
termination
proof (relation "measure (\<lambda>(left, dst, s). left + length (sk_rev s))", goal_cases)
  case (2 left dst s x s' d)
  then have "sock_read left s = (Read_Data d, s')" "0 < left" by auto
  from sock_read_data(1-3) [OF this] show ?case by (cases d) auto
next
  case (3 left dst s x s')
  then show ?case by (auto dest!: sock_read_intr [OF sym])
qed simp

declare tcp_rx_loop.simps [simp del]

text \<open>The result is the error, what was stored at \<open>dst\<close>, and the socket.\<close>

definition rm_tcp_rx :: "sock \<Rightarrow> nat \<Rightarrow> (rm_error \<times> bytes \<times> sock) option" where
  "rm_tcp_rx s bytes_n = (if bytes_n = 0 then Some (RM_ERR_OK, [], s) else tcp_rx_loop bytes_n [] s)"

lemma sock_write_ev:
  "sock_write src s = (r, s') \<Longrightarrow> sk_wev s \<noteq> [] \<Longrightarrow> length (sk_wev s') < length (sk_wev s)"
  by (auto simp: sock_write_def Let_def split: list.splits io_event.splits)

lemma sock_write_all:
  "sock_write src s = (r, s') \<Longrightarrow> sk_wev s = [] \<Longrightarrow>
     r = Write_N (length src) \<and> s' = s\<lparr>sk_out := sk_out s @ src\<rparr>"
  by (auto simp: sock_write_def)

function tcp_tx_loop :: "bytes \<Rightarrow> sock \<Rightarrow> rm_error \<times> sock" where
  "tcp_tx_loop src s =
     (if src = [] then (RM_ERR_OK, s)
      else case sock_write src s of
        (Write_Intr, s') \<Rightarrow> tcp_tx_loop src s'
      | (Write_Err, s') \<Rightarrow> (RM_ERR_WRITE, s')
      | (Write_N n, s') \<Rightarrow> tcp_tx_loop (drop n src) s')"
  by pat_completeness auto
termination
proof (relation "measures [\<lambda>(src, s). length (sk_wev s), \<lambda>(src, s). length src]", goal_cases)
  case (2 src s x s' n)
  then have w: "sock_write src s = (Write_N n, s')" by simp
  show ?case
  proof (cases "sk_wev s = []")
    case True
    with sock_write_all [OF w True] 2(1) show ?thesis by simp
  next
    case False
    with sock_write_ev [OF w False] show ?thesis by simp
  qed
next
  case (3 src s x s')
  then have w: "sock_write src s = (Write_Intr, s')" by simp
  then have "sk_wev s \<noteq> []" by (auto simp: sock_write_def)
  with sock_write_ev [OF w] show ?case by simp
qed simp

declare tcp_tx_loop.simps [simp del]

definition rm_tcp_tx :: "sock \<Rightarrow> bytes \<Rightarrow> rm_error \<times> sock" where
  "rm_tcp_tx s src = tcp_tx_loop src s"

text \<open>\<open>rm_tcp_read\<close> and \<open>rm_tcp_write\<close> treat an interrupted call as a failure.\<close>

function rm_tcp_read :: "sock \<Rightarrow> bytes \<Rightarrow> nat \<Rightarrow> (rm_error \<times> bytes \<times> sock) option" where
  "rm_tcp_read s dst bytes_n =
     (if bytes_n = 0 then Some (RM_ERR_OK, dst, s)
      else case sock_read bytes_n s of
        (Read_Eof, s') \<Rightarrow> Some (RM_ERR_EOF, dst, s')
      | (Read_Intr, s') \<Rightarrow> Some (RM_ERR_READ, dst, s')
      | (Read_Err, s') \<Rightarrow> Some (RM_ERR_READ, dst, s')
      | (Read_Block, s') \<Rightarrow> None
      | (Read_Data d, s') \<Rightarrow> rm_tcp_read s' (dst @ d) (bytes_n - length d))"
  by pat_completeness auto
termination
proof (relation "measure (\<lambda>(s, dst, n). n)", goal_cases)
  case (2 s dst n x s' d)
  then have "sock_read n s = (Read_Data d, s')" "0 < n" by auto
  from sock_read_data(1,2) [OF this] show ?case by (cases d) auto
qed simp

declare rm_tcp_read.simps [simp del]

function rm_tcp_write :: "sock \<Rightarrow> bytes \<Rightarrow> rm_error \<times> sock" where
  "rm_tcp_write s src =
     (if src = [] then (RM_ERR_OK, s)
      else case sock_write src s of
        (Write_Intr, s') \<Rightarrow> (RM_ERR_WRITE, s')
      | (Write_Err, s') \<Rightarrow> (RM_ERR_WRITE, s')
      | (Write_N n, s') \<Rightarrow> rm_tcp_write s' (drop n src))"
  by pat_completeness auto
termination
proof (relation "measures [\<lambda>(s, src). length (sk_wev s), \<lambda>(s, src). length src]", goal_cases)
  case (2 s src x s' n)
  then have w: "sock_write src s = (Write_N n, s')" by simp
  show ?case
  proof (cases "sk_wev s = []")
    case True
    with sock_write_all [OF w True] 2(1) show ?thesis by simp
  next
    case False
    with sock_write_ev [OF w False] show ?thesis by simp
  qed
qed simp

declare rm_tcp_write.simps [simp del]

section \<open>Transmitting checksums\<close>

definition RM_CH_CH_WIRE :: "rm_ch_ch_ref \<Rightarrow> bytes" where
  "RM_CH_CH_WIRE e = rm_serialize_u32 [] (f_ch e) @ s_ch e"

definition rm_tcp_tx_ch_ch :: "sock \<Rightarrow> rm_ch_ch_ref \<Rightarrow> int \<times> sock" where
  "rm_tcp_tx_ch_ch s e =
     (let buf = rm_serialize_u32 [] (f_ch e); buf = rm_serialize_mem buf (Some (s_ch e)) RM_STRONG_CHECK_BYTES;
          (err, s') = rm_tcp_tx s (take RM_CH_CH_SIZE buf)
      in (if err \<noteq> RM_ERR_OK then - 1 else 0, s'))"

definition rm_tcp_tx_ch_ch_ref :: "sock \<Rightarrow> rm_ch_ch_ref \<Rightarrow> int \<times> sock" where
  "rm_tcp_tx_ch_ch_ref s e =
     (let buf = rm_serialize_u32 [] (f_ch e); buf = rm_serialize_mem buf (Some (s_ch e)) RM_STRONG_CHECK_BYTES;
          buf = rm_serialize_size_t buf (of_nat (ch_ref e));
          (err, s') = rm_tcp_tx s (take RM_CH_CH_REF_SIZE buf)
      in (if err \<noteq> RM_ERR_OK then - 1 else 0, s'))"

section \<open>Lemmas on the loops\<close>

lemma sock_read_cases:
  assumes "IO_Err \<notin> set (sk_rev s)" and "0 < n"
  obtains (intr) es where "sk_rev s = IO_Intr # es" "sock_read n s = (Read_Intr, s\<lparr>sk_rev := es\<rparr>)"
  | (empty) "sk_in s = []" "sock_read n s = (if sk_closed s then Read_Eof else Read_Block, s)"
  | (data) d s' where "sock_read n s = (Read_Data d, s')"
  using assms by (cases "sk_rev s"; cases "hd (sk_rev s)"; cases "sk_in s = []")
    (auto simp: sock_read_def sock_take_def Let_def)

text \<open>What the loop delivers when the bytes are there, and when they are not.\<close>

lemma tcp_rx_loop_ok:
  "IO_Err \<notin> set (sk_rev s) \<Longrightarrow> n \<le> length (sk_in s) \<Longrightarrow>
   \<exists>s'. tcp_rx_loop n dst s = Some (RM_ERR_OK, dst @ take n (sk_in s), s') \<and>
     sk_in s' = drop n (sk_in s) \<and> IO_Err \<notin> set (sk_rev s') \<and> sk_closed s' = sk_closed s \<and>
     sk_out s' = sk_out s \<and> sk_wev s' = sk_wev s"
proof (induction n dst s rule: tcp_rx_loop.induct)
  case (1 n dst s)
  show ?case
  proof (cases "n = 0")
    case True
    with 1 show ?thesis by (simp add: tcp_rx_loop.simps)
  next
    case False
    then have "0 < n" by simp
    from "1.prems"(1) this show ?thesis
    proof (cases rule: sock_read_cases)
      case (intr es)
      then have "tcp_rx_loop n dst s = tcp_rx_loop n dst (s\<lparr>sk_rev := es\<rparr>)"
        using False by (subst tcp_rx_loop.simps) simp
      with "1.IH"(2) [OF False intr(2) [symmetric] refl] "1.prems" intr(1) show ?thesis by simp
    next
      case empty
      with "1.prems" False show ?thesis by simp
    next
      case (data d s')
      note d = sock_read_data [OF data \<open>0 < n\<close>]
      from data have "tcp_rx_loop n dst s = tcp_rx_loop (n - length d) (dst @ d) s'"
        using False by (subst tcp_rx_loop.simps) simp
      moreover have "IO_Err \<notin> set (sk_rev s')" "n - length d \<le> length (sk_in s')"
        using d(4,8) "1.prems" by auto
      ultimately show ?thesis
        using "1.IH"(1) [OF False data [symmetric] refl] d by simp
    qed
  qed
qed

lemma tcp_rx_loop_short:
  "IO_Err \<notin> set (sk_rev s) \<Longrightarrow> length (sk_in s) < n \<Longrightarrow>
   (if sk_closed s then \<exists>s'. tcp_rx_loop n dst s = Some (RM_ERR_EOF, dst @ sk_in s, s')
    else tcp_rx_loop n dst s = None)"
proof (induction n dst s rule: tcp_rx_loop.induct)
  case (1 n dst s)
  then have "n \<noteq> 0" "0 < n" by auto
  from "1.prems"(1) this(2) show ?case
  proof (cases rule: sock_read_cases)
    case (intr es)
    then have "tcp_rx_loop n dst s = tcp_rx_loop n dst (s\<lparr>sk_rev := es\<rparr>)"
      using \<open>n \<noteq> 0\<close> by (subst tcp_rx_loop.simps) simp
    with "1.IH"(2) [OF \<open>n \<noteq> 0\<close> intr(2) [symmetric] refl] "1.prems" intr(1) show ?thesis
      by (auto split: if_splits)
  next
    case empty
    with \<open>n \<noteq> 0\<close> show ?thesis by (subst (1 2) tcp_rx_loop.simps) simp
  next
    case (data d s')
    note d = sock_read_data [OF data \<open>0 < n\<close>]
    from data have "tcp_rx_loop n dst s = tcp_rx_loop (n - length d) (dst @ d) s'"
      using \<open>n \<noteq> 0\<close> by (subst tcp_rx_loop.simps) simp
    moreover have "length (sk_in s') < n - length d" "IO_Err \<notin> set (sk_rev s')"
      using "1.prems" d(4,8) by auto
    ultimately show ?thesis
      using "1.IH"(1) [OF \<open>n \<noteq> 0\<close> data [symmetric] refl] d(4,5)
      by (auto split: if_splits)
  qed
qed

text \<open>Success always means that the bytes asked for were taken off the stream.\<close>

lemma tcp_rx_loop_sound:
  "tcp_rx_loop n dst s = Some (RM_ERR_OK, d, s') \<Longrightarrow>
     \<exists>a. d = dst @ a \<and> length a = n \<and> sk_in s = a @ sk_in s'"
proof (induction n dst s rule: tcp_rx_loop.induct)
  case (1 n dst s)
  show ?case
  proof (cases "n = 0")
    case True
    with "1.prems" show ?thesis by (simp add: tcp_rx_loop.simps)
  next
    case False
    then have "0 < n" by simp
    obtain r s1 where r: "sock_read n s = (r, s1)" by (metis surj_pair)
    show ?thesis
    proof (cases r)
      case (Read_Data b)
      note b = sock_read_data [OF r [unfolded Read_Data] \<open>0 < n\<close>]
      from "1.prems" False r Read_Data have "tcp_rx_loop (n - length b) (dst @ b) s1 = Some (RM_ERR_OK, d, s')"
        by (simp add: tcp_rx_loop.simps [of n])
      from "1.IH"(1) [OF False r [symmetric] Read_Data this] obtain a where
        "d = dst @ b @ a" "length a = n - length b" "sk_in s1 = a @ sk_in s'" by auto
      with b show ?thesis by auto
    next
      case Read_Intr
      with "1.prems" False r have "tcp_rx_loop n dst s1 = Some (RM_ERR_OK, d, s')"
        by (simp add: tcp_rx_loop.simps [of n dst s])
      moreover have "sk_in s1 = sk_in s" using sock_read_intr [OF r [unfolded Read_Intr]] by auto
      ultimately show ?thesis using "1.IH"(2) [OF False r [symmetric] Read_Intr] by simp
    qed (use "1.prems" False r in \<open>simp_all add: tcp_rx_loop.simps [of n]\<close>)
  qed
qed

lemma rm_tcp_rx_sound:
  "rm_tcp_rx s n = Some (RM_ERR_OK, d, s') \<Longrightarrow> length d = n \<and> sk_in s = d @ sk_in s'"
  using tcp_rx_loop_sound [of n "[]" s d s'] by (auto simp: rm_tcp_rx_def split: if_splits)

lemma rm_tcp_read_ok:
  "set (sk_rev s) \<inter> {IO_Err, IO_Intr} = {} \<Longrightarrow> n \<le> length (sk_in s) \<Longrightarrow>
   \<exists>s'. rm_tcp_read s dst n = Some (RM_ERR_OK, dst @ take n (sk_in s), s') \<and>
     sk_in s' = drop n (sk_in s) \<and> set (sk_rev s') \<inter> {IO_Err, IO_Intr} = {} \<and>
     sk_closed s' = sk_closed s \<and> sk_out s' = sk_out s \<and> sk_wev s' = sk_wev s"
proof (induction s dst n rule: rm_tcp_read.induct)
  case (1 s dst n)
  show ?case
  proof (cases "n = 0")
    case True
    with 1 show ?thesis by (simp add: rm_tcp_read.simps)
  next
    case False
    then have "0 < n" by simp
    have "IO_Err \<notin> set (sk_rev s)" using "1.prems"(1) by auto
    from this \<open>0 < n\<close> show ?thesis
    proof (cases rule: sock_read_cases)
      case (intr es)
      with "1.prems" show ?thesis by simp
    next
      case empty
      with "1.prems" False show ?thesis by simp
    next
      case (data d s')
      note d = sock_read_data [OF data \<open>0 < n\<close>]
      from data have "rm_tcp_read s dst n = rm_tcp_read s' (dst @ d) (n - length d)"
        using False by (subst rm_tcp_read.simps) simp
      moreover have "set (sk_rev s') \<inter> {IO_Err, IO_Intr} = {}" "n - length d \<le> length (sk_in s')"
        using d(4,8) "1.prems" by auto
      ultimately show ?thesis
        using "1.IH" [OF False data [symmetric] refl] d by simp
    qed
  qed
qed

lemma rm_tcp_read_short:
  "set (sk_rev s) \<inter> {IO_Err, IO_Intr} = {} \<Longrightarrow> length (sk_in s) < n \<Longrightarrow>
   (if sk_closed s then \<exists>s'. rm_tcp_read s dst n = Some (RM_ERR_EOF, dst @ sk_in s, s')
    else rm_tcp_read s dst n = None)"
proof (induction s dst n rule: rm_tcp_read.induct)
  case (1 s dst n)
  then have "n \<noteq> 0" "0 < n" "IO_Err \<notin> set (sk_rev s)" by auto
  from this(3,2) show ?case
  proof (cases rule: sock_read_cases)
    case (intr es)
    with "1.prems" show ?thesis by simp
  next
    case empty
    with \<open>n \<noteq> 0\<close> show ?thesis by (subst (1 2) rm_tcp_read.simps) simp
  next
    case (data d s')
    note d = sock_read_data [OF data \<open>0 < n\<close>]
    from data have "rm_tcp_read s dst n = rm_tcp_read s' (dst @ d) (n - length d)"
      using \<open>n \<noteq> 0\<close> by (subst rm_tcp_read.simps) simp
    moreover have "length (sk_in s') < n - length d" "set (sk_rev s') \<inter> {IO_Err, IO_Intr} = {}"
      using "1.prems" d(4,8) by auto
    ultimately show ?thesis
      using "1.IH" [OF \<open>n \<noteq> 0\<close> data [symmetric] refl] d(4,5)
      by (auto split: if_splits)
  qed
qed

text \<open>Whatever happens, what a transmission leaves on the wire is a prefix of the data.\<close>

lemma sock_write_prefix:
  "sock_write src s = (r, s') \<Longrightarrow>
     sk_in s' = sk_in s \<and> sk_closed s' = sk_closed s \<and> sk_rev s' = sk_rev s \<and>
     set (sk_wev s') \<subseteq> set (sk_wev s) \<and>
     sk_out s' = sk_out s @ (case r of Write_N n \<Rightarrow> take n src | _ \<Rightarrow> []) \<and>
     (r = Write_Err \<longrightarrow> IO_Err \<in> set (sk_wev s))"
  by (auto simp: sock_write_def Let_def min_def split: list.splits io_event.splits)

lemma tcp_tx_loop_prefix:
  "tcp_tx_loop src s = (e, s') \<Longrightarrow>
     sk_in s' = sk_in s \<and> sk_closed s' = sk_closed s \<and> sk_rev s' = sk_rev s \<and>
     set (sk_wev s') \<subseteq> set (sk_wev s) \<and>
     (\<exists>k. sk_out s' = sk_out s @ take k src \<and> (e = RM_ERR_OK \<longrightarrow> length src \<le> k)) \<and>
     (e = RM_ERR_OK \<or> e = RM_ERR_WRITE \<and> IO_Err \<in> set (sk_wev s))"
proof (induction src s rule: tcp_tx_loop.induct)
  case (1 src s)
  show ?case
  proof (cases "src = []")
    case True
    with "1.prems" show ?thesis by (auto simp: tcp_tx_loop.simps)
  next
    case False
    obtain r s1 where w: "sock_write src s = (r, s1)" by (metis surj_pair)
    note p = sock_write_prefix [OF w]
    show ?thesis
    proof (cases r)
      case (Write_N n)
      with "1.prems" False w have "tcp_tx_loop (drop n src) s1 = (e, s')"
        by (simp add: tcp_tx_loop.simps [of src])
      from "1.IH"(1) [OF False w [symmetric] Write_N this] p Write_N obtain k where
        k: "sk_out s' = sk_out s @ take n src @ take k (drop n src)"
          "e = RM_ERR_OK \<longrightarrow> length (drop n src) \<le> k"
        and rest: "sk_in s' = sk_in s \<and> sk_closed s' = sk_closed s \<and> sk_rev s' = sk_rev s \<and>
          set (sk_wev s') \<subseteq> set (sk_wev s) \<and> (e = RM_ERR_OK \<or> e = RM_ERR_WRITE \<and> IO_Err \<in> set (sk_wev s))"
        by auto
      have "take n src @ take k (drop n src) = take (n + k) src" by (simp add: take_add)
      with k rest show ?thesis by (auto intro!: exI [of _ "n + k"])
    next
      case Write_Intr
      with "1.prems" False w have "tcp_tx_loop src s1 = (e, s')"
        by (simp add: tcp_tx_loop.simps [of src])
      from "1.IH"(2) [OF False w [symmetric] Write_Intr this] p Write_Intr show ?thesis by auto
    next
      case Write_Err
      with "1.prems" False w p show ?thesis
        by (auto simp: tcp_tx_loop.simps [of src] intro!: exI [of _ 0])
    qed
  qed
qed

lemma rm_tcp_tx_ok:
  assumes "IO_Err \<notin> set (sk_wev s)"
  shows "\<exists>s'. rm_tcp_tx s src = (RM_ERR_OK, s') \<and> sk_out s' = sk_out s @ src \<and> sk_in s' = sk_in s \<and>
    sk_closed s' = sk_closed s \<and> sk_rev s' = sk_rev s \<and> IO_Err \<notin> set (sk_wev s')"
proof -
  obtain e s' where t: "tcp_tx_loop src s = (e, s')" by (metis surj_pair)
  from tcp_tx_loop_prefix [OF t] assms t show ?thesis by (auto simp: rm_tcp_tx_def)
qed

section \<open>The contract of a receive routine\<close>

text \<open>
  What the protocol code relies on when it asks for \<open>n\<close> bytes: it gets the next \<open>n\<close> bytes of the
  stream, however they are cut into segments; if the stream ends before, it is told so; if it does
  not end, it waits.
\<close>

locale byte_source =
  fixes rx :: "sock \<Rightarrow> nat \<Rightarrow> (rm_error \<times> bytes \<times> sock) option"
    and good :: "sock \<Rightarrow> bool"
  assumes rx_full: "good s \<Longrightarrow> n \<le> length (sk_in s) \<Longrightarrow>
      \<exists>s'. rx s n = Some (RM_ERR_OK, take n (sk_in s), s') \<and> sk_in s' = drop n (sk_in s) \<and> good s' \<and>
        sk_closed s' = sk_closed s \<and> sk_out s' = sk_out s \<and> sk_wev s' = sk_wev s"
    and rx_short: "good s \<Longrightarrow> length (sk_in s) < n \<Longrightarrow> sk_closed s \<Longrightarrow>
      \<exists>s'. rx s n = Some (RM_ERR_EOF, sk_in s, s')"
    and rx_wait: "good s \<Longrightarrow> length (sk_in s) < n \<Longrightarrow> \<not> sk_closed s \<Longrightarrow> rx s n = None"
begin

lemma rx_frame:
  assumes "good s" and "sk_in s = a @ r" and "length a = n"
  shows "\<exists>s'. rx s n = Some (RM_ERR_OK, a, s') \<and> sk_in s' = r \<and> good s' \<and>
    sk_closed s' = sk_closed s \<and> sk_out s' = sk_out s \<and> sk_wev s' = sk_wev s"
  using rx_full [OF assms(1), of n] assms(2,3) by auto

text \<open>The result does not depend on how the stream is cut.\<close>

lemma rx_fragmentation:
  assumes "good s" and "good t" and "sk_in s = sk_in t" and "sk_closed s = sk_closed t"
  shows "map_option (\<lambda>(e, d, _). (e, d)) (rx s n) = map_option (\<lambda>(e, d, _). (e, d)) (rx t n)"
proof (cases "n \<le> length (sk_in s)")
  case True
  with rx_full [OF assms(1), of n] rx_full [OF assms(2), of n] assms(3) show ?thesis by auto
next
  case False
  then have "length (sk_in s) < n" by simp
  with rx_short [OF assms(1), of n] rx_short [OF assms(2), of n] rx_wait [OF assms(1), of n]
    rx_wait [OF assms(2), of n] assms show ?thesis by (cases "sk_closed s") auto
qed

end

definition rx_good :: "sock \<Rightarrow> bool" where
  "rx_good s \<longleftrightarrow> IO_Err \<notin> set (sk_rev s)"

definition read_good :: "sock \<Rightarrow> bool" where
  "read_good s \<longleftrightarrow> set (sk_rev s) \<inter> {IO_Err, IO_Intr} = {}"

interpretation tcp_rx: byte_source rm_tcp_rx rx_good
proof
  fix s n
  assume g: "rx_good s"
  show "\<exists>s'. rm_tcp_rx s n = Some (RM_ERR_OK, take n (sk_in s), s') \<and> sk_in s' = drop n (sk_in s) \<and>
      rx_good s' \<and> sk_closed s' = sk_closed s \<and> sk_out s' = sk_out s \<and> sk_wev s' = sk_wev s"
    if "n \<le> length (sk_in s)"
    using tcp_rx_loop_ok [of s n "[]"] that g by (auto simp: rm_tcp_rx_def rx_good_def)
  show "\<exists>s'. rm_tcp_rx s n = Some (RM_ERR_EOF, sk_in s, s')"
    if "length (sk_in s) < n" "sk_closed s"
    using tcp_rx_loop_short [of s n "[]"] that g by (auto simp: rm_tcp_rx_def rx_good_def)
  show "rm_tcp_rx s n = None" if "length (sk_in s) < n" "\<not> sk_closed s"
    using tcp_rx_loop_short [of s n "[]"] that g by (auto simp: rm_tcp_rx_def rx_good_def)
qed

interpretation tcp_read: byte_source "\<lambda>s n. rm_tcp_read s [] n" read_good
proof
  fix s n
  assume g: "read_good s"
  show "\<exists>s'. rm_tcp_read s [] n = Some (RM_ERR_OK, take n (sk_in s), s') \<and> sk_in s' = drop n (sk_in s) \<and>
      read_good s' \<and> sk_closed s' = sk_closed s \<and> sk_out s' = sk_out s \<and> sk_wev s' = sk_wev s"
    if "n \<le> length (sk_in s)"
    using rm_tcp_read_ok [of s n "[]"] that g by (auto simp: read_good_def)
  show "\<exists>s'. rm_tcp_read s [] n = Some (RM_ERR_EOF, sk_in s, s')"
    if "length (sk_in s) < n" "sk_closed s"
    using rm_tcp_read_short [of s n "[]"] that g by (auto simp: read_good_def)
  show "rm_tcp_read s [] n = None" if "length (sk_in s) < n" "\<not> sk_closed s"
    using rm_tcp_read_short [of s n "[]"] that g by (auto simp: read_good_def)
qed

section \<open>Properties\<close>

text \<open>
  C24. Transfer: whatever sizes the kernel accepts and delivers and however often both sides are
  interrupted, what one side transmits is what the other side receives, byte for byte, and what
  follows in the stream stays there.
\<close>
theorem tcp_delivers:
  assumes "IO_Err \<notin> set (sk_wev t)" and "IO_Err \<notin> set (sk_rev r)"
    and "sk_out t = []" and "sk_in r = sk_out (snd (rm_tcp_tx t src)) @ rest"
  shows "fst (rm_tcp_tx t src) = RM_ERR_OK \<and>
    (\<exists>r'. rm_tcp_rx r (length src) = Some (RM_ERR_OK, src, r') \<and> sk_in r' = rest)"
proof -
  obtain t' where t: "rm_tcp_tx t src = (RM_ERR_OK, t')" "sk_out t' = src"
    using rm_tcp_tx_ok [OF assms(1), of src] assms(3) by auto
  with tcp_rx.rx_frame [of r src rest "length src"] assms(2,4) show ?thesis
    by (auto simp: rx_good_def)
qed

theorem tcp_delivers_witness:
  "\<exists>r'. rm_tcp_rx \<lparr>sk_in = [1, 2, 3, 4], sk_closed = False, sk_rev = [IO_Intr, IO_Chunk 1, IO_Intr],
       sk_out = [], sk_wev = []\<rparr> 3 = Some (RM_ERR_OK, [1, 2, 3], r') \<and> sk_in r' = [4]"
proof -
  let ?t = "\<lparr>sk_in = [], sk_closed = False, sk_rev = [], sk_out = [], sk_wev = [IO_Chunk 2, IO_Intr]\<rparr>"
  have "snd (rm_tcp_tx ?t [1, 2, 3]) = ?t\<lparr>sk_out := [1, 2, 3], sk_wev := []\<rparr>"
    by (simp add: rm_tcp_tx_def tcp_tx_loop.simps sock_write_def)
  then show ?thesis
    using tcp_delivers [of ?t "\<lparr>sk_in = [1, 2, 3, 4], sk_closed = False,
        sk_rev = [IO_Intr, IO_Chunk 1, IO_Intr], sk_out = [], sk_wev = []\<rparr>" "[1, 2, 3]" "[4]"]
    by (simp add: numeral_3_eq_3)
qed

text \<open>
  A failed transmission never garbles the stream: on every sequence of kernel events the bytes
  put on the wire are a prefix of the data, all of it exactly when the call reports success, and the
  only failure is \<open>RM_ERR_WRITE\<close>. A receiver whose peer closes early is told \<open>RM_ERR_EOF\<close>.
\<close>
theorem tcp_failures:
  "(\<exists>k. sk_out (snd (rm_tcp_tx t src)) = sk_out t @ take k src \<and>
      (fst (rm_tcp_tx t src) = RM_ERR_OK \<longrightarrow> length src \<le> k)) \<and>
   fst (rm_tcp_tx t src) \<in> {RM_ERR_OK, RM_ERR_WRITE} \<and>
   (rx_good r \<longrightarrow> sk_closed r \<longrightarrow> length (sk_in r) < n \<longrightarrow>
      (\<exists>r'. rm_tcp_rx r n = Some (RM_ERR_EOF, sk_in r, r')))"
proof -
  obtain e t' where t: "tcp_tx_loop src t = (e, t')" by (metis surj_pair)
  from tcp_tx_loop_prefix [OF t] t have
    "\<exists>k. sk_out (snd (rm_tcp_tx t src)) = sk_out t @ take k src \<and>
      (fst (rm_tcp_tx t src) = RM_ERR_OK \<longrightarrow> length src \<le> k)"
    "fst (rm_tcp_tx t src) \<in> {RM_ERR_OK, RM_ERR_WRITE}"
    by (auto simp: rm_tcp_tx_def)
  then show ?thesis using tcp_rx.rx_short [of r n] by auto
qed

theorem tcp_failures_witness:
  "\<exists>r'. rm_tcp_rx \<lparr>sk_in = [1], sk_closed = True, sk_rev = [], sk_out = [], sk_wev = []\<rparr> 2 =
     Some (RM_ERR_EOF, [1], r')"
  using tcp_failures [of "\<lparr>sk_in = [], sk_closed = False, sk_rev = [], sk_out = [], sk_wev = []\<rparr>" "[]"
      "\<lparr>sk_in = [1], sk_closed = True, sk_rev = [], sk_out = [], sk_wev = []\<rparr>" 2]
  by (simp add: rx_good_def numeral_2_eq_2)

end
