(* ===== verification/RM_Core.thy ===== *)
theory RM_Core
  imports RM_Tcp RM_File
begin

text \<open>
  The checks on incoming messages, the acknowledgement messages and the table of sessions:
  \<^verbatim>\<open>src/rm_core.c\<close> and \<open>rm_tcp_tx_msg_ack\<close> of \<^verbatim>\<open>src/rm_tcp.c\<close>. The hash function \<open>twhash_32\<close> and
  the hash table of sessions belong to the twlist submodule and are parameters.
\<close>

section \<open>Headers\<close>

type_synonym twhash_32 = "u32 \<Rightarrow> nat \<Rightarrow> u32"

definition RM_CORE_HASH_CHALLENGE_BITS :: nat where "RM_CORE_HASH_CHALLENGE_BITS = 32"

definition hdr_challenge :: "u8 \<Rightarrow> u8 \<Rightarrow> u16 \<Rightarrow> u32" where
  "hdr_challenge pt flags len =
     push_bit 24 (ucast pt) OR push_bit 16 (ucast flags) OR ucast len"

definition rm_core_hdr_hash :: "twhash_32 \<Rightarrow> rm_msg_hdr \<Rightarrow> u32" where
  "rm_core_hdr_hash th hdr =
     th (hdr_challenge (h_pt hdr) (h_flags hdr) (h_len hdr)) RM_CORE_HASH_CHALLENGE_BITS"

definition rm_core_validate_hash :: "twhash_32 \<Rightarrow> bytes \<Rightarrow> rm_error" where
  "rm_core_validate_hash th buf =
     (let hash = rm_get_msg_hdr_hash buf; pt = rm_get_msg_hdr_pt buf;
          flags = rm_get_msg_hdr_flags buf; len = rm_get_msg_hdr_len buf;
          challenge = th (hdr_challenge pt flags len) RM_CORE_HASH_CHALLENGE_BITS
      in if hash \<noteq> challenge then RM_ERR_FAIL else RM_ERR_OK)"

definition rm_core_tcp_msg_valid_pt :: "bytes \<Rightarrow> rm_error" where
  "rm_core_tcp_msg_valid_pt buf =
     (let pt = rm_get_msg_hdr_pt buf in
      if pt = rm_pt_code RM_PT_MSG_PUSH \<or> pt = rm_pt_code RM_PT_MSG_PUSH_ACK \<or>
         pt = rm_pt_code RM_PT_MSG_PULL \<or> pt = rm_pt_code RM_PT_MSG_PULL_ACK \<or>
         pt = rm_pt_code RM_PT_MSG_BYE
      then RM_ERR_OK else RM_ERR_FAIL)"

text \<open>The number of bytes read is a signed number that is compared as a \<open>size_t\<close>.\<close>

definition rm_core_tcp_msg_hdr_validate :: "twhash_32 \<Rightarrow> bytes \<Rightarrow> int \<Rightarrow> rm_error" where
  "rm_core_tcp_msg_hdr_validate th buf read_n =
     (if nat (read_n mod 2 ^ 64) < RM_MSG_HDR_LEN then RM_ERR_FAIL
      else if rm_core_validate_hash th buf \<noteq> RM_ERR_OK then RM_ERR_FAIL
      else if rm_core_tcp_msg_valid_pt buf \<noteq> RM_ERR_OK then RM_ERR_MSG_PT_UNKNOWN
      else RM_ERR_OK)"

definition rm_core_tcp_msg_ack_validate :: "twhash_32 \<Rightarrow> bytes \<Rightarrow> int \<Rightarrow> rm_error" where
  "rm_core_tcp_msg_ack_validate th buf read_n = rm_core_tcp_msg_hdr_validate th buf read_n"

text \<open>\<open>rm_core_tcp_msg_assemble\<close>: the error, the body if one was allocated, and the socket.\<close>

definition rm_core_tcp_msg_assemble ::
    "bool \<Rightarrow> sock \<Rightarrow> rm_pt_type \<Rightarrow> nat \<Rightarrow> (rm_error \<times> bytes option \<times> sock) option" where
  "rm_core_tcp_msg_assemble malloc_ok s pt bytes_n =
     (if pt = RM_PT_MSG_PUSH \<or> pt = RM_PT_MSG_PULL then
        if \<not> malloc_ok then Some (RM_ERR_MEM, None, s)
        else case rm_tcp_rx s bytes_n of
               None \<Rightarrow> None
             | Some (err, body, s') \<Rightarrow>
                 if err \<noteq> RM_ERR_OK then Some (RM_ERR_READ, None, s')
                 else Some (RM_ERR_OK, Some body, s')
      else Some (RM_ERR_OK, None, s))"

section \<open>Acknowledgements\<close>

text \<open>
  The number of an error. A variable of the enumeration can hold any \<open>int\<close>, and one byte of it is sent as
  the status of an acknowledgement.
\<close>

definition err_code :: "rm_error \<Rightarrow> int" where
  "err_code e = int (rm_error_code e)"

lemma err_code_bound: "0 \<le> err_code e \<and> err_code e < 256"
  using rm_error_code_bound [of e] by (simp add: err_code_def)

lemma err_code_OK [simp]: "err_code RM_ERR_OK = 0" "err_code e = 0 \<longleftrightarrow> e = RM_ERR_OK"
proof -
  have "rm_error_code e = 0 \<Longrightarrow> e = RM_ERR_OK" by (metis rm_error_code.simps(1) rm_error_of_code option.inject)
  then show "err_code RM_ERR_OK = 0" "err_code e = 0 \<longleftrightarrow> e = RM_ERR_OK" by (auto simp: err_code_def)
qed

lemma of_int_err_code [simp]: "of_int (err_code e) = (of_nat (rm_error_code e) :: u8)"
  by (simp add: err_code_def)

text \<open>
  \<open>rm_tcp_tx_msg_ack\<close>. The session, when there is one, supplies the delta port and the number of
  checksums to come. The length of an acknowledgement depends on the header alone; the program asks for the two types
  of acknowledgement only, and for the type of a push, where the length has no value, the call is refused.
\<close>

definition rm_tcp_tx_msg_ack ::
    "twhash_32 \<Rightarrow> sock \<Rightarrow> rm_pt_type \<Rightarrow> int \<Rightarrow> (u16 \<times> u64) option \<Rightarrow> rm_error \<times> sock" where
  "rm_tcp_tx_msg_ack th s pt status sess =
     (let hdr = \<lparr>h_hash = 0, h_pt = rm_pt_code pt, h_flags = of_int status, h_len = 0\<rparr>;
          hdr = hdr\<lparr>h_len := (case rm_calc_msg_len (Arg_Hdr hdr) of Some len \<Rightarrow> len | None \<Rightarrow> 0)\<rparr>;
          hdr = hdr\<lparr>h_hash := rm_core_hdr_hash th hdr\<rparr>
      in case pt of
           RM_PT_MSG_PUSH_ACK \<Rightarrow>
             (let (port, n) = (case sess of None \<Rightarrow> (0, 0) | Some p \<Rightarrow> p);
                  raw = rm_serialize_msg_push_ack [] \<lparr>a_hdr = hdr, a_delta_port = port, a_ch_ch_n = n\<rparr>
              in rm_tcp_tx s (take (unat (h_len hdr)) raw))
         | RM_PT_MSG_ACK \<Rightarrow> rm_tcp_tx s (take (unat (h_len hdr)) (rm_serialize_msg_ack [] hdr))
         | _ \<Rightarrow> (RM_ERR_BAD_CALL, s))"

section \<open>The table of sessions\<close>

text \<open>
  A session with its identifier, the MD5 of the name it synchronizes, the address of that field in
  memory and the bucket number saved in it. The bucket table of the submodule is a record of
  operations again; its hash depends on the size of the key in bytes: a pointer has eight, the keys
  built from the identifier and from the MD5 have two and four.
\<close>

record core_session =
  cs_id :: bytes
  cs_hash :: bytes
  cs_addr :: u64
  cs_hashed_hash :: u32

record 'h sess_table =
  sh_add :: "'h \<Rightarrow> core_session \<Rightarrow> u64 \<Rightarrow> 'h"
  sh_del :: "'h \<Rightarrow> core_session \<Rightarrow> 'h"
  sh_bucket :: "'h \<Rightarrow> u32 \<Rightarrow> core_session list"
  sh_min :: "nat \<Rightarrow> u64 \<Rightarrow> nat \<Rightarrow> u32"

definition sess_table_ok :: "'h sess_table \<Rightarrow> bool" where
  "sess_table_ok st \<longleftrightarrow>
     (\<forall>h s key i. set (sh_bucket st (sh_add st h s key) i) =
        (if i = sh_min st 8 key RM_SESSION_HASH_BITS then insert s (set (sh_bucket st h i))
         else set (sh_bucket st h i))) \<and>
     (\<forall>h s i. set (sh_bucket st (sh_del st h s) i) = set (sh_bucket st h i) - {s})"

text \<open>An instance with lists as buckets.\<close>

definition sh_lists :: "(u32 \<Rightarrow> core_session list) sess_table" where
  "sh_lists = \<lparr>sh_add = (\<lambda>h s key. let i = take_bit RM_SESSION_HASH_BITS (ucast key) in h(i := s # h i)),
     sh_del = (\<lambda>h s i. filter (\<lambda>t. t \<noteq> s) (h i)), sh_bucket = (\<lambda>h i. h i),
     sh_min = (\<lambda>_ key bits. take_bit bits (ucast key))\<rparr>"

lemma sh_lists_ok: "sess_table_ok sh_lists"
  by (auto simp: sess_table_ok_def sh_lists_def Let_def)

text \<open>The part of \<open>struct rsyncme\<close> the session functions use, with the mutexes of the sessions by address.\<close>

record 'h rsyncme =
  rm_mutex :: mutex
  rm_sessions :: 'h
  rm_sessions_list :: "core_session list"
  rm_sessions_n :: u32
  rm_smutex :: "u64 \<Rightarrow> mutex"

definition core_lock :: "'h rsyncme \<Rightarrow> 'h rsyncme" where
  "core_lock rm = rm\<lparr>rm_mutex := the (mutex_lock (Some (rm_mutex rm)))\<rparr>"

definition core_unlock :: "'h rsyncme \<Rightarrow> 'h rsyncme" where
  "core_unlock rm = rm\<lparr>rm_mutex := the (mutex_unlock (Some (rm_mutex rm)))\<rparr>"

text \<open>
  Adding hashes the address of the hash field, not the bytes in it; the list gets the session at its
  head, and the bucket number computed from the first four bytes of the hash is saved.
\<close>

definition hash_key :: "bytes \<Rightarrow> u64" where
  "hash_key d = ucast (d ! 0) + push_bit 8 (ucast (d ! 1)) + push_bit 16 (ucast (d ! 2)) +
     push_bit 24 (ucast (d ! 3))"

definition rm_core_session_add :: "'h sess_table \<Rightarrow> 'h rsyncme \<Rightarrow> core_session \<Rightarrow> 'h rsyncme" where
  "rm_core_session_add st rm s =
     (let rm1 = core_lock rm;
          s1 = s\<lparr>cs_hashed_hash := sh_min st 4 (hash_key (cs_hash s)) RM_SESSION_HASH_BITS\<rparr>;
          rm2 = rm1\<lparr>rm_sessions_list := s1 # rm_sessions_list rm1,
                    rm_sessions := sh_add st (rm_sessions rm1) s1 (cs_addr s1),
                    rm_sessions_n := rm_sessions_n rm1 + 1\<rparr>
      in core_unlock rm2)"

definition rm_core_session_del :: "'h sess_table \<Rightarrow> 'h rsyncme \<Rightarrow> core_session \<Rightarrow> 'h rsyncme" where
  "rm_core_session_del st rm s =
     (let rm1 = core_lock rm;
          rm2 = rm1\<lparr>rm_sessions_list := remove1 s (rm_sessions_list rm1),
                    rm_sessions := sh_del st (rm_sessions rm1) s\<rparr>
      in core_unlock rm2)"

text \<open>
  Finding hashes the first two bytes of the identifier. On a hit it locks the session and returns
  without unlocking the table.
\<close>

definition session_key :: "bytes \<Rightarrow> u64" where
  "session_key sid = ucast (sid ! 0) + push_bit 8 (ucast (sid ! 1))"

definition rm_core_session_find ::
    "'h sess_table \<Rightarrow> 'h rsyncme \<Rightarrow> bytes \<Rightarrow> core_session option \<times> 'h rsyncme" where
  "rm_core_session_find st rm sid =
     (let rm1 = core_lock rm;
          h = sh_min st 2 (session_key sid) RM_SESSION_HASH_BITS
      in case find (\<lambda>s. take RM_UUID_LEN (cs_id s) = take RM_UUID_LEN sid) (sh_bucket st (rm_sessions rm1) h) of
           Some s \<Rightarrow> (Some s, rm1\<lparr>rm_smutex := (rm_smutex rm1)(cs_addr s :=
              the (mutex_lock (Some (rm_smutex rm1 (cs_addr s)))))\<rparr>)
         | None \<Rightarrow> (None, core_unlock rm1))"

lemma core_lock_unlock:
  "rm_mutex rm = Mutex_Free \<Longrightarrow> core_lock rm = rm\<lparr>rm_mutex := Mutex_Held\<rparr>"
  "core_unlock (rm'\<lparr>rm_mutex := Mutex_Held\<rparr>) = rm'\<lparr>rm_mutex := Mutex_Free\<rparr>"
  by (simp_all add: core_lock_def core_unlock_def mutex_unlock_def)

lemma find_singleton:
  "set xs \<subseteq> {a} \<Longrightarrow> find P xs = (if a \<in> set xs \<and> P a then Some a else None)"
  by (induction xs) auto

section \<open>Properties\<close>

lemma header_ok:
  assumes "8 \<le> n" and "n < 2 ^ 64"
  shows "rm_core_tcp_msg_hdr_validate th (rm_serialize_msg_hdr [] hdr @ body) n =
    (if h_hash hdr \<noteq> rm_core_hdr_hash th hdr then RM_ERR_FAIL
     else if h_pt hdr \<in> {0, 1, 2, 3, 5} then RM_ERR_OK else RM_ERR_MSG_PT_UNKNOWN)"
proof -
  have "\<not> nat (n mod 2 ^ 64) < RM_MSG_HDR_LEN"
    using assms by (simp add: RM_MSG_HDR_LEN_def)
  then show ?thesis
    by (auto simp: rm_core_tcp_msg_hdr_validate_def rm_core_validate_hash_def
        rm_core_tcp_msg_valid_pt_def rm_core_hdr_hash_def Let_def)
qed

text \<open>
  What a peer sends passes the header check exactly when the hash is the challenge of the other
  fields and the payload type is one the daemon knows: for a received header, whatever follows it,
  the check returns \<open>RM_ERR_FAIL\<close> on a wrong hash, \<open>RM_ERR_MSG_PT_UNKNOWN\<close> on another type, and
  \<open>RM_ERR_OK\<close> otherwise.
\<close>
theorem header_check_decides:
  assumes "8 \<le> n" and "n < 2 ^ 64"
  shows "rm_core_tcp_msg_hdr_validate th (rm_serialize_msg_hdr [] hdr @ body) n =
    (if h_hash hdr \<noteq> rm_core_hdr_hash th hdr then RM_ERR_FAIL
     else if h_pt hdr \<in> {0, 1, 2, 3, 5} then RM_ERR_OK else RM_ERR_MSG_PT_UNKNOWN)"
  by (rule header_ok [OF assms])

theorem header_check_decides_witness:
  "rm_core_tcp_msg_hdr_validate (\<lambda>k _. k) (rm_serialize_msg_hdr []
     \<lparr>h_hash = 8, h_pt = 0, h_flags = 0, h_len = 8\<rparr> @ [1]) 9 = RM_ERR_OK"
  using header_check_decides [of 9 "\<lambda>k _. k" "\<lparr>h_hash = 8, h_pt = 0, h_flags = 0, h_len = 8\<rparr>" "[1]"]
  by (simp add: rm_core_hdr_hash_def hdr_challenge_def)

lemma ack_transfer:
  assumes "IO_Err \<notin> set (sk_wev s)" and "sk_out s = []"
  shows "\<exists>s' hdr. rm_tcp_tx_msg_ack th s RM_PT_MSG_PUSH_ACK (err_code status) (Some (port, n)) = (RM_ERR_OK, s') \<and>
      rm_core_tcp_msg_ack_validate th (sk_out s') 18 = RM_ERR_OK \<and>
      rm_deserialize_msg_push_ack (sk_out s') =
        Some (\<lparr>a_hdr = hdr, a_delta_port = port, a_ch_ch_n = n\<rparr>, []) \<and>
      rm_error_of_code (unat (h_flags hdr)) = Some status"
    and "\<exists>s'. rm_tcp_tx_msg_ack th s RM_PT_MSG_ACK (err_code status) sess = (RM_ERR_OK, s') \<and>
      rm_core_tcp_msg_ack_validate th (sk_out s') 8 = RM_ERR_MSG_PT_UNKNOWN"
proof -
  have flags: "rm_error_of_code (unat (of_nat (rm_error_code status) :: u8)) = Some status"
    using rm_error_code_bound [of status]
    by (subst unsigned_of_nat) (simp add: take_bit_nat_eq_self)
  define hdr where "hdr pt len = (let h = \<lparr>h_hash = 0, h_pt = rm_pt_code pt,
      h_flags = of_nat (rm_error_code status), h_len = len\<rparr> in h\<lparr>h_hash := rm_core_hdr_hash th h\<rparr>)" for pt len
  have hash: "h_hash (hdr pt len) = rm_core_hdr_hash th (hdr pt len)" for pt len
    by (simp add: hdr_def Let_def rm_core_hdr_hash_def)
  let ?ack = "\<lparr>a_hdr = hdr RM_PT_MSG_PUSH_ACK 18, a_delta_port = port, a_ch_ch_n = n\<rparr>"
  have raw: "rm_serialize_msg_push_ack [] ?ack = rm_serialize_msg_hdr [] (hdr RM_PT_MSG_PUSH_ACK 18) @
      rm_serialize_u16 [] port @ rm_serialize_u64 [] n"
    by (simp add: rm_serialize_msg_push_ack_def rm_serialize_u64_def rm_serialize_u16_def)
  then have len: "length (rm_serialize_msg_push_ack [] ?ack) = 18"
    by (simp add: RM_MSG_HDR_LEN_def)
  obtain s' where tx: "rm_tcp_tx s (rm_serialize_msg_push_ack [] ?ack) = (RM_ERR_OK, s')"
      "sk_out s' = rm_serialize_msg_push_ack [] ?ack"
    using rm_tcp_tx_ok [OF assms(1), of "rm_serialize_msg_push_ack [] ?ack"] assms(2) by auto
  have run: "rm_tcp_tx_msg_ack th s RM_PT_MSG_PUSH_ACK (err_code status) (Some (port, n)) = (RM_ERR_OK, s')"
    using tx(1) len by (simp add: rm_tcp_tx_msg_ack_def Let_def hdr_def)
  have "rm_core_tcp_msg_ack_validate th (sk_out s') 18 = RM_ERR_OK"
    unfolding tx(2) raw rm_core_tcp_msg_ack_validate_def
    by (subst header_ok) (simp_all add: hash, simp add: hdr_def Let_def)
  moreover have "rm_deserialize_msg_push_ack (sk_out s') = Some (?ack, [])"
    using push_ack.deser_ser [of ?ack "[]"] tx(2) by simp
  ultimately show "\<exists>s' hdr. rm_tcp_tx_msg_ack th s RM_PT_MSG_PUSH_ACK (err_code status) (Some (port, n)) = (RM_ERR_OK, s') \<and>
      rm_core_tcp_msg_ack_validate th (sk_out s') 18 = RM_ERR_OK \<and>
      rm_deserialize_msg_push_ack (sk_out s') =
        Some (\<lparr>a_hdr = hdr, a_delta_port = port, a_ch_ch_n = n\<rparr>, []) \<and>
      rm_error_of_code (unat (h_flags hdr)) = Some status"
    using run flags by (auto simp: hdr_def Let_def)
  obtain t' where tx2: "rm_tcp_tx s (rm_serialize_msg_hdr [] (hdr RM_PT_MSG_ACK 8)) = (RM_ERR_OK, t')"
      "sk_out t' = rm_serialize_msg_hdr [] (hdr RM_PT_MSG_ACK 8)"
    using rm_tcp_tx_ok [OF assms(1), of "rm_serialize_msg_hdr [] (hdr RM_PT_MSG_ACK 8)"] assms(2) by auto
  have "rm_tcp_tx_msg_ack th s RM_PT_MSG_ACK (err_code status) sess = (RM_ERR_OK, t')"
    using tx2(1) by (simp add: rm_tcp_tx_msg_ack_def Let_def hdr_def rm_serialize_msg_ack_def
        RM_MSG_HDR_LEN_def)
  moreover have "rm_core_tcp_msg_ack_validate th (sk_out t') 8 = RM_ERR_MSG_PT_UNKNOWN"
    using header_ok [of 8 th "hdr RM_PT_MSG_ACK 8" "[]"] tx2(2) hash
    by (simp add: rm_core_tcp_msg_ack_validate_def) (simp add: hdr_def Let_def)
  ultimately show "\<exists>s'. rm_tcp_tx_msg_ack th s RM_PT_MSG_ACK (err_code status) sess = (RM_ERR_OK, s') \<and>
      rm_core_tcp_msg_ack_validate th (sk_out s') 8 = RM_ERR_MSG_PT_UNKNOWN" by blast
qed

text \<open>
  Acknowledging a push request works end to end: the receiver of the acknowledgement finds the
  header valid and deserializes the status, the delta port and the number of checksums the session
  had. An acknowledgement of type \<open>RM_PT_MSG_ACK\<close>, which the same function transmits, is always
  rejected by the validation on the other side.
\<close>
theorem push_ack_accepted_plain_ack_rejected:
  assumes "IO_Err \<notin> set (sk_wev s)" and "sk_out s = []"
  shows "(\<exists>s' hdr. rm_tcp_tx_msg_ack th s RM_PT_MSG_PUSH_ACK (err_code status) (Some (port, n)) = (RM_ERR_OK, s') \<and>
      rm_core_tcp_msg_ack_validate th (sk_out s') 18 = RM_ERR_OK \<and>
      rm_deserialize_msg_push_ack (sk_out s') =
        Some (\<lparr>a_hdr = hdr, a_delta_port = port, a_ch_ch_n = n\<rparr>, []) \<and>
      rm_error_of_code (unat (h_flags hdr)) = Some status) \<and>
    (\<exists>s'. rm_tcp_tx_msg_ack th s RM_PT_MSG_ACK (err_code status) sess = (RM_ERR_OK, s') \<and>
      rm_core_tcp_msg_ack_validate th (sk_out s') 8 = RM_ERR_MSG_PT_UNKNOWN)"
  using ack_transfer [OF assms] by blast

theorem push_ack_accepted_plain_ack_rejected_witness:
  "\<exists>s'. rm_tcp_tx_msg_ack (\<lambda>k _. k) \<lparr>sk_in = [], sk_closed = False, sk_rev = [], sk_out = [],
      sk_wev = [IO_Intr, IO_Chunk 3]\<rparr> RM_PT_MSG_ACK (err_code RM_ERR_BUSY) None = (RM_ERR_OK, s') \<and>
    rm_core_tcp_msg_ack_validate (\<lambda>k _. k) (sk_out s') 8 = RM_ERR_MSG_PT_UNKNOWN"
  using push_ack_accepted_plain_ack_rejected [of "\<lparr>sk_in = [], sk_closed = False, sk_rev = [], sk_out = [],
      sk_wev = [IO_Intr, IO_Chunk 3]\<rparr>" "\<lambda>k _. k" RM_ERR_BUSY 0 0 None] by simp

text \<open>
  A session that was added is found by its identifier only if the hash of the address of a field
  happens to be the hash of the first bytes of the identifier: otherwise the search returns nothing.
  After a hit both the session and the table stay locked. Deleting removes the session from table and
  list, but the session count is not decremented.
\<close>
theorem session_find_uses_another_key:
  assumes "sess_table_ok st" and "rm_mutex rm = Mutex_Free" and "\<And>i. sh_bucket st (rm_sessions rm) i = []"
  shows "\<exists>s1. rm_sessions_list (rm_core_session_add st rm s) = s1 # rm_sessions_list rm \<and>
    cs_id s1 = cs_id s \<and>
    (case rm_core_session_find st (rm_core_session_add st rm s) (cs_id s) of (r, rm') \<Rightarrow>
       if sh_min st 8 (cs_addr s) RM_SESSION_HASH_BITS =
          sh_min st 2 (session_key (cs_id s)) RM_SESSION_HASH_BITS
       then r = Some s1 \<and> rm_mutex rm' = Mutex_Held
       else r = None \<and> rm_mutex rm' = Mutex_Free) \<and>
    (case rm_core_session_del st (rm_core_session_add st rm s) s1 of rm' \<Rightarrow>
       (\<forall>i. sh_bucket st (rm_sessions rm') i = []) \<and>
       rm_sessions_list rm' = rm_sessions_list rm \<and> rm_sessions_n rm' = rm_sessions_n rm + 1)"
proof -
  let ?s1 = "s\<lparr>cs_hashed_hash := sh_min st 4 (hash_key (cs_hash s)) RM_SESSION_HASH_BITS\<rparr>"
  let ?h = "sh_add st (rm_sessions rm) ?s1 (cs_addr s)"
  have b: "set (sh_bucket st ?h i) =
      (if i = sh_min st 8 (cs_addr s) RM_SESSION_HASH_BITS then {?s1} else {})" for i
    using assms(1,3) by (simp add: sess_table_ok_def)
  have d: "sh_bucket st (sh_del st ?h ?s1) i = []" for i
    using assms(1) b [of i] by (simp add: sess_table_ok_def flip: set_empty) 
  have f: "find P (sh_bucket st ?h i) =
      (if i = sh_min st 8 (cs_addr s) RM_SESSION_HASH_BITS \<and> P ?s1 then Some ?s1 else None)" for P i
    using b [of i] by (subst find_singleton [of _ ?s1]) auto
  have add: "rm_core_session_add st rm s = rm\<lparr>rm_sessions_list := ?s1 # rm_sessions_list rm,
      rm_sessions := ?h, rm_sessions_n := rm_sessions_n rm + 1\<rparr>"
    using assms(2) by (cases rm) (simp add: rm_core_session_add_def core_lock_def core_unlock_def Let_def mutex_unlock_def)
  show ?thesis
    unfolding add using assms(2)
    by (intro exI [of _ ?s1]) (simp add: rm_core_session_find_def rm_core_session_del_def core_lock_def
        core_unlock_def Let_def mutex_unlock_def f d)
qed

theorem session_find_uses_another_key_witness:
  "fst (rm_core_session_find sh_lists (rm_core_session_add sh_lists \<lparr>rm_mutex = Mutex_Free,
      rm_sessions = (\<lambda>_. []), rm_sessions_list = [], rm_sessions_n = 0, rm_smutex = (\<lambda>_. Mutex_Free)\<rparr>
      \<lparr>cs_id = [1, 2], cs_hash = [7], cs_addr = 64, cs_hashed_hash = 0\<rparr>) [1, 2]) = None"
  using session_find_uses_another_key [OF sh_lists_ok, of "\<lparr>rm_mutex = Mutex_Free,
      rm_sessions = (\<lambda>_. []), rm_sessions_list = [], rm_sessions_n = 0, rm_smutex = (\<lambda>_. Mutex_Free)\<rparr>"
      "\<lparr>cs_id = [1, 2], cs_hash = [7], cs_addr = 64, cs_hashed_hash = 0\<rparr>"]
  by (auto simp: sh_lists_def session_key_def RM_SESSION_HASH_BITS_def split: prod.splits)

end
