(* ===== verification/RM_Wire.thy ===== *)
theory RM_Wire
  imports RM_Sync RM_Core
begin

text \<open>
  The delta protocol of a remote push: \<open>rm_rx_tx_delta_element\<close> of \<^verbatim>\<open>src/rm_rx.c\<close> puts an element
  on the wire, and the receiver thread \<open>rm_session_delta_rx_f_remote\<close> of \<^verbatim>\<open>src/rm_session.c\<close>
  reads elements until it has all the bytes of the file and applies each to its result. The numbers
  are sent as they lie in memory: eight bytes, the least significant one first.
\<close>

unbundle bit_operations_syntax

section \<open>Numbers in memory\<close>

fun le_bytes :: "nat \<Rightarrow> nat \<Rightarrow> bytes" where
  "le_bytes 0 n = []"
| "le_bytes (Suc k) n = of_nat n # le_bytes k (n div 256)"

primrec le_value :: "bytes \<Rightarrow> nat" where
  "le_value [] = 0"
| "le_value (b # bs) = unat b + 256 * le_value bs"

lemma length_le_bytes [simp]: "length (le_bytes k n) = k"
  by (induction k arbitrary: n) auto

lemma le_value_le_bytes: "le_value (le_bytes k n) = n mod 256 ^ k"
proof (induction k arbitrary: n)
  case (Suc k)
  have "unat (of_nat n :: u8) = n mod 256"
    by (simp add: unsigned_of_nat take_bit_eq_mod)
  with Suc show ?case by (simp add: mod_mult2_eq)
qed simp

lemma le_value_le_bytes_8: "n < size_t_mod \<Longrightarrow> le_value (le_bytes 8 n) = n"
  by (simp add: le_value_le_bytes size_t_mod_def)

primrec delta_code :: "rm_delta_element_type \<Rightarrow> u8" where
  "delta_code RM_DELTA_ELEMENT_REFERENCE = 0"
| "delta_code RM_DELTA_ELEMENT_RAW_BYTES = 1"
| "delta_code RM_DELTA_ELEMENT_ZERO_DIFF = 2"
| "delta_code RM_DELTA_ELEMENT_TAIL = 3"

definition delta_of_code :: "u8 \<Rightarrow> rm_delta_element_type option" where
  "delta_of_code c =
     (if c = 0 then Some RM_DELTA_ELEMENT_REFERENCE
      else if c = 1 then Some RM_DELTA_ELEMENT_RAW_BYTES
      else if c = 2 then Some RM_DELTA_ELEMENT_ZERO_DIFF
      else if c = 3 then Some RM_DELTA_ELEMENT_TAIL else None)"

lemma delta_of_code [simp]: "delta_of_code (delta_code t) = Some t"
  by (cases t) (simp_all add: delta_of_code_def)

section \<open>Transmitting an element\<close>

text \<open>The numbers of bytes and elements the transmitter counts as sent.\<close>

definition tx_account :: "rm_delta_e \<Rightarrow> rm_delta_reconstruct_ctx \<Rightarrow> rm_delta_reconstruct_ctx" where
  "tx_account d ctx =
     (case d_type d of
        RM_DELTA_ELEMENT_REFERENCE \<Rightarrow>
          ctx\<lparr>rec_by_ref := sz_add (rec_by_ref ctx) (raw_bytes_n d),
              delta_ref_n := sz_add (delta_ref_n ctx) 1\<rparr>
      | RM_DELTA_ELEMENT_TAIL \<Rightarrow>
          ctx\<lparr>rec_by_ref := sz_add (rec_by_ref ctx) (raw_bytes_n d),
              delta_ref_n := sz_add (delta_ref_n ctx) 1,
              rec_by_tail := sz_add (rec_by_tail ctx) (raw_bytes_n d),
              delta_tail_n := sz_add (delta_tail_n ctx) 1\<rparr>
      | RM_DELTA_ELEMENT_RAW_BYTES \<Rightarrow>
          ctx\<lparr>rec_by_raw := sz_add (rec_by_raw ctx) (raw_bytes_n d),
              delta_raw_n := sz_add (delta_raw_n ctx) 1\<rparr>
      | RM_DELTA_ELEMENT_ZERO_DIFF \<Rightarrow>
          ctx\<lparr>rec_by_ref := sz_add (rec_by_ref ctx) (raw_bytes_n d),
              delta_ref_n := sz_add (delta_ref_n ctx) 1,
              rec_by_zero_diff := sz_add (rec_by_zero_diff ctx) (raw_bytes_n d),
              delta_zero_diff_n := sz_add (delta_zero_diff_n ctx) 1\<rparr>)"

definition tx_delta :: "rm_delta_e \<Rightarrow> rm_delta_reconstruct_ctx \<Rightarrow> sock \<Rightarrow>
    rm_error \<times> rm_delta_reconstruct_ctx \<times> sock" where
  "tx_delta d ctx s =
     (let (e, s1) = rm_tcp_tx s [delta_code (d_type d)] in
      if e \<noteq> RM_ERR_OK then (RM_ERR_WRITE, ctx, s1)
      else case d_type d of
        RM_DELTA_ELEMENT_REFERENCE \<Rightarrow>
          (let (e, s2) = rm_tcp_tx s1 (le_bytes 8 (d_ref d))
           in if e \<noteq> RM_ERR_OK then (RM_ERR_WRITE, ctx, s2) else (RM_ERR_OK, tx_account d ctx, s2))
      | RM_DELTA_ELEMENT_TAIL \<Rightarrow>
          (let (e, s2) = rm_tcp_tx s1 (le_bytes 8 (d_ref d))
           in if e \<noteq> RM_ERR_OK then (RM_ERR_WRITE, ctx, s2) else (RM_ERR_OK, tx_account d ctx, s2))
      | RM_DELTA_ELEMENT_RAW_BYTES \<Rightarrow>
          (let (e, s2) = rm_tcp_tx s1 (le_bytes 8 (raw_bytes_n d))
           in if e \<noteq> RM_ERR_OK then (RM_ERR_WRITE, ctx, s2)
              else let data = (case raw_bytes d of None \<Rightarrow> [] | Some bs \<Rightarrow> bs);
                       (e, s3) = rm_tcp_tx s2 (take (raw_bytes_n d) data)
                   in if e \<noteq> RM_ERR_OK then (RM_ERR_WRITE, ctx, s3)
                      else (RM_ERR_OK, tx_account d ctx, s3))
      | RM_DELTA_ELEMENT_ZERO_DIFF \<Rightarrow> (RM_ERR_OK, tx_account d ctx, s1))"

definition rm_rx_tx_delta_element ::
    "rm_delta_e option \<Rightarrow> rm_delta_reconstruct_ctx option \<Rightarrow> sock \<Rightarrow>
     rm_error \<times> rm_delta_reconstruct_ctx option \<times> sock" where
  "rm_rx_tx_delta_element de ctx s =
     (case (de, ctx) of
        (Some d, Some c) \<Rightarrow> (let (e, c', s') = tx_delta d c s in (e, Some c', s'))
      | _ \<Rightarrow> (RM_ERR_BAD_CALL, ctx, s))"

text \<open>What an element looks like on the wire.\<close>

definition delta_wire :: "rm_delta_e \<Rightarrow> bytes" where
  "delta_wire d = delta_code (d_type d) #
     (case d_type d of
        RM_DELTA_ELEMENT_REFERENCE \<Rightarrow> le_bytes 8 (d_ref d)
      | RM_DELTA_ELEMENT_TAIL \<Rightarrow> le_bytes 8 (d_ref d)
      | RM_DELTA_ELEMENT_RAW_BYTES \<Rightarrow>
          le_bytes 8 (raw_bytes_n d) @ (case raw_bytes d of None \<Rightarrow> [] | Some bs \<Rightarrow> take (raw_bytes_n d) bs)
      | RM_DELTA_ELEMENT_ZERO_DIFF \<Rightarrow> [])"

lemma tx_delta_ok:
  assumes "IO_Err \<notin> set (sk_wev s)"
  shows "\<exists>s'. tx_delta d ctx s = (RM_ERR_OK, tx_account d ctx, s') \<and>
    sk_out s' = sk_out s @ delta_wire d \<and> IO_Err \<notin> set (sk_wev s')"
proof -
  obtain s1 where s1: "rm_tcp_tx s [delta_code (d_type d)] = (RM_ERR_OK, s1)"
      "sk_out s1 = sk_out s @ [delta_code (d_type d)]" "IO_Err \<notin> set (sk_wev s1)"
    using rm_tcp_tx_ok [OF assms] by blast
  obtain s2 where s2: "rm_tcp_tx s1 (le_bytes 8 (d_ref d)) = (RM_ERR_OK, s2)"
      "sk_out s2 = sk_out s1 @ le_bytes 8 (d_ref d)" "IO_Err \<notin> set (sk_wev s2)"
    using rm_tcp_tx_ok [OF s1(3)] by blast
  obtain s3 where s3: "rm_tcp_tx s1 (le_bytes 8 (raw_bytes_n d)) = (RM_ERR_OK, s3)"
      "sk_out s3 = sk_out s1 @ le_bytes 8 (raw_bytes_n d)" "IO_Err \<notin> set (sk_wev s3)"
    using rm_tcp_tx_ok [OF s1(3)] by blast
  let ?data = "take (raw_bytes_n d) (case raw_bytes d of None \<Rightarrow> [] | Some bs \<Rightarrow> bs)"
  obtain s4 where s4: "rm_tcp_tx s3 ?data = (RM_ERR_OK, s4)"
      "sk_out s4 = sk_out s3 @ ?data" "IO_Err \<notin> set (sk_wev s4)"
    using rm_tcp_tx_ok [OF s3(3)] by blast
  show ?thesis
    using s1 s2 s3 s4
    by (cases "d_type d"; cases "raw_bytes d") (auto simp: tx_delta_def delta_wire_def Let_def)
qed

section \<open>Receiving elements\<close>

text \<open>
  How a thread ends: the label \<open>done\<close>, the label \<open>err_exit\<close> with the status that is recorded, or a
  use of a \<open>NULL\<close> pointer. Assertions do nothing, as in the release build.
\<close>

datatype rx_end = Rx_Done | Rx_Err rm_rx_status | Rx_Crash

text \<open>
  The variables of the receiver thread that change in its loop: the two files, the context, the file
  mutex, the connection, \<open>bytes_to_rx\<close>, and the number of calls of \<open>malloc\<close>.
\<close>

record remote_rx =
  x_y :: "stream option"
  x_z :: "stream option"
  x_ctx :: rm_delta_reconstruct_ctx
  x_mutex :: "mutex option"
  x_sock :: sock
  x_left :: nat
  x_k :: nat

definition rx_number :: "sock \<Rightarrow> (nat option \<times> sock) option" where
  "rx_number s =
     (case rm_tcp_rx s 8 of
        None \<Rightarrow> None
      | Some (e, b, s') \<Rightarrow> Some (if e \<noteq> RM_ERR_OK then None else Some (le_value b), s'))"

text \<open>
  One element off the wire. The variable \<open>status\<close> is set only when the type cannot be read; the
  other failures leave it at \<open>RM_RX_STATUS_OK\<close>. The length of a tail is all that is missing, that of
  a zero difference is the size of the reference file.
\<close>

definition remote_rx_fields ::
    "mem_oracle \<Rightarrow> nat \<Rightarrow> nat \<Rightarrow> nat \<Rightarrow> nat \<Rightarrow> rm_delta_element_type \<Rightarrow> sock \<Rightarrow>
     ((rx_end + rm_delta_e) \<times> nat \<times> sock) option" where
  "remote_rx_fields mem k L left y_sz t s =
     (if t = RM_DELTA_ELEMENT_ZERO_DIFF then
        Some (Inr \<lparr>d_type = t, d_ref = 0, raw_bytes = None, raw_bytes_n = y_sz\<rparr>, k, s)
      else case rx_number s of
        None \<Rightarrow> None
      | Some (None, s1) \<Rightarrow> Some (Inl (Rx_Err RM_RX_STATUS_OK), k, s1)
      | Some (Some n, s1) \<Rightarrow>
          if t = RM_DELTA_ELEMENT_RAW_BYTES then
            if \<not> mem k then Some (Inl (Rx_Err RM_RX_STATUS_OK), k + 1, s1)
            else (case rm_tcp_rx s1 n of
                    None \<Rightarrow> None
                  | Some (e, data, s2) \<Rightarrow>
                      if e \<noteq> RM_ERR_OK then Some (Inl (Rx_Err RM_RX_STATUS_OK), k + 1, s2)
                      else Some (Inr \<lparr>d_type = t, d_ref = 0, raw_bytes = Some data,
                             raw_bytes_n = n\<rparr>, k + 1, s2))
          else Some (Inr \<lparr>d_type = t, d_ref = n, raw_bytes = None,
                 raw_bytes_n = (if t = RM_DELTA_ELEMENT_TAIL then left else L)\<rparr>, k, s1))"

definition remote_rx_element ::
    "mem_oracle \<Rightarrow> nat \<Rightarrow> nat \<Rightarrow> nat \<Rightarrow> nat \<Rightarrow> sock \<Rightarrow> ((rx_end + rm_delta_e) \<times> nat \<times> sock) option" where
  "remote_rx_element mem k L left y_sz s =
     (case rm_tcp_rx s 1 of
        None \<Rightarrow> None
      | Some (e, b, s1) \<Rightarrow>
          if e \<noteq> RM_ERR_OK then Some (Inl (Rx_Err RM_RX_STATUS_DELTA_RX_TCP_FAIL), k, s1)
          else case delta_of_code (hd b) of
            None \<Rightarrow> Some (Inl (Rx_Err RM_RX_STATUS_OK), k, s1)
          | Some t \<Rightarrow> remote_rx_fields mem k L left y_sz t s1)"

text \<open>
  Applying it. Without a reference file only literal bytes can be applied: the other elements would
  read from a \<open>NULL\<close> stream, which is the outcome \<open>None\<close>.
\<close>

definition remote_rx_apply :: "rm_delta_e \<Rightarrow> remote_rx \<Rightarrow> (rm_error \<times> remote_rx) option" where
  "remote_rx_apply d x =
     (case x_y x of
        None \<Rightarrow>
          if d_type d \<noteq> RM_DELTA_ELEMENT_RAW_BYTES \<and> x_z x \<noteq> None then None
          else (case rm_rx_process_delta_element (Some d) (open_stream []) (x_z x) (Some (x_ctx x)) (x_mutex x) of
                  (e, _, z, c, m) \<Rightarrow> Some (e, x\<lparr>x_z := z, x_ctx := the c, x_mutex := m\<rparr>))
      | Some y \<Rightarrow>
          (case rm_rx_process_delta_element (Some d) y (x_z x) (Some (x_ctx x)) (x_mutex x) of
             (e, y', z, c, m) \<Rightarrow> Some (e, x\<lparr>x_y := Some y', x_z := z, x_ctx := the c, x_mutex := m\<rparr>)))"

definition left_after :: "rm_delta_e \<Rightarrow> nat \<Rightarrow> nat" where
  "left_after d left =
     (case d_type d of
        RM_DELTA_ELEMENT_REFERENCE \<Rightarrow> sz_sub left (raw_bytes_n d)
      | RM_DELTA_ELEMENT_RAW_BYTES \<Rightarrow> sz_sub left (raw_bytes_n d)
      | RM_DELTA_ELEMENT_TAIL \<Rightarrow> 0
      | RM_DELTA_ELEMENT_ZERO_DIFF \<Rightarrow> 0)"

lemma remote_rx_element_sound:
  assumes "remote_rx_element mem k L left y_sz s = Some (Inr d, k', s')"
  shows "length (sk_in s') < length (sk_in s)"
  using assms
  by (auto simp: remote_rx_element_def remote_rx_fields_def rx_number_def split: option.splits
      if_splits prod.splits dest!: rm_tcp_rx_sound)

lemma remote_rx_apply_sock: "remote_rx_apply d x = Some (e, x') \<Longrightarrow> x_sock x' = x_sock x"
  by (auto simp: remote_rx_apply_def split: option.splits if_splits prod.splits)

function remote_rx_loop :: "mem_oracle \<Rightarrow> nat \<Rightarrow> remote_rx \<Rightarrow> (rx_end \<times> remote_rx) option" where
  "remote_rx_loop mem y_sz x =
     (if x_left x = 0 then Some (Rx_Done, x)
      else case remote_rx_element mem (x_k x) (ctx_L (x_ctx x)) (x_left x) y_sz (x_sock x) of
             None \<Rightarrow> None
           | Some (Inl e, k, s) \<Rightarrow> Some (e, x\<lparr>x_k := k, x_sock := s\<rparr>)
           | Some (Inr d, k, s) \<Rightarrow>
               (case remote_rx_apply d (x\<lparr>x_k := k, x_sock := s\<rparr>) of
                  None \<Rightarrow> Some (Rx_Crash, x\<lparr>x_k := k, x_sock := s\<rparr>)
                | Some (err, x1) \<Rightarrow>
                    if err \<noteq> RM_ERR_OK then Some (Rx_Err RM_RX_STATUS_DELTA_PROC_FAIL, x1)
                    else remote_rx_loop mem y_sz (x1\<lparr>x_left := left_after d (x_left x1)\<rparr>)))"
  by pat_completeness auto
termination
proof (relation "measure (\<lambda>(mem, y_sz, x). length (sk_in (x_sock x)))", goal_cases)
  case (2 mem y_sz x r p q d k s a e x1)
  then have "remote_rx_element mem (x_k x) (ctx_L (x_ctx x)) (x_left x) y_sz (x_sock x) = Some (Inr d, k, s)"
    "remote_rx_apply d (x\<lparr>x_k := k, x_sock := s\<rparr>) = Some (e, x1)" by auto
  from remote_rx_element_sound [OF this(1)] remote_rx_apply_sock [OF this(2)] show ?case by simp
qed simp

declare remote_rx_loop.simps [simp del]

section \<open>The receiver thread\<close>

text \<open>
  The session as \<open>rm_session_delta_rx_f_remote\<close> sees it: \<open>rp_flags\<close> and \<open>rp_bytes\<close> come from the push
  message, \<open>rp_listening\<close> says whether the listening socket is open.
\<close>

record rx_prvt =
  rp_flags :: u8
  rp_bytes :: nat
  rp_status :: rm_rx_status
  rp_listening :: bool

record rx_session =
  rs_type :: rm_session_type
  rs_prvt :: "rx_prvt option"
  rs_y :: "stream option"
  rs_y_sz :: nat
  rs_z :: "stream option"
  rs_ctx :: rm_delta_reconstruct_ctx
  rs_mutex :: mutex

definition delta_rx_finish :: "rx_prvt \<Rightarrow> rx_end \<Rightarrow> remote_rx \<Rightarrow> rx_session \<Rightarrow> rx_session option" where
  "delta_rx_finish p e x s =
     (case e of
        Rx_Crash \<Rightarrow> None
      | Rx_Done \<Rightarrow> Some (s\<lparr>rs_prvt := Some (p\<lparr>rp_status := RM_RX_STATUS_OK, rp_listening := False\<rparr>),
          rs_y := x_y x, rs_z := x_z x, rs_ctx := x_ctx x, rs_mutex := the (x_mutex x)\<rparr>)
      | Rx_Err st \<Rightarrow> Some (s\<lparr>rs_prvt := Some (p\<lparr>rp_status := st, rp_listening := False\<rparr>),
          rs_y := x_y x, rs_z := x_z x, rs_ctx := x_ctx x, rs_mutex := the (x_mutex x)\<rparr>))"

text \<open>
  \<open>conn\<close> is the connection that is accepted, \<open>None\<close> when \<open>accept\<close> fails. The result is \<open>None\<close> for a
  thread that waits forever and \<open>Some None\<close> for one that crashes, which it does on its way out when
  it is given a session that is not a receiver of a push.
\<close>

definition rm_session_delta_rx_f_remote ::
    "mem_oracle \<Rightarrow> sock option \<Rightarrow> rx_session \<Rightarrow> rx_session option option" where
  "rm_session_delta_rx_f_remote mem conn s =
     (case rs_prvt s of
        None \<Rightarrow> Some None
      | Some p \<Rightarrow>
          if rs_type s \<noteq> RM_PUSH_RX then Some None
          else
            let x = \<lparr>x_y = rs_y s, x_z = rs_z s, x_ctx = rs_ctx s, x_mutex = Some (rs_mutex s),
                     x_sock = \<lparr>sk_in = [], sk_closed = False, sk_rev = [], sk_out = [], sk_wev = []\<rparr>,
                     x_left = rp_bytes p, x_k = 0\<rparr>
            in if rs_y s = None \<and> (rp_flags p AND RM_BIT_4 = 0 \<or> rs_z s = None)
               then Some (delta_rx_finish p (Rx_Err RM_RX_STATUS_OK) x s)
               else case conn of
                      None \<Rightarrow> Some (delta_rx_finish p (Rx_Err RM_RX_STATUS_DELTA_RX_ACCEPT_FAIL) x s)
                    | Some c \<Rightarrow>
                        if rp_bytes p = 0 then Some (delta_rx_finish p Rx_Done x s)
                        else map_option (\<lambda>(e, x'). delta_rx_finish p e x' s)
                               (remote_rx_loop mem (rs_y_sz s) (x\<lparr>x_sock := c\<rparr>)))"

section \<open>What the receiver makes of the wire\<close>

text \<open>An element as it arrives: the fields that are not sent are zero.\<close>

definition received :: "rm_delta_e \<Rightarrow> rm_delta_e" where
  "received d =
     (case d_type d of
        RM_DELTA_ELEMENT_RAW_BYTES \<Rightarrow> d\<lparr>d_ref := 0\<rparr>
      | RM_DELTA_ELEMENT_ZERO_DIFF \<Rightarrow> d\<lparr>d_ref := 0, raw_bytes := None\<rparr>
      | _ \<Rightarrow> d\<lparr>raw_bytes := None\<rparr>)"

lemma received_simps [simp]:
  "raw_bytes_n (received d) = raw_bytes_n d" "d_type (received d) = d_type d"
  "delta_data L y (received d) = delta_data L y d" "delta_wf L y (received d) = delta_wf L y d"
  "ctx_account (received d) = ctx_account d" "is_zero_diff (received d) = is_zero_diff d"
  by (cases "d_type d"; simp add: received_def delta_data_def delta_wf_def ctx_account_def
      is_zero_diff_def fun_eq_iff)+

text \<open>The numbers of an element that a file of less than \<open>2 ^ 63\<close> bytes can produce.\<close>

definition delta_small :: "rm_delta_e \<Rightarrow> bool" where
  "delta_small d \<longleftrightarrow> d_ref d < size_t_mod \<and> raw_bytes_n d < size_t_mod"

lemma delta_wf_small:
  assumes "delta_wf L y d" and "0 < L" and "length y \<le> off_max" and "raw_bytes_n d \<le> off_max"
    and "d_type d \<in> {RM_DELTA_ELEMENT_REFERENCE, RM_DELTA_ELEMENT_TAIL}"
  shows "d_ref d < size_t_mod"
proof -
  have "d_ref d \<le> d_ref d * L" using assms(2) by simp
  also have "\<dots> \<le> length y" using assms(1,5) by (auto simp: delta_wf_def)
  finally show ?thesis using assms(3) off_max_size_t by simp
qed

lemma rx_number_wire:
  assumes "rx_good s" and "sk_in s = le_bytes 8 n @ r" and "n < size_t_mod"
  shows "\<exists>s'. rx_number s = Some (Some n, s') \<and> sk_in s' = r \<and> rx_good s'"
  using tcp_rx.rx_frame [OF assms(1,2)] assms(3) by (auto simp: rx_number_def le_value_le_bytes_8)

lemma remote_rx_element_wire:
  assumes good: "rx_good s" and wire: "sk_in s = delta_wire d @ r" and wf: "delta_wf L y d"
    and sm: "raw_bytes_n d < size_t_mod"
      "d_type d \<in> {RM_DELTA_ELEMENT_REFERENCE, RM_DELTA_ELEMENT_TAIL} \<Longrightarrow> d_ref d < size_t_mod"
    and fits: "delta_fits L n p d" and left: "left = n - p" "p \<le> n"
    and zero: "is_zero_diff d \<Longrightarrow> n = y_sz"
  shows "\<exists>k' s'. remote_rx_element mem_ok k L left y_sz s = Some (Inr (received d), k', s') \<and>
    sk_in s' = r \<and> rx_good s'"
proof -
  let ?body = "tl (delta_wire d)"
  have "sk_in s = [delta_code (d_type d)] @ ?body @ r"
    using wire by (simp add: delta_wire_def)
  from tcp_rx.rx_frame [OF good this] obtain s1 where
    s1: "rm_tcp_rx s 1 = Some (RM_ERR_OK, [delta_code (d_type d)], s1)" "sk_in s1 = ?body @ r" "rx_good s1"
    by auto
  then have run: "remote_rx_element mem_ok k L left y_sz s = remote_rx_fields mem_ok k L left y_sz (d_type d) s1"
    by (simp add: remote_rx_element_def)
  show ?thesis
  proof (cases "d_type d")
    case RM_DELTA_ELEMENT_ZERO_DIFF
    then have "raw_bytes_n d = y_sz" using fits zero by (simp add: delta_fits_def is_zero_diff_def)
    with s1 RM_DELTA_ELEMENT_ZERO_DIFF show ?thesis
      by (cases d) (simp add: run remote_rx_fields_def delta_wire_def received_def)
  next
    case RM_DELTA_ELEMENT_REFERENCE
    then have "sk_in s1 = le_bytes 8 (d_ref d) @ r" "raw_bytes_n d = L" "d_ref d < size_t_mod"
      using s1(2) fits sm(2) by (auto simp: delta_wire_def delta_fits_def)
    with s1 RM_DELTA_ELEMENT_REFERENCE rx_number_wire [OF s1(3), of "d_ref d" r] show ?thesis
      by (cases d) (auto simp: run remote_rx_fields_def received_def)
  next
    case RM_DELTA_ELEMENT_TAIL
    then have "sk_in s1 = le_bytes 8 (d_ref d) @ r" "raw_bytes_n d = left" "d_ref d < size_t_mod"
      using s1(2) fits sm(2) left by (auto simp: delta_wire_def delta_fits_def)
    with s1 RM_DELTA_ELEMENT_TAIL rx_number_wire [OF s1(3), of "d_ref d" r] show ?thesis
      by (cases d) (auto simp: run remote_rx_fields_def received_def)
  next
    case RM_DELTA_ELEMENT_RAW_BYTES
    then obtain bs where bs: "raw_bytes d = Some bs" "length bs = raw_bytes_n d"
      using wf by (auto simp: delta_wf_def)
    then have "sk_in s1 = le_bytes 8 (raw_bytes_n d) @ bs @ r"
      using s1(2) RM_DELTA_ELEMENT_RAW_BYTES by (simp add: delta_wire_def)
    from rx_number_wire [OF s1(3) this sm(1)] obtain s2 where
      s2: "rx_number s1 = Some (Some (raw_bytes_n d), s2)" "sk_in s2 = bs @ r" "rx_good s2" by blast
    from tcp_rx.rx_frame [OF s2(3,2) bs(2)] obtain s3 where
      "rm_tcp_rx s2 (raw_bytes_n d) = Some (RM_ERR_OK, bs, s3)" "sk_in s3 = r" "rx_good s3" by blast
    with s1 s2 bs RM_DELTA_ELEMENT_RAW_BYTES show ?thesis
      by (cases d) (simp add: run remote_rx_fields_def received_def mem_ok_apply)
  qed
qed

text \<open>The reference file: there may be none, and then its content is empty.\<close>

definition y_ok :: "stream option \<Rightarrow> bytes \<Rightarrow> bool" where
  "y_ok f y \<longleftrightarrow> (case f of None \<Rightarrow> y = [] | Some s \<Rightarrow> healthy s \<and> fs_bytes s = y)"

lemma remote_rx_apply_ok:
  assumes "y_ok (x_y x) y" and "x_z x = Some z" and "healthy z" and "length y \<le> off_max"
    and "0 < ctx_L (x_ctx x)" and "delta_wf (ctx_L (x_ctx x)) y d"
    and "rec_by_ref (x_ctx x) + rec_by_raw (x_ctx x) = length (fs_bytes z)"
    and "length (fs_bytes z) + raw_bytes_n d \<le> off_max" and "is_zero_diff d \<longrightarrow> fs_bytes z = []"
  shows "\<exists>y' z'. remote_rx_apply d x = Some (RM_ERR_OK, x\<lparr>x_y := y', x_z := Some z',
        x_ctx := ctx_account d (x_ctx x), x_mutex := mutex_unlock (mutex_lock (x_mutex x))\<rparr>) \<and>
    y_ok y' y \<and> healthy z' \<and> fs_bytes z' = fs_bytes z @ delta_data (ctx_L (x_ctx x)) y d"
proof (cases "x_y x")
  case None
  then have y: "y = []" using assms(1) by (simp add: y_ok_def)
  with assms(5,6) have "d_type d = RM_DELTA_ELEMENT_RAW_BYTES"
    by (cases "d_type d") (auto simp: delta_wf_def)
  with None y rx_apply_delta_ok [of "open_stream []" z "[]" "x_ctx x" "ctx_L (x_ctx x)" d "x_mutex x"] assms
  show ?thesis
    by (cases x) (auto simp: remote_rx_apply_def rm_rx_process_delta_element_def y_ok_def healthy_open)
next
  case (Some f)
  with assms(1) have "healthy f" "fs_bytes f = y" by (auto simp: y_ok_def)
  from rx_apply_delta_ok [OF this(1) assms(3) this(2) assms(4) refl assms(6-9), of "x_mutex x"] Some assms(2)
  show ?thesis
    by (cases x) (fastforce simp: remote_rx_apply_def rm_rx_process_delta_element_def y_ok_def)
qed

text \<open>The loop, on a stream that starts with the elements of a file of \<open>n\<close> bytes.\<close>

lemma remote_rx_loop_ok:
  assumes "\<forall>d\<in>set ds. delta_wf L y d \<and> (is_zero_diff d \<longrightarrow> n = y_sz)" and "deltas_fit L n p ds"
    and "p + sum_list (map raw_bytes_n ds) = n" and "n \<le> off_max" and "length y \<le> off_max" and "0 < L"
    and "rx_good (x_sock x)" and "sk_in (x_sock x) = concat (map delta_wire ds) @ r"
    and "y_ok (x_y x) y" and "x_z x = Some z" and "healthy z" and "ctx_L (x_ctx x) = L"
    and "rec_by_ref (x_ctx x) + rec_by_raw (x_ctx x) = p" and "length (fs_bytes z) = p"
    and "x_left x = n - p" and "x_mutex x = Some Mutex_Free"
  shows "\<exists>x' z'. remote_rx_loop mem_ok y_sz x = Some (Rx_Done, x') \<and> y_ok (x_y x') y \<and>
    x_z x' = Some z' \<and> healthy z' \<and> fs_bytes z' = fs_bytes z @ deltas_data L y ds \<and>
    x_mutex x' = Some Mutex_Free \<and> sk_in (x_sock x') = r \<and>
    rec_by_ref (x_ctx x') + rec_by_raw (x_ctx x') = n"
  using assms
proof (induction ds arbitrary: p x z)
  case Nil
  then show ?case by (subst remote_rx_loop.simps) auto
next
  case (Cons d ds)
  have wf: "delta_wf L y d" and pos: "0 < raw_bytes_n d" and fits: "delta_fits L n p d"
    and zero: "is_zero_diff d \<Longrightarrow> n = y_sz"
    using Cons.prems(1,2) by (auto simp: delta_wf_def)
  have sum: "p + raw_bytes_n d + sum_list (map raw_bytes_n ds) = n" using Cons.prems(3) by simp
  have small: "raw_bytes_n d \<le> off_max" using sum Cons.prems(4) by simp
  have left: "x_left x \<noteq> 0" using Cons.prems(15) sum pos by simp
  have "sk_in (x_sock x) = delta_wire d @ concat (map delta_wire ds) @ r"
    using Cons.prems(8) by simp
  then obtain k s where el: "remote_rx_element mem_ok (x_k x) L (x_left x) y_sz (x_sock x) =
      Some (Inr (received d), k, s)" "sk_in s = concat (map delta_wire ds) @ r" "rx_good s"
    using remote_rx_element_wire [OF Cons.prems(7) _ wf _ _ fits Cons.prems(15) _ zero, of _ "x_k x"]
      delta_wf_small [OF wf Cons.prems(6,5) small] small off_max_size_t sum by force
  let ?x = "x\<lparr>x_k := k, x_sock := s\<rparr>"
  have "is_zero_diff d \<longrightarrow> fs_bytes z = []"
    using fits Cons.prems(14) by (auto simp: delta_fits_def is_zero_diff_def)
  with remote_rx_apply_ok [of ?x y z "received d"] Cons.prems wf sum obtain y' z' where
    ap: "remote_rx_apply (received d) ?x = Some (RM_ERR_OK, ?x\<lparr>x_y := y', x_z := Some z',
        x_ctx := ctx_account d (x_ctx x), x_mutex := Some Mutex_Free\<rparr>)"
      "y_ok y' y" "healthy z'" "fs_bytes z' = fs_bytes z @ delta_data L y d" by auto
  let ?x' = "?x\<lparr>x_y := y', x_z := Some z', x_ctx := ctx_account d (x_ctx x), x_mutex := Some Mutex_Free,
      x_left := left_after (received d) (x_left x)\<rparr>"
  have run: "remote_rx_loop mem_ok y_sz x = remote_rx_loop mem_ok y_sz ?x'"
    using left el(1) ap(1) Cons.prems(12) by (subst remote_rx_loop.simps) simp
  have after: "left_after (received d) (x_left x) = n - (p + raw_bytes_n d)"
    using fits sum Cons.prems(4,15) off_max_size_t
    by (auto simp: left_after_def delta_fits_def sz_simps split: rm_delta_element_type.splits)
  have "\<exists>x' z''. remote_rx_loop mem_ok y_sz ?x' = Some (Rx_Done, x') \<and> y_ok (x_y x') y \<and>
    x_z x' = Some z'' \<and> healthy z'' \<and> fs_bytes z'' = fs_bytes z' @ deltas_data L y ds \<and>
    x_mutex x' = Some Mutex_Free \<and> sk_in (x_sock x') = r \<and>
    rec_by_ref (x_ctx x') + rec_by_raw (x_ctx x') = n"
  proof (rule Cons.IH [of "p + raw_bytes_n d"])
    show "rec_by_ref (x_ctx ?x') + rec_by_raw (x_ctx ?x') = p + raw_bytes_n d"
      using ctx_account_total [of "x_ctx x" d] Cons.prems(13) sum Cons.prems(4) off_max_size_t by simp
    show "length (fs_bytes z') = p + raw_bytes_n d"
      using ap(4) Cons.prems(14) length_delta_data [OF wf] by simp
  qed (use Cons.prems el ap after sum in auto)
  with run ap(4) show ?case by simp
qed

section \<open>Properties\<close>

lemma remote_rx_loop_y:
  "remote_rx_loop mem y_sz x = Some (e, x') \<Longrightarrow> x_y x' = None \<longleftrightarrow> x_y x = None"
proof (induction mem y_sz x rule: remote_rx_loop.induct)
  case (1 mem y_sz x)
  have keep: "remote_rx_apply d x1 = Some (err, x2) \<Longrightarrow> x_y x2 = None \<longleftrightarrow> x_y x1 = None" for d x1 err x2
    by (auto simp: remote_rx_apply_def split: option.splits if_splits prod.splits)
  show ?case
  proof (cases "x_left x = 0")
    case True
    with 1 show ?thesis by (subst (asm) remote_rx_loop.simps) auto
  next
    case False
    note unfold = remote_rx_loop.simps [of mem y_sz x]
    show ?thesis
    proof (cases "remote_rx_element mem (x_k x) (ctx_L (x_ctx x)) (x_left x) y_sz (x_sock x)")
      case None
      with 1(2) False show ?thesis by (simp add: unfold)
    next
      case (Some r)
      obtain a k s where r: "r = (a, k, s)" by (cases r)
      show ?thesis
      proof (cases a)
        case (Inl b)
        with 1(2) False Some r show ?thesis by (auto simp: unfold)
      next
        case (Inr d)
        let ?x = "x\<lparr>x_k := k, x_sock := s\<rparr>"
        show ?thesis
        proof (cases "remote_rx_apply d ?x")
          case None
          with 1(2) False Some r Inr show ?thesis by (auto simp: unfold)
        next
          case (Some q)
          obtain err x1 where q: "q = (err, x1)" by (cases q)
          have "x_y x1 = None \<longleftrightarrow> x_y x = None" using keep [of d ?x err x1] Some q by simp
          moreover have "x_y x' = None \<longleftrightarrow> x_y x1 = None" if "err = RM_ERR_OK"
            using 1(1) [OF False \<open>_ = Some r\<close> r [symmetric] Inr refl Some q [symmetric]] that 1(2) False Some q
              \<open>_ = Some r\<close> r Inr by (simp add: unfold)
          ultimately show ?thesis
            using 1(2) False Some q \<open>_ = Some r\<close> r Inr by (auto simp: unfold split: if_splits)
        qed
      qed
    qed
  qed
qed

lemma delta_rx_remote_ok:
  assumes "rs_prvt s = Some p" and "rs_type s = RM_PUSH_RX" and "rp_bytes p = length x" and "0 < L"
    and "length x \<le> off_max" and "length y \<le> off_max"
    and "y_ok (rs_y s) y" and "rs_y s = None \<Longrightarrow> rp_flags p AND RM_BIT_4 \<noteq> 0"
    and "rs_z s = Some z" and "healthy z" and "fs_bytes z = []" and "rs_mutex s = Mutex_Free"
    and "ctx_L (rs_ctx s) = L" and "rec_by_ref (rs_ctx s) = 0" and "rec_by_raw (rs_ctx s) = 0"
    and "deltas_upto L y x (length x) ds" and "\<forall>d\<in>set ds. is_zero_diff d \<longrightarrow> length x = rs_y_sz s"
    and "rx_good c" and "sk_in c = concat (map delta_wire ds) @ r"
  shows "\<exists>s' z'. rm_session_delta_rx_f_remote mem_ok (Some c) s = Some (Some s') \<and>
    rs_z s' = Some z' \<and> healthy z' \<and> (rs_y s' = None \<longleftrightarrow> rs_y s = None) \<and> fs_bytes z' = x \<and> y_ok (rs_y s') y \<and> rs_mutex s' = Mutex_Free \<and>
    (\<exists>p'. rs_prvt s' = Some p' \<and> rp_status p' = RM_RX_STATUS_OK \<and> \<not> rp_listening p') \<and>
    rec_by_ref (rs_ctx s') + rec_by_raw (rs_ctx s') = length x"
proof -
  let ?x = "\<lparr>x_y = rs_y s, x_z = rs_z s, x_ctx = rs_ctx s, x_mutex = Some (rs_mutex s), x_sock = c,
    x_left = length x, x_k = 0\<rparr>"
  have ds: "deltas_data L y ds = x" "\<forall>d\<in>set ds. delta_wf L y d" "deltas_fit L (length x) 0 ds"
    using assms(16) by (simp_all add: deltas_upto_def)
  then have sum: "sum_list (map raw_bytes_n ds) = length x" using length_deltas_data [of ds L y] by simp
  have "\<exists>x' z'. remote_rx_loop mem_ok (rs_y_sz s) ?x = Some (Rx_Done, x') \<and> y_ok (x_y x') y \<and>
    x_z x' = Some z' \<and> healthy z' \<and> fs_bytes z' = fs_bytes z @ deltas_data L y ds \<and>
    x_mutex x' = Some Mutex_Free \<and> sk_in (x_sock x') = r \<and>
    rec_by_ref (x_ctx x') + rec_by_raw (x_ctx x') = length x"
    using ds sum assms by (intro remote_rx_loop_ok [where p = 0]) auto
  then obtain x' z' where loop: "remote_rx_loop mem_ok (rs_y_sz s) ?x = Some (Rx_Done, x')"
      "y_ok (x_y x') y" "x_z x' = Some z'" "healthy z'" "fs_bytes z' = x" "x_mutex x' = Some Mutex_Free"
      "rec_by_ref (x_ctx x') + rec_by_raw (x_ctx x') = length x"
    using ds(1) assms(11) by auto
  show ?thesis
  proof (cases "length x = 0")
    case True
    with assms show ?thesis
      by (auto simp: rm_session_delta_rx_f_remote_def delta_rx_finish_def Let_def)
  next
    case False
    with assms loop remote_rx_loop_y [OF loop(1)] show ?thesis
      by (auto simp: rm_session_delta_rx_f_remote_def delta_rx_finish_def Let_def)
  qed
qed


definition sample_rx :: "bytes \<Rightarrow> nat \<Rightarrow> rx_session" where
  "sample_rx y n = \<lparr>rs_type = RM_PUSH_RX, rs_prvt = Some \<lparr>rp_flags = 0, rp_bytes = n,
     rp_status = RM_RX_STATUS_INTERNAL_ERR, rp_listening = True\<rparr>, rs_y = Some (open_stream y),
     rs_y_sz = length y, rs_z = Some (open_stream []), rs_ctx = ctx_zero\<lparr>ctx_L := 2\<rparr>,
     rs_mutex = Mutex_Free\<rparr>"

definition sample_conn :: "bytes \<Rightarrow> bool \<Rightarrow> sock" where
  "sample_conn bs closed = \<lparr>sk_in = bs, sk_closed = closed, sk_rev = [IO_Chunk 1, IO_Intr], sk_out = [],
     sk_wev = []\<rparr>"




text \<open>
  A zero difference is not safe over the wire when the reference file is longer than the file
  pushed: the receiver takes the size of its own file for the number of bytes, ends with status OK,
  and its result is the whole reference file instead of the beginning the sender matched.
\<close>
theorem remote_zero_diff_takes_all:
  assumes "rs_prvt s = Some p" and "rs_type s = RM_PUSH_RX" and "0 < rp_bytes p"
    and "rs_y s = Some fy" and "healthy fy" and "fs_bytes fy \<noteq> []"
    and "rs_y_sz s = length (fs_bytes fy)" and "length (fs_bytes fy) \<le> off_max"
    and "rs_z s = Some z" and "healthy z" and "fs_bytes z = []"
    and "rec_by_ref (rs_ctx s) = 0" and "rec_by_raw (rs_ctx s) = 0" and "rx_good c"
    and "sk_in c = delta_wire \<lparr>d_type = RM_DELTA_ELEMENT_ZERO_DIFF, d_ref = r, raw_bytes = b, raw_bytes_n = rp_bytes p\<rparr>"
  shows "\<exists>s' z' p'. rm_session_delta_rx_f_remote mem (Some c) s = Some (Some s') \<and>
    rs_prvt s' = Some p' \<and> rp_status p' = RM_RX_STATUS_OK \<and>
    rs_z s' = Some z' \<and> fs_bytes z' = fs_bytes fy"
proof -
  let ?d = "\<lparr>d_type = RM_DELTA_ELEMENT_ZERO_DIFF, d_ref = 0, raw_bytes = None, raw_bytes_n = rs_y_sz s\<rparr>"
  have "sk_in c = [2] @ []" using assms(15) by (simp add: delta_wire_def)
  from tcp_rx.rx_frame [OF assms(14) this] obtain c1 where
    c1: "rm_tcp_rx c 1 = Some (RM_ERR_OK, [2], c1)" by auto
  have el: "remote_rx_element mem k L left (rs_y_sz s) c = Some (Inr ?d, k, c1)" for k L left
    using c1 by (simp add: remote_rx_element_def remote_rx_fields_def delta_of_code_def)
  let ?x = "\<lparr>x_y = rs_y s, x_z = rs_z s, x_ctx = rs_ctx s, x_mutex = Some (rs_mutex s), x_sock = c1,
    x_left = rp_bytes p, x_k = 0\<rparr>"
  have wf: "delta_wf (ctx_L (rs_ctx s)) (fs_bytes fy) ?d"
    using assms(6,7) by (simp add: delta_wf_def)
  from rx_apply_delta_ok [OF assms(5,10) refl assms(8) refl wf, of "Some (rs_mutex s)"] assms
  obtain y' z' where ap: "rx_apply_delta ?d fy z (rs_ctx s) (Some (rs_mutex s)) =
      (RM_ERR_OK, y', z', ctx_account ?d (rs_ctx s), mutex_unlock (mutex_lock (Some (rs_mutex s))))"
      "fs_bytes z' = fs_bytes fy"
    by (auto simp: delta_data_def)
  have "remote_rx_apply ?d ?x = Some (RM_ERR_OK, ?x\<lparr>x_y := Some y', x_z := Some z',
      x_ctx := ctx_account ?d (rs_ctx s), x_mutex := mutex_unlock (mutex_lock (Some (rs_mutex s)))\<rparr>)"
    using ap(1) assms(4,9) by (simp add: remote_rx_apply_def rm_rx_process_delta_element_def)
  then show ?thesis
    using assms(1-4) ap(2) el
    by (simp add: rm_session_delta_rx_f_remote_def remote_rx_loop.simps delta_rx_finish_def
        left_after_def Let_def)
qed

theorem remote_zero_diff_takes_all_witness:
  "\<exists>s' z' p'. rm_session_delta_rx_f_remote mem_ok (Some (sample_conn [2] True)) (sample_rx [1, 2, 3] 2) =
      Some (Some s') \<and> rs_prvt s' = Some p' \<and> rp_status p' = RM_RX_STATUS_OK \<and>
     rs_z s' = Some z' \<and> fs_bytes z' = [1, 2, 3]"
proof -
  have "rs_prvt (sample_rx [1, 2, 3] 2) = Some \<lparr>rp_flags = 0, rp_bytes = 2,
      rp_status = RM_RX_STATUS_INTERNAL_ERR, rp_listening = True\<rparr>" by (simp add: sample_rx_def)
  from remote_zero_diff_takes_all [OF this, of "open_stream [1, 2, 3]" "open_stream []" "sample_conn [2] True"]
  show ?thesis
    by (auto simp: sample_rx_def sample_conn_def rx_good_def off_max_def ctx_zero_def delta_wire_def)
qed

end
