(* ===== verification/RM_Fifo.thy ===== *)
theory RM_Fifo
  imports RM_Defs
begin

text \<open>
  The queue of the twlist submodule (\<open>twfifo_enqueue\<close>, \<open>twfifo_dequeue\<close>, \<open>twlist_empty\<close>), which is
  not part of the repository: a record of operations, and the first-in first-out behaviour the code
  relies on. Delta elements and work items both go through such a queue.
\<close>

record ('a, 'f) twfifo =
  fq_init :: 'f
  fq_enqueue :: "'a \<Rightarrow> 'f \<Rightarrow> 'f"
  fq_dequeue :: "'f \<Rightarrow> 'a option \<times> 'f"
  fq_list :: "'f \<Rightarrow> 'a list"

definition fifo_ok :: "('a, 'f) twfifo \<Rightarrow> bool" where
  "fifo_ok fq \<longleftrightarrow> fq_list fq (fq_init fq) = [] \<and>
     (\<forall>x q. fq_list fq (fq_enqueue fq x q) = fq_list fq q @ [x]) \<and>
     (\<forall>q. fst (fq_dequeue fq q) = (case fq_list fq q of [] \<Rightarrow> None | x # _ \<Rightarrow> Some x) \<and>
          fq_list fq (snd (fq_dequeue fq q)) = tl (fq_list fq q))"

text \<open>An instance: lists.\<close>

definition fifo_lists :: "('a, 'a list) twfifo" where
  "fifo_lists = \<lparr>fq_init = [], fq_enqueue = (\<lambda>x q. q @ [x]),
     fq_dequeue = (\<lambda>q. (case q of [] \<Rightarrow> None | x # _ \<Rightarrow> Some x, tl q)), fq_list = (\<lambda>q. q)\<rparr>"

lemma fifo_lists_ok: "fifo_ok fifo_lists"
  by (auto simp: fifo_ok_def fifo_lists_def)

lemma fifo_simps:
  assumes "fifo_ok fq"
  shows "fq_list fq (fq_init fq) = []" "fq_list fq (fq_enqueue fq x q) = fq_list fq q @ [x]"
  using assms by (simp_all add: fifo_ok_def)

lemma fifo_dequeue:
  assumes "fifo_ok fq" and "fq_dequeue fq q = (r, q')"
  shows "r = None \<longleftrightarrow> fq_list fq q = []" and "r = None \<Longrightarrow> fq_list fq q' = []"
    and "r = Some x \<Longrightarrow> fq_list fq q = x # fq_list fq q'"
proof -
  have "r = (case fq_list fq q of [] \<Rightarrow> None | x # _ \<Rightarrow> Some x)" "fq_list fq q' = tl (fq_list fq q)"
    using assms by (auto simp: fifo_ok_def dest!: spec [of _ q])
  then show "r = None \<longleftrightarrow> fq_list fq q = []" "r = None \<Longrightarrow> fq_list fq q' = []"
    "r = Some x \<Longrightarrow> fq_list fq q = x # fq_list fq q'"
    by (cases "fq_list fq q"; simp)+
qed

lemma fifo_dequeue_Cons:
  assumes "fifo_ok fq" and "fq_list fq q = x # xs"
  shows "\<exists>q'. fq_dequeue fq q = (Some x, q') \<and> fq_list fq q' = xs"
proof -
  obtain r q' where d: "fq_dequeue fq q = (r, q')" by (metis surj_pair)
  from fifo_dequeue(1) [OF assms(1) d] assms(2) obtain y where "r = Some y" by auto
  with fifo_dequeue(3) [OF assms(1) d this] d assms(2) show ?thesis by simp
qed

lemma fifo_dequeue_Nil:
  assumes "fifo_ok fq" and "fq_list fq q = []"
  shows "\<exists>q'. fq_dequeue fq q = (None, q') \<and> fq_list fq q' = []"
proof -
  obtain r q' where d: "fq_dequeue fq q = (r, q')" by (metis surj_pair)
  with fifo_dequeue(1,2) [OF assms(1) d] assms(2) show ?thesis by simp
qed

end
