(* ===== verification/RM_Session.thy ===== *)
theory RM_Session
  imports RM_Wire RM_Fifo
begin

text \<open>
  The two threads of a pushing session: the producer \<open>rm_session_delta_tx_f\<close> runs the rolling
  procedure, whose callback \<open>rm_roll_proc_cb_1\<close> of \<^verbatim>\<open>src/rm.c\<close> puts the delta elements into a queue,
  and the consumer \<open>rm_session_delta_rx_f_local\<close> takes them out and hands them to \<open>delta_rx_f\<close>, which
  reconstructs the file in a local push and transmits the elements in a remote one.
\<close>

section \<open>The producer\<close>

text \<open>The queue of \<open>struct rm_session_push_local\<close> with its mutex, the session mutex and the signals sent.\<close>

record 'f tx_queue =
  tq_queue :: 'f
  tq_mutex :: mutex
  tq_smutex :: mutex
  tq_signals :: nat

text \<open>The accounting of the callback, done only by the transmitter of a remote push.\<close>

definition cb_account :: "rm_delta_e \<Rightarrow> rm_delta_reconstruct_ctx \<Rightarrow> rm_delta_reconstruct_ctx" where
  "cb_account d ctx =
     (case d_type d of
        RM_DELTA_ELEMENT_REFERENCE \<Rightarrow>
          ctx\<lparr>rec_by_ref := sz_add (rec_by_ref ctx) (ctx_L ctx), delta_ref_n := sz_add (delta_ref_n ctx) 1\<rparr>
      | RM_DELTA_ELEMENT_RAW_BYTES \<Rightarrow>
          ctx\<lparr>rec_by_raw := sz_add (rec_by_raw ctx) (raw_bytes_n d), delta_raw_n := sz_add (delta_raw_n ctx) 1\<rparr>
      | RM_DELTA_ELEMENT_ZERO_DIFF \<Rightarrow>
          ctx\<lparr>rec_by_ref := sz_add (rec_by_ref ctx) (raw_bytes_n d), delta_ref_n := sz_add (delta_ref_n ctx) 1,
              rec_by_zero_diff := sz_add (rec_by_zero_diff ctx) (raw_bytes_n d),
              delta_zero_diff_n := sz_add (delta_zero_diff_n ctx) 1\<rparr>
      | RM_DELTA_ELEMENT_TAIL \<Rightarrow>
          ctx\<lparr>rec_by_ref := sz_add (rec_by_ref ctx) (raw_bytes_n d), delta_ref_n := sz_add (delta_ref_n ctx) 1,
              rec_by_tail := sz_add (rec_by_tail ctx) (raw_bytes_n d), delta_tail_n := 1\<rparr>)"

definition lock1 :: "mutex \<Rightarrow> mutex" where
  "lock1 m = the (mutex_lock (Some m))"

definition unlock1 :: "mutex \<Rightarrow> mutex" where
  "unlock1 m = the (mutex_unlock (Some m))"

text \<open>
  \<open>rm_roll_proc_cb_1\<close> for a session of type \<open>t\<close> whose private part is there or not. The result \<open>None\<close>
  is undefined behaviour: the address of a member of a missing private part is not \<open>NULL\<close>.
\<close>

definition rm_roll_proc_cb_1 ::
    "(rm_delta_e, 'f) twfifo \<Rightarrow> rm_session_type \<Rightarrow> bool \<Rightarrow> rm_delta_e option \<Rightarrow> 'f tx_queue sess option \<Rightarrow>
     (rm_error \<times> 'f tx_queue sess option) option" where
  "rm_roll_proc_cb_1 fq t has_prvt de so =
     (case (so, de) of
        (Some s, Some d) \<Rightarrow>
          if t \<noteq> RM_PUSH_LOCAL \<and> t \<noteq> RM_PUSH_TX then Some (RM_ERR_BAD_CALL, so)
          else if \<not> has_prvt then (if t = RM_PUSH_LOCAL then Some (RM_ERR_BAD_CALL, so) else None)
          else
            let q = s_prvt s;
                (ctx, q) = (if t = RM_PUSH_TX
                  then (cb_account d (s_rec_ctx s), q\<lparr>tq_smutex := unlock1 (lock1 (tq_smutex q))\<rparr>)
                  else (s_rec_ctx s, q));
                q = q\<lparr>tq_mutex := lock1 (tq_mutex q)\<rparr>;
                q = q\<lparr>tq_queue := fq_enqueue fq d (tq_queue q), tq_signals := tq_signals q + 1\<rparr>;
                q = q\<lparr>tq_mutex := unlock1 (tq_mutex q)\<rparr>
            in Some (RM_ERR_OK, Some (s\<lparr>s_rec_ctx := ctx, s_prvt := q\<rparr>))
      | _ \<Rightarrow> Some (RM_ERR_BAD_CALL, so))"

text \<open>As the callback of the rolling procedure.\<close>

definition roll_cb :: "(rm_delta_e, 'f) twfifo \<Rightarrow> rm_session_type \<Rightarrow> 'f tx_queue rm_delta_f" where
  "roll_cb fq t = (\<lambda>d s. case rm_roll_proc_cb_1 fq t True (Some d) (Some s) of
      Some (e, Some s') \<Rightarrow> (e, s') | _ \<Rightarrow> (RM_ERR_FAIL, s))"

definition queued :: "(rm_delta_e, 'f) twfifo \<Rightarrow> 'f tx_queue \<Rightarrow> rm_delta_e list" where
  "queued fq q = fq_list fq (tq_queue q)"

lemma sink_roll_cb:
  assumes "fifo_ok fq" and "t = RM_PUSH_LOCAL \<or> t = RM_PUSH_TX"
  shows "sink_ok (roll_cb fq t) (queued fq)"
  using assms by (auto simp: sink_ok_def roll_cb_def rm_roll_proc_cb_1_def Let_def queued_def fifo_simps)

text \<open>
  \<open>rm_session_delta_tx_f\<close>: the status to record, unless the thread leaves without recording one, and
  what the rolling procedure left. Only a remote push passes the mutex of the table.
\<close>

definition rm_session_delta_tx_f ::
    "'h twhash \<Rightarrow> mem_oracle \<Rightarrow> rm_session_type \<Rightarrow> bool \<Rightarrow> (nat \<Rightarrow> 'h) option \<Rightarrow> mutex \<Rightarrow> stream option \<Rightarrow>
     'q rm_delta_f option \<Rightarrow> 'q sess \<Rightarrow> (rm_tx_status option \<times> 'q sess \<times> stream option \<times> mutex) option" where
  "rm_session_delta_tx_f tw mem t has_prvt h hm f_x delta_f s =
     (if \<not> has_prvt \<or> (t \<noteq> RM_PUSH_LOCAL \<and> t \<noteq> RM_PUSH_TX) then Some (None, s, f_x, hm)
      else case rm_rolling_ch_proc tw mem (Some s) h (if t = RM_PUSH_TX then Some hm else None) f_x delta_f 0 of
             None \<Rightarrow> None
           | Some (err, so, fx, m) \<Rightarrow>
               Some (Some (if err \<noteq> RM_ERR_OK then RM_TX_STATUS_ROLLING_PROC_FAIL else RM_TX_STATUS_OK),
                 the so, fx, (case m of None \<Rightarrow> hm | Some m' \<Rightarrow> m')))"

section \<open>Producer, queue and consumer\<close>

text \<open>
  Where the consumer is: before its first lock, at the queue with the mutex, waiting for the signal,
  woken but without the mutex, and at its two ends. \<open>C_Drain\<close> is the only one with the mutex held.
\<close>

datatype consumer_pc = C_Start | C_Drain | C_Wait | C_Woken | C_Done | C_Err rm_rx_status

text \<open>
  \<open>pp_todo\<close> are the elements the rolling procedure has still to hand over, \<open>pp_done\<close> those the
  consumer has applied; \<open>pp_left\<close> is \<open>bytes_to_rx\<close> and \<open>pp_sink\<close> what \<open>delta_rx_f\<close> works on.
\<close>

record ('f, 's) pipe =
  pp_todo :: "rm_delta_e list"
  pp_queue :: 'f
  pp_cons :: consumer_pc
  pp_left :: nat
  pp_sink :: 's
  pp_done :: "rm_delta_e list"

definition consumer_step ::
    "(rm_delta_e, 'f) twfifo \<Rightarrow> (rm_delta_e \<Rightarrow> 's \<Rightarrow> rm_error \<times> 's) \<Rightarrow> ('f, 's) pipe \<Rightarrow> ('f, 's) pipe option" where
  "consumer_step fq f p =
     (case pp_cons p of
        C_Start \<Rightarrow> Some (p\<lparr>pp_cons := (if pp_left p = 0 then C_Done else C_Drain)\<rparr>)
      | C_Drain \<Rightarrow>
          (case fq_dequeue fq (pp_queue p) of
             (Some d, q) \<Rightarrow>
               (case f d (pp_sink p) of (err, s) \<Rightarrow>
                  if err \<noteq> RM_ERR_OK
                  then Some (p\<lparr>pp_queue := q, pp_cons := C_Err RM_RX_STATUS_DELTA_PROC_FAIL, pp_sink := s\<rparr>)
                  else Some (p\<lparr>pp_queue := q, pp_left := sz_sub (pp_left p) (raw_bytes_n d), pp_sink := s,
                         pp_done := pp_done p @ [d]\<rparr>))
           | (None, q) \<Rightarrow> Some (p\<lparr>pp_queue := q, pp_cons := (if 0 < pp_left p then C_Wait else C_Done)\<rparr>))
      | C_Woken \<Rightarrow> Some (p\<lparr>pp_cons := C_Drain\<rparr>)
      | C_Wait \<Rightarrow> None | C_Done \<Rightarrow> None | C_Err _ \<Rightarrow> None)"

definition producer_step :: "(rm_delta_e, 'f) twfifo \<Rightarrow> ('f, 's) pipe \<Rightarrow> ('f, 's) pipe option" where
  "producer_step fq p =
     (case pp_todo p of
        [] \<Rightarrow> None
      | d # ds \<Rightarrow>
          if pp_cons p = C_Drain then None
          else Some (p\<lparr>pp_todo := ds, pp_queue := fq_enqueue fq d (pp_queue p),
                 pp_cons := (if pp_cons p = C_Wait then C_Woken else pp_cons p)\<rparr>))"

inductive pipe_reach ::
    "(rm_delta_e, 'f) twfifo \<Rightarrow> (rm_delta_e \<Rightarrow> 's \<Rightarrow> rm_error \<times> 's) \<Rightarrow> ('f, 's) pipe \<Rightarrow> ('f, 's) pipe \<Rightarrow> bool"
  for fq f p0 where
  start: "pipe_reach fq f p0 p0"
| consume: "pipe_reach fq f p0 p \<Longrightarrow> consumer_step fq f p = Some p' \<Longrightarrow> pipe_reach fq f p0 p'"
| produce: "pipe_reach fq f p0 p \<Longrightarrow> producer_step fq p = Some p' \<Longrightarrow> pipe_reach fq f p0 p'"
| spurious: "pipe_reach fq f p0 p \<Longrightarrow> pp_cons p = C_Wait \<Longrightarrow> pipe_reach fq f p0 (p\<lparr>pp_cons := C_Woken\<rparr>)"

definition pipe_init :: "(rm_delta_e, 'f) twfifo \<Rightarrow> rm_delta_e list \<Rightarrow> nat \<Rightarrow> 's \<Rightarrow> ('f, 's) pipe" where
  "pipe_init fq ds n s = \<lparr>pp_todo = ds, pp_queue = fq_init fq, pp_cons = C_Start, pp_left = n, pp_sink = s,
     pp_done = []\<rparr>"

text \<open>Neither thread can go on.\<close>

definition pipe_stuck ::
    "(rm_delta_e, 'f) twfifo \<Rightarrow> (rm_delta_e \<Rightarrow> 's \<Rightarrow> rm_error \<times> 's) \<Rightarrow> ('f, 's) pipe \<Rightarrow> bool" where
  "pipe_stuck fq f p \<longleftrightarrow> consumer_step fq f p = None \<and> producer_step fq p = None"

text \<open>Every step of a thread makes this smaller, so the threads stop unless they are woken for nothing forever.\<close>

definition pipe_measure :: "(rm_delta_e, 'f) twfifo \<Rightarrow> ('f, 's) pipe \<Rightarrow> nat" where
  "pipe_measure fq p = 4 * length (pp_todo p) + length (fq_list fq (pp_queue p)) +
     (case pp_cons p of C_Start \<Rightarrow> 2 | C_Woken \<Rightarrow> 2 | C_Drain \<Rightarrow> 1 | _ \<Rightarrow> 0)"

lemma consumer_step_measure:
  assumes "fifo_ok fq" and "consumer_step fq f p = Some p'"
  shows "pipe_measure fq p' < pipe_measure fq p"
proof (cases "pp_cons p")
  case C_Drain
  obtain r q where d: "fq_dequeue fq (pp_queue p) = (r, q)" by (metis surj_pair)
  from fifo_dequeue [OF assms(1) d] d assms(2) C_Drain show ?thesis
    by (cases r) (auto simp: consumer_step_def pipe_measure_def split: prod.splits if_splits)
qed (use assms(2) in \<open>auto simp: consumer_step_def pipe_measure_def\<close>)

lemma producer_step_measure:
  assumes "fifo_ok fq" and "producer_step fq p = Some p'"
  shows "pipe_measure fq p' < pipe_measure fq p"
  using assms(2) by (cases "pp_cons p")
    (auto simp: producer_step_def pipe_measure_def fifo_simps [OF assms(1)] split: list.splits)

section \<open>The contract of \<open>delta_rx_f\<close>\<close>

text \<open>
  What the consumer expects of its callback: on a sequence of elements that fits, it takes the next
  one with success, and what it has made of the sequence so far (\<open>done\<close>) is extended by it.
\<close>

definition bytes_of :: "rm_delta_e list \<Rightarrow> nat" where
  "bytes_of ds = sum_list (map raw_bytes_n ds)"

lemma bytes_of_simps [simp]:
  "bytes_of [] = 0" "bytes_of (d # ds) = raw_bytes_n d + bytes_of ds"
  "bytes_of (ds @ es) = bytes_of ds + bytes_of es"
  by (simp_all add: bytes_of_def)

definition pipe_ok ::
    "(rm_delta_e, 'f) twfifo \<Rightarrow> (rm_delta_e list \<Rightarrow> 's \<Rightarrow> bool) \<Rightarrow> rm_delta_e list \<Rightarrow> nat \<Rightarrow> ('f, 's) pipe \<Rightarrow> bool" where
  "pipe_ok fq made ds n p \<longleftrightarrow>
     pp_done p @ fq_list fq (pp_queue p) @ pp_todo p = ds \<and> made (pp_done p) (pp_sink p) \<and>
     pp_left p = n - bytes_of (pp_done p) \<and>
     (pp_cons p = C_Wait \<longrightarrow> fq_list fq (pp_queue p) = [] \<and> 0 < pp_left p) \<and>
     (pp_cons p = C_Done \<longrightarrow> pp_left p = 0) \<and> (\<forall>st. pp_cons p \<noteq> C_Err st)"

locale delta_sink =
  fixes f :: "rm_delta_e \<Rightarrow> 's \<Rightarrow> rm_error \<times> 's"
    and made :: "rm_delta_e list \<Rightarrow> 's \<Rightarrow> bool"
    and fits :: "rm_delta_e list \<Rightarrow> bool"
  assumes fits_prefix: "fits (ds @ es) \<Longrightarrow> fits ds"
    and fits_pos: "fits ds \<Longrightarrow> d \<in> set ds \<Longrightarrow> 0 < raw_bytes_n d"
    and takes: "made ds s \<Longrightarrow> fits (ds @ [d]) \<Longrightarrow> \<exists>s'. f d s = (RM_ERR_OK, s') \<and> made (ds @ [d]) s'"
begin

lemma pipe_ok_consume:
  assumes fq: "fifo_ok fq" and ok: "pipe_ok fq made ds n p" and fits: "fits ds"
    and n: "bytes_of ds \<le> n" "n < size_t_mod" and step: "consumer_step fq f p = Some p'"
  shows "pipe_ok fq made ds n p'"
proof (cases "pp_cons p")
  case C_Drain
  obtain r q where d: "fq_dequeue fq (pp_queue p) = (r, q)" by (metis surj_pair)
  show ?thesis
  proof (cases r)
    case None
    with fifo_dequeue(1,2) [OF fq d] d step C_Drain ok show ?thesis
      by (auto simp: consumer_step_def pipe_ok_def split: if_splits)
  next
    case (Some x)
    then have q: "fq_list fq (pp_queue p) = x # fq_list fq q" using fifo_dequeue(3) [OF fq d] by simp
    then have all: "(pp_done p @ [x]) @ fq_list fq q @ pp_todo p = ds" using ok by (simp add: pipe_ok_def)
    then have "fits (pp_done p @ [x])" using fits fits_prefix by metis
    then obtain s where s: "f x (pp_sink p) = (RM_ERR_OK, s)" "made (pp_done p @ [x]) s"
      using takes [of "pp_done p" "pp_sink p" x] ok by (auto simp: pipe_ok_def)
    have "bytes_of (pp_done p) + raw_bytes_n x \<le> n" using n(1) all by auto
    then have "sz_sub (pp_left p) (raw_bytes_n x) = n - bytes_of (pp_done p @ [x])"
      using ok n(2) by (simp add: pipe_ok_def sz_simps)
    with s d Some step C_Drain all ok show ?thesis
      by (auto simp: consumer_step_def pipe_ok_def)
  qed
qed (use step ok in \<open>auto simp: consumer_step_def pipe_ok_def split: if_splits\<close>)

lemma pipe_ok_reach:
  assumes "pipe_reach fq f (pipe_init fq ds n s) p"
    and "fifo_ok fq" and "made [] s" and "fits ds" and "bytes_of ds \<le> n" and "n < size_t_mod"
  shows "pipe_ok fq made ds n p"
  using assms(1)
proof induction
  case start
  then show ?case using assms(2,3) by (simp add: pipe_ok_def pipe_init_def fifo_simps)
next
  case (consume p p')
  then show ?case using pipe_ok_consume [OF assms(2) _ assms(4-6)] by blast
next
  case (produce p p')
  then show ?case
    by (auto simp: producer_step_def pipe_ok_def fifo_simps [OF assms(2)] split: list.splits if_splits)
qed (auto simp: pipe_ok_def)

text \<open>
  Where the threads can stop: with everything applied, when the elements cover all the bytes that
  are to come, and otherwise with the consumer waiting for an element that nobody produces.
\<close>

lemma pipe_ends:
  assumes "pipe_reach fq f (pipe_init fq ds n s) p"
    and "fifo_ok fq" and "made [] s" and "fits ds" and "bytes_of ds \<le> n" and "n < size_t_mod"
    and "pipe_stuck fq f p"
  shows "(if bytes_of ds = n then pp_cons p = C_Done \<and> pp_done p = ds \<and> pp_todo p = []
          else pp_cons p = C_Wait \<and> pp_done p = ds \<and> 0 < pp_left p) \<and> made (pp_done p) (pp_sink p)"
proof -
  note ok = pipe_ok_reach [OF assms(1-6), unfolded pipe_ok_def]
  have all: "pp_done p @ fq_list fq (pp_queue p) @ pp_todo p = ds" and left: "pp_left p = n - bytes_of (pp_done p)"
    using ok by auto
  have pos: "0 < raw_bytes_n d" if "d \<in> set ds" for d using fits_pos [OF assms(4) that] .
  have "pp_cons p = C_Wait \<or> pp_cons p = C_Done"
    using assms(7) ok
    by (cases "pp_cons p") (auto simp: pipe_stuck_def consumer_step_def split: prod.splits option.splits if_splits)
  then show ?thesis
  proof
    assume w: "pp_cons p = C_Wait"
    then have "pp_todo p = []" using assms(7) by (auto simp: pipe_stuck_def producer_step_def split: list.splits)
    with w ok all left have "pp_done p = ds" "0 < n - bytes_of ds" by auto
    with w ok show ?thesis by auto
  next
    assume d: "pp_cons p = C_Done"
    have split: "bytes_of ds = bytes_of (pp_done p) + bytes_of (fq_list fq (pp_queue p) @ pp_todo p)"
      using all by (metis bytes_of_simps(3))
    have "n \<le> bytes_of (pp_done p)" using d ok by auto
    with split assms(5) have z: "bytes_of (fq_list fq (pp_queue p) @ pp_todo p) = 0" "bytes_of ds = n" by linarith+
    have "fq_list fq (pp_queue p) @ pp_todo p = []"
    proof (cases "fq_list fq (pp_queue p) @ pp_todo p")
      case (Cons e es)
      then have "e \<in> set ds" using all by (metis in_set_conv_decomp)
      with pos [OF this] z(1) Cons show ?thesis by simp
    qed
    with d z ok all show ?thesis by auto
  qed
qed

end

section \<open>The two callbacks\<close>

text \<open>The elements a sink for a file of \<open>n\<close> bytes is given, against the reference file \<open>y\<close>.\<close>

definition seq_fits :: "nat \<Rightarrow> bytes \<Rightarrow> nat \<Rightarrow> rm_delta_e list \<Rightarrow> bool" where
  "seq_fits L y n ds \<longleftrightarrow>
     (\<forall>d\<in>set ds. delta_wf L y d) \<and> deltas_fit L n 0 ds \<and> bytes_of ds \<le> n \<and> n \<le> off_max \<and> length y \<le> off_max"

lemma seq_fits_prefix: "seq_fits L y n (ds @ es) \<Longrightarrow> seq_fits L y n ds"
  by (auto simp: seq_fits_def deltas_fit_append)

lemma seq_fits_pos: "seq_fits L y n ds \<Longrightarrow> d \<in> set ds \<Longrightarrow> 0 < raw_bytes_n d"
  by (auto simp: seq_fits_def delta_wf_def)

text \<open>
  In a local push \<open>delta_rx_f\<close> is \<open>rm_rx_process_delta_element\<close>, on the reference file, the result,
  and the context; no mutex is passed.
\<close>

type_synonym local_state = "stream \<times> stream option \<times> rm_delta_reconstruct_ctx"

definition local_rx_f :: "rm_delta_e \<Rightarrow> local_state \<Rightarrow> rm_error \<times> local_state" where
  "local_rx_f d = (\<lambda>(y, z, ctx). case rm_rx_process_delta_element (Some d) y z (Some ctx) None of
      (err, y', z', c, _) \<Rightarrow> (err, y', z', the c))"

definition local_made :: "nat \<Rightarrow> bytes \<Rightarrow> rm_delta_e list \<Rightarrow> local_state \<Rightarrow> bool" where
  "local_made L y ds = (\<lambda>(fy, fz, ctx). healthy fy \<and> fs_bytes fy = y \<and>
     (\<exists>z. fz = Some z \<and> healthy z \<and> fs_bytes z = deltas_data L y ds) \<and> ctx_L ctx = L \<and>
     rec_by_ref ctx + rec_by_raw ctx = bytes_of ds)"

interpretation local_sink: delta_sink local_rx_f "local_made L y" "seq_fits L y n" for L y n
proof
  fix ds s d
  assume m: "local_made L y ds s" and f: "seq_fits L y n (ds @ [d])"
  obtain fy fz ctx where s: "s = (fy, fz, ctx)" by (cases s) auto
  from m s obtain z where z: "healthy fy" "fs_bytes fy = y" "fz = Some z" "healthy z"
      "fs_bytes z = deltas_data L y ds" "ctx_L ctx = L" "rec_by_ref ctx + rec_by_raw ctx = bytes_of ds"
    by (auto simp: local_made_def)
  have wf: "delta_wf L y d" and fit: "delta_fits L n (bytes_of ds) d" and ws: "\<forall>d\<in>set ds. delta_wf L y d"
    and bound: "bytes_of ds + raw_bytes_n d \<le> n" "n \<le> off_max" "length y \<le> off_max"
    using f by (auto simp: seq_fits_def deltas_fit_append bytes_of_def)
  have len: "length (fs_bytes z) = bytes_of ds"
    using length_deltas_data [OF ws] z(5) by (simp add: bytes_of_def)
  have zero: "is_zero_diff d \<longrightarrow> fs_bytes z = []"
    using fit len by (auto simp: delta_fits_def is_zero_diff_def)
  have "\<exists>y' z'. rx_apply_delta d fy z ctx None =
      (RM_ERR_OK, y', z', ctx_account d ctx, mutex_unlock (mutex_lock None)) \<and>
    healthy y' \<and> healthy z' \<and> fs_bytes y' = y \<and> fs_bytes z' = fs_bytes z @ delta_data L y d"
    using z(6,7) wf len bound zero by (intro rx_apply_delta_ok [OF z(1,4,2)]) auto
  moreover have "rec_by_ref (ctx_account d ctx) + rec_by_raw (ctx_account d ctx) = bytes_of ds + raw_bytes_n d"
    using ctx_account_total [of ctx d] z(7) bound off_max_size_t by simp
  ultimately show "\<exists>s'. local_rx_f d s = (RM_ERR_OK, s') \<and> local_made L y (ds @ [d]) s'"
    using s z by (auto simp: local_rx_f_def local_made_def rm_rx_process_delta_element_def)
qed (rule seq_fits_prefix, assumption, rule seq_fits_pos)

text \<open>In a remote push it is \<open>rm_rx_tx_delta_element\<close>, on the delta connection and the context.\<close>

type_synonym remote_state = "rm_delta_reconstruct_ctx \<times> sock"

definition remote_rx_f :: "rm_delta_e \<Rightarrow> remote_state \<Rightarrow> rm_error \<times> remote_state" where
  "remote_rx_f d = (\<lambda>(ctx, s). case rm_rx_tx_delta_element (Some d) (Some ctx) s of
      (err, c, s') \<Rightarrow> (err, the c, s'))"

definition remote_made :: "bytes \<Rightarrow> rm_delta_e list \<Rightarrow> remote_state \<Rightarrow> bool" where
  "remote_made out ds = (\<lambda>(ctx, s). IO_Err \<notin> set (sk_wev s) \<and>
     sk_out s = out @ concat (map delta_wire ds))"

interpretation remote_sink: delta_sink remote_rx_f "remote_made out" "seq_fits L y n" for out L y n
proof
  fix ds s d
  assume m: "remote_made out ds s"
  obtain ctx sk where s: "s = (ctx, sk)" by (cases s)
  with m have "IO_Err \<notin> set (sk_wev sk)" by (simp add: remote_made_def)
  from tx_delta_ok [OF this, of d ctx] m s
  show "\<exists>s'. remote_rx_f d s = (RM_ERR_OK, s') \<and> remote_made out (ds @ [d]) s'"
    by (auto simp: remote_rx_f_def remote_made_def rm_rx_tx_delta_element_def)
qed (rule seq_fits_prefix, assumption, rule seq_fits_pos)

text \<open>From every state the threads can run until neither can go on.\<close>

lemma pipe_reaches_stuck:
  assumes "fifo_ok fq" and "pipe_reach fq f p0 p"
  shows "\<exists>p'. pipe_reach fq f p0 p' \<and> pipe_stuck fq f p'"
  using assms(2)
proof (induction "pipe_measure fq p" arbitrary: p rule: less_induct)
  case less
  show ?case
  proof (cases "pipe_stuck fq f p")
    case False
    then consider p' where "consumer_step fq f p = Some p'" | p' where "producer_step fq p = Some p'"
      by (auto simp: pipe_stuck_def)
    then show ?thesis
    proof cases
      case 1
      with less.hyps [OF consumer_step_measure [OF assms(1) 1]] less.prems show ?thesis
        using pipe_reach.consume by blast
    next
      case 2
      with less.hyps [OF producer_step_measure [OF assms(1) 2]] less.prems show ?thesis
        using pipe_reach.produce by blast
    qed
  qed (use less.prems in blast)
qed

lemma deltas_upto_seq_fits:
  assumes "deltas_upto L y x (length x) ds" and "length x \<le> off_max" and "length y \<le> off_max"
  shows "seq_fits L y (length x) ds" "bytes_of ds = length x" "deltas_data L y ds = x"
proof -
  show "deltas_data L y ds = x" using assms(1) by (simp add: deltas_upto_def)
  then show "bytes_of ds = length x"
    using assms(1) length_deltas_data [of ds L y] by (simp add: deltas_upto_def bytes_of_def)
  then show "seq_fits L y (length x) ds" using assms by (simp add: seq_fits_def deltas_upto_def)
qed

lemma delta_tx_ok:
  assumes "roll_call_ok tw s h f_x y (roll_cb fq t) (queued fq)" and "t = RM_PUSH_LOCAL \<or> t = RM_PUSH_TX"
    and "queued fq (s_prvt s) = []"
  shows "\<exists>s' fx hm'. rm_session_delta_tx_f tw mem_ok t True h hm (Some f_x) (Some (roll_cb fq t)) s =
      Some (Some RM_TX_STATUS_OK, s', fx, hm') \<and>
    deltas_upto (ctx_L (s_rec_ctx s)) y (fs_bytes f_x) (length (fs_bytes f_x)) (queued fq (s_prvt s'))"
proof -
  obtain r ds where "roll_proc tw mem_ok s h (if t = RM_PUSH_TX then Some hm else None) f_x (roll_cb fq t) 0 =
      Some (Return RM_ERR_OK r)" "queued fq (s_prvt (r_sess r)) = [] @ ds"
      "deltas_upto (ctx_L (s_rec_ctx s)) y (fs_bytes f_x) (length (fs_bytes f_x)) ds"
    using roll_proc_ok [OF assms(1,3)] by blast
  then show ?thesis
    using assms(2) by (auto simp: rm_session_delta_tx_f_def rm_rolling_ch_proc_def)
qed

text \<open>Where the threads of a local push come to: whoever runs when, and for every sufficient sequence of elements.\<close>

lemma local_threads_end:
  assumes "pipe_reach fq local_rx_f (pipe_init fq ds (length x) (f_y, Some f_z, ctx)) p"
    and "pipe_stuck fq local_rx_f p" and "fifo_ok fq"
    and "deltas_upto (ctx_L ctx) (fs_bytes f_y) x (length x) ds" and "length x \<le> off_max"
    and "length (fs_bytes f_y) \<le> off_max" and "healthy f_y" and "healthy f_z" and "fs_bytes f_z = []"
    and "rec_by_ref ctx = 0" and "rec_by_raw ctx = 0"
  shows "pp_cons p = C_Done \<and> pp_done p = ds \<and> fq_list fq (pp_queue p) = [] \<and>
    (\<exists>y' z' ctx'. pp_sink p = (y', Some z', ctx') \<and> healthy z' \<and> fs_bytes z' = x \<and>
       fs_bytes y' = fs_bytes f_y \<and> rec_by_ref ctx' + rec_by_raw ctx' = length x)"
proof -
  note fit = deltas_upto_seq_fits [OF assms(4-6)]
  have made: "local_made (ctx_L ctx) (fs_bytes f_y) [] (f_y, Some f_z, ctx)"
    using assms by (simp add: local_made_def)
  have n: "bytes_of ds \<le> length x" "length x < size_t_mod" using fit assms(5) off_max_size_t by auto
  have e: "pp_cons p = C_Done" "pp_done p = ds" "local_made (ctx_L ctx) (fs_bytes f_y) ds (pp_sink p)"
    using local_sink.pipe_ends [OF assms(1,3) made fit(1) n assms(2)] fit(2) by auto
  moreover have "pp_done p @ fq_list fq (pp_queue p) @ pp_todo p = ds"
    using local_sink.pipe_ok_reach [OF assms(1,3) made fit(1) n] by (simp add: pipe_ok_def)
  ultimately show ?thesis using fit by (auto simp: local_made_def split: prod.splits)
qed

text \<open>A session with an empty queue.\<close>

definition sample_tx :: "rm_delta_e list tx_queue sess" where
  "sample_tx = \<lparr>s_rec_ctx = ctx_zero\<lparr>ctx_L := 1, send_threshold := 1\<rparr>, s_prvt = \<lparr>tq_queue = [],
     tq_mutex = Mutex_Free, tq_smutex = Mutex_Free, tq_signals = 0\<rparr>\<rparr>"

lemma sample_tx_simps [simp]:
  "queued fifo_lists (s_prvt sample_tx) = []" "ctx_L (s_rec_ctx sample_tx) = 1"
  by (simp_all add: sample_tx_def queued_def fifo_lists_def)

lemma roll_call_ok_sample_tx:
  assumes "t = RM_PUSH_LOCAL \<or> t = RM_PUSH_TX"
  shows "roll_call_ok tw_lists sample_tx (Some (\<lambda>_. block_table 1 [1, 1])) (open_stream [2, 1]) [1, 1]
    (roll_cb fifo_lists t) (queued fifo_lists)"
  unfolding sample_tx_def by (rule roll_call_ok_sample [OF sink_roll_cb [OF fifo_lists_ok assms]])

section \<open>Properties\<close>

text \<open>
  C6. The threads of a local push rebuild the file: the producer ends with status OK, and whatever the
  interleaving of producer and consumer and whatever spurious wake-ups, the two threads cannot
  deadlock: they can always run until neither can go on, and then the consumer has ended normally, has
  applied every element the producer queued, in order, and the result file is exactly \<open>x\<close>. What is asked of
  the call (\<open>roll_call_ok\<close>): a readable file that is not empty, sensible sizes, a table that holds only blocks of
  \<open>y\<close>, checksums that tell the blocks of the two files apart, and that \<open>y\<close> begins with \<open>x\<close> if one of its blocks is
  all of \<open>x\<close>: the beginning is what a zero difference copies.
\<close>
theorem local_threads_reconstruct:
  assumes "roll_call_ok tw s h f_x y (roll_cb fq RM_PUSH_LOCAL) (queued fq)" and "fifo_ok fq"
    and "queued fq (s_prvt s) = []" and "healthy f_y" and "fs_bytes f_y = y" and "length y \<le> off_max"
    and "healthy f_z" and "fs_bytes f_z = []"
    and "ctx_L ctx = ctx_L (s_rec_ctx s)" and "rec_by_ref ctx = 0" and "rec_by_raw ctx = 0"
  shows "\<exists>s' fx hm'. rm_session_delta_tx_f tw mem_ok RM_PUSH_LOCAL True h hm (Some f_x)
      (Some (roll_cb fq RM_PUSH_LOCAL)) s = Some (Some RM_TX_STATUS_OK, s', fx, hm') \<and>
    (let p0 = pipe_init fq (queued fq (s_prvt s')) (length (fs_bytes f_x)) (f_y, Some f_z, ctx) in
      (\<exists>p. pipe_reach fq local_rx_f p0 p \<and> pipe_stuck fq local_rx_f p) \<and>
      (\<forall>p. pipe_reach fq local_rx_f p0 p \<longrightarrow> pipe_stuck fq local_rx_f p \<longrightarrow>
         pp_cons p = C_Done \<and> pp_done p = queued fq (s_prvt s') \<and>
         (\<exists>y' z' ctx'. pp_sink p = (y', Some z', ctx') \<and> fs_bytes z' = fs_bytes f_x \<and> fs_bytes y' = y \<and>
            rec_by_ref ctx' + rec_by_raw ctx' = length (fs_bytes f_x))))"
proof -
  have x: "length (fs_bytes f_x) \<le> off_max" using assms(1) by (simp add: roll_call_ok_def Let_def)
  obtain s' fx hm' where tx: "rm_session_delta_tx_f tw mem_ok RM_PUSH_LOCAL True h hm (Some f_x)
      (Some (roll_cb fq RM_PUSH_LOCAL)) s = Some (Some RM_TX_STATUS_OK, s', fx, hm')"
      and up: "deltas_upto (ctx_L ctx) (fs_bytes f_y) (fs_bytes f_x) (length (fs_bytes f_x)) (queued fq (s_prvt s'))"
    using delta_tx_ok [OF assms(1) _ assms(3), of hm] assms(5,9) by auto
  let ?p0 = "pipe_init fq (queued fq (s_prvt s')) (length (fs_bytes f_x)) (f_y, Some f_z, ctx)"
  have "pp_cons p = C_Done \<and> pp_done p = queued fq (s_prvt s') \<and>
         (\<exists>y' z' ctx'. pp_sink p = (y', Some z', ctx') \<and> fs_bytes z' = fs_bytes f_x \<and> fs_bytes y' = y \<and>
            rec_by_ref ctx' + rec_by_raw ctx' = length (fs_bytes f_x))"
    if "pipe_reach fq local_rx_f ?p0 p" "pipe_stuck fq local_rx_f p" for p
    using local_threads_end [OF that assms(2) up x _ assms(4,7,8,10,11)] assms(5,6) by auto
  with tx pipe_reaches_stuck [OF assms(2) pipe_reach.start, of local_rx_f ?p0] show ?thesis
    by (auto simp: Let_def)
qed

theorem local_threads_reconstruct_witness:
  "\<exists>ds p z' y' ctx'. pipe_reach fifo_lists local_rx_f (pipe_init fifo_lists ds 2
       (open_stream [1, 1], Some (open_stream []), ctx_zero\<lparr>ctx_L := 1\<rparr>)) p \<and>
     pp_cons p = C_Done \<and> pp_sink p = (y', Some z', ctx') \<and> fs_bytes z' = [2, 1]"
proof -
  let ?c = "ctx_zero\<lparr>ctx_L := 1\<rparr>"
  have c: "ctx_L ?c = 1" "rec_by_ref ?c = 0" "rec_by_raw ?c = 0" by (simp_all add: ctx_zero_def)
  have two: "length (fs_bytes (open_stream [2, 1])) = 2" by simp
  from local_threads_reconstruct [OF roll_call_ok_sample_tx [OF disjI1 [OF refl]] fifo_lists_ok,
      of "open_stream [1, 1]" "open_stream []" ?c Mutex_Free, unfolded two] c
  show ?thesis by (simp add: Let_def healthy_open off_max_def del: One_nat_def) metis
qed



text \<open>
  C30. A producer that fails early makes the consumer wait forever: when the elements it has queued
  cover fewer bytes than the file, every run of the two threads ends with the consumer asleep, all
  elements applied and bytes still missing; it never ends, so joining it never returns.
\<close>
theorem failed_producer_blocks_consumer:
  assumes "fifo_ok fq" and "seq_fits (ctx_L ctx) y n ds" and "bytes_of ds < n"
    and "healthy f_y" and "fs_bytes f_y = y" and "healthy f_z" and "fs_bytes f_z = []"
    and "rec_by_ref ctx = 0" and "rec_by_raw ctx = 0"
  shows "let p0 = pipe_init fq ds n (f_y, Some f_z, ctx) in
    (\<exists>p. pipe_reach fq local_rx_f p0 p \<and> pipe_stuck fq local_rx_f p) \<and>
    (\<forall>p. pipe_reach fq local_rx_f p0 p \<longrightarrow> pp_cons p \<noteq> C_Done \<and>
       (pipe_stuck fq local_rx_f p \<longrightarrow> pp_cons p = C_Wait \<and> pp_done p = ds \<and> pp_left p = n - bytes_of ds))"
proof -
  let ?p0 = "pipe_init fq ds n (f_y, Some f_z, ctx)"
  have made: "local_made (ctx_L ctx) y [] (f_y, Some f_z, ctx)" using assms by (simp add: local_made_def)
  have n: "bytes_of ds \<le> n" "n < size_t_mod" using assms(2,3) off_max_size_t by (auto simp: seq_fits_def)
  have "pp_cons p \<noteq> C_Done \<and>
       (pipe_stuck fq local_rx_f p \<longrightarrow> pp_cons p = C_Wait \<and> pp_done p = ds \<and> pp_left p = n - bytes_of ds)"
    if p: "pipe_reach fq local_rx_f ?p0 p" for p
  proof -
    note ok = local_sink.pipe_ok_reach [OF p assms(1) made assms(2) n, unfolded pipe_ok_def]
    then have "bytes_of (pp_done p) \<le> bytes_of ds" by (metis bytes_of_simps(3) le_add1)
    with ok assms(3) have "pp_cons p \<noteq> C_Done" by auto
    with local_sink.pipe_ends [OF p assms(1) made assms(2) n] ok assms(3) show ?thesis by auto
  qed
  with pipe_reaches_stuck [OF assms(1) pipe_reach.start, of local_rx_f ?p0] show ?thesis
    by (auto simp: Let_def)
qed

theorem failed_producer_blocks_consumer_witness:
  "\<exists>p. pipe_reach fifo_lists local_rx_f (pipe_init fifo_lists [] 1
      (open_stream [], Some (open_stream []), ctx_zero\<lparr>ctx_L := 1\<rparr>)) p \<and>
    pp_cons p = C_Wait \<and> pp_left p = 1"
  using failed_producer_blocks_consumer [OF fifo_lists_ok, of "ctx_zero\<lparr>ctx_L := 1\<rparr>" "[]" 1 "[]"
      "open_stream []" "open_stream []"]
  by (auto simp: Let_def healthy_open seq_fits_def off_max_def ctx_zero_def)

end
