(* ===== verification/RM_Buffers.thy ===== *)
theory RM_Buffers
  imports RM_RollEnds RM_Session
begin

text \<open>
  The two buffers of the rolling checksum procedure of \<^verbatim>\<open>src/rm.c\<close>: the window and the literal bytes. A
  return from inside the loop gives back none of them, and nobody else can. The lemmas say that this never happens when
  success is returned, nor when all bytes of the file have been handed over; the last section carries this
  over to the producer thread \<open>rm_session_delta_tx_f\<close>.
\<close>

section \<open>Success\<close>

text \<open>
  Success is reported by the two ends of the procedure only, and both give back the two buffers. A return from
  inside the loop gives back none.
\<close>

definition no_ok :: "'r step \<Rightarrow> bool" where
  "no_ok r = (case r of Return e _ \<Rightarrow> e \<noteq> RM_ERR_OK | _ \<Rightarrow> True)"

lemma no_ok_simps [simp]:
  "no_ok (Continue s)" "no_ok (Copy_Tail s)" "no_ok Undefined" "no_ok (Return e s) = (e \<noteq> RM_ERR_OK)"
  by (simp_all add: no_ok_def)

lemma no_ok_then_do: "no_ok r \<Longrightarrow> (\<And>s. no_ok (g s)) \<Longrightarrow> no_ok (then_do r g)"
  by (cases r) (simp_all add: then_do_def)

lemma roll_tx_no_ok: "err \<noteq> RM_ERR_OK \<Longrightarrow> no_ok (roll_tx env err type ref raw n s)"
  by (simp add: roll_tx_def Let_def split: prod.split)

lemma roll_flush_no_ok: "no_ok (roll_flush env ref s)"
  by (auto simp: roll_flush_def intro!: no_ok_then_do roll_tx_no_ok)

lemma roll_bucket_no_ok: "no_ok (roll_bucket es s)"
proof (induction es arbitrary: s)
  case (Cons e es)
  then show ?case by (simp add: Let_def split: prod.split)
qed simp

lemma roll_iter_no_ok: "no_ok (roll_iter env s)"
proof -
  have "no_ok (roll_window env t)" "no_ok (roll_shift env t)" "no_ok (roll_raw_byte t)"
      "no_ok (roll_raw_alloc env t)" for t
    by (simp_all add: roll_window_def roll_shift_def roll_raw_byte_def roll_raw_alloc_def Let_def split: prod.split)
  moreover have "no_ok (roll_lookup env t)" for t
    by (auto simp: roll_lookup_def Let_def intro!: no_ok_then_do roll_bucket_no_ok split: option.split)
  moreover have "no_ok (roll_raw_store env t)" for t
    by (auto simp: roll_raw_store_def Let_def roll_flush_no_ok split: option.split)
  moreover have "no_ok (roll_emit_match env t)" for t
    by (auto simp: roll_emit_match_def intro!: no_ok_then_do roll_flush_no_ok roll_tx_no_ok)
  ultimately show ?thesis
    by (auto simp: roll_iter_def roll_emit_raw_def intro!: no_ok_then_do)
qed

lemma roll_loop_no_ok:
  assumes "roll_loop env s = Some r"
  shows "no_ok r"
proof (rule roll_loop.raw_induct [OF _ assms])
  fix loop env s r
  assume "\<And>env s r. loop env s = Some r \<Longrightarrow> no_ok r"
    and "(case roll_iter env s of Continue s' \<Rightarrow> if 0 < r_send_left s' then loop env s' else Some (Continue s')
      | r \<Rightarrow> Some r) = Some r"
  with roll_iter_no_ok [of env s] show "no_ok r"
    by (cases "roll_iter env s") (auto split: if_splits, metis no_ok_simps(1))
qed

lemma roll_copy_tail_left:
  "roll_copy_tail env all a b s = Return RM_ERR_OK s' \<Longrightarrow> r_buf s' = [] \<and> r_raw s' = None"
proof -
  assume run: "roll_copy_tail env all a b s = Return RM_ERR_OK s'"
  have post: "\<exists>s3. roll_flush env ref t = Continue s3" if "then_do (roll_flush env ref t) g = Return RM_ERR_OK s'" for ref t g
    using that roll_flush_no_ok [of env ref t] by (cases "roll_flush env ref t") (auto simp: then_do_def)
  from run post [OF run [unfolded roll_copy_tail_def Let_def]] show ?thesis
    by (auto simp: roll_copy_tail_def Let_def then_do_def split: prod.splits step.splits if_splits)
qed

lemma roll_proc_left:
  assumes "roll_proc tw mem s h hm f_x df from = Some (Return RM_ERR_OK r)"
  shows "r_buf r = [] \<and> r_raw r = None"
proof -
  have fin: "r_buf r = [] \<and> r_raw r = None" if "roll_loop env t = Some z" "roll_end env z = Return RM_ERR_OK r" for env t z
    using that roll_loop_no_ok [OF that(1)] roll_copy_tail_left [of env False False True]
    by (cases z) (auto simp: roll_end_def)
  from assms show ?thesis
    by (auto simp: roll_proc_def Let_def split: if_splits option.splits dest!: roll_copy_tail_left fin)
qed

section \<open>The bytes handed over\<close>

text \<open>
  A buffer is lost only by a producer that has not handed over the whole file. \<open>tot\<close> counts the bytes of the elements
  that the callback has taken; with the literal bytes collected and the bytes left to send they make the file.
\<close>

definition cb_counts :: "('q \<Rightarrow> nat) \<Rightarrow> 'q rm_delta_f \<Rightarrow> bool" where
  "cb_counts tot f \<longleftrightarrow> (\<forall>d s. tot (s_prvt (snd (f d s))) = tot (s_prvt s) + raw_bytes_n d)"

definition sent :: "('q \<Rightarrow> nat) \<Rightarrow> 'q roll \<Rightarrow> nat" where
  "sent tot s = tot (s_prvt (r_sess s))"

text \<open>What a step does to the count: nothing before a return; before falling through, \<open>n\<close> bytes are accounted for.\<close>

definition returns_with :: "('q \<Rightarrow> nat) \<Rightarrow> nat \<Rightarrow> 'q roll step \<Rightarrow> bool" where
  "returns_with tot k r \<longleftrightarrow> (\<forall>e s. r = Return e s \<longrightarrow> sent tot s = k)"

definition accounts :: "('q \<Rightarrow> nat) \<Rightarrow> nat \<Rightarrow> 'q roll step \<Rightarrow> bool" where
  "accounts tot n r =
     (case r of
        Continue s \<Rightarrow> sent tot s + r_raw_n s + r_send_left s = n
      | Copy_Tail s \<Rightarrow> sent tot s + r_raw_n s + r_send_left s = n \<and> 0 < r_send_left s
      | Return e s \<Rightarrow> r_buf s \<noteq> [] \<or> r_raw s \<noteq> None \<longrightarrow> sent tot s < n
      | Undefined \<Rightarrow> True)"

lemma accounts_simps [simp]:
  "accounts tot n (Continue s) = (sent tot s + r_raw_n s + r_send_left s = n)"
  "accounts tot n (Copy_Tail s) = (sent tot s + r_raw_n s + r_send_left s = n \<and> 0 < r_send_left s)"
  "accounts tot n (Return e s) = (r_buf s \<noteq> [] \<or> r_raw s \<noteq> None \<longrightarrow> sent tot s < n)"
  "accounts tot n Undefined"
  by (simp_all add: accounts_def)

lemma accounts_then_do:
  assumes "returns_with tot k r" and "k < n" and "\<And>s. r = Continue s \<Longrightarrow> accounts tot n (g s)"
    and "\<And>s. r \<noteq> Copy_Tail s"
  shows "accounts tot n (then_do r g)"
  using assms by (cases r) (auto simp: then_do_def accounts_def returns_with_def)

lemma returns_with_simps [simp]:
  "returns_with tot k (Continue s)" "returns_with tot k (Copy_Tail s)" "returns_with tot k Undefined"
  "returns_with tot k (Return e s) = (sent tot s = k)"
  by (simp_all add: returns_with_def)

lemma returns_with_window: "returns_with tot (sent tot s) (roll_window env s)"
  by (simp add: roll_window_def Let_def sent_def split: prod.split)

lemma returns_with_shift: "returns_with tot (sent tot s) (roll_shift env s)"
  by (simp add: roll_shift_def Let_def sent_def split: prod.split)

lemma returns_with_raw: "returns_with tot (sent tot s) (roll_raw_alloc env s)" "returns_with tot (sent tot s) (roll_raw_byte s)"
  by (simp_all add: roll_raw_alloc_def roll_raw_byte_def Let_def sent_def split: prod.split)

lemma returns_with_bucket: "sent tot s = k \<Longrightarrow> returns_with tot k (roll_bucket es s)"
proof (induction es arbitrary: s)
  case (Cons e es)
  then show ?case by (simp add: Let_def sent_def split: prod.split)
qed simp

lemma returns_with_lookup: "returns_with tot (sent tot s) (roll_lookup env s)"
proof -
  have "returns_with tot (sent tot s) (roll_bucket es (s\<lparr>r_match := False, r_hm := m, r_iter := i\<rparr>))" for es m i
    by (rule returns_with_bucket) (simp add: sent_def)
  then show ?thesis
    by (auto simp: roll_lookup_def Let_def then_do_def split: option.split step.split)
      (metis returns_with_simps(4))
qed

lemma roll_tx_counts:
  assumes "cb_counts tot (e_delta_f env)"
  shows "returns_with tot (sent tot s) (roll_tx env err type ref raw n s)"
    and "roll_tx env err type ref raw n s = Continue s' \<Longrightarrow> sent tot s' = sent tot s + n"
  using assms by (auto simp: roll_tx_def rm_rolling_ch_proc_tx_def Let_def sent_def cb_counts_def split: if_splits)

lemma roll_flush_counts:
  assumes "cb_counts tot (e_delta_f env)"
  shows "returns_with tot (sent tot s) (roll_flush env ref s)"
    and "roll_flush env ref s = Continue s' \<Longrightarrow> sent tot s' = sent tot s + r_raw_n s \<and> same_pos s s' \<and> r_match s' = r_match s \<and> r_raw_n s' = 0"
proof -
  let ?tx = "roll_tx env RM_ERR_TX_RAW RM_DELTA_ELEMENT_RAW_BYTES ref (map_option (take (r_raw_n s)) (r_raw s)) (r_raw_n s) s"
  note tx = roll_tx_counts [where s = s and err = RM_ERR_TX_RAW and type = RM_DELTA_ELEMENT_RAW_BYTES and ref = ref
      and raw = "map_option (take (r_raw_n s)) (r_raw s)" and n = "r_raw_n s", OF assms]
  show "returns_with tot (sent tot s) (roll_flush env ref s)"
    using tx(1) by (cases ?tx) (auto simp: roll_flush_def then_do_def)
  show "sent tot s' = sent tot s + r_raw_n s \<and> same_pos s s' \<and> r_match s' = r_match s \<and> r_raw_n s' = 0"
    if "roll_flush env ref s = Continue s'"
    using that roll_flush_ends [of s env ref] tx(2)
    by (cases ?tx) (auto simp: roll_flush_def then_do_def sent_def split: if_splits)
qed

lemma not_copy_tail: "ends P r \<Longrightarrow> r \<noteq> Copy_Tail s"
  by auto

lemma accounts_flush:
  assumes cb: "cb_counts tot (e_delta_f env)" and n: "sent tot s + r_raw_n s + r_send_left s = n" "0 < r_raw_n s"
  shows "accounts tot n (roll_flush env ref s)"
proof (cases "roll_flush env ref s")
  case (Continue s')
  with roll_flush_counts(2) [OF cb Continue] n show ?thesis by (simp add: same_pos_def)
next
  case (Return e s')
  with roll_flush_counts(1) [where s = s and ref = ref, OF cb] n show ?thesis by simp
qed (use roll_flush_ends [of s env ref] in auto)

lemma accounts_emit_match:
  assumes cb: "cb_counts tot (e_delta_f env)" and n: "sent tot s + r_raw_n s + r_send_left s = n"
    and w: "0 < r_read s" "r_read s \<le> r_send_left s" "r_read s \<le> e_L env" and sz: "r_send_left s < size_t_mod"
  shows "accounts tot n (roll_emit_match env s)"
  unfolding roll_emit_match_def
proof (rule accounts_then_do [OF roll_flush_counts(1) [OF cb]])
  show "sent tot s < n" using n w by simp
  show "roll_flush env (sz_sub (r_ref s) (r_raw_n s)) s \<noteq> Copy_Tail t" for t
    by (rule not_copy_tail [OF roll_flush_ends])
  fix s1 assume "roll_flush env (sz_sub (r_ref s) (r_raw_n s)) s = Continue s1"
  from roll_flush_counts(2) [OF cb this] have s1: "sent tot s1 = sent tot s + r_raw_n s" "same_pos s s1" "r_raw_n s1 = 0"
    by simp_all
  let ?tx = "if r_read s1 = e_file_sz env
      then roll_tx env RM_ERR_TX_ZERO_DIFF RM_DELTA_ELEMENT_ZERO_DIFF (r_ref s1) None (e_file_sz env) s1
      else if r_read s1 < e_L env
      then roll_tx env RM_ERR_TX_TAIL RM_DELTA_ELEMENT_TAIL (r_ref s1) None (r_read s1) s1
      else roll_tx env RM_ERR_TX_REF RM_DELTA_ELEMENT_REFERENCE (r_ref s1) None (e_L env) s1"
  have len: "r_read s1 = r_read s" "r_send_left s1 = r_send_left s" using s1(2) by (simp_all add: same_pos_def)
  have tx: "returns_with tot (sent tot s1) ?tx" "ends (\<lambda>s2. \<exists>k se. s2 = s1\<lparr>r_mem := k, r_sess := se\<rparr>) ?tx"
    using roll_tx_counts(1) [OF cb] roll_tx_ends by (auto split del: if_split split: if_split)
  have taken: "sent tot s2 = sent tot s1 + r_read s1" if "?tx = Continue s2" for s2
    using that w(3) len roll_tx_counts(2) [OF cb] by (auto split: if_splits)
  show "accounts tot n (then_do ?tx (\<lambda>s2. Continue (s2\<lparr>r_send_left := sz_sub (r_send_left s2) (r_read s2)\<rparr>)))"
  proof (rule accounts_then_do [OF tx(1)])
    show "sent tot s1 < n" using s1 n w by simp
    show "?tx \<noteq> Copy_Tail t" for t by (rule not_copy_tail [OF tx(2)])
    fix s2 assume c: "?tx = Continue s2"
    with tx(2) have "r_send_left s2 = r_send_left s" "r_read s2 = r_read s" "r_raw_n s2 = 0" using len s1(3) by auto
    moreover have "sz_sub (r_send_left s) (r_read s) = r_send_left s - r_read s"
      using w sz by (simp add: sz_simps)
    ultimately show "accounts tot n (Continue (s2\<lparr>r_send_left := sz_sub (r_send_left s2) (r_read s2)\<rparr>))"
      using taken [OF c] s1 n w len by (simp add: accounts_def sent_def)
  qed
qed

lemma accounts_emit_raw:
  assumes cb: "cb_counts tot (e_delta_f env)" and n: "sent tot s + r_raw_n s + r_send_left s = n" "0 < r_send_left s"
    and room: "raw_room env s" "buf_room env s" and sz: "r_send_left s < size_t_mod" "r_raw_n s + 1 < size_t_mod"
  shows "accounts tot n (roll_emit_raw env s)"
  unfolding roll_emit_raw_def
proof (rule accounts_then_do [OF returns_with_raw(1)])
  show "sent tot s < n" using n by simp
  show "roll_raw_alloc env s \<noteq> Copy_Tail t" for t by (rule not_copy_tail [OF roll_raw_alloc_ends [OF room(1)]])
  fix s1 assume al: "roll_raw_alloc env s = Continue s1"
  then have "r_sess s1 = r_sess s" by (auto simp: roll_raw_alloc_def Let_def split: if_splits)
  with roll_raw_alloc_ends [OF room(1)] al have s1: "same_pos s s1" "r_raw_n s1 = r_raw_n s" "sent tot s1 = sent tot s"
    by (simp_all add: sent_def)
  have b1: "buf_room env s1" using s1(1) room(2) by (auto simp: buf_room_def same_pos_def)
  show "accounts tot n (then_do (roll_raw_byte s1) (roll_raw_store env))"
  proof (rule accounts_then_do [OF returns_with_raw(2)])
    show "sent tot s1 < n" using s1 n by simp
    show "roll_raw_byte s1 \<noteq> Copy_Tail t" for t by (rule not_copy_tail [OF roll_raw_byte_ends [OF b1]])
    fix s2 assume r: "roll_raw_byte s1 = Continue s2"
    then have sess: "r_sess s2 = r_sess s1"
      by (auto simp: roll_raw_byte_def Let_def split: if_splits prod.splits)
    have s2: "r_send_left s2 = r_send_left s" "r_raw_n s2 = r_raw_n s" "sent tot s2 = sent tot s"
      using r roll_raw_byte_ends [OF b1] s1 sess by (auto simp: same_pos_def sent_def)
    show "accounts tot n (roll_raw_store env s2)"
    proof (cases "\<exists>b. r_raw s2 = Some b \<and> r_raw_n s2 < length b")
      case False
      then show ?thesis by (auto simp: roll_raw_store_def accounts_def split: option.split)
    next
      case True
      then obtain b where b: "r_raw s2 = Some b" "\<not> length b \<le> r_raw_n s2" by auto
      let ?s3 = "s2\<lparr>r_raw := Some (b[r_raw_n s := r_a_k s2]), r_send_left := r_send_left s - 1, r_raw_n := r_raw_n s + 1\<rparr>"
      have "sz_sub (r_send_left s) 1 = r_send_left s - 1" "sz_add (r_raw_n s) 1 = r_raw_n s + 1"
        using sz n(2) by (simp_all add: sz_simps)
      then have run: "roll_raw_store env s2 = (if r_raw_n ?s3 = e_send env \<or> r_send_left ?s3 = 0
          then roll_flush env (r_a_k_pos ?s3) ?s3 else Continue ?s3)"
        using b s2 by (simp add: roll_raw_store_def)
      have n3: "sent tot ?s3 + r_raw_n ?s3 + r_send_left ?s3 = n" "0 < r_raw_n ?s3" using s2(3) n by (simp_all add: sent_def)
      have fl: "accounts tot n (roll_flush env ref ?s3)" for ref by (rule accounts_flush [OF cb n3])
      have cont: "accounts tot n (Continue ?s3)" using n3(1) by (simp only: accounts_simps)
      show ?thesis
        unfolding run
        by (cases "r_raw_n ?s3 = e_send env \<or> r_send_left ?s3 = 0") (simp_all only: if_True if_False fl cont)
    qed
  qed
qed

lemma accounts_iter:
  assumes env: "env_ok env" and s: "roll_pos env s" "0 < r_send_left s" and cb: "cb_counts tot (e_delta_f env)"
    and n: "sent tot s + r_raw_n s + r_send_left s = n"
  shows "accounts tot n (roll_iter env s)"
proof (cases "r_send_left s \<le> e_copy_tail env")
  case True
  then show ?thesis using n s(2) by (simp add: roll_iter_def)
next
  case False
  let ?W = "\<lambda>s'. win_pos env s' \<and> same_sent s s' \<and> r_a_k_pos s' + r_send_left s = e_file_sz env"
  let ?r1 = "if r_match s then roll_window env s else roll_shift env s"
  have first: "ends ?W ?r1"
    using roll_window_ends [OF env s(1) _ s(2)] roll_shift_ends [OF env s(1) _ s(2)] by simp
  have look: "ends ?W (roll_lookup env s1)" if "?W s1" for s1
    using that by (intro ends_mono [OF roll_lookup_ends [OF env]])
      (auto simp: same_sent_def same_pos_def win_pos_def buf_room_def Let_def)
  have k: "sent tot s < n" using n s(2) by simp
  have same: "sent tot s' = sent tot s" if "?W s'" for s' using that by (simp add: same_sent_def sent_def)
  have emit: "accounts tot n (if r_match s2 then roll_emit_match env s2 else roll_emit_raw env s2)" if W: "?W s2" for s2
  proof -
    have sent: "r_send_left s2 = r_send_left s" "r_raw_n s2 = r_raw_n s" "r_raw s2 = r_raw s"
      using W by (simp_all add: same_sent_def)
    have room: "raw_room env s2" "buf_room env s2"
      using s(1) W sent by (auto simp: roll_pos_def raw_room_def win_pos_def Let_def)
    have pos: "r_a_k_pos s2 + r_send_left s2 = e_file_sz env" "0 < r_read s2" "r_read s2 \<le> e_L env" "win_pos env s2"
      using W sent by (auto simp: win_pos_def Let_def)
    then have "r_read s2 \<le> r_send_left s2" by (auto simp: win_pos_def Let_def)
    moreover have "r_send_left s2 < size_t_mod" "r_raw_n s2 + 1 < size_t_mod"
      using env room(1) sent s(2) pos(1) off_max_size_t by (auto simp: env_ok_def raw_room_def)
    ultimately show ?thesis
      using accounts_emit_match [OF cb, of s2 n] accounts_emit_raw [OF cb, of s2 n] room pos sent same [OF W] n s(2) by auto
  qed
  show ?thesis
    unfolding roll_iter_def if_not_P [OF False]
  proof (rule accounts_then_do [OF _ k])
    show "returns_with tot (sent tot s) ?r1" by (simp add: returns_with_window returns_with_shift)
    show "?r1 \<noteq> Copy_Tail t" for t by (rule not_copy_tail [OF first])
    fix s1 assume "?r1 = Continue s1"
    with first have W1: "?W s1" by simp
    show "accounts tot n (then_do (roll_lookup env s1)
        (\<lambda>s2. if r_match s2 then roll_emit_match env s2 else roll_emit_raw env s2))"
    proof (rule accounts_then_do [OF returns_with_lookup])
      show "sent tot s1 < n" using k same [OF W1] by simp
      show "roll_lookup env s1 \<noteq> Copy_Tail t" for t by (rule not_copy_tail [OF look [OF W1]])
      fix s2 assume "roll_lookup env s1 = Continue s2"
      with look [OF W1] have "?W s2" by simp
      then show "accounts tot n (if r_match s2 then roll_emit_match env s2 else roll_emit_raw env s2)" by (rule emit)
    qed
  qed
qed

lemma accounts_loop:
  assumes "env_ok env" and "cb_counts tot (e_delta_f env)"
    and "roll_pos env s" and "0 < r_send_left s" and "sent tot s + r_raw_n s + r_send_left s = n"
    and "roll_loop env s = Some r"
  shows "accounts tot n r"
  using assms(3-)
proof (induction "r_send_left s" arbitrary: s rule: less_induct)
  case less
  note it = accounts_iter [OF assms(1) less.prems(1,2) assms(2) less.prems(3)]
  show ?case
  proof (cases "\<exists>s'. roll_iter env s = Continue s' \<and> 0 < r_send_left s'")
    case True
    then obtain s' where s': "roll_iter env s = Continue s'" "0 < r_send_left s'" by blast
    then have "\<not> r_send_left s \<le> e_copy_tail env" by (auto simp: roll_iter_def)
    from roll_iter_ends [OF assms(1) less.prems(1,2) this] s' have "r_send_left s' < r_send_left s" "roll_pos env s'" by simp_all
    from less.hyps [OF this s'(2)] s' it less.prems(4) show ?thesis
      by (simp add: roll_loop.simps [of env s] accounts_def [of _ _ "Continue s'"])
  next
    case False
    then have "roll_loop env s = Some (roll_iter env s)"
      by (subst roll_loop.simps) (cases "roll_iter env s", auto)
    with it less.prems(4) show ?thesis by simp
  qed
qed

lemma accounts_copy_tail:
  assumes cb: "cb_counts tot (e_delta_f env)" and n: "sent tot s + r_raw_n s + r_send_left s = n" "0 < r_send_left s"
  shows "accounts tot n (roll_copy_tail env all a b s)"
proof -
  have first: "accounts tot n (then_do (roll_flush env ref t) g)"
    if "sent tot t = sent tot s" and "\<And>u. accounts tot n (g u)" for ref t g
    using n that roll_flush_ends [of t env ref] roll_flush_counts(1) [where s = t and ref = ref, OF cb]
    by (intro accounts_then_do [where k = "sent tot s"]) (auto intro: not_copy_tail)
  have same: "s_prvt (r_sess (roll_report a b s)) = s_prvt (r_sess s)" for a b by (simp add: roll_report_def)
  have tx: "accounts tot n (case roll_tx env err type ref raw k u of
        Continue s6 \<Rightarrow> Return RM_ERR_OK (roll_release (s6\<lparr>r_raw := None\<rparr>))
      | Return e s6 \<Rightarrow> Return e (roll_release s6) | r \<Rightarrow> r)" for err type ref raw k u
    using roll_tx_ends [of u env err type ref raw k] by (cases "roll_tx env err type ref raw k u") auto
  show ?thesis
    unfolding roll_copy_tail_def Let_def
    by (rule first) (auto simp: same tx sent_def [of tot] split: prod.split)
qed

text \<open>The procedure: what it loses, it loses before the file has been handed over.\<close>

lemma roll_proc_lost:
  assumes "cb_counts tot df" and "tot (s_prvt s) = 0" and "length (fs_bytes f_x) < off_max" and "ctx_L (s_rec_ctx s) < size_t_mod"
    and run: "roll_proc tw mem s h hm f_x df 0 = Some (Return e r)" and lost: "r_buf r \<noteq> [] \<or> r_raw r \<noteq> None"
  shows "sent tot r < length (fs_bytes f_x)"
proof -
  let ?ctx = "s_rec_ctx s" and ?n = "length (fs_bytes f_x)"
  have left: "sz_sub ?n 0 = ?n" using assms(3) off_max_size_t by (simp add: sz_simps)
  have fin: "sent tot r < ?n"
    if "accounts tot ?n (Return e r)" using that lost by (simp add: accounts_def)
  have tail: "sent tot r < ?n" if "roll_copy_tail env all a b t = Return e r" "e_delta_f env = df" "r_sess t = s"
      "r_raw_n t = 0" "r_send_left t = ?n" "0 < ?n" for env all a b t
    using accounts_copy_tail [of tot env t ?n all a b] that assms(1,2) fin by (simp add: sent_def)
  have loop: "sent tot r < ?n" if "roll_loop env t = Some z" "roll_end env z = Return e r" "e_delta_f env = df" "r_sess t = s"
      "env_ok env" "roll_pos env t" "r_raw_n t = 0" "r_send_left t = ?n" "0 < ?n" for env t z
  proof -
    have z: "accounts tot ?n z"
      using accounts_loop [OF that(5) _ that(6) _ _ that(1), of tot ?n] that assms(1,2) by (simp add: sent_def)
    have "accounts tot ?n (roll_end env z)"
      using z that(3) assms(1) accounts_copy_tail [of tot env _ ?n False False True]
      by (cases z) (auto simp: roll_end_def)
    with that(2) fin show ?thesis by simp
  qed
  have pos: "0 < ?n" and par: "0 < ctx_L ?ctx" "0 < send_threshold ?ctx" "fstat_size f_x = Some ?n"
    using run lost by (auto simp: roll_proc_def Let_def roll_start_def fstat_size_def split: if_splits)
  let ?env = "\<lparr>e_tw = tw, e_h = h, e_delta_f = df, e_mem = mem, e_file_sz = ?n, e_L = ctx_L ?ctx,
      e_copy_tail = copy_tail_threshold ?ctx, e_send = send_threshold ?ctx, e_raw_max = max (ctx_L ?ctx) (send_threshold ?ctx)\<rparr>"
  let ?s1 = "(roll_start f_x s hm 0)\<lparr>r_send_left := ?n\<rparr>" and ?s2 = "(roll_start f_x s hm 0)\<lparr>r_send_left := ?n, r_mem := 1,
      r_buf := replicate (ctx_L ?ctx) 0\<rparr>"
  have proc: "roll_proc tw mem s h hm f_x df 0 =
      (if ?n < copy_all_threshold ?ctx \<or> h = None then Some (roll_copy_tail ?env True True False ?s1)
       else if ?n \<le> copy_tail_threshold ?ctx then Some (roll_copy_tail ?env True False True ?s1)
       else if \<not> mem 0 then Some (Return RM_ERR_MEM (?s1\<lparr>r_mem := 1\<rparr>))
       else map_option (roll_end ?env) (roll_loop ?env ?s2))"
    using pos par left by (simp add: roll_proc_def Let_def)
  have s1: "r_sess ?s1 = s" "r_raw_n ?s1 = 0" "r_send_left ?s1 = ?n" "r_buf ?s1 = []" "r_raw ?s1 = None"
    by (simp_all add: roll_start_def)
  consider a b where "roll_copy_tail ?env True a b ?s1 = Return e r"
    | z where "h \<noteq> None" "roll_loop ?env ?s2 = Some z" "roll_end ?env z = Return e r"
    using run lost s1(4,5) unfolding proc by (auto split: if_splits)
  then show ?thesis
  proof cases
    case 1
    then show ?thesis by (rule tail) (use pos in \<open>simp_all add: s1\<close>)
  next
    case 2
    have "env_ok ?env" "roll_pos ?env ?s2"
      using 2(1) par pos assms(3,4)
      by (auto simp: env_ok_def roll_pos_def raw_room_def buf_room_def roll_start_def)
    then show ?thesis
      using pos by (intro loop [OF 2(2,3)]) (simp_all add: roll_start_def)
  qed
qed

section \<open>The producer thread\<close>

text \<open>The buffers, the window first, that the thread has lost when it is joined.\<close>

definition delta_tx_left ::
    "'h twhash \<Rightarrow> mem_oracle \<Rightarrow> rm_session_type \<Rightarrow> bool \<Rightarrow> (nat \<Rightarrow> 'h) option \<Rightarrow> mutex \<Rightarrow> stream option \<Rightarrow>
     'q rm_delta_f option \<Rightarrow> 'q sess \<Rightarrow> bool \<times> bool" where
  "delta_tx_left tw mem t has_prvt h hm f_x delta_f s =
     (if \<not> has_prvt \<or> (t \<noteq> RM_PUSH_LOCAL \<and> t \<noteq> RM_PUSH_TX) then (False, False)
      else (case (f_x, delta_f) of
          (Some fx, Some df) \<Rightarrow> roll_left (roll_proc tw mem s h (if t = RM_PUSH_TX then Some hm else None) fx df 0)
        | _ \<Rightarrow> (False, False)))"

lemma cb_counts_roll_cb:
  assumes "fifo_ok fq" and "t = RM_PUSH_LOCAL \<or> t = RM_PUSH_TX"
  shows "cb_counts (\<lambda>q. bytes_of (queued fq q)) (roll_cb fq t)"
  using sink_roll_cb [OF assms] by (simp add: cb_counts_def sink_ok_def)

text \<open>A thread that records success has lost nothing; one that has lost something has not queued the whole file.\<close>

lemma delta_tx_left_success:
  assumes "rm_session_delta_tx_f tw mem t True h hm (Some f_x) (Some df) s = Some (Some RM_TX_STATUS_OK, s', fx, m)"
  shows "delta_tx_left tw mem t True h hm (Some f_x) (Some df) s = (False, False)"
  using assms roll_proc_left [of tw mem s h _ f_x df 0]
  by (auto simp: rm_session_delta_tx_f_def rm_rolling_ch_proc_def delta_tx_left_def roll_left_def
      split: option.splits step.splits if_splits)

lemma delta_tx_left_ok:
  assumes "fifo_ok fq" and t: "t = RM_PUSH_LOCAL \<or> t = RM_PUSH_TX"
    and run: "rm_session_delta_tx_f tw mem t True h hm (Some f_x) (Some (roll_cb fq t)) s = Some (st, s', fx, m)"
    and s: "queued fq (s_prvt s) = []" "length (fs_bytes f_x) < off_max" "ctx_L (s_rec_ctx s) < size_t_mod"
    and lost: "delta_tx_left tw mem t True h hm (Some f_x) (Some (roll_cb fq t)) s \<noteq> (False, False)"
  shows "st = Some RM_TX_STATUS_ROLLING_PROC_FAIL \<and> bytes_of (queued fq (s_prvt s')) < length (fs_bytes f_x)"
proof -
  let ?z = "roll_proc tw mem s h (if t = RM_PUSH_TX then Some hm else None) f_x (roll_cb fq t) 0"
  have "roll_left ?z \<noteq> (False, False)" using lost t by (auto simp: delta_tx_left_def)
  then obtain e r where z: "?z = Some (Return e r)" and b: "r_buf r \<noteq> [] \<or> r_raw r \<noteq> None"
    by (auto simp: roll_left_def split: option.splits step.splits)
  have e: "e \<noteq> RM_ERR_OK" using roll_proc_left [of tw mem s h _ f_x "roll_cb fq t" 0 r] z b by metis
  have "sent (\<lambda>q. bytes_of (queued fq q)) r < length (fs_bytes f_x)"
    by (rule roll_proc_lost [OF cb_counts_roll_cb [OF assms(1) t] _ s(2,3) z b]) (simp add: s(1))
  moreover have "st = Some RM_TX_STATUS_ROLLING_PROC_FAIL" "s' = r_sess r"
    using run z e t by (auto simp: rm_session_delta_tx_f_def rm_rolling_ch_proc_def)
  ultimately show ?thesis by (simp add: sent_def)
qed

end
