(* ===== verification/RM_Match.thy ===== *)
theory RM_Match
  imports RM_Sync
begin

text \<open>
  What the search is for: every block of the file that the receiver has is found, and goes out as a
  reference. A file made of blocks of the old one costs no literal byte.
\<close>

section \<open>A block that is there is found\<close>

definition table_complete :: "'h twhash \<Rightarrow> (nat \<Rightarrow> 'h) \<Rightarrow> nat \<Rightarrow> bytes \<Rightarrow> bool" where
  "table_complete tw h L y \<longleftrightarrow> (\<forall>i k. k * L < length y \<longrightarrow> block_entry L y k \<in>
     set (tw_bucket tw (h i) (tw_min tw (f_ch (block_entry L y k)) RM_NONOVERLAPPING_HASH_BITS)))"

lemma roll_bucket_hit:
  assumes "win_at L x p s" and "file_ok x s" and "\<not> r_match s" and "length x < off_max" and "e \<in> set es"
    and "f_ch e = rm_fast_check_block (bslice x p (r_read s))" and "s_ch e = rm_md5 (bslice x p (r_read s))"
  shows "\<exists>s'. roll_bucket es s = Continue s' \<and> r_match s'"
  using assms
proof (induction es arbitrary: s)
  case (Cons e' es)
  have len: "p + r_read s \<le> length x" "p < off_max"
    using win_at_inside [OF Cons.prems(1)] Cons.prems(4) by auto
  have f: "r_f_ch s = f_ch e" "r_a_k_pos s = p" using Cons.prems(1,6) by (simp_all add: win_at_def)
  show ?case
  proof (cases "f_ch e' = r_f_ch s")
    case True
    let ?d = "bslice x p (r_read s)"
    let ?s1 = "s\<lparr>r_fx := (r_fx s)\<lparr>fs_pos := p + r_read s, fs_eof := False\<rparr>,
        r_buf := overlay ?d (r_buf s), r_begin_in_buf := False\<rparr>"
    have c: "rm_copy_buffered_2 (r_fx s) p (r_read s) None =
        (RM_ERR_OK, ?d, (r_fx s)\<lparr>fs_pos := p + r_read s, fs_eof := False\<rparr>, None)"
      using rm_copy_buffered_2_healthy [of "r_fx s" p "r_read s" None] Cons.prems(2) len by (simp add: file_ok_def)
    have room: "r_read s \<le> length (r_buf s)" using Cons.prems(1) by (simp add: win_at_def)
    have buf: "take (r_read s) (overlay ?d (r_buf s)) = ?d" using len room by (simp add: overlay_take)
    have step: "roll_bucket (e' # es) s =
        (if s_ch e' = rm_md5 ?d then Continue (?s1\<lparr>r_match := True, r_ref := ch_ref e'\<rparr>)
         else roll_bucket es (?s1\<lparr>r_coll2 := sz_add (r_coll2 s) 1\<rparr>))"
      using True c buf room f(2) by (simp add: Let_def)
    have "\<exists>s'. roll_bucket es (?s1\<lparr>r_coll2 := sz_add (r_coll2 s) 1\<rparr>) = Continue s' \<and> r_match s'"
      if "s_ch e' \<noteq> rm_md5 ?d"
      using Cons.prems that by (intro Cons.IH) (auto simp: win_at_def file_ok_def)
    with step show ?thesis by auto
  next
    case False
    have "\<exists>s'. roll_bucket es (s\<lparr>r_coll1 := sz_add (r_coll1 s) 1\<rparr>) = Continue s' \<and> r_match s'"
      using Cons.prems False f by (intro Cons.IH) (auto simp: win_at_def file_ok_def)
    with False show ?thesis by auto
  qed
qed simp

lemma roll_lookup_hit:
  assumes ok: "roll_ok env x y em" and w: "win_at (e_L env) x p s" and f: "file_ok x s"
    and h: "e_h env = Some h" "table_complete (e_tw env) h (e_L env) y"
    and k: "k * e_L env < length y" "bslice y (k * e_L env) (e_L env) = bslice x p (r_read s)"
  shows "\<exists>s'. roll_lookup env s = Continue s' \<and> looked x y (e_L env) p s s' \<and> r_match s'"
proof -
  obtain s' where s': "roll_lookup env s = Continue s'" "looked x y (e_L env) p s s'"
    using roll_lookup_ok [OF ok w f] by blast
  let ?e = "block_entry (e_L env) y k"
  let ?s1 = "s\<lparr>r_match := False, r_hm := mutex_lock (r_hm s), r_iter := r_iter s + 1\<rparr>"
  have e: "f_ch ?e = rm_fast_check_block (bslice x p (r_read s))" "s_ch ?e = rm_md5 (bslice x p (r_read s))"
    using k(2) by (simp_all add: block_entry_def)
  then have "f_ch ?e = r_f_ch s" using w by (simp add: win_at_def)
  moreover have "?e \<in> set (tw_bucket (e_tw env) (h (r_iter s)) (tw_min (e_tw env) (f_ch ?e) RM_NONOVERLAPPING_HASH_BITS))"
    using h(2) k(1) unfolding table_complete_def by blast
  ultimately have "\<exists>s'. roll_bucket (tw_bucket (e_tw env) (h (r_iter s))
      (tw_min (e_tw env) (r_f_ch s) RM_NONOVERLAPPING_HASH_BITS)) ?s1 = Continue s' \<and> r_match s'"
    using ok w f e by (intro roll_bucket_hit [of "e_L env" x p _ ?e]) (auto simp: roll_ok_def win_at_def file_ok_def)
  then have "r_match s'" using s'(1) h(1) by (auto simp: roll_lookup_def then_do_def Let_def)
  with s' show ?thesis by blast
qed

section \<open>Rounds that all match\<close>

text \<open>The element for \<open>r\<close> bytes matched, and the elements for the \<open>left\<close> bytes to come.\<close>

definition match_type :: "nat \<Rightarrow> nat \<Rightarrow> nat \<Rightarrow> rm_delta_element_type" where
  "match_type L n r = (if r = n then RM_DELTA_ELEMENT_ZERO_DIFF else if r < L then RM_DELTA_ELEMENT_TAIL
     else RM_DELTA_ELEMENT_REFERENCE)"

fun match_types :: "nat \<Rightarrow> nat \<Rightarrow> nat \<Rightarrow> rm_delta_element_type list" where
  "match_types L n left = (if left = 0 \<or> L = 0 then [] else match_type L n (min L left) # match_types L n (left - min L left))"

declare match_types.simps [simp del]

definition sent_types :: "('q \<Rightarrow> rm_delta_e list) \<Rightarrow> 'q roll \<Rightarrow> rm_delta_element_type list" where
  "sent_types em s = map d_type (em (s_prvt (r_sess s)))"

lemma roll_emit_match_type:
  assumes "roll_ok env x y em" and "r_raw_n s = 0"
  shows "\<exists>s'. roll_emit_match env s = Continue s' \<and> r_raw_n s' = 0 \<and> r_match s' = r_match s \<and>
    sent_types em s' = sent_types em s @ [match_type (e_L env) (e_file_sz env) (r_read s)]"
  using assms
  by (auto simp: roll_emit_match_def roll_flush_def then_do_def roll_tx_def rm_rolling_ch_proc_tx_def Let_def roll_ok_def
      mem_ok_def sink_ok_def sent_types_def match_type_def)

definition blocks_known :: "nat \<Rightarrow> bytes \<Rightarrow> bytes \<Rightarrow> bool" where
  "blocks_known L x y \<longleftrightarrow> (\<forall>j. j * L < length x \<longrightarrow>
     (\<exists>k. k * L < length y \<and> bslice y (k * L) L = bslice x (j * L) L))"

lemma roll_iter_hit:
  assumes ok: "roll_ok env x y em" and inv: "roll_inv env x y em es0 (j * e_L env) s" and s: "r_match s" "r_raw_n s = 0"
    and h: "e_h env = Some h" "table_complete (e_tw env) h (e_L env) y" and known: "blocks_known (e_L env) x y"
    and tail: "e_copy_tail env = 0"
  shows "\<exists>s'. roll_iter env s = Continue s' \<and> r_send_left s' = r_send_left s - min (e_L env) (r_send_left s) \<and>
    r_match s' \<and> r_raw_n s' = 0 \<and>
    sent_types em s' = sent_types em s @ [match_type (e_L env) (length x) (min (e_L env) (r_send_left s))] \<and>
    (0 < r_send_left s' \<longrightarrow> roll_inv env x y em es0 ((j + 1) * e_L env) s')"
proof -
  let ?L = "e_L env" and ?p = "j * e_L env"
  have n: "?p + r_send_left s = length x" "0 < r_send_left s" "e_file_sz env = length x"
    using inv ok by (auto simp: roll_inv_def roll_ok_def)
  obtain s1 where s1: "roll_window env s = Continue s1" "win_at ?L x ?p s1" "file_ok x s1" "same_sent s s1"
    using roll_window_ok [OF ok inv s(1)] by blast
  have r: "r_read s1 = min ?L (r_send_left s)" using s1(2) n(1) by (auto simp: win_at_def)
  obtain k where k: "k * ?L < length y" "bslice y (k * ?L) ?L = bslice x ?p ?L"
    using known n(1,2) unfolding blocks_known_def by (metis less_add_same_cancel1)
  have "bslice x ?p ?L = bslice x ?p (r_read s1)" using n(1) r by (simp add: bslice_def min_def)
  with k obtain s2 where s2: "roll_lookup env s1 = Continue s2" "looked x y ?L ?p s1 s2" "r_match s2"
    using roll_lookup_hit [OF ok s1(2,3) h] by metis
  have l: "r_read s2 = r_read s1" "win_at ?L x ?p s2" "file_ok x s2" "same_sent s s2"
      "r_ref s2 * ?L < length y" "bslice y (r_ref s2 * ?L) ?L = bslice x ?p (r_read s2)"
    using s2(2,3) s1(2,4) n(1) by (auto simp: looked_def win_at_def intro: same_sent_trans)
  have sent: "sent_upto env x y em es0 ?p s2" and left: "r_send_left s2 = r_send_left s" "r_raw_n s2 = 0"
      "r_sess s2 = r_sess s"
    using inv l(4) s(2) by (simp_all add: roll_inv_def same_sent_upto [of s s2], simp_all add: same_sent_def)
  have n2: "?p + r_send_left s2 = length x" using n(1) left(1) by simp
  obtain s3 where s3: "roll_emit_match env s2 = Continue s3" "r_send_left s3 = r_send_left s2 - r_read s2"
      "if r_send_left s3 = 0 then pending env x y em es0 (length x) s3 else roll_inv env x y em es0 (?p + r_read s2) s3"
    using roll_emit_match_ok [OF ok sent l(3,2) n2 s2(3) l(5,6)] by blast
  then have s3': "r_raw_n s3 = 0" "r_match s3" "sent_types em s3 = sent_types em s @ [match_type ?L (length x) (r_read s2)]"
    using roll_emit_match_type [OF ok left(2)] s2(3) n(3) left(3) by (auto simp: sent_types_def)
  have "roll_iter env s = Continue s3"
    using n(2) tail s(1) s1(1) s2(1,3) s3(1) by (simp add: roll_iter_def then_do_def)
  moreover have "0 < r_send_left s3 \<Longrightarrow> ?p + r_read s2 = (j + 1) * ?L"
    using s3(2) left(1) l(1) r by (simp add: min_def split: if_splits)
  ultimately show ?thesis
    using s3 s3' left(1) l(1) r by (intro exI [of _ s3]) (auto simp: add.commute split: if_splits)
qed

lemma roll_loop_hits:
  assumes ok: "roll_ok env x y em" and "roll_inv env x y em es0 (j * e_L env) s" and "r_match s" and "r_raw_n s = 0"
    and h: "e_h env = Some h" "table_complete (e_tw env) h (e_L env) y" and known: "blocks_known (e_L env) x y"
    and tail: "e_copy_tail env = 0"
  shows "\<exists>s'. roll_loop env s = Some (Continue s') \<and>
    sent_types em s' = sent_types em s @ match_types (e_L env) (length x) (r_send_left s)"
  using assms(2-4)
proof (induction "r_send_left s" arbitrary: s j rule: less_induct)
  case less
  have L: "0 < e_L env" and left: "0 < r_send_left s" using ok less.prems(1) by (auto simp: roll_ok_def roll_inv_def)
  obtain s' where s': "roll_iter env s = Continue s'" "r_send_left s' = r_send_left s - min (e_L env) (r_send_left s)"
      "r_match s'" "r_raw_n s' = 0"
      "sent_types em s' = sent_types em s @ [match_type (e_L env) (length x) (min (e_L env) (r_send_left s))]"
      "0 < r_send_left s' \<longrightarrow> roll_inv env x y em es0 ((j + 1) * e_L env) s'"
    using roll_iter_hit [OF ok less.prems h known tail] by (elim exE conjE) (rule that; assumption)
  have types: "match_types (e_L env) (length x) (r_send_left s) =
      match_type (e_L env) (length x) (min (e_L env) (r_send_left s)) # match_types (e_L env) (length x) (r_send_left s')"
    using L left by (subst match_types.simps) (simp add: s'(2))
  show ?case
  proof (cases "r_send_left s' = 0")
    case True
    then show ?thesis
      using s'(1,5) types by (simp add: roll_loop.simps [of env s] match_types.simps [of _ _ 0])
  next
    case False
    then have "r_send_left s' < r_send_left s" using s'(2) L by simp
    from less.hyps [OF this _ s'(3,4), of "j + 1"] s'(6) False obtain s'' where
      "roll_loop env s' = Some (Continue s'')"
      "sent_types em s'' = sent_types em s' @ match_types (e_L env) (length x) (r_send_left s')" by auto
    with s'(1,5) types False show ?thesis by (simp add: roll_loop.simps [of env s])
  qed
qed

text \<open>The elements of a file that is found block by block.\<close>

definition block_types :: "nat \<Rightarrow> nat \<Rightarrow> rm_delta_element_type list" where
  "block_types L n = (if n \<le> L then [RM_DELTA_ELEMENT_ZERO_DIFF]
     else replicate (n div L) RM_DELTA_ELEMENT_REFERENCE @ (if n mod L = 0 then [] else [RM_DELTA_ELEMENT_TAIL]))"

lemma match_types_long:
  assumes "0 < L" and "L < n" and "left \<le> n"
  shows "match_types L n left =
    replicate (left div L) RM_DELTA_ELEMENT_REFERENCE @ (if left mod L = 0 then [] else [RM_DELTA_ELEMENT_TAIL])"
  using assms(3)
proof (induction left rule: less_induct)
  case (less left)
  show ?case
  proof (cases "left < L")
    case True
    then show ?thesis
      using assms(1,2) by (auto simp: match_types.simps [of _ _ left] match_types.simps [of _ _ 0] match_type_def min_def)
  next
    case False
    then have "match_types L n left = RM_DELTA_ELEMENT_REFERENCE # match_types L n (left - L)"
      using assms(1,2) by (simp add: match_types.simps [of _ _ left] match_type_def min_def)
    moreover have "left div L = Suc ((left - L) div L)" "left mod L = (left - L) mod L"
      using False assms(1) by (simp_all add: le_div_geq le_mod_geq)
    ultimately show ?thesis using less.IH [of "left - L"] less.prems assms(1) False by simp
  qed
qed

lemma match_types_all:
  assumes "0 < L" and "0 < n"
  shows "match_types L n n = block_types L n"
proof (cases "n \<le> L")
  case True
  then show ?thesis
    using assms by (simp add: match_types.simps [of _ _ n] match_types.simps [of _ _ 0] match_type_def block_types_def min_def)
next
  case False
  then show ?thesis using match_types_long [OF assms(1), of n n] by (simp add: block_types_def)
qed

lemma table_complete_fold:
  assumes "twhash_ok tw" and "0 < L"
  shows "table_complete tw (\<lambda>_. fold (tw_insert tw) (map (block_entry L y) [0..<nblocks L y]) h) L y"
  using assms by (auto simp: table_complete_def tw_insert_bucket nblocks_iff)

lemma roll_proc_hits:
  fixes f_x :: stream
  defines "x \<equiv> fs_bytes f_x"
  assumes ok: "roll_call_ok tw s (Some hf) f_x y df em" and complete: "table_complete tw hf (ctx_L (s_rec_ctx s)) y"
    and known: "blocks_known (ctx_L (s_rec_ctx s)) x y" and em: "em (s_prvt s) = []"
    and all: "copy_all_threshold (s_rec_ctx s) \<le> length x" and tail: "copy_tail_threshold (s_rec_ctx s) = 0"
  shows "\<exists>s'. roll_proc tw mem_ok s (Some hf) hm f_x df 0 = Some (Return RM_ERR_OK s') \<and>
    map d_type (em (s_prvt (r_sess s'))) = block_types (ctx_L (s_rec_ctx s)) (length x)"
proof -
  let ?ctx = "s_rec_ctx s" and ?n = "length x"
  define env where "env = \<lparr>e_tw = tw, e_h = Some hf, e_delta_f = df, e_mem = mem_ok,
    e_file_sz = ?n, e_L = ctx_L ?ctx, e_copy_tail = 0,
    e_send = send_threshold ?ctx, e_raw_max = max (ctx_L ?ctx) (send_threshold ?ctx)\<rparr>"
  let ?s = "(roll_start f_x s hm ?n)\<lparr>r_mem := 1, r_buf := replicate (ctx_L ?ctx) 0\<rparr>"
  have x: "healthy f_x" "fs_bytes f_x = x" "x \<noteq> []" "?n < off_max" "0 < ctx_L ?ctx" "0 < send_threshold ?ctx"
    using ok by (simp_all add: roll_call_ok_def Let_def x_def)
  have left: "sz_sub ?n 0 = ?n" using x(4) off_max_size_t by (simp add: sz_simps)
  have st: "(roll_start f_x s hm 0)\<lparr>r_send_left := ?n\<rparr> = roll_start f_x s hm ?n" by (simp add: roll_start_def)
  have run: "roll_proc tw mem_ok s (Some hf) hm f_x df 0 = map_option (roll_end env) (roll_loop env ?s)"
    using x left st all tail
    by (simp add: roll_proc_def Let_def fstat_size_def healthy_def mem_ok_apply env_def [symmetric])
  have ok': "roll_ok env x y em"
    using ok by (simp add: roll_call_ok_def roll_ok_def env_def Let_def x_def)
  have "roll_inv env x y em [] (0 * e_L env) ?s"
    using x em by (simp add: roll_inv_def roll_start_def file_ok_def sent_upto_no_raw pending_def env_def)
  from roll_loop_hits [OF ok' this, of hf] complete known tail obtain s' where
    "roll_loop env ?s = Some (Continue s')" "sent_types em s' = sent_types em ?s @ match_types (e_L env) ?n (r_send_left ?s)"
    by (auto simp: env_def roll_start_def)
  with run match_types_all [of "ctx_L ?ctx" ?n] x em show ?thesis
    by (simp add: roll_end_def roll_report_def sent_types_def roll_start_def env_def)
qed

section \<open>Properties\<close>

text \<open>
  C8. The search finds what is there. The sender's file is made of blocks of the receiver's file, in any order
  and any number, its last block possibly the short one (in particular the two files may be equal). Then, with
  the table of the blocks that \<open>rm_rx_insert_nonoverlapping_ch_ch_ref\<close> fills and thresholds that do not fire, not one
  literal byte is sent: the elements are one reference for every whole block and one tail for a rest, or a
  single zero difference if the file is no longer than a block; and they stand for the file.
\<close>
theorem known_blocks_send_no_literals:
  assumes "healthy f_x" and "healthy f_y" and "fs_bytes f_x \<noteq> []"
    and "length (fs_bytes f_x) < off_max" and "length (fs_bytes f_y) < off_max"
    and "0 < ctx_L (s_rec_ctx s)" and "ctx_L (s_rec_ctx s) < off_max" and "0 < send_threshold (s_rec_ctx s)"
    and "copy_all_threshold (s_rec_ctx s) \<le> length (fs_bytes f_x)" and "copy_tail_threshold (s_rec_ctx s) = 0"
    and "sink_ok df em" and "em (s_prvt s) = []" and "twhash_ok tw" and "\<forall>b. tw_bucket tw h0 b = []"
    and "no_collision (ctx_L (s_rec_ctx s)) (fs_bytes f_x) (fs_bytes f_y)"
    and "zero_diff_safe (ctx_L (s_rec_ctx s)) (fs_bytes f_x) (fs_bytes f_y)"
    and "blocks_known (ctx_L (s_rec_ctx s)) (fs_bytes f_x) (fs_bytes f_y)"
  shows "\<exists>st h s' fx m'. rm_rx_insert_nonoverlapping_ch_ch_ref tw mem_ok 0 f_y (Some h0) (ctx_L (s_rec_ctx s)) None
      (nblocks (ctx_L (s_rec_ctx s)) (fs_bytes f_y)) None () =
      (RM_ERR_OK, nblocks (ctx_L (s_rec_ctx s)) (fs_bytes f_y), st) \<and> ins_h st = Some h \<and>
    rm_rolling_ch_proc tw mem_ok (Some s) (Some (\<lambda>_. h)) hm (Some f_x) (Some df) 0 =
      Some (RM_ERR_OK, Some s', Some fx, m') \<and>
    map d_type (em (s_prvt s')) = block_types (ctx_L (s_rec_ctx s)) (length (fs_bytes f_x)) \<and>
    deltas_data (ctx_L (s_rec_ctx s)) (fs_bytes f_y) (em (s_prvt s')) = fs_bytes f_x"
proof -
  let ?L = "ctx_L (s_rec_ctx s)" and ?y = "fs_bytes f_y"
  let ?h = "fold (tw_insert tw) (map (block_entry ?L ?y) [0..<nblocks ?L ?y]) h0"
  have keeps: "tx_keeps (\<lambda>_. True) (None :: unit tx_ch_ch_ref option)" by (simp add: tx_keeps_def)
  from insert_ref_total [OF assms(2,5,6) _ keeps TrueI order_refl, of 0 tw "Some h0" None] obtain st where
    st: "rm_rx_insert_nonoverlapping_ch_ch_ref tw mem_ok 0 f_y (Some h0) ?L None (nblocks ?L ?y) None () =
      (RM_ERR_OK, nblocks ?L ?y, st)" "ins_h st = Some ?h" by auto
  have ok: "roll_call_ok tw s (Some (\<lambda>_. ?h)) f_x ?y df em"
    using assms table_sound_fold [OF assms(13,6,14)] by (simp add: roll_call_ok_def Let_def)
  from roll_proc_hits [OF ok table_complete_fold [OF assms(13,6)] assms(17,12,9,10), of hm] roll_proc_ok [OF ok assms(12), of hm]
  show ?thesis using st by (auto simp: rm_rolling_ch_proc_def deltas_upto_def)
qed

theorem known_blocks_send_no_literals_witness:
  "\<exists>st h s' fx m'. rm_rx_insert_nonoverlapping_ch_ch_ref tw_lists mem_ok 0 (open_stream [1]) (Some (\<lambda>_. [])) 1 None 1 None () =
      (RM_ERR_OK, 1, st) \<and> ins_h st = Some h \<and>
    rm_rolling_ch_proc tw_lists mem_ok (Some (log_session 1 1)) (Some (\<lambda>_. h)) None (Some (open_stream [1, 1])) (Some log_f) 0 =
      Some (RM_ERR_OK, Some s', Some fx, m') \<and>
    map d_type (s_prvt s') = [RM_DELTA_ELEMENT_REFERENCE, RM_DELTA_ELEMENT_REFERENCE] \<and> deltas_data 1 [1] (s_prvt s') = [1, 1]"
proof -
  have "no_collision 1 [1, 1] [1]"
  proof (unfold no_collision_def, intro allI impI)
    fix p r k assume pr: "p + r \<le> length [1, 1 :: u8]" "k * 1 < length [1 :: u8]"
      and eq: "rm_fast_check_block (bslice [1, 1] p r) = rm_fast_check_block (bslice [1] (k * 1) 1)"
    have two: "rm_fast_check_block [1, 1] = 0x30002" by code_simp
    have "p = 0 \<and> r = 0 \<or> p = 0 \<and> r = 1 \<or> p = 0 \<and> r = 2 \<or> p = 1 \<and> r = 0 \<or> p = 1 \<and> r = 1 \<or> p = 2 \<and> r = 0"
      using pr(1) by auto
    with pr(2) eq show "bslice [1, 1] p r = bslice [1 :: u8] (k * 1) 1"
      by (elim disjE) (auto simp: bslice_def fast_check_small two)
  qed
  moreover have "zero_diff_safe 1 [1, 1] [1]" by (rule zero_diff_safe_long) simp
  moreover have "blocks_known 1 [1, 1] [1]"
    unfolding blocks_known_def by (intro allI impI exI [of _ 0]) (auto simp: bslice_def less_Suc_eq)
  moreover have "\<forall>b. tw_bucket tw_lists (\<lambda>_. []) b = []" by (simp add: tw_lists_def)
  moreover have "fs_bytes (open_stream bs) = bs" for bs by (simp add: open_stream_def)
  moreover have "nblocks 1 [1 :: u8] = 1" "Suc (Suc 0) < off_max" "Suc 0 < off_max"
      "block_types 1 (Suc (Suc 0)) = [RM_DELTA_ELEMENT_REFERENCE, RM_DELTA_ELEMENT_REFERENCE]"
    by (simp_all add: nblocks_def block_types_def off_max_def)
  ultimately show ?thesis
    using known_blocks_send_no_literals [of "open_stream [1, 1]" "open_stream [1]" "log_session 1 1" log_f "\<lambda>ds. ds" tw_lists
        "\<lambda>_. []" None]
    by (simp add: healthy_open log_session_def ctx_zero_def sink_log tw_lists_ok)
qed

end
