(* ===== verification/RM_Exchange.thy ===== *)
theory RM_Exchange
  imports RM_Sync RM_Core
begin

text \<open>
  The exchange of checksums at the start of a remote push, \<^verbatim>\<open>src/rm_session.c\<close>: the receiver of the
  file splits it into blocks and transmits their checksums (\<open>rm_session_ch_ch_tx_f\<close>), the sender puts
  them into its hash table in the order of arrival (\<open>rm_session_ch_ch_rx_f\<close>). The block numbers are
  not transmitted.
\<close>

section \<open>Transmitting\<close>

text \<open>The callback of the insertion on a connection; its result is compared with \<open>RM_ERR_OK\<close>.\<close>

definition tx_ch_ch_cb :: "sock tx_ch_ch_ref" where
  "tx_ch_ch_cb = (\<lambda>fd e s. let (r, s') = rm_tcp_tx_ch_ch s e in (if r \<noteq> 0 then RM_ERR_FAIL else RM_ERR_OK, s'))"

text \<open>
  The thread: \<open>None\<close> is undefined behaviour. It ends by storing its status in the private part of a
  session that receives a push, so every other session type makes it use a \<open>NULL\<close> pointer; a block
  size of zero is a division by zero.
\<close>

definition rm_session_ch_ch_tx_f ::
    "mem_oracle \<Rightarrow> rm_session_type \<Rightarrow> bool \<Rightarrow> int \<Rightarrow> nat \<Rightarrow> stream option \<Rightarrow> mutex \<Rightarrow> sock \<Rightarrow>
     (rm_error \<times> stream option \<times> mutex \<times> sock) option" where
  "rm_session_ch_ch_tx_f mem type has_prvt fd L f_y m s =
     (if type \<noteq> RM_PUSH_RX \<or> \<not> has_prvt then None
      else case f_y of
        None \<Rightarrow> Some (RM_ERR_OK, None, m, s)
      | Some f \<Rightarrow>
          (case fstat_size f of
             None \<Rightarrow> Some (RM_ERR_FSTAT_Y, Some f, m, s)
           | Some y_sz \<Rightarrow>
               if L = 0 then None
               else
                 let blocks_n_exp = y_sz div L + (if y_sz mod L \<noteq> 0 then 1 else 0);
                     (err, n, st) = rm_rx_insert_nonoverlapping_ch_ch_ref tw_lists mem fd f None L
                                      (Some tx_ch_ch_cb) blocks_n_exp (Some m) s
                 in Some (if err \<noteq> RM_ERR_OK then RM_ERR_NONOVERLAPPING_INSERT else RM_ERR_OK,
                      Some (ins_f st), the (ins_mutex st), ins_w st)))"

section \<open>Receiving\<close>

text \<open>The state of the loop: the table, its mutex, the number of the next block, the connection.\<close>

record 'h ch_rx =
  cr_h :: 'h
  cr_m :: "mutex option"
  cr_n :: nat
  cr_sock :: sock

definition ch_ch_rx_step ::
    "'h twhash \<Rightarrow> mem_oracle \<Rightarrow> 'h ch_rx \<Rightarrow> (rm_rx_status option \<times> 'h ch_rx) option" where
  "ch_ch_rx_step tw mem c =
     (if \<not> mem (cr_n c) then Some (Some RM_RX_STATUS_CH_CH_RX_MEM, c)
      else case rm_tcp_rx (cr_sock c) 4 of
        None \<Rightarrow> None
      | Some (err, b, s1) \<Rightarrow>
          if err \<noteq> RM_ERR_OK then Some (Some RM_RX_STATUS_CH_CH_RX_TCP_FAIL, c\<lparr>cr_sock := s1\<rparr>)
          else
            let f = fst (the (rm_deserialize_u32 b)) in
            (case rm_tcp_rx s1 RM_STRONG_CHECK_BYTES of
               None \<Rightarrow> None
             | Some (err, sc, s2) \<Rightarrow>
                 if err \<noteq> RM_ERR_OK then
                   Some (Some (if err = RM_ERR_READ then RM_RX_STATUS_CH_CH_RX_TCP_DISCONNECT
                               else RM_RX_STATUS_CH_CH_RX_TCP_FAIL), c\<lparr>cr_sock := s2\<rparr>)
                 else
                   let e = \<lparr>f_ch = f, s_ch = sc, ch_ref = cr_n c\<rparr>; m1 = mutex_lock (cr_m c)
                   in Some (None, c\<lparr>cr_h := tw_add_bits tw (cr_h c) e (f_ch e) RM_NONOVERLAPPING_HASH_BITS,
                        cr_m := mutex_unlock m1, cr_n := cr_n c + 1, cr_sock := s2\<rparr>)))"

primrec ch_ch_rx_loop ::
    "'h twhash \<Rightarrow> mem_oracle \<Rightarrow> nat \<Rightarrow> 'h ch_rx \<Rightarrow> (rm_rx_status \<times> 'h ch_rx) option" where
  "ch_ch_rx_loop tw mem 0 c = Some (RM_RX_STATUS_OK, c)"
| "ch_ch_rx_loop tw mem (Suc n) c =
     (case ch_ch_rx_step tw mem c of
        None \<Rightarrow> None
      | Some (Some status, c') \<Rightarrow> Some (status, c')
      | Some (None, c') \<Rightarrow> ch_ch_rx_loop tw mem n c')"

text \<open>The thread: \<open>ch_ch_n\<close> comes from the acknowledgement; the status is stored in the session.\<close>

definition rm_session_ch_ch_rx_f ::
    "'h twhash \<Rightarrow> mem_oracle \<Rightarrow> u64 \<Rightarrow> 'h \<Rightarrow> mutex \<Rightarrow> sock \<Rightarrow> (rm_rx_status \<times> 'h ch_rx) option" where
  "rm_session_ch_ch_rx_f tw mem ch_ch_n h m s =
     ch_ch_rx_loop tw mem (unat ch_ch_n) \<lparr>cr_h = h, cr_m = Some m, cr_n = 0, cr_sock = s\<rparr>"

section \<open>Lemmas\<close>

definition tx_good :: "sock \<Rightarrow> bool" where
  "tx_good s \<longleftrightarrow> IO_Err \<notin> set (sk_wev s)"

lemma length_s_ch [simp]: "length (s_ch (block_entry L y i)) = RM_STRONG_CHECK_BYTES"
  by (simp add: block_entry_def length_rm_md5)

lemma rm_tcp_tx_ch_ch_ok:
  assumes "tx_good s" and "length (s_ch e) = RM_STRONG_CHECK_BYTES"
  shows "\<exists>s'. rm_tcp_tx_ch_ch s e = (0, s') \<and> sk_out s' = sk_out s @ RM_CH_CH_WIRE e \<and> tx_good s'"
proof -
  have "take RM_CH_CH_SIZE (rm_serialize_mem (rm_serialize_u32 [] (f_ch e)) (Some (s_ch e)) RM_STRONG_CHECK_BYTES) =
      RM_CH_CH_WIRE e"
    using assms(2) by (simp add: rm_serialize_mem_def RM_CH_CH_WIRE_def rm_serialize_u32_def
        RM_CH_CH_SIZE_def RM_STRONG_CHECK_BYTES_def)
  with rm_tcp_tx_ok [of s "RM_CH_CH_WIRE e"] assms(1) show ?thesis
    by (auto simp: rm_tcp_tx_ch_ch_def tx_good_def)
qed

lemma tx_keeps_ch_ch: "tx_keeps tx_good (Some tx_ch_ch_cb)"
proof (unfold tx_keeps_def, intro allI impI)
  fix g fd s and e :: rm_ch_ch_ref
  assume g: "Some tx_ch_ch_cb = Some g" and s: "tx_good s"
  let ?buf = "take RM_CH_CH_SIZE (rm_serialize_mem (rm_serialize_u32 [] (f_ch e)) (Some (s_ch e)) RM_STRONG_CHECK_BYTES)"
  from rm_tcp_tx_ok [of s ?buf] s show "fst (g fd e s) = RM_ERR_OK \<and> tx_good (snd (g fd e s))"
    using g by (auto simp: tx_ch_ch_cb_def rm_tcp_tx_ch_ch_def tx_good_def split_beta)
qed

lemma tx_run_wire:
  assumes "tx_good s" and "\<forall>e\<in>set es. length (s_ch e) = RM_STRONG_CHECK_BYTES"
  shows "sk_out (fold (tx_run (Some tx_ch_ch_cb) fd) es s) = sk_out s @ concat (map RM_CH_CH_WIRE es)"
  using assms
proof (induction es arbitrary: s)
  case (Cons e es)
  then obtain s' where s': "rm_tcp_tx_ch_ch s e = (0, s')" "sk_out s' = sk_out s @ RM_CH_CH_WIRE e" "tx_good s'"
    using rm_tcp_tx_ch_ch_ok [of s e] by auto
  then have "tx_run (Some tx_ch_ch_cb) fd e s = s'" by (simp add: tx_run_def tx_ch_ch_cb_def)
  with Cons.IH [OF s'(3)] Cons.prems(2) s'(2) show ?case by simp
qed simp

lemma ch_ch_rx_step_wire:
  assumes "rx_good (cr_sock c)" and "sk_in (cr_sock c) = RM_CH_CH_WIRE e @ r"
    and "length (s_ch e) = RM_STRONG_CHECK_BYTES" and "ch_ref e = cr_n c" and "cr_m c = Some Mutex_Free"
  shows "\<exists>s. ch_ch_rx_step tw mem_ok c = Some (None, c\<lparr>cr_h := tw_insert tw e (cr_h c),
      cr_m := Some Mutex_Free, cr_n := Suc (cr_n c), cr_sock := s\<rparr>) \<and> rx_good s \<and> sk_in s = r \<and>
    sk_out s = sk_out (cr_sock c)"
proof -
  have "sk_in (cr_sock c) = rm_serialize_u32 [] (f_ch e) @ s_ch e @ r"
    "length (rm_serialize_u32 [] (f_ch e)) = 4"
    using assms(2) by (simp_all add: RM_CH_CH_WIRE_def rm_serialize_u32_def)
  from tcp_rx.rx_frame [OF assms(1) this] obtain s1 where
    s1: "rm_tcp_rx (cr_sock c) 4 = Some (RM_ERR_OK, rm_serialize_u32 [] (f_ch e), s1)"
      "sk_in s1 = s_ch e @ r" "rx_good s1" "sk_out s1 = sk_out (cr_sock c)" by blast
  from tcp_rx.rx_frame [OF s1(3,2) assms(3)] obtain s2 where
    s2: "rm_tcp_rx s1 RM_STRONG_CHECK_BYTES = Some (RM_ERR_OK, s_ch e, s2)" "sk_in s2 = r" "rx_good s2"
      "sk_out s2 = sk_out s1"
    by blast
  have "rm_deserialize_u32 (rm_serialize_u32 [] (f_ch e)) = Some (f_ch e, [])"
    using u32.deser_ser [of "f_ch e" "[]"] by simp
  moreover have "\<lparr>f_ch = f_ch e, s_ch = s_ch e, ch_ref = cr_n c\<rparr> = e" using assms(4) by (cases e) simp
  ultimately show ?thesis
    using s1 s2 assms(5)
    by (intro exI [of _ s2]) (simp add: ch_ch_rx_step_def mem_ok_apply tw_insert_def Let_def)
qed

lemma ch_ch_rx_loop_wire:
  assumes "rx_good (cr_sock c)" and "sk_in (cr_sock c) = concat (map RM_CH_CH_WIRE es) @ r"
    and "\<forall>e\<in>set es. length (s_ch e) = RM_STRONG_CHECK_BYTES"
    and "map ch_ref es = [cr_n c..<cr_n c + length es]" and "cr_m c = Some Mutex_Free"
  shows "\<exists>c'. ch_ch_rx_loop tw mem_ok (length es) c = Some (RM_RX_STATUS_OK, c') \<and>
    cr_h c' = fold (tw_insert tw) es (cr_h c) \<and> cr_m c' = Some Mutex_Free \<and> sk_in (cr_sock c') = r \<and>
    sk_out (cr_sock c') = sk_out (cr_sock c)"
  using assms
proof (induction es arbitrary: c)
  case (Cons e es)
  have "ch_ref e = cr_n c" and rest: "map ch_ref es = [Suc (cr_n c)..<Suc (cr_n c) + length es]"
    using Cons.prems(4) by (auto simp: upt_conv_Cons simp del: upt_Suc)
  with ch_ch_rx_step_wire [of c e "concat (map RM_CH_CH_WIRE es) @ r" tw] Cons.prems
  obtain s where s: "ch_ch_rx_step tw mem_ok c = Some (None, c\<lparr>cr_h := tw_insert tw e (cr_h c),
      cr_m := Some Mutex_Free, cr_n := Suc (cr_n c), cr_sock := s\<rparr>)" "rx_good s"
      "sk_in s = concat (map RM_CH_CH_WIRE es) @ r" "sk_out s = sk_out (cr_sock c)" by auto
  let ?c = "c\<lparr>cr_h := tw_insert tw e (cr_h c), cr_m := Some Mutex_Free, cr_n := Suc (cr_n c), cr_sock := s\<rparr>"
  have "\<exists>c'. ch_ch_rx_loop tw mem_ok (length es) ?c = Some (RM_RX_STATUS_OK, c') \<and>
    cr_h c' = fold (tw_insert tw) es (cr_h ?c) \<and> cr_m c' = Some Mutex_Free \<and> sk_in (cr_sock c') = r \<and>
    sk_out (cr_sock c') = sk_out (cr_sock ?c)"
    using s Cons.prems(3) rest by (intro Cons.IH) auto
  with s(1,4) show ?case by simp
qed simp

lemma map_ch_ref: "map ch_ref (map (block_entry L y) [0..<n]) = [0..<n]"
  by (simp add: block_entry_def map_idI)

text \<open>The table as the rolling thread may find it: after any number of insertions.\<close>

lemma table_sound_prefixes:
  assumes "twhash_ok tw" and "0 < L" and "\<forall>b. tw_bucket tw h0 b = []"
    and "\<And>i. \<exists>j\<le>nblocks L y. h i = fold (tw_insert tw) (map (block_entry L y) [0..<j]) h0"
  shows "table_sound tw h L y"
proof (unfold table_sound_def, intro allI impI)
  fix i b e
  assume "e \<in> set (tw_bucket tw (h i) b)"
  moreover obtain j where "j \<le> nblocks L y" "h i = fold (tw_insert tw) (map (block_entry L y) [0..<j]) h0"
    using assms(4) by blast
  ultimately obtain k where "k < j" "e = block_entry L y k"
    using assms(1,3) by (auto simp: tw_insert_bucket)
  with \<open>j \<le> nblocks L y\<close> assms(2) show "\<exists>k. k * L < length y \<and> e = block_entry L y k"
    by (metis nblocks_iff order_less_le_trans)
qed

text \<open>What the transmitting thread sends and leaves behind.\<close>

lemma ch_ch_tx_ok:
  assumes "healthy f" and "length (fs_bytes f) < off_max" and "0 < L" and "0 \<le> fd" and "tx_good t"
  shows "\<exists>f' m' t'. rm_session_ch_ch_tx_f mem_ok RM_PUSH_RX True fd L (Some f) m t =
      Some (RM_ERR_OK, Some f', m', t') \<and> healthy f' \<and> fs_bytes f' = fs_bytes f \<and>
    (m = Mutex_Free \<longrightarrow> m' = Mutex_Free) \<and>
    sk_out t' = sk_out t @ concat (map RM_CH_CH_WIRE (map (block_entry L (fs_bytes f)) [0..<nblocks L (fs_bytes f)]))"
proof -
  let ?y = "fs_bytes f" and ?n = "nblocks L (fs_bytes f)"
  let ?es = "map (block_entry L ?y) [0..<?n]"
  have n: "length ?y div L + (if length ?y mod L \<noteq> 0 then 1 else 0) = ?n"
    unfolding nblocks_def by (rule blocks_n_exp [OF assms(3)])
  obtain s where ins: "rm_rx_insert_nonoverlapping_ch_ch_ref tw_lists mem_ok fd f None L (Some tx_ch_ch_cb) ?n
      (Some m) t = (RM_ERR_OK, ?n, s)" "ins_w s = fold (tx_run (Some tx_ch_ch_cb) fd) ?es t"
      "healthy (ins_f s)" "fs_bytes (ins_f s) = ?y" "m = Mutex_Free \<longrightarrow> ins_mutex s = Some Mutex_Free"
    using insert_ref_total [OF assms(1-4) tx_keeps_ch_ch assms(5) order_refl, of tw_lists None "Some m"]
    by auto
  then have "sk_out (ins_w s) = sk_out t @ concat (map RM_CH_CH_WIRE ?es)"
    using tx_run_wire [OF assms(5), of ?es] by simp
  moreover have "rm_session_ch_ch_tx_f mem_ok RM_PUSH_RX True fd L (Some f) m t =
      Some (RM_ERR_OK, Some (ins_f s), the (ins_mutex s), ins_w s)"
    using ins(1) assms(1,3) n by (simp add: rm_session_ch_ch_tx_f_def fstat_size_def healthy_def)
  ultimately show ?thesis using ins(3-5) by auto
qed

text \<open>The receiving thread on the checksums of a file.\<close>

lemma nblocks_small:
  assumes "0 < L" and "length y < off_max"
  shows "unat (of_nat (nblocks L y) :: u64) = nblocks L y"
proof -
  have "nblocks L y \<le> length y"
    using nblocks_iff [OF assms(1), of "length y" y] assms(1) by (simp add: not_less flip: not_less)
  then show ?thesis
    using assms(2) by (subst unsigned_of_nat) (simp add: take_bit_nat_eq_self off_max_def)
qed

lemma ch_ch_rx_f_wire:
  assumes "0 < L" and "length y < off_max" and "rx_good r"
    and "sk_in r = concat (map RM_CH_CH_WIRE (map (block_entry L y) [0..<nblocks L y])) @ rest"
  shows "\<exists>c. rm_session_ch_ch_rx_f tw mem_ok (of_nat (nblocks L y)) h Mutex_Free r = Some (RM_RX_STATUS_OK, c) \<and>
    cr_h c = fold (tw_insert tw) (map (block_entry L y) [0..<nblocks L y]) h \<and> cr_m c = Some Mutex_Free \<and>
    sk_in (cr_sock c) = rest \<and> sk_out (cr_sock c) = sk_out r"
proof -
  let ?c = "\<lparr>cr_h = h, cr_m = Some Mutex_Free, cr_n = 0, cr_sock = r\<rparr>"
  let ?es = "map (block_entry L y) [0..<nblocks L y]"
  have "\<exists>c'. ch_ch_rx_loop tw mem_ok (length ?es) ?c = Some (RM_RX_STATUS_OK, c') \<and>
    cr_h c' = fold (tw_insert tw) ?es (cr_h ?c) \<and> cr_m c' = Some Mutex_Free \<and> sk_in (cr_sock c') = rest \<and>
    sk_out (cr_sock c') = sk_out (cr_sock ?c)"
    using assms(3,4) by (intro ch_ch_rx_loop_wire) (auto simp: map_ch_ref simp del: map_map)
  then show ?thesis by (simp add: rm_session_ch_ch_rx_f_def nblocks_small [OF assms(1,2)])
qed

section \<open>Properties\<close>

text \<open>
  C11. The exchange of checksums: the receiver of the file sends one checksum per block, and the
  sender, told their number, ends up with exactly the table of the blocks of the receiver's file,
  each under the number of its block though the numbers are not sent, and leaves the following bytes
  of the connection alone.
\<close>
theorem exchange_builds_table:
  assumes "healthy f" and "length (fs_bytes f) < off_max" and "0 < L" and "0 \<le> fd"
    and "tx_good t" and "sk_out t = []"
  shows "\<exists>f' m' t'. rm_session_ch_ch_tx_f mem_ok RM_PUSH_RX True fd L (Some f) m t =
      Some (RM_ERR_OK, Some f', m', t') \<and>
    (\<forall>r rest. rx_good r \<longrightarrow> sk_in r = sk_out t' @ rest \<longrightarrow>
      (\<exists>c. rm_session_ch_ch_rx_f tw mem_ok (of_nat (nblocks L (fs_bytes f))) h Mutex_Free r =
          Some (RM_RX_STATUS_OK, c) \<and>
        cr_h c = fold (tw_insert tw) (map (block_entry L (fs_bytes f)) [0..<nblocks L (fs_bytes f)]) h \<and>
        cr_m c = Some Mutex_Free \<and> sk_in (cr_sock c) = rest))"
proof -
  let ?y = "fs_bytes f" and ?n = "nblocks L (fs_bytes f)"
  let ?es = "map (block_entry L ?y) [0..<?n]"
  obtain f' m' t' where run: "rm_session_ch_ch_tx_f mem_ok RM_PUSH_RX True fd L (Some f) m t =
      Some (RM_ERR_OK, Some f', m', t')" and out: "sk_out t' = concat (map RM_CH_CH_WIRE ?es)"
    using ch_ch_tx_ok [OF assms(1-5), of m] assms(6) by auto
  have "\<exists>c. rm_session_ch_ch_rx_f tw mem_ok (of_nat ?n) h Mutex_Free r = Some (RM_RX_STATUS_OK, c) \<and>
      cr_h c = fold (tw_insert tw) ?es h \<and> cr_m c = Some Mutex_Free \<and> sk_in (cr_sock c) = rest"
    if "rx_good r" "sk_in r = sk_out t' @ rest" for r rest
    using ch_ch_rx_f_wire [OF assms(3,2) that(1), of rest tw h] that(2) out by auto
  with run show ?thesis by blast
qed

theorem exchange_builds_table_witness:
  "\<exists>f' m' t'. rm_session_ch_ch_tx_f mem_ok RM_PUSH_RX True 3 2 (Some (open_stream [1, 2, 3])) Mutex_Free
      \<lparr>sk_in = [], sk_closed = False, sk_rev = [], sk_out = [], sk_wev = [IO_Intr, IO_Chunk 5]\<rparr> =
      Some (RM_ERR_OK, Some f', m', t') \<and>
    (\<exists>c. rm_session_ch_ch_rx_f tw_lists mem_ok 2 (\<lambda>_. []) Mutex_Free
        \<lparr>sk_in = sk_out t', sk_closed = False, sk_rev = [IO_Chunk 7], sk_out = [], sk_wev = []\<rparr> =
          Some (RM_RX_STATUS_OK, c) \<and>
        cr_h c = block_table 2 [1, 2, 3])"
proof -
  let ?t = "\<lparr>sk_in = [], sk_closed = False, sk_rev = [], sk_out = [], sk_wev = [IO_Intr, IO_Chunk 5]\<rparr>"
  have n: "nblocks 2 [1, 2, 3 :: u8] = 2" by (simp add: nblocks_def)
  from exchange_builds_table [of "open_stream [1, 2, 3]" 2 3 ?t Mutex_Free tw_lists "\<lambda>_. []"]
  obtain f' m' t' where t: "rm_session_ch_ch_tx_f mem_ok RM_PUSH_RX True 3 2 (Some (open_stream [1, 2, 3]))
      Mutex_Free ?t = Some (RM_ERR_OK, Some f', m', t')"
    and rx: "\<And>r rest. rx_good r \<Longrightarrow> sk_in r = sk_out t' @ rest \<Longrightarrow>
      \<exists>c. rm_session_ch_ch_rx_f tw_lists mem_ok 2 (\<lambda>_. []) Mutex_Free r = Some (RM_RX_STATUS_OK, c) \<and>
        cr_h c = block_table 2 [1, 2, 3]"
    by (simp add: off_max_def tx_good_def n block_table_def) blast
  show ?thesis
    using t rx [of "\<lparr>sk_in = sk_out t', sk_closed = False, sk_rev = [IO_Chunk 7], sk_out = [], sk_wev = []\<rparr>" "[]"]
    by (auto simp: rx_good_def)
qed

text \<open>
  The status for a lost connection is never given for one: when the peer closes inside the strong
  checksum, the thread ends with \<open>RM_RX_STATUS_CH_CH_RX_TCP_FAIL\<close>, as for any other failure, because
  \<open>RM_RX_STATUS_CH_CH_RX_TCP_DISCONNECT\<close> is reserved for \<open>RM_ERR_READ\<close>. The checksums that arrived
  before stay in the table.
\<close>
theorem exchange_disconnect_status:
  assumes "rx_good r" and "sk_closed r" and "0 < n" and "sk_in r = rm_serialize_u32 [] f @ part"
    and "length part < RM_STRONG_CHECK_BYTES"
  shows "\<exists>c. rm_session_ch_ch_rx_f tw mem_ok n h Mutex_Free r = Some (RM_RX_STATUS_CH_CH_RX_TCP_FAIL, c) \<and>
    cr_h c = h"
proof -
  obtain k where k: "unat n = Suc k" using assms(3) by (metis gr0_conv_Suc unat_gt_0 word_neq_0_conv)
  have "length (rm_serialize_u32 [] f) = 4" by (simp add: rm_serialize_u32_def)
  from tcp_rx.rx_frame [OF assms(1,4) this] obtain s1 where
    s1: "rm_tcp_rx r 4 = Some (RM_ERR_OK, rm_serialize_u32 [] f, s1)" "sk_in s1 = part" "rx_good s1"
      "sk_closed s1" using assms(2) by auto
  obtain s2 where "rm_tcp_rx s1 RM_STRONG_CHECK_BYTES = Some (RM_ERR_EOF, part, s2)"
    using tcp_rx.rx_short [of s1 RM_STRONG_CHECK_BYTES] s1 assms(5) by auto
  with s1 k show ?thesis
    by (simp add: rm_session_ch_ch_rx_f_def ch_ch_rx_step_def mem_ok_apply Let_def)
qed

theorem exchange_disconnect_status_witness:
  "\<exists>c. rm_session_ch_ch_rx_f tw_lists mem_ok 1 (\<lambda>_. []) Mutex_Free
      \<lparr>sk_in = rm_serialize_u32 [] 7 @ [1, 2], sk_closed = True, sk_rev = [], sk_out = [], sk_wev = []\<rparr> =
    Some (RM_RX_STATUS_CH_CH_RX_TCP_FAIL, c) \<and> cr_h c = (\<lambda>_. [])"
  using exchange_disconnect_status [of "\<lparr>sk_in = rm_serialize_u32 [] 7 @ [1, 2], sk_closed = True,
      sk_rev = [], sk_out = [], sk_wev = []\<rparr>" 1 7 "[1, 2]" tw_lists "\<lambda>_. []"]
  by (simp add: rx_good_def RM_STRONG_CHECK_BYTES_def)

end
