(* ===== verification/RM_WQ.thy ===== *)
theory RM_WQ
  imports RM_Fifo
begin

text \<open>
  The work queue of the daemon, \<^verbatim>\<open>src/rm_wq.c\<close>: worker threads, each with its own queue, mutex and
  condition, a round robin dispatcher, and the routine that stops the workers. A worker is a state
  machine whose steps are the stretches of its thread between two points where another thread can
  get the mutex; the dispatcher and the stopping thread act on it while it does not hold the mutex.
\<close>

section \<open>Work\<close>

datatype rm_work_type = RM_WORK_PROCESS_MSG_PUSH | RM_WORK_PROCESS_MSG_PULL | RM_WORK_PROCESS_MSG_BYE

record rm_work =
  wk_task :: rm_work_type
  wk_fd :: int
  wk_idx :: u8

definition rm_work_init :: "rm_work_type \<Rightarrow> int \<Rightarrow> rm_work" where
  "rm_work_init task fd = \<lparr>wk_task = task, wk_fd = fd, wk_idx = 0\<rparr>"

definition rm_work_create :: "bool \<Rightarrow> rm_work_type \<Rightarrow> int \<Rightarrow> rm_work option" where
  "rm_work_create malloc_ok task fd = (if malloc_ok then Some (rm_work_init task fd) else None)"

text \<open>Whether the worker itself runs the destructor.\<close>

definition rm_wq_call_sync_dtor :: "rm_work \<Rightarrow> bool" where
  "rm_wq_call_sync_dtor w = (case wk_task w of RM_WORK_PROCESS_MSG_PUSH \<Rightarrow> True | _ \<Rightarrow> False)"

section \<open>The worker thread\<close>

text \<open>
  Where the thread is: about to lock its mutex for the first time, at the test of \<open>active\<close>, at the
  queue, processing a work item (without the mutex), waiting to lock again after that, waiting for
  the signal, woken but without the mutex, and gone.
\<close>

datatype worker_pc =
  W_Start | W_Check | W_Queue | W_Work rm_work | W_Relock | W_Wait | W_Woken | W_Exit

text \<open>\<open>w_done\<close>, \<open>w_freed\<close> and \<open>w_given\<close> record what was processed, destroyed and enqueued.\<close>

record 'f rm_worker =
  w_idx :: u8
  w_queue :: 'f
  w_active :: bool
  w_busy :: bool
  w_pc :: worker_pc
  w_done :: "rm_work list"
  w_freed :: "rm_work list"
  w_given :: "rm_work list"

definition rm_wq_worker_f :: "(rm_work, 'f) twfifo \<Rightarrow> 'f rm_worker \<Rightarrow> 'f rm_worker option" where
  "rm_wq_worker_f fq w =
     (case w_pc w of
        W_Start \<Rightarrow> Some (w\<lparr>w_pc := W_Check\<rparr>)
      | W_Check \<Rightarrow> Some (w\<lparr>w_pc := (if w_active w then W_Queue else W_Exit)\<rparr>)
      | W_Queue \<Rightarrow>
          (case fq_dequeue fq (w_queue w) of
             (Some x, q) \<Rightarrow> Some (w\<lparr>w_queue := q, w_pc := W_Work x\<rparr>)
           | (None, q) \<Rightarrow> Some (w\<lparr>w_queue := q, w_busy := False, w_pc := W_Wait\<rparr>))
      | W_Work x \<Rightarrow> Some (w\<lparr>w_done := w_done w @ [x],
          w_freed := (if rm_wq_call_sync_dtor x then w_freed w @ [x] else w_freed w), w_pc := W_Relock\<rparr>)
      | W_Relock \<Rightarrow> Some (w\<lparr>w_pc := W_Queue\<rparr>)
      | W_Woken \<Rightarrow> Some (w\<lparr>w_pc := W_Check\<rparr>)
      | W_Wait \<Rightarrow> None
      | W_Exit \<Rightarrow> None)"

definition w_locked :: "'f rm_worker \<Rightarrow> bool" where
  "w_locked w \<longleftrightarrow> w_pc w = W_Check \<or> w_pc w = W_Queue"

definition w_signal :: "'f rm_worker \<Rightarrow> 'f rm_worker" where
  "w_signal w = (if w_pc w = W_Wait then w\<lparr>w_pc := W_Woken\<rparr> else w)"

text \<open>What the dispatcher and \<open>rm_wq_workqueue_stop\<close> do to one worker between lock and unlock.\<close>

definition worker_enqueue :: "(rm_work, 'f) twfifo \<Rightarrow> rm_work \<Rightarrow> 'f rm_worker \<Rightarrow> 'f rm_worker" where
  "worker_enqueue fq x w =
     w_signal (w\<lparr>w_queue := fq_enqueue fq x (w_queue w), w_busy := True, w_given := w_given w @ [x]\<rparr>)"

definition worker_stop :: "'f rm_worker \<Rightarrow> 'f rm_worker" where
  "worker_stop w = (if w_active w then w_signal (w\<lparr>w_active := False\<rparr>) else w)"

definition rm_wq_worker_init :: "(rm_work, 'f) twfifo \<Rightarrow> u8 \<Rightarrow> 'f rm_worker" where
  "rm_wq_worker_init fq i = \<lparr>w_idx = i, w_queue = fq_init fq, w_active = False, w_busy = False,
     w_pc = W_Start, w_done = [], w_freed = [], w_given = []\<rparr>"

definition rm_wq_worker_deinit :: "(rm_work, 'f) twfifo \<Rightarrow> 'f rm_worker \<Rightarrow> rm_error" where
  "rm_wq_worker_deinit fq w =
     (if w_busy w then RM_ERR_BUSY else if fq_list fq (w_queue w) \<noteq> [] then RM_ERR_BUSY else RM_ERR_OK)"

text \<open>The steps of a worker and its environment; a condition may also wake a waiter for no reason.\<close>

inductive worker_step :: "(rm_work, 'f) twfifo \<Rightarrow> 'f rm_worker \<Rightarrow> 'f rm_worker \<Rightarrow> bool" for fq where
  thread: "rm_wq_worker_f fq w = Some w' \<Longrightarrow> worker_step fq w w'"
| spurious: "w_pc w = W_Wait \<Longrightarrow> worker_step fq w (w\<lparr>w_pc := W_Woken\<rparr>)"
| enqueue: "\<not> w_locked w \<Longrightarrow> worker_step fq w (worker_enqueue fq x w)"
| stop: "\<not> w_locked w \<Longrightarrow> worker_step fq w (worker_stop w)"

inductive_cases worker_stepE: "worker_step fq w w'"

inductive worker_reach :: "(rm_work, 'f) twfifo \<Rightarrow> 'f rm_worker \<Rightarrow> bool" for fq where
  init: "worker_reach fq ((rm_wq_worker_init fq i)\<lparr>w_active := True\<rparr>)"
| step: "worker_reach fq w \<Longrightarrow> worker_step fq w w' \<Longrightarrow> worker_reach fq w'"

section \<open>Invariants of a worker\<close>

definition w_current :: "'f rm_worker \<Rightarrow> rm_work list" where
  "w_current w = (case w_pc w of W_Work x \<Rightarrow> [x] | _ \<Rightarrow> [])"

definition worker_inv :: "(rm_work, 'f) twfifo \<Rightarrow> 'f rm_worker \<Rightarrow> bool" where
  "worker_inv fq w \<longleftrightarrow>
     w_given w = w_done w @ w_current w @ fq_list fq (w_queue w) \<and>
     (w_pc w = W_Wait \<longrightarrow> fq_list fq (w_queue w) = [] \<and> \<not> w_busy w) \<and>
     w_freed w = filter rm_wq_call_sync_dtor (w_done w) \<and>
     (w_pc w = W_Exit \<longrightarrow> \<not> w_active w)"

lemma worker_inv_thread:
  assumes "fifo_ok fq" and "worker_inv fq w" and "rm_wq_worker_f fq w = Some w'"
  shows "worker_inv fq w'"
proof (cases "w_pc w")
  case W_Queue
  obtain r q where d: "fq_dequeue fq (w_queue w) = (r, q)" by (metis surj_pair)
  with fifo_dequeue [OF assms(1) d] assms W_Queue show ?thesis
    by (cases r) (auto simp: rm_wq_worker_f_def worker_inv_def w_current_def)
qed (use assms in \<open>auto simp: rm_wq_worker_f_def worker_inv_def w_current_def split: if_splits\<close>)

lemma worker_inv_step:
  assumes "fifo_ok fq" and "worker_inv fq w" and "worker_step fq w w'"
  shows "worker_inv fq w'"
  using assms(3)
proof (cases rule: worker_step.cases)
  case thread
  then show ?thesis using worker_inv_thread [OF assms(1,2)] by simp
next
  case (enqueue x)
  then show ?thesis
    using assms(2) fifo_simps [OF assms(1)]
    by (cases "w_pc w")
      (auto simp: worker_inv_def worker_enqueue_def w_signal_def w_current_def)
next
  case stop
  then show ?thesis
    using assms(2)
    by (cases "w_pc w")
      (auto simp: worker_inv_def worker_stop_def w_signal_def w_current_def)
qed (use assms(2) in \<open>auto simp: worker_inv_def w_current_def\<close>)

lemma worker_inv_reach:
  assumes "fifo_ok fq" and "worker_reach fq w"
  shows "worker_inv fq w"
  using assms(2)
proof induction
  case (init i)
  then show ?case
    using fifo_simps(1) [OF assms(1)] by (simp add: worker_inv_def rm_wq_worker_init_def w_current_def)
qed (rule worker_inv_step [OF assms(1)])

text \<open>A worker left alone empties its queue and goes to sleep.\<close>

primrec thread_steps :: "(rm_work, 'f) twfifo \<Rightarrow> nat \<Rightarrow> 'f rm_worker \<Rightarrow> 'f rm_worker option" where
  "thread_steps fq 0 w = Some w"
| "thread_steps fq (Suc n) w =
     (case rm_wq_worker_f fq w of None \<Rightarrow> None | Some w' \<Rightarrow> thread_steps fq n w')"

lemma thread_steps_add:
  "thread_steps fq m w = Some w' \<Longrightarrow> thread_steps fq n w' = r \<Longrightarrow> thread_steps fq (m + n) w = r"
  by (induction m arbitrary: w) (auto split: option.splits)

lemma drain_queue:
  assumes "fifo_ok fq" and "w_pc w = W_Queue"
  shows "\<exists>n w'. thread_steps fq n w = Some w' \<and> w_pc w' = W_Wait \<and>
    w_done w' = w_done w @ fq_list fq (w_queue w) \<and> w_given w' = w_given w \<and> w_active w' = w_active w \<and>
    fq_list fq (w_queue w') = []"
  using assms(2)
proof (induction "fq_list fq (w_queue w)" arbitrary: w)
  case Nil
  then obtain q where q: "fq_dequeue fq (w_queue w) = (None, q)" using fifo_dequeue_Nil [OF assms(1)] by metis
  with fifo_dequeue [OF assms(1) q] Nil show ?case
    by (intro exI [of _ 1] exI [of _ "w\<lparr>w_queue := q, w_busy := False, w_pc := W_Wait\<rparr>"])
      (simp add: rm_wq_worker_f_def)
next
  case (Cons x xs)
  then obtain q where q: "fq_dequeue fq (w_queue w) = (Some x, q)" "fq_list fq q = xs"
    using fifo_dequeue_Cons [OF assms(1)] by metis
  let ?w = "w\<lparr>w_queue := q, w_done := w_done w @ [x],
    w_freed := (if rm_wq_call_sync_dtor x then w_freed w @ [x] else w_freed w), w_pc := W_Queue\<rparr>"
  have three: "thread_steps fq 3 w = Some ?w"
    using Cons.prems q(1) by (cases w) (simp add: numeral_3_eq_3 rm_wq_worker_f_def)
  have "xs = fq_list fq (w_queue ?w)" "w_pc ?w = W_Queue" using q(2) by simp_all
  from Cons.hyps(1) [OF this] obtain n w' where "thread_steps fq n ?w = Some w'" "w_pc w' = W_Wait"
    "w_done w' = w_done w @ x # xs" "w_given w' = w_given w" "w_active w' = w_active w" "fq_list fq (w_queue w') = []"
    using q(2) by auto
  with thread_steps_add [OF three this(1)] Cons.hyps(2) show ?case by auto
qed

lemma to_queue:
  assumes "w_active w" and "w_pc w \<noteq> W_Exit" and "w_pc w \<noteq> W_Wait"
  shows "\<exists>n w'. thread_steps fq n w = Some w' \<and> w_pc w' = W_Queue \<and>
    w_done w' = w_done w @ w_current w \<and> w_queue w' = w_queue w \<and> w_given w' = w_given w \<and>
    w_active w' = w_active w"
proof (cases "w_pc w")
  case W_Queue
  then show ?thesis by (intro exI [of _ 0] exI [of _ w]) (simp add: w_current_def)
next
  case W_Start
  then show ?thesis
    using assms by (intro exI [of _ 2] exI [of _ "w\<lparr>w_pc := W_Queue\<rparr>"])
      (simp add: rm_wq_worker_f_def w_current_def numeral_2_eq_2)
next
  case W_Check
  then show ?thesis
    using assms by (intro exI [of _ 1] exI [of _ "w\<lparr>w_pc := W_Queue\<rparr>"])
      (simp add: rm_wq_worker_f_def w_current_def)
next
  case (W_Work x)
  then show ?thesis
    using assms by (intro exI [of _ 2] exI [of _ "w\<lparr>w_done := w_done w @ [x],
        w_freed := (if rm_wq_call_sync_dtor x then w_freed w @ [x] else w_freed w), w_pc := W_Queue\<rparr>"])
      (simp add: rm_wq_worker_f_def w_current_def numeral_2_eq_2)
next
  case W_Relock
  then show ?thesis
    using assms by (intro exI [of _ 1] exI [of _ "w\<lparr>w_pc := W_Queue\<rparr>"])
      (simp add: rm_wq_worker_f_def w_current_def)
next
  case W_Woken
  then show ?thesis
    using assms by (intro exI [of _ 2] exI [of _ "w\<lparr>w_pc := W_Queue\<rparr>"])
      (simp add: rm_wq_worker_f_def w_current_def numeral_2_eq_2)
qed (use assms in simp_all)

section \<open>Stopping\<close>

text \<open>
  Joining a thread runs it to its end. When nobody is left to signal it, a thread that sleeps goes on
  only if \<open>pthread_cond_wait\<close> returns for no reason; \<open>wakes\<close> is how often it does that during the join. At the other points
  the thread has exactly one step, so the runs of a join differ in this number only. \<open>None\<close> is a join
  that never returns because the thread sleeps for ever.
\<close>

partial_function (option) worker_join ::
    "(rm_work, 'f) twfifo \<Rightarrow> nat \<Rightarrow> 'f rm_worker \<Rightarrow> 'f rm_worker option" where
  "worker_join fq wakes w =
     (if w_pc w = W_Exit then Some w
      else if w_pc w = W_Wait \<and> 0 < wakes then worker_join fq (wakes - 1) (w\<lparr>w_pc := W_Woken\<rparr>)
      else case rm_wq_worker_f fq w of None \<Rightarrow> None | Some w' \<Rightarrow> worker_join fq wakes w')"

lemma join_steps:
  "thread_steps fq n w = Some w' \<Longrightarrow> worker_join fq k w = worker_join fq k w'"
proof (induction n arbitrary: w)
  case (Suc n)
  then obtain w1 where w1: "rm_wq_worker_f fq w = Some w1" "thread_steps fq n w1 = Some w'"
    by (auto split: option.splits)
  then have "w_pc w \<noteq> W_Exit" "w_pc w \<noteq> W_Wait" by (auto simp: rm_wq_worker_f_def)
  with w1 Suc.IH show ?case by (subst worker_join.simps) simp
qed simp

lemma join_asleep: "w_pc w = W_Wait \<Longrightarrow> worker_join fq 0 w = None"
  by (subst worker_join.simps) (simp add: rm_wq_worker_f_def)

lemma join_exit: "w_pc w = W_Exit \<Longrightarrow> worker_join fq k w = Some w"
  by (subst worker_join.simps) simp

text \<open>A stopped thread ends as soon as it is awake and tests \<open>active\<close>.\<close>

lemma join_woken:
  assumes "w_pc w = W_Start \<or> w_pc w = W_Woken" and "\<not> w_active w"
  shows "worker_join fq k w = Some (w\<lparr>w_pc := W_Exit\<rparr>)"
proof -
  have "thread_steps fq 2 w = Some (w\<lparr>w_pc := W_Exit\<rparr>)"
    using assms by (cases w) (auto simp: rm_wq_worker_f_def numeral_2_eq_2)
  from join_steps [OF this, of k] show ?thesis by (simp add: join_exit)
qed

lemma join_woken_up:
  assumes "w_pc w = W_Wait" and "\<not> w_active w" and "0 < k"
  shows "worker_join fq k w = Some (w\<lparr>w_pc := W_Exit\<rparr>)"
  using assms join_woken [of "w\<lparr>w_pc := W_Woken\<rparr>" fq "k - 1"] by (subst worker_join.simps) simp

text \<open>Every join that returns is a run of the step relation.\<close>

lemma worker_join_run:
  assumes "worker_join fq k w = Some w'"
  shows "(worker_step fq)\<^sup>*\<^sup>* w w' \<and> w_pc w' = W_Exit"
proof (rule worker_join.raw_induct [OF _ assms])
  fix join fq k w w'
  assume ih: "\<And>fq k w w'. join fq k w = Some w' \<Longrightarrow> (worker_step fq)\<^sup>*\<^sup>* w w' \<and> w_pc w' = W_Exit"
    and run: "(if w_pc w = W_Exit then Some w
      else if w_pc w = W_Wait \<and> 0 < k then join fq (k - 1) (w\<lparr>w_pc := W_Woken\<rparr>)
      else case rm_wq_worker_f fq w of None \<Rightarrow> None | Some w' \<Rightarrow> join fq k w') = Some w'"
  have next_step: "(worker_step fq)\<^sup>*\<^sup>* w w'" if "worker_step fq w w1" "(worker_step fq)\<^sup>*\<^sup>* w1 w'" for w1
    using that by (rule converse_rtranclp_into_rtranclp)
  show "(worker_step fq)\<^sup>*\<^sup>* w w' \<and> w_pc w' = W_Exit"
  proof (cases "w_pc w = W_Exit")
    case False
    show ?thesis
    proof (cases "w_pc w = W_Wait \<and> 0 < k")
      case True
      with run ih [of fq "k - 1"] next_step [OF worker_step.spurious] show ?thesis by auto
    next
      case asleep: False
      with run False obtain w1 where "rm_wq_worker_f fq w = Some w1" "join fq k w1 = Some w'"
        by (auto split: option.splits if_splits)
      with ih next_step [OF worker_step.thread] show ?thesis by blast
    qed
  qed (use run in auto)
qed

section \<open>The pool\<close>

record 'f rm_workqueue =
  wq_workers :: "'f rm_worker list"
  wq_workers_n :: u8
  wq_active_n :: nat
  wq_running :: bool
  wq_first :: u8
  wq_next :: u8

text \<open>Launching from the last worker down; \<open>launch i\<close> says whether the thread of worker \<open>i\<close> starts.\<close>

primrec wq_launch ::
    "(rm_work, 'f) twfifo \<Rightarrow> (nat \<Rightarrow> bool) \<Rightarrow> nat \<Rightarrow> bool \<Rightarrow> 'f rm_workqueue \<Rightarrow> bool \<times> 'f rm_workqueue" where
  "wq_launch fq launch 0 first_set wq = (first_set, wq)"
| "wq_launch fq launch (Suc k) first_set wq =
     (let w = (rm_wq_worker_init fq (of_nat k))\<lparr>w_active := True\<rparr> in
      if launch k then
        wq_launch fq launch k True (wq\<lparr>wq_workers := w # wq_workers wq, wq_active_n := wq_active_n wq + 1,
          wq_first := (if first_set then wq_first wq else w_idx w)\<rparr>)
      else wq_launch fq launch k first_set (wq\<lparr>wq_workers := w\<lparr>w_active := False\<rparr> # wq_workers wq\<rparr>))"

definition rm_wq_workqueue_init ::
    "(rm_work, 'f) twfifo \<Rightarrow> bool \<Rightarrow> (nat \<Rightarrow> bool) \<Rightarrow> nat \<Rightarrow> rm_error \<times> 'f rm_workqueue" where
  "rm_wq_workqueue_init fq malloc_ok launch workers_n =
     (let wq = \<lparr>wq_workers = [], wq_workers_n = 0, wq_active_n = 0, wq_running = False,
               wq_first = 0, wq_next = 0\<rparr>
      in if \<not> malloc_ok then (RM_ERR_MEM, wq)
         else
           let (first_set, wq1) = wq_launch fq launch workers_n False (wq\<lparr>wq_workers_n := of_nat workers_n\<rparr>);
               wq2 = wq1\<lparr>wq_running := True, wq_next := (if first_set then wq_first wq1 else 0)\<rparr>
           in (if 0 < wq_active_n wq2 then RM_ERR_OK else RM_ERR_WORKQUEUE_CREATE, wq2))"

text \<open>The search of the dispatcher for the next active worker: the worker, and where to go on.\<close>

primrec wq_pick :: "nat \<Rightarrow> 'f rm_worker list \<Rightarrow> nat \<Rightarrow> nat \<Rightarrow> nat \<times> nat" where
  "wq_pick 0 ws n idx = (idx, (idx + 1) mod n)"
| "wq_pick (Suc sanity) ws n idx =
     (if w_active (ws ! idx) then (idx, (idx + 1) mod n) else wq_pick sanity ws n ((idx + 1) mod n))"

definition rm_wq_queue_work ::
    "(rm_work, 'f) twfifo \<Rightarrow> 'f rm_workqueue \<Rightarrow> rm_work \<Rightarrow> 'f rm_workqueue option" where
  "rm_wq_queue_work fq wq x =
     (if wq_active_n wq = 0 then Some wq
      else if 1 < wq_active_n wq \<and> wq_workers_n wq = 0 then None
      else
        let (i, nxt) = (if 1 < wq_active_n wq
              then wq_pick 254 (wq_workers wq) (unat (wq_workers_n wq)) (unat (wq_next wq))
              else (unat (wq_first wq), unat (wq_next wq)));
            w = wq_workers wq ! i
        in Some (wq\<lparr>wq_workers := (wq_workers wq)[i := worker_enqueue fq (x\<lparr>wk_idx := w_idx w\<rparr>) w],
             wq_next := of_nat nxt\<rparr>))"

text \<open>
  Stopping the workers from the last to the first, each with its number of spurious wake-ups; \<open>None\<close>
  when a join never returns.
\<close>

primrec wq_stop_loop ::
    "(rm_work, 'f) twfifo \<Rightarrow> (nat \<Rightarrow> nat) \<Rightarrow> nat \<Rightarrow> 'f rm_workqueue \<Rightarrow> 'f rm_workqueue option" where
  "wq_stop_loop fq wakes 0 wq = Some wq"
| "wq_stop_loop fq wakes (Suc k) wq =
     (let w = wq_workers wq ! k in
      if w_active w then
        (case worker_join fq (wakes k) (worker_stop w) of
           None \<Rightarrow> None
         | Some w' \<Rightarrow> wq_stop_loop fq wakes k (wq\<lparr>wq_workers := (wq_workers wq)[k := w'],
             wq_active_n := wq_active_n wq - 1\<rparr>))
      else wq_stop_loop fq wakes k wq)"

definition rm_wq_workqueue_stop ::
    "(rm_work, 'f) twfifo \<Rightarrow> (nat \<Rightarrow> nat) \<Rightarrow> 'f rm_workqueue \<Rightarrow> 'f rm_workqueue option" where
  "rm_wq_workqueue_stop fq wakes wq =
     (if 0 < wq_workers_n wq \<and> 0 < wq_active_n wq then wq_stop_loop fq wakes (unat (wq_workers_n wq)) wq
      else Some wq)"

primrec wq_deinit_loop :: "(rm_work, 'f) twfifo \<Rightarrow> nat \<Rightarrow> 'f rm_worker list \<Rightarrow> rm_error" where
  "wq_deinit_loop fq 0 ws = RM_ERR_OK"
| "wq_deinit_loop fq (Suc k) ws =
     (if rm_wq_worker_deinit fq (ws ! k) \<noteq> RM_ERR_OK then RM_ERR_FAIL else wq_deinit_loop fq k ws)"

definition rm_wq_workqueue_deinit :: "(rm_work, 'f) twfifo \<Rightarrow> 'f rm_workqueue \<Rightarrow> rm_error" where
  "rm_wq_workqueue_deinit fq wq = wq_deinit_loop fq (unat (wq_workers_n wq)) (wq_workers wq)"

section \<open>Lemmas on the pool\<close>

text \<open>What the pool promises the dispatcher.\<close>

definition wq_ok :: "'f rm_workqueue \<Rightarrow> bool" where
  "wq_ok wq \<longleftrightarrow>
     length (wq_workers wq) = unat (wq_workers_n wq) \<and>
     wq_active_n wq = length (filter w_active (wq_workers wq)) \<and>
     (0 < wq_active_n wq \<longrightarrow> unat (wq_first wq) < unat (wq_workers_n wq) \<and>
        w_active (wq_workers wq ! unat (wq_first wq)) \<and> unat (wq_next wq) < unat (wq_workers_n wq))"

definition new_worker :: "(rm_work, 'f) twfifo \<Rightarrow> (nat \<Rightarrow> bool) \<Rightarrow> nat \<Rightarrow> 'f rm_worker" where
  "new_worker fq launch i = (rm_wq_worker_init fq (of_nat i))\<lparr>w_active := launch i\<rparr>"

lemma length_filter_map_eq: "map P xs = map P ys \<Longrightarrow> length (filter P xs) = length (filter P ys)"
  by (drule arg_cong [where f = "\<lambda>bs. length (filter (\<lambda>b. b) bs)"]) (simp add: filter_map comp_def)

lemma wq_launch_workers:
  "wq_launch fq launch k fs wq = (b, wq') \<Longrightarrow>
     wq_workers wq' = map (new_worker fq launch) [0..<k] @ wq_workers wq \<and> wq_workers_n wq' = wq_workers_n wq"
  by (induction k arbitrary: fs wq) (auto simp: Let_def new_worker_def split: if_splits)

lemma wq_launch_first:
  "wq_launch fq launch k fs wq = (b, wq') \<Longrightarrow>
     b = (fs \<or> (\<exists>i<k. launch i)) \<and>
     wq_active_n wq' = wq_active_n wq + length (filter launch [0..<k]) \<and>
     (if fs then wq_first wq' = wq_first wq else b \<longrightarrow> (\<exists>i<k. launch i \<and> wq_first wq' = of_nat i))"
proof (induction k arbitrary: fs wq)
  case (Suc k)
  then show ?case
    by (cases "launch k"; cases fs)
      (fastforce simp: Let_def less_Suc_eq rm_wq_worker_init_def dest!: Suc.IH)+
qed simp

lemma filter_new_worker:
  "length (filter w_active (map (new_worker fq launch) is)) = length (filter launch is)"
  by (simp add: filter_map comp_def new_worker_def)

lemma workqueue_init_ok:
  assumes "n < 256"
  shows "wq_ok (snd (rm_wq_workqueue_init fq True launch n)) \<and>
    wq_workers (snd (rm_wq_workqueue_init fq True launch n)) = map (new_worker fq launch) [0..<n] \<and>
    fst (rm_wq_workqueue_init fq True launch n) =
      (if \<exists>i<n. launch i then RM_ERR_OK else RM_ERR_WORKQUEUE_CREATE)"
proof -
  let ?wq = "\<lparr>wq_workers = [], wq_workers_n = of_nat n, wq_active_n = 0, wq_running = False,
      wq_first = 0, wq_next = 0\<rparr>"
  have small: "unat (of_nat i :: u8) = i" if "i \<le> n" for i
    using that assms by (subst unsigned_of_nat) (simp add: take_bit_nat_eq_self)
  obtain b wq' where l: "wq_launch fq launch n False ?wq = (b, wq')" by (metis surj_pair)
  note ws = wq_launch_workers [OF l] and fi = wq_launch_first [OF l]
  have act: "wq_active_n wq' = length (filter w_active (wq_workers wq'))"
    using ws fi filter_new_worker [of fq launch "[0..<n]"] by simp
  have pos: "0 < wq_active_n wq' \<longleftrightarrow> b"
    using fi by (auto simp: filter_empty_conv)
  have first: "b \<longrightarrow> unat (wq_first wq') < n \<and> w_active (wq_workers wq' ! unat (wq_first wq'))"
    using ws fi small by (auto simp: new_worker_def)
  let ?wq2 = "wq'\<lparr>wq_running := True, wq_next := if b then wq_first wq' else 0\<rparr>"
  have "rm_wq_workqueue_init fq True launch n =
      (if b then RM_ERR_OK else RM_ERR_WORKQUEUE_CREATE, ?wq2)"
    using l pos by (simp add: rm_wq_workqueue_init_def)
  moreover have "wq_ok ?wq2"
    unfolding wq_ok_def using ws act pos first small [of n] by auto
  ultimately show ?thesis using ws fi by simp
qed

lemma wq_pick_active:
  assumes "i < n" and "d < n" and "w_active (ws ! ((i + d) mod n))" and "d \<le> k"
  shows "fst (wq_pick k ws n i) < n \<and> w_active (ws ! fst (wq_pick k ws n i)) \<and>
    snd (wq_pick k ws n i) = (fst (wq_pick k ws n i) + 1) mod n"
  using assms
proof (induction k arbitrary: i d)
  case (Suc k)
  show ?case
  proof (cases "w_active (ws ! i)")
    case False
    with Suc.prems have "d \<noteq> 0" by (cases d) auto
    then have "i + 1 + (d - 1) = i + d" by simp
    then have e: "((i + 1) mod n + (d - 1)) mod n = (i + d) mod n"
      by (metis mod_add_left_eq)
    have "fst (wq_pick k ws n ((i + 1) mod n)) < n \<and> w_active (ws ! fst (wq_pick k ws n ((i + 1) mod n))) \<and>
        snd (wq_pick k ws n ((i + 1) mod n)) = (fst (wq_pick k ws n ((i + 1) mod n)) + 1) mod n"
    proof (rule Suc.IH [of "(i + 1) mod n" "d - 1"])
      show "w_active (ws ! (((i + 1) mod n + (d - 1)) mod n))"
        unfolding e by (rule Suc.prems(3))
    qed (use Suc.prems in auto)
    with False show ?thesis by simp
  qed (use Suc.prems in simp)
qed simp

text \<open>An active worker is never further away than the dispatcher searches.\<close>

lemma wq_pick_pool:
  assumes "i < n" and "j < n" and "n < 256" and "w_active (ws ! j)"
  shows "fst (wq_pick 254 ws n i) < n \<and> w_active (ws ! fst (wq_pick 254 ws n i)) \<and>
    snd (wq_pick 254 ws n i) = (fst (wq_pick 254 ws n i) + 1) mod n"
proof -
  define d where "d = (if i \<le> j then j - i else n - i + j)"
  have "(i + d) mod n = j"
  proof (cases "i \<le> j")
    case False
    then have "i + d = n + j" using assms(1) by (simp add: d_def)
    with assms(2) show ?thesis by simp
  qed (use assms in \<open>simp add: d_def\<close>)
  moreover have "d < n" using assms by (auto simp: d_def)
  ultimately show ?thesis
    using assms by (intro wq_pick_active [of i n d]) auto
qed

text \<open>A worker can be processing an item.\<close>

lemma drain_stopped:
  assumes "fifo_ok fq" and "worker_inv fq w" and "w_active w" and "w_pc w = W_Relock \<or> (\<exists>x. w_pc w = W_Work x)"
  shows "\<exists>n w'. thread_steps fq n (worker_stop w) = Some w' \<and> w_pc w' = W_Wait \<and> \<not> w_active w' \<and>
    w_given w' = w_given w \<and> w_done w' = w_given w \<and> fq_list fq (w_queue w') = []"
proof -
  let ?s = "worker_stop w"
  have s: "w_pc ?s = w_pc w" "\<not> w_active ?s" "w_queue ?s = w_queue w" "w_given ?s = w_given w" "w_done ?s = w_done w"
    using assms(3,4) by (auto simp: worker_stop_def w_signal_def)
  have "\<exists>n w1. thread_steps fq n ?s = Some w1 \<and> w_pc w1 = W_Queue \<and> \<not> w_active w1 \<and> w_queue w1 = w_queue w \<and>
      w_given w1 = w_given w \<and> w_done w1 = w_done w @ w_current w"
  proof (cases "w_pc w = W_Relock")
    case True
    then show ?thesis
      using s by (intro exI [of _ 1] exI [of _ "?s\<lparr>w_pc := W_Queue\<rparr>"]) (simp add: rm_wq_worker_f_def w_current_def)
  next
    case False
    with assms(4) obtain x where "w_pc w = W_Work x" by auto
    then show ?thesis
      using s by (intro exI [of _ 2] exI [of _ "?s\<lparr>w_done := w_done w @ [x],
          w_freed := (if rm_wq_call_sync_dtor x then w_freed ?s @ [x] else w_freed ?s), w_pc := W_Queue\<rparr>"])
        (simp add: rm_wq_worker_f_def w_current_def numeral_2_eq_2)
  qed
  then obtain n w1 where w1: "thread_steps fq n ?s = Some w1" "w_pc w1 = W_Queue" "\<not> w_active w1"
      "w_queue w1 = w_queue w" "w_given w1 = w_given w" "w_done w1 = w_done w @ w_current w" by blast
  from drain_queue [OF assms(1) w1(2)] obtain m w2 where w2: "thread_steps fq m w1 = Some w2" "w_pc w2 = W_Wait"
      "w_done w2 = w_done w1 @ fq_list fq (w_queue w1)" "w_given w2 = w_given w1" "w_active w2 = w_active w1"
      "fq_list fq (w_queue w2) = []" by blast
  have "w_given w = w_done w @ w_current w @ fq_list fq (w_queue w)" using assms(2) by (simp add: worker_inv_def)
  with thread_steps_add [OF w1(1) w2(1)] w1 w2 show ?thesis by (intro exI [of _ "n + m"] exI [of _ w2]) simp
qed

lemma reach_working:
  assumes "fifo_ok fq"
  shows "\<exists>w. worker_reach fq w \<and> w_active w \<and> w_pc w = W_Work x"
proof -
  let ?w0 = "(rm_wq_worker_init fq 0)\<lparr>w_active := True\<rparr>"
  let ?w1 = "worker_enqueue fq x ?w0"
  have d: "w_pc ?w1 = W_Start" "w_active ?w1" "fq_list fq (w_queue ?w1) = [x]"
    using fifo_simps [OF assms] by (simp_all add: worker_enqueue_def w_signal_def rm_wq_worker_init_def)
  obtain q where q: "fq_dequeue fq (w_queue ?w1) = (Some x, q)"
    using fifo_dequeue_Cons [OF assms d(3)] by blast
  have "worker_step fq ?w0 ?w1"
    by (rule worker_step.enqueue) (simp add: w_locked_def rm_wq_worker_init_def)
  moreover have "worker_step fq ?w1 (?w1\<lparr>w_pc := W_Check\<rparr>)"
    by (rule worker_step.thread) (simp add: rm_wq_worker_f_def d)
  moreover have "worker_step fq (?w1\<lparr>w_pc := W_Check\<rparr>) (?w1\<lparr>w_pc := W_Queue\<rparr>)"
    by (rule worker_step.thread) (simp add: rm_wq_worker_f_def d)
  moreover have "worker_step fq (?w1\<lparr>w_pc := W_Queue\<rparr>) (?w1\<lparr>w_pc := W_Queue, w_queue := q, w_pc := W_Work x\<rparr>)"
    by (rule worker_step.thread) (simp add: rm_wq_worker_f_def q)
  ultimately have "worker_reach fq (?w1\<lparr>w_pc := W_Queue, w_queue := q, w_pc := W_Work x\<rparr>)"
    using worker_reach.init worker_reach.step by metis
  then show ?thesis using d(2) by (intro exI) auto
qed

lemma queue_work_picks:
  assumes "wq_ok wq" and "0 < wq_active_n wq"
  shows "\<exists>i wq'. rm_wq_queue_work fq wq x = Some wq' \<and> i < length (wq_workers wq) \<and>
    w_active (wq_workers wq ! i) \<and>
    wq_workers wq' = (wq_workers wq)[i := worker_enqueue fq (x\<lparr>wk_idx := w_idx (wq_workers wq ! i)\<rparr>)
      (wq_workers wq ! i)] \<and>
    wq_ok wq' \<and>
    (1 < wq_active_n wq \<longrightarrow> unat (wq_next wq') = (i + 1) mod length (wq_workers wq))"
proof -
  let ?n = "unat (wq_workers_n wq)" and ?ws = "wq_workers wq"
  have n: "length ?ws = ?n" "?n < 256" using assms(1) unsigned_less [of "wq_workers_n wq", where ?'a = nat]
    by (simp_all add: wq_ok_def)
  have first: "unat (wq_first wq) < ?n" "w_active (?ws ! unat (wq_first wq))" "unat (wq_next wq) < ?n"
    using assms by (simp_all add: wq_ok_def)
  define r where "r = (if 1 < wq_active_n wq then wq_pick 254 ?ws ?n (unat (wq_next wq))
      else (unat (wq_first wq), unat (wq_next wq)))"
  have r: "fst r < ?n" "w_active (?ws ! fst r)" "snd r < ?n"
      "1 < wq_active_n wq \<Longrightarrow> snd r = (fst r + 1) mod ?n"
    using wq_pick_pool [OF first(3,1) n(2) first(2)] first by (auto simp: r_def)
  let ?w = "worker_enqueue fq (x\<lparr>wk_idx := w_idx (?ws ! fst r)\<rparr>) (?ws ! fst r)"
  let ?wq = "wq\<lparr>wq_workers := ?ws[fst r := ?w], wq_next := of_nat (snd r)\<rparr>"
  have "wq_workers_n wq \<noteq> 0" using first(1) by auto
  then have run: "rm_wq_queue_work fq wq x = Some ?wq"
    using assms(2) by (cases "1 < wq_active_n wq") (simp_all add: rm_wq_queue_work_def r_def split_beta Let_def)
  have next_eq: "unat (of_nat (snd r) :: u8) = snd r"
    using r(3) n(2) by (subst unsigned_of_nat) (simp add: take_bit_nat_eq_self)
  have act: "w_active ?w = w_active (?ws ! fst r)"
    by (simp add: worker_enqueue_def w_signal_def)
  have "map w_active (?ws[fst r := ?w]) = map w_active ?ws"
    using r(1) n(1) act by (simp add: map_update list_update_same_conv)
  then have "length (filter w_active (?ws[fst r := ?w])) = length (filter w_active ?ws)"
    by (rule length_filter_map_eq)
  moreover have "w_active (?ws[fst r := ?w] ! unat (wq_first wq))"
    using first r act n by (cases "unat (wq_first wq) = fst r") auto
  ultimately have "wq_ok ?wq"
    using assms first r(3) next_eq n by (simp add: wq_ok_def)
  moreover have "1 < wq_active_n wq \<longrightarrow> unat (wq_next ?wq) = (fst r + 1) mod length ?ws"
    using next_eq n r(4) by auto
  ultimately show ?thesis
    using run r(1,2) n(1) by (intro exI [of _ "fst r"] exI [of _ ?wq]) simp
qed

section \<open>Properties\<close>

text \<open>
  C19. No work is lost or reordered while the workers run: whatever the interleaving of the worker,
  the dispatcher, a stop and spurious wake-ups, the work items given to a worker are those it has
  processed, the one it is processing and those in its queue, in this order; it never sleeps with
  work in its queue; the destructor ran exactly once for each processed push. A worker that was not
  stopped and is not asleep processes everything it was given and then sleeps.
\<close>
theorem worker_loses_no_work:
  assumes "fifo_ok fq" and "worker_reach fq w"
  shows "w_given w = w_done w @ w_current w @ fq_list fq (w_queue w) \<and>
    (w_pc w = W_Wait \<longrightarrow> fq_list fq (w_queue w) = []) \<and>
    w_freed w = filter rm_wq_call_sync_dtor (w_done w) \<and>
    (w_active w \<longrightarrow> (\<exists>n w'. thread_steps fq n w = Some w' \<and> w_pc w' = W_Wait \<and> w_done w' = w_given w))"
proof -
  note inv = worker_inv_reach [OF assms, unfolded worker_inv_def]
  have "\<exists>n w'. thread_steps fq n w = Some w' \<and> w_pc w' = W_Wait \<and> w_done w' = w_given w" if "w_active w"
  proof (cases "w_pc w = W_Wait")
    case True
    with inv show ?thesis by (intro exI [of _ 0] exI [of _ w]) (simp add: w_current_def)
  next
    case False
    from to_queue [OF that _ False] inv that obtain n w1 where
      w1: "thread_steps fq n w = Some w1" "w_pc w1 = W_Queue" "w_done w1 = w_done w @ w_current w"
        "w_queue w1 = w_queue w" by blast
    from drain_queue [OF assms(1) w1(2)] obtain m w2 where
      "thread_steps fq m w1 = Some w2" "w_pc w2 = W_Wait" "w_done w2 = w_done w1 @ fq_list fq (w_queue w1)"
      by blast
    with thread_steps_add [OF w1(1) this(1)] w1 inv show ?thesis by auto
  qed
  with inv show ?thesis by blast
qed

theorem worker_loses_no_work_witness:
  "w_given ((rm_wq_worker_init fifo_lists 0)\<lparr>w_active := True\<rparr> :: rm_work list rm_worker) = []"
  using worker_loses_no_work [OF fifo_lists_ok worker_reach.init [of fifo_lists 0]]
  by (simp add: rm_wq_worker_init_def w_current_def fifo_lists_def)

text \<open>
  C29. Stopping a worker. If the stop finds the thread before its first test, asleep, or woken and not
  yet running, the join returns in every run, and the queue is left as it is, with the work that was
  in it. A worker that is processing an item or waiting to lock again when it is stopped misses the
  signal: it processes everything it was given and goes to sleep without testing \<open>active\<close> again. Then
  the join returns exactly when \<open>pthread_cond_wait\<close> returns without a signal at least once; without such
  a spurious wake-up it never returns. In either case a join that returns is a run of the worker's steps.
\<close>
theorem stop_join_decides:
  assumes "fifo_ok fq" and "worker_reach fq w" and "w_active w" and "\<not> w_locked w"
  shows "(if w_pc w = W_Start \<or> w_pc w = W_Wait \<or> w_pc w = W_Woken
     then worker_join fq wakes (worker_stop w) = Some (w\<lparr>w_active := False, w_pc := W_Exit\<rparr>)
     else if wakes = 0 then worker_join fq wakes (worker_stop w) = None
     else \<exists>w'. worker_join fq wakes (worker_stop w) = Some w' \<and> w_pc w' = W_Exit \<and>
       w_done w' = w_given w \<and> fq_list fq (w_queue w') = []) \<and>
    (\<forall>w'. worker_join fq wakes (worker_stop w) = Some w' \<longrightarrow> (worker_step fq)\<^sup>*\<^sup>* (worker_stop w) w')"
proof (intro conjI allI impI)
  have inv: "worker_inv fq w" by (rule worker_inv_reach [OF assms(1,2)])
  show "if w_pc w = W_Start \<or> w_pc w = W_Wait \<or> w_pc w = W_Woken
     then worker_join fq wakes (worker_stop w) = Some (w\<lparr>w_active := False, w_pc := W_Exit\<rparr>)
     else if wakes = 0 then worker_join fq wakes (worker_stop w) = None
     else \<exists>w'. worker_join fq wakes (worker_stop w) = Some w' \<and> w_pc w' = W_Exit \<and>
       w_done w' = w_given w \<and> fq_list fq (w_queue w') = []"
  proof (cases "w_pc w = W_Start \<or> w_pc w = W_Wait \<or> w_pc w = W_Woken")
    case True
    then show ?thesis
      using assms(3) join_woken [of "worker_stop w" fq wakes]
      by (cases w) (auto simp: worker_stop_def w_signal_def)
  next
    case False
    then have "w_pc w = W_Relock \<or> (\<exists>x. w_pc w = W_Work x)"
      using assms(3,4) inv by (cases "w_pc w") (auto simp: w_locked_def worker_inv_def)
    from drain_stopped [OF assms(1) inv assms(3) this] obtain n w1 where
      "thread_steps fq n (worker_stop w) = Some w1" "w_pc w1 = W_Wait" "\<not> w_active w1" "w_done w1 = w_given w"
      "fq_list fq (w_queue w1) = []" by blast
    with False join_steps [OF this(1), of wakes] show ?thesis by (auto simp: join_asleep join_woken_up)
  qed
qed (use worker_join_run in blast)

theorem stop_join_decides_witness:
  "\<exists>w x. worker_reach fifo_lists w \<and> w_pc w = W_Work x \<and> worker_join fifo_lists 0 (worker_stop w) = None \<and>
     (\<exists>w'. worker_join fifo_lists 1 (worker_stop w) = Some w' \<and> w_pc w' = W_Exit)"
proof -
  let ?x = "rm_work_init RM_WORK_PROCESS_MSG_PUSH 5"
  obtain w where w: "worker_reach fifo_lists w" "w_active w" "w_pc w = W_Work ?x"
    using reach_working [OF fifo_lists_ok] by blast
  then show ?thesis
    using stop_join_decides [OF fifo_lists_ok w(1,2), of 0] stop_join_decides [OF fifo_lists_ok w(1,2), of 1]
    by (auto simp: w_locked_def)
qed

text \<open>
  The dispatcher: in a pool of fewer than 256 workers, of which at least one thread could be
  started, each work item goes to exactly one worker, an active one, and is stamped with its index;
  the others are left alone. With several active workers the search goes on after the chosen one.
\<close>
theorem queue_work_picks_active:
  assumes "wq_ok wq" and "0 < wq_active_n wq"
  shows "\<exists>i wq'. rm_wq_queue_work fq wq x = Some wq' \<and> i < length (wq_workers wq) \<and>
    w_active (wq_workers wq ! i) \<and>
    wq_workers wq' = (wq_workers wq)[i := worker_enqueue fq (x\<lparr>wk_idx := w_idx (wq_workers wq ! i)\<rparr>)
      (wq_workers wq ! i)] \<and>
    wq_ok wq' \<and>
    (1 < wq_active_n wq \<longrightarrow> unat (wq_next wq') = (i + 1) mod length (wq_workers wq))"
  by (rule queue_work_picks [OF assms])

theorem queue_work_picks_active_witness:
  "\<exists>wq'. rm_wq_queue_work fifo_lists (snd (rm_wq_workqueue_init fifo_lists True (\<lambda>i. i \<noteq> 1) 3))
     (rm_work_init RM_WORK_PROCESS_MSG_PUSH 5) = Some wq' \<and> wq_ok wq'"
proof -
  note i = workqueue_init_ok [of 3 fifo_lists "\<lambda>i. i \<noteq> 1"]
  have "[0..<3] = [0, 1, 2::nat]" by (simp add: upt_rec)
  then have "0 < wq_active_n (snd (rm_wq_workqueue_init fifo_lists True (\<lambda>i. i \<noteq> 1) 3))"
    using i by (simp add: wq_ok_def new_worker_def)
  from queue_work_picks_active [OF _ this, of fifo_lists "rm_work_init RM_WORK_PROCESS_MSG_PUSH 5"] i
  show ?thesis by auto
qed

end
