(* ===== verification/RM_Push.thy ===== *)
theory RM_Push
  imports RM_Session
begin

text \<open>
  A local push, \<open>rm_tx_local_push\<close> of \<^verbatim>\<open>src/rm_tx.c\<close>: the files it opens, the table of the reference
  file, the two threads, and the replacement of the old file by the result. The file system is a map
  from paths to contents; what can go wrong in the calls of the operating system is in the
  environment, and so is the schedule of the threads.
\<close>

section \<open>Running the threads\<close>

text \<open>
  A schedule is a list of turns. A turn of a thread that cannot go on passes. After the last turn the
  threads go on, the consumer first, until neither can; the measure bounds the number of steps.
\<close>

datatype turn = Consumer_Turn | Producer_Turn | Spurious_Turn

definition pipe_turn ::
    "(rm_delta_e, 'f) twfifo \<Rightarrow> (rm_delta_e \<Rightarrow> 's \<Rightarrow> rm_error \<times> 's) \<Rightarrow> turn \<Rightarrow> ('f, 's) pipe \<Rightarrow> ('f, 's) pipe" where
  "pipe_turn fq f t p =
     (case t of
        Consumer_Turn \<Rightarrow> (case consumer_step fq f p of None \<Rightarrow> p | Some p' \<Rightarrow> p')
      | Producer_Turn \<Rightarrow> (case producer_step fq p of None \<Rightarrow> p | Some p' \<Rightarrow> p')
      | Spurious_Turn \<Rightarrow> if pp_cons p = C_Wait then p\<lparr>pp_cons := C_Woken\<rparr> else p)"

primrec pipe_drive ::
    "nat \<Rightarrow> (rm_delta_e, 'f) twfifo \<Rightarrow> (rm_delta_e \<Rightarrow> 's \<Rightarrow> rm_error \<times> 's) \<Rightarrow> ('f, 's) pipe \<Rightarrow> ('f, 's) pipe" where
  "pipe_drive 0 fq f p = p"
| "pipe_drive (Suc n) fq f p =
     (case consumer_step fq f p of
        Some p' \<Rightarrow> pipe_drive n fq f p'
      | None \<Rightarrow> (case producer_step fq p of Some p' \<Rightarrow> pipe_drive n fq f p' | None \<Rightarrow> p))"

definition run_pipe ::
    "(rm_delta_e, 'f) twfifo \<Rightarrow> (rm_delta_e \<Rightarrow> 's \<Rightarrow> rm_error \<times> 's) \<Rightarrow> turn list \<Rightarrow> ('f, 's) pipe \<Rightarrow> ('f, 's) pipe" where
  "run_pipe fq f sched p = (let p1 = fold (pipe_turn fq f) sched p in pipe_drive (pipe_measure fq p1) fq f p1)"

lemma pipe_turn_simps:
  "consumer_step fq f p = Some p' \<Longrightarrow> pipe_turn fq f Consumer_Turn p = p'"
  "producer_step fq p = Some p' \<Longrightarrow> pipe_turn fq f Producer_Turn p = p'"
  "pp_cons p = C_Wait \<Longrightarrow> pipe_turn fq f Spurious_Turn p = p\<lparr>pp_cons := C_Woken\<rparr>"
  by (simp_all add: pipe_turn_def)

lemma pipe_turn_reach: "pipe_reach fq f p0 p \<Longrightarrow> pipe_reach fq f p0 (pipe_turn fq f t p)"
  by (cases t) (auto simp: pipe_turn_def split: option.splits intro: pipe_reach.intros)

lemma fold_turns_reach: "pipe_reach fq f p0 p \<Longrightarrow> pipe_reach fq f p0 (fold (pipe_turn fq f) sched p)"
  by (induction sched arbitrary: p) (auto intro: pipe_turn_reach)

lemma pipe_drive_end:
  assumes "fifo_ok fq" and "pipe_reach fq f p0 p" and "pipe_measure fq p \<le> n"
  shows "pipe_reach fq f p0 (pipe_drive n fq f p) \<and> pipe_stuck fq f (pipe_drive n fq f p)"
  using assms(2,3)
proof (induction n arbitrary: p)
  case 0
  then show ?case
    using consumer_step_measure [OF assms(1), of f p] producer_step_measure [OF assms(1), of p]
    by (cases "consumer_step fq f p"; cases "producer_step fq p") (auto simp: pipe_stuck_def)
next
  case (Suc n)
  show ?case
  proof (cases "consumer_step fq f p")
    case (Some p')
    with Suc.IH [OF pipe_reach.consume [OF Suc.prems(1) Some]] consumer_step_measure [OF assms(1) Some]
      Suc.prems(2) show ?thesis by simp
  next
    case None
    show ?thesis
    proof (cases "producer_step fq p")
      case (Some p')
      with None Suc.IH [OF pipe_reach.produce [OF Suc.prems(1) Some]] producer_step_measure [OF assms(1) Some]
        Suc.prems(2) show ?thesis by simp
    qed (use None Suc.prems in \<open>simp add: pipe_stuck_def\<close>)
  qed
qed

text \<open>A run ends where neither thread can go on, and every such end is the end of a run.\<close>

lemma run_pipe_end:
  assumes "fifo_ok fq"
  shows "pipe_reach fq f p0 (run_pipe fq f sched p0) \<and> pipe_stuck fq f (run_pipe fq f sched p0)"
  unfolding run_pipe_def Let_def
  by (rule pipe_drive_end [OF assms fold_turns_reach [OF pipe_reach.start] order_refl])

lemma pipe_stuck_drive: "pipe_stuck fq f p \<Longrightarrow> pipe_drive n fq f p = p"
  by (cases n) (simp_all add: pipe_stuck_def)

lemma run_pipe_complete:
  assumes "pipe_reach fq f p0 p" and "pipe_stuck fq f p"
  shows "\<exists>sched. run_pipe fq f sched p0 = p"
proof -
  have "\<exists>sched. fold (pipe_turn fq f) sched p0 = p"
    using assms(1)
  proof induction
    case start
    show ?case by (rule exI [of _ "[]"]) simp
  next
    case (consume p p')
    then obtain sched where "fold (pipe_turn fq f) sched p0 = p" by blast
    with consume.hyps show ?case
      by (intro exI [of _ "sched @ [Consumer_Turn]"]) (simp add: pipe_turn_simps)
  next
    case (produce p p')
    then obtain sched where "fold (pipe_turn fq f) sched p0 = p" by blast
    with produce.hyps show ?case
      by (intro exI [of _ "sched @ [Producer_Turn]"]) (simp add: pipe_turn_simps)
  next
    case (spurious p)
    then obtain sched where "fold (pipe_turn fq f) sched p0 = p" by blast
    with spurious.hyps show ?case
      by (intro exI [of _ "sched @ [Spurious_Turn]"]) (simp add: pipe_turn_simps)
  qed
  then obtain sched where "fold (pipe_turn fq f) sched p0 = p" by blast
  with assms(2) have "run_pipe fq f sched p0 = p" by (simp add: run_pipe_def Let_def pipe_stuck_drive)
  then show ?thesis by blast
qed

section \<open>The operating system\<close>

type_synonym files = "string \<Rightarrow> bytes option"

text \<open>
  Which calls succeed: opening a path for reading or writing, creating the session (its allocations),
  the allocations of the insertion and of the rolling procedure, launching the threads, \<open>unlink\<close> and
  \<open>rename\<close>. \<open>pe_stream\<close> gives the faults of the stream opened on a path, \<open>pe_tmp\<close> the unique name.
\<close>

record push_env =
  pe_read_ok :: "string \<Rightarrow> bool"
  pe_write_ok :: "string \<Rightarrow> bool"
  pe_stream :: "string \<Rightarrow> bytes \<Rightarrow> stream"
  pe_tmp :: string
  pe_session_ok :: bool
  pe_mem_insert :: mem_oracle
  pe_mem_roll :: mem_oracle
  pe_tx_launch :: bool
  pe_rx_launch :: bool
  pe_unlink_ok :: "string \<Rightarrow> bool"
  pe_rename_ok :: "string \<Rightarrow> string \<Rightarrow> bool"
  pe_sched :: "turn list"

definition fopen_rb :: "push_env \<Rightarrow> files \<Rightarrow> string \<Rightarrow> stream option" where
  "fopen_rb env fs p =
     (case fs p of None \<Rightarrow> None | Some bs \<Rightarrow> if pe_read_ok env p then Some (pe_stream env p bs) else None)"

definition fopen_wb :: "push_env \<Rightarrow> files \<Rightarrow> string \<Rightarrow> (stream \<times> files) option" where
  "fopen_wb env fs p = (if pe_write_ok env p then Some (pe_stream env p [], fs(p := Some [])) else None)"

definition sys_unlink :: "push_env \<Rightarrow> files \<Rightarrow> string \<Rightarrow> files option" where
  "sys_unlink env fs p = (if fs p \<noteq> None \<and> pe_unlink_ok env p then Some (fs(p := None)) else None)"

definition sys_rename :: "push_env \<Rightarrow> files \<Rightarrow> string \<Rightarrow> string \<Rightarrow> files option" where
  "sys_rename env fs a b = (if fs a \<noteq> None \<and> pe_rename_ok env a b then Some (fs(a := None, b := fs a)) else None)"

section \<open>The push\<close>

text \<open>
  Without a reference file the source is copied to the result, whose opening truncates it: when it is
  the source itself, nothing is left to read. The bytes written are in the file on every exit.
\<close>

definition push_copy ::
    "push_env \<Rightarrow> files \<Rightarrow> string \<Rightarrow> stream \<Rightarrow> nat \<Rightarrow> string \<Rightarrow> rm_delta_reconstruct_ctx \<Rightarrow>
     rm_error \<times> files \<times> rm_delta_reconstruct_ctx" where
  "push_copy env fs x f_x x_sz dest rc =
     (case fopen_wb env fs dest of
        None \<Rightarrow> (RM_ERR_OPEN_Z, fs, rc)
      | Some (f_z, fs1) \<Rightarrow>
          let f_x1 = (if dest = x then f_x\<lparr>fs_bytes := []\<rparr> else f_x);
              (err, _, z, _) = rm_copy_buffered f_x1 f_z x_sz None;
              fs2 = fs1(dest := Some (fs_bytes z))
          in if err \<noteq> RM_ERR_OK then (RM_ERR_COPY_BUFFERED, fs2, rc)
             else
               let rc1 = rc\<lparr>rec_method := RM_RECONSTRUCT_METHOD_COPY_BUFFERED, rec_by_raw := x_sz,
                     delta_raw_n := 1, msg_push_len := 0\<rparr>
               in (case fstat_size z of
                     None \<Rightarrow> (RM_ERR_FSTAT_Z, fs2, rc1)
                   | Some z_sz \<Rightarrow>
                       if z_sz \<noteq> x_sz then (RM_ERR_FILE_SIZE, fs2, rc1)
                       else if z_sz \<noteq> rec_by_raw rc1 then (RM_ERR_FILE_SIZE_REC_MISMATCH, fs2, rc1)
                       else (RM_ERR_OK, fs2, rc1)))"

text \<open>The context of the session, and what the consumer leaves in it at its normal end.\<close>

definition push_ctx :: "nat \<Rightarrow> nat \<Rightarrow> nat \<Rightarrow> nat \<Rightarrow> rm_delta_reconstruct_ctx" where
  "push_ctx L all tail send = ctx_zero\<lparr>rec_method := RM_RECONSTRUCT_METHOD_DELTA_RECONSTRUCTION, ctx_L := L,
     copy_all_threshold := all, copy_tail_threshold := tail, send_threshold := send, msg_push_len := 0\<rparr>"

definition local_merge ::
    "rm_delta_reconstruct_ctx \<Rightarrow> rm_delta_reconstruct_ctx \<Rightarrow> rm_delta_reconstruct_ctx" where
  "local_merge s_ctx ctx = ctx\<lparr>copy_all_threshold_fired := copy_all_threshold_fired s_ctx,
     copy_tail_threshold_fired := copy_tail_threshold_fired s_ctx,
     collisions_1st_level := collisions_1st_level s_ctx, collisions_2nd_level := collisions_2nd_level s_ctx\<rparr>"

text \<open>
  The two threads until both are joined: their statuses, the result file, the context of the session
  and whether the queue is empty. \<open>None\<close>: a join never returns.
\<close>

definition local_threads ::
    "push_env \<Rightarrow> 'h twhash \<Rightarrow> (rm_delta_e, 'f) twfifo \<Rightarrow> 'h \<Rightarrow> nat \<Rightarrow> rm_delta_reconstruct_ctx \<Rightarrow>
     stream \<Rightarrow> stream \<Rightarrow> stream \<Rightarrow>
     (rm_tx_status \<times> rm_rx_status \<times> stream \<times> rm_delta_reconstruct_ctx \<times> bool) option" where
  "local_threads env tw fq h x_sz ctx f_x f_y f_z =
     (let s = \<lparr>s_rec_ctx = ctx, s_prvt = \<lparr>tq_queue = fq_init fq, tq_mutex = Mutex_Free,
            tq_smutex = Mutex_Free, tq_signals = 0\<rparr>\<rparr>
      in case rm_session_delta_tx_f tw (pe_mem_roll env) RM_PUSH_LOCAL True (Some (\<lambda>_. h)) Mutex_Free
                (Some f_x) (Some (roll_cb fq RM_PUSH_LOCAL)) s of
           None \<Rightarrow> None
         | Some (st, s', _, _) \<Rightarrow>
             let p = run_pipe fq local_rx_f (pe_sched env)
                       (pipe_init fq (queued fq (s_prvt s')) x_sz (f_y, Some f_z, ctx));
                 (_, z, c) = pp_sink p;
                 tx = (case st of None \<Rightarrow> RM_TX_STATUS_OK | Some t \<Rightarrow> t);
                 drained = (fq_list fq (pp_queue p) = [])
             in (case pp_cons p of
                   C_Done \<Rightarrow> Some (tx, RM_RX_STATUS_OK, the z, local_merge (s_rec_ctx s') c, drained)
                 | C_Err e \<Rightarrow> Some (tx, e, the z, s_rec_ctx s', drained)
                 | _ \<Rightarrow> None))"

text \<open>The old file goes, unless it is to stay, and the result takes its name or the one given.\<close>

definition push_replace ::
    "push_env \<Rightarrow> u8 \<Rightarrow> string \<Rightarrow> string option \<Rightarrow> files \<Rightarrow> rm_error \<times> files" where
  "push_replace env flags y z fs =
     (case (if flags AND RM_BIT_6 = 0 then sys_unlink env fs y else Some fs) of
        None \<Rightarrow> (RM_ERR_UNLINK_Y, fs)
      | Some fs1 \<Rightarrow>
          (case z of
             Some zn \<Rightarrow> (case sys_rename env fs1 (pe_tmp env) zn of
                 None \<Rightarrow> (RM_ERR_RENAME_TMP_Z, fs1) | Some fs2 \<Rightarrow> (RM_ERR_OK, fs2))
           | None \<Rightarrow> (case sys_rename env fs1 (pe_tmp env) y of
                 None \<Rightarrow> (RM_ERR_RENAME_TMP_Y, fs1) | Some fs2 \<Rightarrow> (RM_ERR_OK, fs2))))"

text \<open>After the join: the error of a thread is stored in \<open>err\<close>, which nothing reads before the final \<open>RM_ERR_OK\<close>.\<close>

definition push_finish ::
    "push_env \<Rightarrow> u8 \<Rightarrow> string \<Rightarrow> string option \<Rightarrow> nat \<Rightarrow> files \<Rightarrow>
     rm_tx_status \<times> rm_rx_status \<times> stream \<times> rm_delta_reconstruct_ctx \<times> bool \<Rightarrow>
     rm_error \<times> files \<times> rm_delta_reconstruct_ctx" where
  "push_finish env flags y z x_sz fs r =
     (case r of (tx, rx, f_z, c, drained) \<Rightarrow>
        let fs1 = fs(pe_tmp env := Some (fs_bytes f_z)) in
        case fstat_size f_z of
          None \<Rightarrow> (RM_ERR_FSTAT_Z, fs1, c)
        | Some z_sz \<Rightarrow>
            if z_sz \<noteq> x_sz then (RM_ERR_FILE_SIZE, fs1, c)
            else if z_sz \<noteq> sz_add (rec_by_ref c) (rec_by_raw c) then (RM_ERR_FILE_SIZE_REC_MISMATCH, fs1, c)
            else if \<not> drained then (RM_ERR_QUEUE_NOT_EMPTY, fs1, c)
            else (case push_replace env flags y z fs1 of (err, fs2) \<Rightarrow> (err, fs2, c)))"

text \<open>
  With a reference file. When the second thread cannot be launched the session is freed while the
  first is running in it: \<open>None\<close>.
\<close>

definition push_delta ::
    "push_env \<Rightarrow> 'h twhash \<Rightarrow> (rm_delta_e, 'f) twfifo \<Rightarrow> 'h \<Rightarrow> files \<Rightarrow> stream \<Rightarrow> nat \<Rightarrow> string \<Rightarrow> stream \<Rightarrow>
     nat \<Rightarrow> string option \<Rightarrow> rm_delta_reconstruct_ctx \<Rightarrow> u8 \<Rightarrow> rm_delta_reconstruct_ctx \<Rightarrow>
     (rm_error \<times> files \<times> rm_delta_reconstruct_ctx) option" where
  "push_delta env tw fq h fs f_x x_sz y f_y y_sz z ctx flags rc =
     (let L = ctx_L ctx;
          blocks_n_exp = y_sz div L + (if y_sz mod L \<noteq> 0 then 1 else 0);
          (err, _, st) = rm_rx_insert_nonoverlapping_ch_ch_ref tw (pe_mem_insert env) 0 f_y (Some h) L None
                           blocks_n_exp None ()
      in if err \<noteq> RM_ERR_OK then Some (RM_ERR_NONOVERLAPPING_INSERT, fs, rc)
         else case fopen_wb env fs (pe_tmp env) of
           None \<Rightarrow> Some (RM_ERR_OPEN_TMP, fs, rc)
         | Some (f_z, fs1) \<Rightarrow>
             if \<not> pe_session_ok env then Some (RM_ERR_CREATE_SESSION, fs1, rc)
             else if \<not> pe_tx_launch env then Some (RM_ERR_DELTA_TX_THREAD_LAUNCH, fs1, ctx)
             else if \<not> pe_rx_launch env then None
             else map_option (push_finish env flags y z x_sz fs1)
                    (local_threads env tw fq (the (ins_h st)) x_sz ctx f_x (ins_f st) f_z))"

definition rm_tx_local_push ::
    "push_env \<Rightarrow> 'h twhash \<Rightarrow> (rm_delta_e, 'f) twfifo \<Rightarrow> 'h \<Rightarrow> string option \<Rightarrow> string option \<Rightarrow>
     string option \<Rightarrow> nat \<Rightarrow> nat \<Rightarrow> nat \<Rightarrow> nat \<Rightarrow> u8 \<Rightarrow> rm_delta_reconstruct_ctx option \<Rightarrow> files \<Rightarrow>
     (rm_error \<times> files \<times> rm_delta_reconstruct_ctx option) option" where
  "rm_tx_local_push env tw fq h xo yo z L all tail send flags rco fs =
     (case (xo, yo, rco) of
        (Some x, Some y, Some rc) \<Rightarrow>
          if L = 0 \<or> send = 0 then Some (RM_ERR_BAD_CALL, fs, rco)
          else
            map_option (\<lambda>(err, fs', rc'). (err, fs', Some rc'))
              (case fopen_rb env fs x of
                 None \<Rightarrow> Some (RM_ERR_OPEN_X, fs, rc)
               | Some f_x \<Rightarrow>
                   (case fstat_size f_x of
                      None \<Rightarrow> Some (RM_ERR_FSTAT_X, fs, rc)
                    | Some x_sz \<Rightarrow>
                        (case fopen_rb env fs y of
                           Some f_y \<Rightarrow>
                             (case fstat_size f_y of
                                None \<Rightarrow> Some (RM_ERR_FSTAT_Y, fs, rc)
                              | Some y_sz \<Rightarrow>
                                  push_delta env tw fq h fs f_x x_sz y f_y y_sz z (push_ctx L all tail send) flags rc)
                         | None \<Rightarrow>
                             if flags AND RM_BIT_4 \<noteq> 0
                             then Some (push_copy env fs x f_x x_sz (case z of Some zn \<Rightarrow> zn | None \<Rightarrow> y) rc)
                             else Some (RM_ERR_OPEN_Y, fs, rc))))
      | _ \<Rightarrow> Some (RM_ERR_BAD_CALL, fs, rco))"

section \<open>Lemmas\<close>

definition env_healthy :: "push_env \<Rightarrow> bool" where
  "env_healthy env \<longleftrightarrow>
     (\<forall>p bs. healthy (pe_stream env p bs) \<and> fs_bytes (pe_stream env p bs) = bs) \<and>
     (\<forall>p. pe_read_ok env p \<and> pe_write_ok env p \<and> pe_unlink_ok env p) \<and> (\<forall>a b. pe_rename_ok env a b) \<and>
     pe_session_ok env \<and> pe_tx_launch env \<and> pe_rx_launch env \<and>
     pe_mem_insert env = mem_ok \<and> pe_mem_roll env = mem_ok"

lemma push_ctx_simps [simp]:
  "ctx_L (push_ctx L all tail send) = L" "send_threshold (push_ctx L all tail send) = send"
  "rec_by_ref (push_ctx L all tail send) = 0" "rec_by_raw (push_ctx L all tail send) = 0"
  by (simp_all add: push_ctx_def ctx_zero_def)

lemma local_merge_simps [simp]:
  "rec_by_ref (local_merge a b) = rec_by_ref b" "rec_by_raw (local_merge a b) = rec_by_raw b"
  by (simp_all add: local_merge_def)

lemma local_threads_ok:
  assumes "pe_mem_roll env = mem_ok" and "fifo_ok fq" and "table_sound tw (\<lambda>_. h) L (fs_bytes f_y)"
    and "healthy f_x" and "healthy f_y" and "healthy f_z" and "fs_bytes f_z = []"
    and "length (fs_bytes f_x) < off_max" and "length (fs_bytes f_y) < off_max"
    and "0 < L" and "L < off_max" and "0 < send"
    and "no_collision L (fs_bytes f_x) (fs_bytes f_y)" and "zero_diff_safe L (fs_bytes f_x) (fs_bytes f_y)"
  shows "\<exists>tx z c. local_threads env tw fq h (length (fs_bytes f_x)) (push_ctx L all tail send) f_x f_y f_z =
      Some (tx, RM_RX_STATUS_OK, z, c, True) \<and> healthy z \<and> fs_bytes z = fs_bytes f_x \<and>
    rec_by_ref c + rec_by_raw c = length (fs_bytes f_x)"
proof -
  let ?x = "fs_bytes f_x" and ?c = "push_ctx L all tail send"
  let ?s = "\<lparr>s_rec_ctx = ?c, s_prvt = \<lparr>tq_queue = fq_init fq, tq_mutex = Mutex_Free, tq_smutex = Mutex_Free,
    tq_signals = 0\<rparr>\<rparr>"
  let ?tx = "rm_session_delta_tx_f tw mem_ok RM_PUSH_LOCAL True (Some (\<lambda>_. h)) Mutex_Free (Some f_x)
    (Some (roll_cb fq RM_PUSH_LOCAL)) ?s"
  have q: "queued fq (s_prvt ?s) = []" using fifo_simps(1) [OF assms(2)] by (simp add: queued_def)
  obtain st s' fx hm where tx: "?tx = Some (st, s', fx, hm)"
      and up: "deltas_upto L (fs_bytes f_y) ?x (length ?x) (queued fq (s_prvt s'))"
  proof (cases "?x = []")
    case True
    then have "?tx = Some (Some RM_TX_STATUS_ROLLING_PROC_FAIL, ?s, Some f_x, Mutex_Free)"
      using assms(4,10,12)
      by (simp add: rm_session_delta_tx_f_def rm_rolling_ch_proc_def roll_proc_def Let_def fstat_size_def
          healthy_def roll_start_def)
    with True q that show ?thesis by (simp add: deltas_upto_def)
  next
    case False
    then have "roll_call_ok tw ?s (Some (\<lambda>_. h)) f_x (fs_bytes f_y) (roll_cb fq RM_PUSH_LOCAL) (queued fq)"
      using assms sink_roll_cb [OF assms(2)] by (simp add: roll_call_ok_def)
    from delta_tx_ok [OF this _ q, of Mutex_Free] that show ?thesis by auto
  qed
  let ?start = "pipe_init fq (queued fq (s_prvt s')) (length ?x) (f_y, Some f_z, ?c)"
  let ?p = "run_pipe fq local_rx_f (pe_sched env) ?start"
  have p: "pipe_reach fq local_rx_f ?start ?p" "pipe_stuck fq local_rx_f ?p"
    by (simp_all only: run_pipe_end [OF assms(2)])
  have "pp_cons ?p = C_Done \<and> fq_list fq (pp_queue ?p) = [] \<and>
    (\<exists>y' z' c'. pp_sink ?p = (y', Some z', c') \<and> healthy z' \<and> fs_bytes z' = ?x \<and>
       rec_by_ref c' + rec_by_raw c' = length ?x)"
    using local_threads_end [OF p assms(2)] up assms by auto
  with tx assms(1) show ?thesis by (auto simp: local_threads_def Let_def)
qed

text \<open>The table of the reference file is sound for the rolling procedure, and the file is still readable.\<close>

lemma reference_table:
  assumes "twhash_ok tw" and "\<forall>b. tw_bucket tw h b = []" and "healthy f" and "length (fs_bytes f) < off_max"
    and "0 < L"
  shows "\<exists>n st. rm_rx_insert_nonoverlapping_ch_ch_ref tw mem_ok 0 f (Some h) L None
      (length (fs_bytes f) div L + (if length (fs_bytes f) mod L \<noteq> 0 then 1 else 0)) None () = (RM_ERR_OK, n, st) \<and>
    table_sound tw (\<lambda>_. the (ins_h st)) L (fs_bytes f) \<and> healthy (ins_f st) \<and> fs_bytes (ins_f st) = fs_bytes f"
proof -
  have keeps: "tx_keeps (\<lambda>_. True) (None :: unit tx_ch_ch_ref option)" by (simp add: tx_keeps_def)
  have n: "nblocks L (fs_bytes f) \<le>
      length (fs_bytes f) div L + (if length (fs_bytes f) mod L \<noteq> 0 then 1 else 0)"
    using blocks_n_exp [OF assms(5), of "length (fs_bytes f)"] by (simp add: nblocks_def)
  from insert_ref_total [OF assms(3-5) _ keeps TrueI n, of 0 tw "Some h" None]
    table_sound_fold [OF assms(1,5,2), of "fs_bytes f"]
  show ?thesis by auto
qed

lemma push_delta_ok:
  assumes "env_healthy env" and "fifo_ok fq" and "twhash_ok tw" and "\<forall>b. tw_bucket tw h b = []"
    and "healthy f_x" and "healthy f_y" and "length (fs_bytes f_x) < off_max" and "length (fs_bytes f_y) < off_max"
    and "0 < L" and "L < off_max" and "0 < send"
    and "no_collision L (fs_bytes f_x) (fs_bytes f_y)" and "zero_diff_safe L (fs_bytes f_x) (fs_bytes f_y)"
  shows "\<exists>c. rec_by_ref c + rec_by_raw c = length (fs_bytes f_x) \<and>
    push_delta env tw fq h fs f_x (length (fs_bytes f_x)) y f_y (length (fs_bytes f_y)) z
      (push_ctx L all tail send) flags rc =
    (case push_replace env flags y z (fs(pe_tmp env := Some (fs_bytes f_x))) of (err, fs') \<Rightarrow> Some (err, fs', c))"
proof -
  note env = assms(1) [unfolded env_healthy_def]
  obtain n st where ins: "rm_rx_insert_nonoverlapping_ch_ch_ref tw mem_ok 0 f_y (Some h) L None
      (length (fs_bytes f_y) div L + (if length (fs_bytes f_y) mod L \<noteq> 0 then 1 else 0)) None () = (RM_ERR_OK, n, st)"
      "table_sound tw (\<lambda>_. the (ins_h st)) L (fs_bytes (ins_f st))" "healthy (ins_f st)"
      "fs_bytes (ins_f st) = fs_bytes f_y"
    using reference_table [OF assms(3,4,6,8,9)] by auto
  obtain tx z' c where thr: "local_threads env tw fq (the (ins_h st)) (length (fs_bytes f_x))
      (push_ctx L all tail send) f_x (ins_f st) (pe_stream env (pe_tmp env) []) =
      Some (tx, RM_RX_STATUS_OK, z', c, True)" "healthy z'" "fs_bytes z' = fs_bytes f_x"
      "rec_by_ref c + rec_by_raw c = length (fs_bytes f_x)"
    using local_threads_ok [of env fq tw "the (ins_h st)" L "ins_f st" f_x "pe_stream env (pe_tmp env) []" send all tail]
      ins assms env by auto
  have "sz_add (rec_by_ref c) (rec_by_raw c) = length (fs_bytes f_x)"
    using thr(4) assms(7) off_max_size_t by (simp add: sz_add_id)
  with ins(1) thr env show ?thesis
    by (intro exI [of _ c])
      (simp add: push_delta_def Let_def fopen_wb_def push_finish_def fstat_size_def healthy_def split_beta)
qed

text \<open>Copying from a file that has been truncated writes nothing.\<close>

lemma copy_empty:
  assumes "healthy f" and "fs_bytes f = []" and "0 < n" and "healthy g" and "fs_bytes g = []"
  shows "\<exists>e f' g'. rm_copy_buffered f g n None = (e, f', g', None) \<and> e \<noteq> RM_ERR_OK \<and> fs_bytes g' = []"
proof -
  have "copy_loop n (rewind f) (rewind g) =
      (None, n, snd (snd (fread 1 (read_chunk n) (rewind f))), rewind g)"
    using assms read_chunk_bounds(2) [OF assms(3)]
    by (subst copy_loop.simps) (simp add: Let_def fread_def file_simps split_beta within_def healthy_def bslice_def)
  with assms show ?thesis
    by (auto simp: rm_copy_buffered_def Let_def copy_verdict_def file_simps)
qed

text \<open>The exits with an error: only the temporary file has changed, unless it is the final \<open>rename\<close>.\<close>

definition push_failed :: "push_env \<Rightarrow> u8 \<Rightarrow> string \<Rightarrow> nat \<Rightarrow> files \<Rightarrow> rm_error \<Rightarrow> files \<Rightarrow> bool" where
  "push_failed env flags y x_sz fs err fs' \<longleftrightarrow>
     (if err = RM_ERR_RENAME_TMP_Z \<or> err = RM_ERR_RENAME_TMP_Y
      then \<exists>bs. length bs = x_sz \<and>
        fs' = (if flags AND RM_BIT_6 = 0 then fs(y := None) else fs)(pe_tmp env := Some bs)
      else \<forall>p. p \<noteq> pe_tmp env \<longrightarrow> fs' p = fs p)"

lemma push_finish_failed:
  assumes "push_finish env flags y z x_sz fs r = (err, fs', c)" and "err \<noteq> RM_ERR_OK" and "y \<noteq> pe_tmp env"
  shows "push_failed env flags y x_sz fs err fs'"
proof -
  obtain tx rx f_z c' drained where r: "r = (tx, rx, f_z, c', drained)" by (cases r)
  have sz: "fstat_size f_z = Some n \<Longrightarrow> n = length (fs_bytes f_z)" for n
    by (simp add: fstat_size_def split: if_splits)
  let ?fs = "fs(pe_tmp env := Some (fs_bytes f_z))"
  show ?thesis
  proof (cases "fstat_size f_z = Some x_sz \<and> push_replace env flags y z ?fs = (err, fs')")
    case True
    then show ?thesis
      using sz [of x_sz] assms(2,3)
      by (auto simp: push_failed_def push_replace_def sys_unlink_def fun_upd_twist split: option.splits if_splits)
  next
    case False
    then show ?thesis
      using assms(1) r
      by (auto simp: push_failed_def push_finish_def Let_def split: option.splits if_splits prod.splits)
  qed
qed

lemma push_failed_tmp:
  "push_failed env flags y n (fs(pe_tmp env := b)) err fs' \<Longrightarrow> y \<noteq> pe_tmp env \<Longrightarrow>
     push_failed env flags y n fs err fs'"
  by (auto simp: push_failed_def fun_upd_twist split: if_splits)

lemma push_delta_failed:
  assumes "push_delta env tw fq h fs f_x x_sz y f_y y_sz z ctx flags rc = Some (err, fs', c)"
    and "err \<noteq> RM_ERR_OK" and "y \<noteq> pe_tmp env"
  shows "push_failed env flags y x_sz fs err fs'"
proof (cases "\<exists>r. push_finish env flags y z x_sz (fs(pe_tmp env := Some [])) r = (err, fs', c)")
  case True
  then show ?thesis using push_finish_failed [OF _ assms(2,3)] push_failed_tmp [OF _ assms(3)] by blast
next
  case False
  then show ?thesis
    using assms(1)
    by (auto simp: push_failed_def push_delta_def Let_def fopen_wb_def split: option.splits if_splits prod.splits)
qed

lemma local_push_cases:
  assumes "rm_tx_local_push env tw fq h (Some x) (Some y) z L all tail send flags rco fs = Some (err, fs', rc')"
    and "fopen_rb env fs y = Some f_y"
  shows "fs' = fs \<and> err \<noteq> RM_ERR_RENAME_TMP_Z \<and> err \<noteq> RM_ERR_RENAME_TMP_Y \<or>
    (\<exists>f_x x_sz y_sz c rc. fopen_rb env fs x = Some f_x \<and> fstat_size f_x = Some x_sz \<and>
       push_delta env tw fq h fs f_x x_sz y f_y y_sz z (push_ctx L all tail send) flags rc = Some (err, fs', c))"
proof (cases "L = 0 \<or> send = 0 \<or> rco = None \<or> fopen_rb env fs x = None \<or> fstat_size f_y = None")
  case True
  then show ?thesis
    using assms by (auto simp: rm_tx_local_push_def split: option.splits if_splits)
next
  case False
  then obtain f_x rc y_sz where o: "fopen_rb env fs x = Some f_x" "rco = Some rc" "fstat_size f_y = Some y_sz"
    "L \<noteq> 0" "send \<noteq> 0" by auto
  show ?thesis
  proof (cases "fstat_size f_x")
    case None
    then show ?thesis using assms o by (auto simp: rm_tx_local_push_def)
  next
    case (Some x_sz)
    with assms o show ?thesis by (auto simp: rm_tx_local_push_def)
  qed
qed

text \<open>A system without faults, whose threads start with the given turns.\<close>

definition sample_env :: "turn list \<Rightarrow> push_env" where
  "sample_env sched = \<lparr>pe_read_ok = \<lambda>_. True, pe_write_ok = \<lambda>_. True, pe_stream = \<lambda>_. open_stream,
     pe_tmp = ''tmp'', pe_session_ok = True, pe_mem_insert = mem_ok, pe_mem_roll = mem_ok, pe_tx_launch = True,
     pe_rx_launch = True, pe_unlink_ok = \<lambda>_. True, pe_rename_ok = \<lambda>_ _. True, pe_sched = sched\<rparr>"

lemma sample_env_healthy: "env_healthy (sample_env sched)"
  by (simp add: env_healthy_def sample_env_def healthy_open)

section \<open>Properties\<close>

text \<open>A local push onto an existing reference file, when the calls of the operating system succeed.\<close>

lemma local_push_ok:
  assumes "env_healthy env" and "fifo_ok fq" and "twhash_ok tw" and "\<forall>b. tw_bucket tw h b = []"
    and "fs x = Some xb" and "fs y = Some yb" and "length xb < off_max" and "length yb < off_max"
    and "0 < L" and "L < off_max" and "0 < send" and "no_collision L xb yb" and "zero_diff_safe L xb yb"
    and "y \<noteq> pe_tmp env" and "z = Some zn \<or> z = None \<and> zn = y" and "zn \<noteq> pe_tmp env"
  shows "\<exists>c. rm_tx_local_push env tw fq h (Some x) (Some y) z L all tail send flags (Some rc) fs =
      Some (RM_ERR_OK, (if flags AND RM_BIT_6 = 0 then fs(y := None) else fs)(pe_tmp env := None, zn := Some xb), Some c) \<and>
    rec_by_ref c + rec_by_raw c = length xb"
proof -
  note env = assms(1) [unfolded env_healthy_def]
  let ?fs = "(if flags AND RM_BIT_6 = 0 then fs(y := None) else fs)(pe_tmp env := None, zn := Some xb)"
  have rep: "push_replace env flags y z (fs(pe_tmp env := Some xb)) = (RM_ERR_OK, ?fs)"
    using env assms(6,14-16)
    by (auto simp: push_replace_def sys_unlink_def sys_rename_def fun_upd_twist)
  obtain c where "push_delta env tw fq h fs (pe_stream env x xb) (length xb) y (pe_stream env y yb) (length yb) z
      (push_ctx L all tail send) flags rc = Some (RM_ERR_OK, ?fs, c)"
      and c: "rec_by_ref c + rec_by_raw c = length xb"
    using push_delta_ok [OF assms(1-4), of "pe_stream env x xb" "pe_stream env y yb" L send fs y z all tail flags rc]
      env assms rep by auto
  then have "rm_tx_local_push env tw fq h (Some x) (Some y) z L all tail send flags (Some rc) fs =
      Some (RM_ERR_OK, ?fs, Some c)"
    using env assms(5,6,9,11)
    by (simp add: rm_tx_local_push_def fopen_rb_def fstat_size_def healthy_def)
  with c show ?thesis by blast
qed

text \<open>
  C3. A local push onto an existing reference file, when the calls of the operating system succeed:
  it returns \<open>RM_ERR_OK\<close> under every schedule of its two threads, the result (under the name given, or
  that of the reference file) has exactly the contents of the source, the reference file is gone
  unless it was to stay, the temporary name is gone, no other file has changed, and the bytes accounted for
  are those of the source. The empty source is included, for which the producer thread reports a failure. Two
  conditions are on the contents: the checksums tell the blocks of the two files apart (\<open>no_collision\<close>), and if a block of the
  reference file is the whole source, the reference file begins with it (\<open>zero_diff_safe\<close>), since for a zero
  difference the beginning is copied, whichever block has matched.
\<close>
theorem local_push_reconstructs:
  assumes "env_healthy env" and "fifo_ok fq" and "twhash_ok tw" and "\<forall>b. tw_bucket tw h b = []"
    and "fs x = Some xb" and "fs y = Some yb" and "length xb < off_max" and "length yb < off_max"
    and "0 < L" and "L < off_max" and "0 < send" and "no_collision L xb yb" and "zero_diff_safe L xb yb"
    and "y \<noteq> pe_tmp env" and "z = Some zn \<or> z = None \<and> zn = y" and "zn \<noteq> pe_tmp env"
  shows "\<exists>c. rm_tx_local_push env tw fq h (Some x) (Some y) z L all tail send flags (Some rc) fs =
      Some (RM_ERR_OK, (if flags AND RM_BIT_6 = 0 then fs(y := None) else fs)(pe_tmp env := None, zn := Some xb), Some c) \<and>
    rec_by_ref c + rec_by_raw c = length xb"
  by (rule local_push_ok [OF assms])

theorem local_push_reconstructs_witness:
  "\<exists>c. rm_tx_local_push (sample_env [Producer_Turn, Consumer_Turn, Spurious_Turn]) tw_lists fifo_lists (\<lambda>_. [])
      (Some ''x'') (Some ''y'') None 1 0 0 1 0 (Some ctx_zero) [''x'' \<mapsto> [2, 1], ''y'' \<mapsto> [1, 1]] =
    Some (RM_ERR_OK, [''x'' \<mapsto> [2, 1], ''y'' \<mapsto> [2, 1]], Some c) \<and> rec_by_ref c + rec_by_raw c = Suc (Suc 0)"
proof -
  have nc: "no_collision 1 [2, 1] [1, 1]" "zero_diff_safe 1 [2, 1] [1, 1]"
    using roll_call_ok_sample [OF sink_log, of "[]"] by (simp_all add: roll_call_ok_def Let_def)
  show ?thesis
    using local_push_reconstructs [OF sample_env_healthy fifo_lists_ok tw_lists_ok, of "\<lambda>_. []"
        "[''x'' \<mapsto> [2, 1], ''y'' \<mapsto> [1, 1]]" "''x''" "[2, 1]" "''y''" "[1, 1]" 1 1 "[Producer_Turn, Consumer_Turn, Spurious_Turn]" None
        "''y''" 0 0 0 ctx_zero] nc
    by (simp add: tw_lists_def off_max_def sample_env_def)
qed

text \<open>
  C31. What a failed local push leaves behind: whatever goes wrong, streams, allocations, threads and
  calls of the operating system, as long as the reference file exists and can be opened (without it a push that may
  create the file writes the result in place), no file but the
  temporary one has changed when an error is returned, except when the final \<open>rename\<close> fails: then the reference
  file is gone unless it was to stay, and the data, of the size of the source, is only in the temporary file.
\<close>
theorem local_push_failure_keeps_files:
  assumes "rm_tx_local_push env tw fq h (Some x) (Some y) z L all tail send flags rc fs = Some (err, fs', rc')"
    and "err \<noteq> RM_ERR_OK" and "fopen_rb env fs y \<noteq> None" and "y \<noteq> pe_tmp env"
  shows "if err = RM_ERR_RENAME_TMP_Z \<or> err = RM_ERR_RENAME_TMP_Y
    then \<exists>bs f_x. fs' = (if flags AND RM_BIT_6 = 0 then fs(y := None) else fs)(pe_tmp env := Some bs) \<and>
      fopen_rb env fs x = Some f_x \<and> fstat_size f_x = Some (length bs)
    else \<forall>p. p \<noteq> pe_tmp env \<longrightarrow> fs' p = fs p"
proof -
  obtain f_y where "fopen_rb env fs y = Some f_y" using assms(3) by auto
  from local_push_cases [OF assms(1) this] show ?thesis
  proof (elim disjE exE conjE)
    fix f_x x_sz y_sz c rc
    assume x: "fopen_rb env fs x = Some f_x" "fstat_size f_x = Some x_sz"
      and "push_delta env tw fq h fs f_x x_sz y f_y y_sz z (push_ctx L all tail send) flags rc = Some (err, fs', c)"
    from push_delta_failed [OF this(3) assms(2,4)] x show ?thesis
      by (auto simp: push_failed_def split: if_splits)
  qed simp
qed

theorem local_push_failure_keeps_files_witness:
  "\<exists>fs'. rm_tx_local_push ((sample_env [])\<lparr>pe_session_ok := False\<rparr>) tw_lists fifo_lists (\<lambda>_. [])
      (Some ''x'') (Some ''y'') None 1 0 0 1 0 (Some ctx_zero) [''x'' \<mapsto> [2, 1], ''y'' \<mapsto> []] =
    Some (RM_ERR_CREATE_SESSION, fs', Some ctx_zero) \<and> fs' ''y'' = Some []"
proof -
  let ?env = "(sample_env [])\<lparr>pe_session_ok := False\<rparr>" and ?fs = "[''x'' \<mapsto> [2, 1], ''y'' \<mapsto> ([] :: bytes)]"
  have "rm_tx_local_push ?env tw_lists fifo_lists (\<lambda>_. []) (Some ''x'') (Some ''y'') None 1 0 0 1 0 (Some ctx_zero) ?fs =
      Some (RM_ERR_CREATE_SESSION, ?fs(''tmp'' := Some []), Some ctx_zero)"
    by (simp add: rm_tx_local_push_def push_delta_def fopen_rb_def fopen_wb_def sample_env_def fstat_size_def
        open_stream_def rm_rx_insert_nonoverlapping_ch_ch_ref_def)
  from local_push_failure_keeps_files [OF this] this show ?thesis
    by (simp add: fopen_rb_def sample_env_def)
qed

text \<open>
  A local push without a reference file: with \<open>--force\<close> the result is created with exactly the
  contents of the source, and nothing else changes; without it nothing happens. But when the name
  given for the result is that of the source, the source is destroyed: opening the result truncates it,
  the copy fails, and an empty file is left.
\<close>
theorem local_push_creates:
  assumes "env_healthy env" and "fs x = Some xb" and "fs y = None" and "0 < L" and "0 < send"
    and "z = Some zn \<or> z = None \<and> zn = y"
  shows "if flags AND RM_BIT_4 = 0
    then rm_tx_local_push env tw fq h (Some x) (Some y) z L all tail send flags (Some rc) fs =
      Some (RM_ERR_OPEN_Y, fs, Some rc)
    else if zn = x \<and> xb \<noteq> []
    then rm_tx_local_push env tw fq h (Some x) (Some y) z L all tail send flags (Some rc) fs =
      Some (RM_ERR_COPY_BUFFERED, fs(x := Some []), Some rc)
    else \<exists>c. rm_tx_local_push env tw fq h (Some x) (Some y) z L all tail send flags (Some rc) fs =
      Some (RM_ERR_OK, fs(zn := Some xb), Some c) \<and> rec_by_raw c = length xb"
proof -
  note env = assms(1) [unfolded env_healthy_def]
  let ?run = "rm_tx_local_push env tw fq h (Some x) (Some y) z L all tail send flags (Some rc) fs"
  have run: "?run = Some (if flags AND RM_BIT_4 = 0 then (RM_ERR_OPEN_Y, fs, Some rc)
      else (case push_copy env fs x (pe_stream env x xb) (length xb) zn rc of (e, fs', c) \<Rightarrow> (e, fs', Some c)))"
    using env assms(2-6)
    by (auto simp: rm_tx_local_push_def fopen_rb_def fstat_size_def healthy_def split_beta)
  show ?thesis
  proof (cases "zn = x \<and> xb \<noteq> []")
    case True
    let ?f = "(pe_stream env x xb)\<lparr>fs_bytes := []\<rparr>" and ?z = "pe_stream env zn []"
    have "healthy ?f" "fs_bytes ?f = []" "0 < length xb" using env True by (auto simp: healthy_def)
    from copy_empty [OF this(1-3), of ?z] env
    obtain e x' z' where "e \<noteq> RM_ERR_OK" "rm_copy_buffered ?f ?z (length xb) None = (e, x', z', None)"
      "fs_bytes z' = []" by auto
    then have "push_copy env fs x (pe_stream env x xb) (length xb) zn rc =
        (RM_ERR_COPY_BUFFERED, fs(x := Some []), rc)"
      using env True by (simp add: push_copy_def fopen_wb_def Let_def)
    with run True show ?thesis by simp
  next
    case False
    let ?f = "if zn = x then (pe_stream env x xb)\<lparr>fs_bytes := []\<rparr> else pe_stream env x xb"
    have f: "healthy ?f" "fs_bytes ?f = xb" using env False by (auto simp: healthy_def)
    from rm_copy_buffered_healthy [OF f(1), of "pe_stream env zn []" "length xb" None] f(2) env write_at_end [of 0 "[]" xb]
    obtain x' z' where "rm_copy_buffered ?f (pe_stream env zn []) (length xb) None = (RM_ERR_OK, x', z', None)"
      "healthy z'" "fs_bytes z' = xb" by auto
    then have "\<exists>c. push_copy env fs x (pe_stream env x xb) (length xb) zn rc =
        (RM_ERR_OK, fs(zn := Some xb), c) \<and> rec_by_raw c = length xb"
      using env by (simp add: push_copy_def fopen_wb_def Let_def fstat_size_def healthy_def)
    with run False show ?thesis by auto
  qed
qed

theorem local_push_creates_witness:
  "rm_tx_local_push (sample_env []) tw_lists fifo_lists (\<lambda>_. []) (Some ''x'') (Some ''y'') (Some ''x'') 1 0 0 1
      RM_BIT_4 (Some ctx_zero) [''x'' \<mapsto> [7]] = Some (RM_ERR_COPY_BUFFERED, [''x'' \<mapsto> []], Some ctx_zero)"
  using local_push_creates [OF sample_env_healthy, of "[''x'' \<mapsto> [7]]" "''x''" "[7]" "''y''" 1 1 "Some ''x''" "''x''"
      RM_BIT_4 "[]" tw_lists fifo_lists "\<lambda>_. []" 0 0 ctx_zero]
  by (simp add: RM_BIT_4_def)

end
