(* ===== verification/RM_Receive.thy ===== *)
theory RM_Receive
  imports RM_Exchange RM_Push
begin

text \<open>
  The daemon's side of a remote push: \<open>rm_session_assign_validate_from_msg_push\<close> of \<^verbatim>\<open>src/rm_session.c\<close>
  and the handler \<open>rm_do_msg_push_rx\<close> of \<^verbatim>\<open>src/rm_do_msg.c\<close> with the destructor of its work item. The
  names in a request are relative to the working directory of the process, which the handler
  changes; files are kept under absolute names.
\<close>

section \<open>Names\<close>

text \<open>The string in a name field, up to the terminating zero.\<close>

definition c_string :: "bytes \<Rightarrow> string" where
  "c_string bs = map (\<lambda>b. char_of (unat b)) (takeWhile (\<lambda>b. b \<noteq> 0) bs)"

definition resolve :: "string \<Rightarrow> string \<Rightarrow> string" where
  "resolve cwd p = (if p \<noteq> [] \<and> hd p = CHR ''/'' then p else cwd @ ''/'' @ p)"

definition strip_slashes :: "string \<Rightarrow> string" where
  "strip_slashes p = rev (dropWhile (\<lambda>c. c = CHR ''/'') (rev p))"

text \<open>The \<open>dirname\<close> of the C library.\<close>

definition dirname :: "string \<Rightarrow> string" where
  "dirname p =
     (if p = [] then ''.''
      else let a = strip_slashes p in
        if a = [] then ''/''
        else let d = rev (dropWhile (\<lambda>c. c \<noteq> CHR ''/'') (rev a)) in
          if d = [] then ''.''
          else if strip_slashes d = [] then ''/'' else strip_slashes d)"

section \<open>Validation of a request\<close>

text \<open>
  The environment: the file calls of \<open>re_sys\<close>, \<open>getcwd\<close> and \<open>chdir\<close>, the number \<open>rm_tcp_listen\<close> gives (\<open>RM_Connect\<close>),
  which need not be that of an error, with the port it chose, the launches of the two threads, the connection accepted for the delta, the
  allocations of the threads, and what identifies the session.
\<close>

record recv_env =
  re_sys :: push_env
  re_getcwd_ok :: bool
  re_chdir_ok :: "string \<Rightarrow> bool"
  re_listen :: "int \<times> u16"
  re_tx_launch :: bool
  re_rx_launch :: bool
  re_conn :: "sock option"
  re_mem_tx :: mem_oracle
  re_mem_rx :: mem_oracle
  re_uuid :: bytes
  re_addr :: u64
  re_fd :: int
  re_hash32 :: twhash_32

text \<open>
  The session with its private part. \<open>rv_msg\<close>: the message and the control descriptor have been
  handed to it.
\<close>

record recv_sess =
  rv_type :: rm_session_type
  rv_ctx :: rm_delta_reconstruct_ctx
  rv_msg :: bool
  rv_y :: "stream option"
  rv_y_sz :: nat
  rv_ch_ch_n :: u64
  rv_hash :: bytes
  rv_y_dname :: "string option"
  rv_z_dname :: "string option"
  rv_z :: "stream option"
  rv_z_name :: string

definition recv_init :: "rm_session_type \<Rightarrow> recv_sess" where
  "recv_init t = \<lparr>rv_type = t, rv_ctx = ctx_zero, rv_msg = False, rv_y = None, rv_y_sz = 0, rv_ch_ch_n = 0,
     rv_hash = [], rv_y_dname = None, rv_z_dname = None, rv_z = None, rv_z_name = []\<rparr>"

definition sys_chdir :: "recv_env \<Rightarrow> string \<Rightarrow> string option \<Rightarrow> string option" where
  "sys_chdir env cwd d =
     (case d of
        None \<Rightarrow> None
      | Some p \<Rightarrow> (let t = (if p = ''.'' then cwd else resolve cwd p) in if re_chdir_ok env t then Some t else None))"

definition validate_names :: "rm_msg_push \<Rightarrow> recv_sess \<Rightarrow> recv_sess" where
  "validate_names m s = s\<lparr>rv_msg := True,
     rv_y_dname := (if 0 < p_y_sz m then Some (dirname (c_string (p_y m))) else rv_y_dname s),
     rv_z_dname := (if 0 < p_z_sz m then Some (dirname (c_string (p_z m))) else rv_z_dname s)\<rparr>"

definition validate_y ::
    "recv_env \<Rightarrow> rm_msg_push \<Rightarrow> files \<Rightarrow> string \<Rightarrow> recv_sess \<Rightarrow> rm_error option \<times> recv_sess" where
  "validate_y env m fs cwd s =
     (case fopen_rb (re_sys env) fs (resolve cwd (c_string (p_y m))) of
        Some f \<Rightarrow>
          (case fstat_size f of
             None \<Rightarrow> (Some RM_ERR_FSTAT_Y, s\<lparr>rv_y := Some f\<rparr>)
           | Some y_sz \<Rightarrow>
               let L = unat (p_L m) in
               (None, s\<lparr>rv_y := Some f, rv_y_sz := y_sz,
                  rv_ch_ch_n := of_nat (y_sz div L + (if y_sz mod L \<noteq> 0 then 1 else 0))\<rparr>))
      | None \<Rightarrow>
          (if h_flags (p_hdr m) AND RM_BIT_4 = 0 then Some RM_ERR_OPEN_Y else None,
           s\<lparr>rv_y := None, rv_ch_ch_n := 0\<rparr>))"

definition validate_dir ::
    "recv_env \<Rightarrow> rm_msg_push \<Rightarrow> files \<Rightarrow> string \<Rightarrow> recv_sess \<Rightarrow> rm_error \<times> recv_sess \<times> files \<times> string" where
  "validate_dir env m fs cwd s =
     (if \<not> re_getcwd_ok env then (RM_ERR_GETCWD, s, fs, cwd)
      else case sys_chdir env cwd (if 0 < p_z_sz m then rv_z_dname s else rv_y_dname s) of
        None \<Rightarrow> (if 0 < p_z_sz m then RM_ERR_CHDIR_Z else RM_ERR_CHDIR_Y, s, fs, cwd)
      | Some cwd1 \<Rightarrow>
          let s1 = s\<lparr>rv_z_name := pe_tmp (re_sys env)\<rparr> in
          (case fopen_wb (re_sys env) fs (resolve cwd1 (rv_z_name s1)) of
             None \<Rightarrow> (RM_ERR_OPEN_TMP, s1, fs, cwd1)
           | Some (f, fs1) \<Rightarrow> (RM_ERR_OK, s1\<lparr>rv_z := Some f\<rparr>, fs1, cwd1)))"

definition rm_session_assign_validate_from_msg_push ::
    "recv_env \<Rightarrow> recv_sess \<Rightarrow> rm_msg_push \<Rightarrow> files \<Rightarrow> string \<Rightarrow> rm_error \<times> recv_sess \<times> files \<times> string" where
  "rm_session_assign_validate_from_msg_push env s m fs cwd =
     (if p_L m = 0 then (RM_ERR_BLOCK_SIZE, s, fs, cwd)
      else
        let s1 = s\<lparr>rv_ctx := (rv_ctx s)\<lparr>ctx_L := unat (p_L m)\<rparr>\<rparr>;
            hash = rm_md5 (take (unat (p_y_sz m)) (p_y m))
        in if p_x_sz m = 0 then (RM_ERR_X_ZERO_SIZE, s1, fs, cwd)
           else case rv_type s of
             RM_PUSH_RX \<Rightarrow>
               let s2 = validate_names m s1 in
               if h_flags (p_hdr m) AND RM_BIT_6 \<noteq> 0 \<and> (p_z_sz m = 0 \<or> c_string (p_y m) = c_string (p_z m))
               then (RM_ERR_Y_Z_SYNC, s2, fs, cwd)
               else if p_y_sz m = 0 then (RM_ERR_Y_NULL, s2, fs, cwd)
               else (case validate_y env m fs cwd s2 of
                       (Some e, s3) \<Rightarrow> (e, s3, fs, cwd)
                     | (None, s3) \<Rightarrow> validate_dir env m fs cwd (s3\<lparr>rv_hash := hash\<rparr>))
           | RM_PULL_RX \<Rightarrow> validate_dir env m fs cwd (s1\<lparr>rv_hash := hash\<rparr>)
           | _ \<Rightarrow> (RM_ERR_FAIL, s1, fs, cwd))"

section \<open>The handler\<close>

record 'h node =
  nd_files :: files
  nd_cwd :: string
  nd_core :: "'h rsyncme"
  nd_ctl :: sock

text \<open>
  How the handler ends: the number of the error it logs, the state, how often the control descriptor has been closed
  and the message freed, and whether the work item still points to the message.
\<close>

record 'h recv_result =
  rr_err :: int
  rr_node :: "'h node"
  rr_closes :: nat
  rr_frees :: nat
  rr_work_msg :: bool

text \<open>The session as the table of sessions knows it; its bucket number is set when it is added.\<close>

definition recv_core :: "'h sess_table \<Rightarrow> recv_env \<Rightarrow> recv_sess \<Rightarrow> bool \<Rightarrow> core_session" where
  "recv_core st env s added = \<lparr>cs_id = re_uuid env, cs_hash = rv_hash s, cs_addr = re_addr env,
     cs_hashed_hash = (if added then sh_min st 4 (hash_key (rv_hash s)) RM_SESSION_HASH_BITS else 0)\<rparr>"

text \<open>
  Both ends of the handler: the session is removed from the table and freed, which closes the control
  descriptor and frees the message if it was given them, and the work item forgets the message.
\<close>

definition recv_end ::
    "'h sess_table \<Rightarrow> recv_env \<Rightarrow> recv_sess \<Rightarrow> bool \<Rightarrow> int \<Rightarrow> 'h node \<Rightarrow> 'h recv_result" where
  "recv_end st env s added err n =
     \<lparr>rr_err = err, rr_node = n\<lparr>nd_core := rm_core_session_del st (nd_core n) (recv_core st env s added)\<rparr>,
      rr_closes = (if rv_msg s then 1 else 0), rr_frees = (if rv_msg s then 1 else 0), rr_work_msg = False\<rparr>"

definition recv_ack :: "recv_env \<Rightarrow> int \<Rightarrow> u16 \<Rightarrow> recv_sess \<Rightarrow> 'h node \<Rightarrow> rm_error \<times> 'h node" where
  "recv_ack env status port s n =
     (case rm_tcp_tx_msg_ack (re_hash32 env) (nd_ctl n) RM_PT_MSG_PUSH_ACK status (Some (port, rv_ch_ch_n s)) of
        (e, c) \<Rightarrow> (e, n\<lparr>nd_ctl := c\<rparr>))"

text \<open>After both threads have ended well: the result takes its place.\<close>

definition recv_replace ::
    "recv_env \<Rightarrow> rm_msg_push \<Rightarrow> bool \<Rightarrow> stream option \<Rightarrow> string \<Rightarrow> string \<Rightarrow> files \<Rightarrow> rm_error \<times> files" where
  "recv_replace env m has_y z z_name cwd fs =
     (let y = resolve cwd (c_string (p_y m)); tmp = resolve cwd z_name in
      if (case z of None \<Rightarrow> False | Some f \<Rightarrow> fstat_size f = None) then (RM_ERR_FSTAT_TMP, fs)
      else case (if h_flags (p_hdr m) AND RM_BIT_6 = 0 \<and> 0 < p_z_sz m \<and> has_y
                 then sys_unlink (re_sys env) fs y else Some fs) of
        None \<Rightarrow> (RM_ERR_UNLINK_Y, fs)
      | Some fs1 \<Rightarrow>
          if 0 < p_z_sz m
          then (case sys_rename (re_sys env) fs1 tmp (resolve cwd (c_string (p_z m))) of
                  None \<Rightarrow> (RM_ERR_RENAME_TMP_Z, fs1) | Some fs2 \<Rightarrow> (RM_ERR_OK, fs2))
          else (case sys_rename (re_sys env) fs1 tmp y of
                  None \<Rightarrow> (RM_ERR_RENAME_TMP_Y, fs1) | Some fs2 \<Rightarrow> (RM_ERR_OK, fs2)))"

text \<open>
  The two threads work on different connections and position the shared reference file under its
  mutex before every access; the checksums are sent first here.
\<close>

definition recv_threads ::
    "recv_env \<Rightarrow> rm_msg_push \<Rightarrow> recv_sess \<Rightarrow> sock \<Rightarrow> (rm_error \<times> rx_session \<times> sock) option" where
  "recv_threads env m s ctl =
     (case rm_session_ch_ch_tx_f (re_mem_tx env) (rv_type s) True (re_fd env) (unat (p_L m)) (rv_y s) Mutex_Free ctl of
        None \<Rightarrow> None
      | Some (err, y, mx, ctl1) \<Rightarrow>
          (case rm_session_delta_rx_f_remote (re_mem_rx env) (re_conn env)
                  \<lparr>rs_type = rv_type s,
                   rs_prvt = Some \<lparr>rp_flags = h_flags (p_hdr m), rp_bytes = unat (p_bytes m),
                     rp_status = RM_RX_STATUS_OK, rp_listening = True\<rparr>,
                   rs_y = y, rs_y_sz = rv_y_sz s, rs_z = rv_z s, rs_ctx = rv_ctx s, rs_mutex = mx\<rparr> of
             Some (Some r) \<Rightarrow> Some (err, r, ctl1)
           | _ \<Rightarrow> None))"

definition recv_finish ::
    "'h sess_table \<Rightarrow> recv_env \<Rightarrow> rm_msg_push \<Rightarrow> recv_sess \<Rightarrow> 'h node \<Rightarrow> rm_error \<times> rx_session \<times> sock \<Rightarrow>
     'h recv_result" where
  "recv_finish st env m s n t =
     (case t of (tx_err, r, ctl) \<Rightarrow>
        let fs = (case rs_z r of None \<Rightarrow> nd_files n
                  | Some z \<Rightarrow> (nd_files n)(resolve (nd_cwd n) (rv_z_name s) := Some (fs_bytes z)));
            n1 = n\<lparr>nd_files := fs, nd_ctl := ctl\<rparr>
        in if tx_err \<noteq> RM_ERR_OK then recv_end st env s True (err_code RM_ERR_CH_CH_TX_THREAD) n1
           else if map_option rp_status (rs_prvt r) \<noteq> Some RM_RX_STATUS_OK
           then recv_end st env s True (err_code RM_ERR_DELTA_RX_THREAD) n1
           else (case recv_replace env m (rs_y r \<noteq> None) (rs_z r) (rv_z_name s) (nd_cwd n1) fs of
                   (err, fs1) \<Rightarrow> recv_end st env s True (err_code err) (n1\<lparr>nd_files := fs1\<rparr>)))"

text \<open>
  \<open>None\<close>: a thread that never ends or undefined behaviour. When the session cannot be created, the failure exit
  prints a field of it; when the second thread cannot be launched, the session is freed while the
  first is running in it.
\<close>

definition rm_do_msg_push_rx ::
    "'h sess_table \<Rightarrow> recv_env \<Rightarrow> rm_msg_push \<Rightarrow> 'h node \<Rightarrow> 'h recv_result option" where
  "rm_do_msg_push_rx st env m n =
     (if \<not> pe_session_ok (re_sys env) then None
      else case rm_session_assign_validate_from_msg_push env (recv_init RM_PUSH_RX) m (nd_files n) (nd_cwd n) of
        (err, s, fs, cwd) \<Rightarrow>
          let n1 = n\<lparr>nd_files := fs, nd_cwd := cwd\<rparr> in
          if err \<noteq> RM_ERR_OK then Some (recv_end st env s False (err_code err) (snd (recv_ack env (err_code err) 0 s n1)))
          else case re_listen env of
            (lerr, port) \<Rightarrow>
              if lerr \<noteq> 0 then Some (recv_end st env s False lerr (snd (recv_ack env lerr port s n1)))
              else case recv_ack env (err_code RM_ERR_OK) port s n1 of
                (aerr, n2) \<Rightarrow>
                  if aerr \<noteq> RM_ERR_OK then Some (recv_end st env s False (err_code RM_ERR_OK) n2)
                  else
                    let n3 = n2\<lparr>nd_core := rm_core_session_add st (nd_core n2) (recv_core st env s False)\<rparr> in
                    if \<not> re_tx_launch env then Some (recv_end st env s True (err_code RM_ERR_FAIL) n3)
                    else if \<not> re_rx_launch env then None
                    else map_option (recv_finish st env m s n3) (recv_threads env m s (nd_ctl n3)))"

text \<open>The destructor that the worker calls afterwards.\<close>

definition rm_msg_push_dtor :: "'h recv_result \<Rightarrow> 'h recv_result" where
  "rm_msg_push_dtor r = r\<lparr>rr_closes := rr_closes r + 1,
     rr_frees := rr_frees r + (if rr_work_msg r then 1 else 0), rr_work_msg := False\<rparr>"

section \<open>A request that is carried out\<close>

definition recv_healthy :: "recv_env \<Rightarrow> bool" where
  "recv_healthy env \<longleftrightarrow> env_healthy (re_sys env) \<and> re_getcwd_ok env \<and> (\<forall>p. re_chdir_ok env p) \<and>
     fst (re_listen env) = 0 \<and> re_tx_launch env \<and> re_rx_launch env \<and>
     re_mem_tx env = mem_ok \<and> re_mem_rx env = mem_ok \<and> 0 \<le> re_fd env"

text \<open>What the validation of the fields asks for.\<close>

definition push_request :: "rm_msg_push \<Rightarrow> bool" where
  "push_request m \<longleftrightarrow> p_L m \<noteq> 0 \<and> p_x_sz m \<noteq> 0 \<and> p_y_sz m \<noteq> 0 \<and>
     (h_flags (p_hdr m) AND RM_BIT_6 \<noteq> 0 \<longrightarrow> p_z_sz m \<noteq> 0 \<and> c_string (p_y m) \<noteq> c_string (p_z m))"

text \<open>The name of the result, the directory the handler changes to, and the files it then means.\<close>

definition recv_name :: "rm_msg_push \<Rightarrow> string" where
  "recv_name m = c_string (if 0 < p_z_sz m then p_z m else p_y m)"

definition recv_dir :: "string \<Rightarrow> rm_msg_push \<Rightarrow> string" where
  "recv_dir cwd m = (let d = dirname (recv_name m) in if d = ''.'' then cwd else resolve cwd d)"

definition recv_dest :: "string \<Rightarrow> rm_msg_push \<Rightarrow> string" where
  "recv_dest cwd m = resolve (recv_dir cwd m) (recv_name m)"

definition recv_tmp :: "recv_env \<Rightarrow> string \<Rightarrow> rm_msg_push \<Rightarrow> string" where
  "recv_tmp env cwd m = resolve (recv_dir cwd m) (pe_tmp (re_sys env))"

text \<open>The contents of the reference file; a missing one counts as empty when creation is forced.\<close>

definition ref_ok :: "files \<Rightarrow> string \<Rightarrow> rm_msg_push \<Rightarrow> bytes \<Rightarrow> bool" where
  "ref_ok fs cwd m yb \<longleftrightarrow>
     (case fs (resolve cwd (c_string (p_y m))) of
        Some b \<Rightarrow> yb = b | None \<Rightarrow> yb = [] \<and> h_flags (p_hdr m) AND RM_BIT_4 \<noteq> 0)"

lemma validate_ok:
  assumes "recv_healthy env" and "push_request m" and "ref_ok fs cwd m yb"
  shows "\<exists>s. rm_session_assign_validate_from_msg_push env (recv_init RM_PUSH_RX) m fs cwd =
      (RM_ERR_OK, s, fs(recv_tmp env cwd m := Some []), recv_dir cwd m) \<and>
    rv_type s = RM_PUSH_RX \<and> rv_msg s \<and> y_ok (rv_y s) yb \<and>
    (rv_y s = None \<longleftrightarrow> fs (resolve cwd (c_string (p_y m))) = None) \<and>
    (rv_y s = None \<longrightarrow> h_flags (p_hdr m) AND RM_BIT_4 \<noteq> 0) \<and> rv_y_sz s = length yb \<and>
    (\<exists>z. rv_z s = Some z \<and> healthy z \<and> fs_bytes z = []) \<and> rv_z_name s = pe_tmp (re_sys env) \<and>
    rv_ctx s = ctx_zero\<lparr>ctx_L := unat (p_L m)\<rparr> \<and> rv_ch_ch_n s = of_nat (nblocks (unat (p_L m)) yb)"
proof -
  note env = assms(1) [unfolded recv_healthy_def env_healthy_def]
  have L: "0 < unat (p_L m)" using assms(2) by (simp add: push_request_def unat_gt_0)
  let ?s1 = "(recv_init RM_PUSH_RX)\<lparr>rv_ctx := ctx_zero\<lparr>ctx_L := unat (p_L m)\<rparr>\<rparr>"
  let ?s2 = "validate_names m ?s1"
  have keep: "rv_y_dname ?s2 = Some (dirname (c_string (p_y m)))"
      "0 < p_z_sz m \<Longrightarrow> rv_z_dname ?s2 = Some (dirname (c_string (p_z m)))"
    using assms(2) by (simp_all add: validate_names_def push_request_def word_gt_0)
  obtain s3 where s3: "validate_y env m fs cwd ?s2 = (None, s3)" "y_ok (rv_y s3) yb"
      "rv_y s3 = None \<longleftrightarrow> fs (resolve cwd (c_string (p_y m))) = None"
      "rv_y s3 = None \<longrightarrow> h_flags (p_hdr m) AND RM_BIT_4 \<noteq> 0" "rv_y_sz s3 = length yb"
      "rv_ch_ch_n s3 = of_nat (nblocks (unat (p_L m)) yb)"
      "rv_y_dname s3 = rv_y_dname ?s2" "rv_z_dname s3 = rv_z_dname ?s2" "rv_msg s3" "rv_type s3 = RM_PUSH_RX"
      "rv_ctx s3 = ctx_zero\<lparr>ctx_L := unat (p_L m)\<rparr>"
  proof (cases "fs (resolve cwd (c_string (p_y m)))")
    case None
    with assms(3) L that show ?thesis
      by (simp add: validate_y_def fopen_rb_def ref_ok_def y_ok_def validate_names_def recv_init_def)
  next
    case (Some b)
    with assms(3) have yb: "yb = b" by (simp add: ref_ok_def)
    have "nblocks (unat (p_L m)) b = length b div unat (p_L m) + (if length b mod unat (p_L m) \<noteq> 0 then 1 else 0)"
      unfolding nblocks_def blocks_n_exp [OF L] ..
    then have n: "0 < length b mod unat (p_L m) \<Longrightarrow>
        (of_nat (length b div unat (p_L m)) + 1 :: u64) = of_nat (nblocks (unat (p_L m)) b)"
      "length b mod unat (p_L m) = 0 \<Longrightarrow>
        (of_nat (length b div unat (p_L m)) :: u64) = of_nat (nblocks (unat (p_L m)) b)" by simp_all
    show ?thesis
      by (rule that [of "?s2\<lparr>rv_y := Some (pe_stream (re_sys env) (resolve cwd (c_string (p_y m))) b),
          rv_y_sz := length b, rv_ch_ch_n := of_nat (nblocks (unat (p_L m)) b)\<rparr>"])
        (use env Some yb n in \<open>simp_all add: validate_y_def fopen_rb_def y_ok_def fstat_size_def healthy_def Let_def
          validate_names_def recv_init_def\<close>)
  qed
  define s4 where "s4 = s3\<lparr>rv_hash := rm_md5 (take (unat (p_y_sz m)) (p_y m))\<rparr>"
  have dir: "sys_chdir env cwd (if 0 < p_z_sz m then rv_z_dname s4 else rv_y_dname s4) = Some (recv_dir cwd m)"
    using env s3(7,8) keep by (simp add: s4_def sys_chdir_def recv_dir_def recv_name_def Let_def)
  let ?s5 = "s4\<lparr>rv_z_name := pe_tmp (re_sys env),
    rv_z := Some (pe_stream (re_sys env) (recv_tmp env cwd m) [])\<rparr>"
  have "validate_dir env m fs cwd s4 = (RM_ERR_OK, ?s5, fs(recv_tmp env cwd m := Some []), recv_dir cwd m)"
    using env dir by (simp add: validate_dir_def Let_def fopen_wb_def recv_tmp_def)
  then have "rm_session_assign_validate_from_msg_push env (recv_init RM_PUSH_RX) m fs cwd =
      (RM_ERR_OK, ?s5, fs(recv_tmp env cwd m := Some []), recv_dir cwd m)"
    using assms(2) s3(1) by (auto simp: rm_session_assign_validate_from_msg_push_def push_request_def Let_def
        recv_init_def s4_def)
  with s3 env show ?thesis by (simp add: s4_def)
qed

lemma recv_threads_ok:
  assumes "recv_healthy env" and "rv_type s = RM_PUSH_RX" and "y_ok (rv_y s) yb" and "length yb < off_max"
    and "rv_y s = None \<longrightarrow> h_flags (p_hdr m) AND RM_BIT_4 \<noteq> 0" and "rv_y_sz s = length yb"
    and "rv_z s = Some z" and "healthy z" and "fs_bytes z = []" and "rv_ctx s = ctx_zero\<lparr>ctx_L := L\<rparr>"
    and "L = unat (p_L m)" and "0 < L" and "tx_good ctl"
    and "re_conn env = Some c" and "rx_good c" and "sk_in c = concat (map delta_wire ds) @ rest"
    and "deltas_upto L yb x (length x) ds" and "length x = unat (p_bytes m)" and "length x \<le> off_max"
    and "\<forall>d\<in>set ds. is_zero_diff d \<longrightarrow> length x = length yb"
  shows "\<exists>r ctl' z'. recv_threads env m s ctl = Some (RM_ERR_OK, r, ctl') \<and>
    map_option rp_status (rs_prvt r) = Some RM_RX_STATUS_OK \<and> rs_z r = Some z' \<and> healthy z' \<and> fs_bytes z' = x \<and>
    (rs_y r = None \<longleftrightarrow> rv_y s = None) \<and>
    sk_out ctl' = sk_out ctl @ concat (map RM_CH_CH_WIRE (map (block_entry L yb) [0..<nblocks L yb]))"
proof -
  note env = assms(1) [unfolded recv_healthy_def]
  obtain y ctl' where tx: "rm_session_ch_ch_tx_f mem_ok RM_PUSH_RX True (re_fd env) L (rv_y s) Mutex_Free ctl =
      Some (RM_ERR_OK, y, Mutex_Free, ctl')" "y_ok y yb" "y = None \<longleftrightarrow> rv_y s = None"
      "sk_out ctl' = sk_out ctl @ concat (map RM_CH_CH_WIRE (map (block_entry L yb) [0..<nblocks L yb]))"
  proof (cases "rv_y s")
    case None
    with assms(3,12) that [of None ctl] show ?thesis by (simp add: y_ok_def rm_session_ch_ch_tx_f_def)
  next
    case (Some f)
    with assms(3) have f: "healthy f" "fs_bytes f = yb" by (simp_all add: y_ok_def)
    from ch_ch_tx_ok [OF f(1) _ assms(12) _ assms(13), of "re_fd env" Mutex_Free] f(2) assms(4) env
    obtain f' t' where "rm_session_ch_ch_tx_f mem_ok RM_PUSH_RX True (re_fd env) L (Some f) Mutex_Free ctl =
        Some (RM_ERR_OK, Some f', Mutex_Free, t')" "healthy f'" "fs_bytes f' = yb"
        "sk_out t' = sk_out ctl @ concat (map RM_CH_CH_WIRE (map (block_entry L yb) [0..<nblocks L yb]))"
      by auto
    with Some that [of "Some f'" t'] show ?thesis by (simp add: y_ok_def)
  qed
  define r0 where "r0 = \<lparr>rs_type = RM_PUSH_RX,
     rs_prvt = Some \<lparr>rp_flags = h_flags (p_hdr m), rp_bytes = unat (p_bytes m), rp_status = RM_RX_STATUS_OK,
       rp_listening = True\<rparr>,
     rs_y = y, rs_y_sz = rv_y_sz s, rs_z = rv_z s, rs_ctx = rv_ctx s, rs_mutex = Mutex_Free\<rparr>"
  have "\<exists>r z'. rm_session_delta_rx_f_remote mem_ok (Some c) r0 = Some (Some r) \<and> rs_z r = Some z' \<and> healthy z' \<and>
      (rs_y r = None \<longleftrightarrow> y = None) \<and> fs_bytes z' = x \<and> map_option rp_status (rs_prvt r) = Some RM_RX_STATUS_OK"
    using delta_rx_remote_ok [of r0 _ x L yb z ds c rest] assms tx(2,3)
    by (fastforce simp: r0_def ctx_zero_def)
  with tx assms(2,11,14) env show ?thesis
    by (auto simp: recv_threads_def r0_def)
qed

text \<open>The acknowledgement: what the peer reads from it.\<close>

definition ack_reads :: "twhash_32 \<Rightarrow> bytes \<Rightarrow> rm_error \<Rightarrow> u16 \<Rightarrow> u64 \<Rightarrow> bool" where
  "ack_reads th bs status port n \<longleftrightarrow> rm_core_tcp_msg_ack_validate th bs 18 = RM_ERR_OK \<and>
     (\<exists>hdr. rm_deserialize_msg_push_ack bs = Some (\<lparr>a_hdr = hdr, a_delta_port = port, a_ch_ch_n = n\<rparr>, []) \<and>
        rm_error_of_code (unat (h_flags hdr)) = Some status)"

definition push_ack_hdr :: "twhash_32 \<Rightarrow> rm_error \<Rightarrow> rm_msg_hdr" where
  "push_ack_hdr th status =
     (let h = \<lparr>h_hash = 0, h_pt = rm_pt_code RM_PT_MSG_PUSH_ACK, h_flags = of_nat (rm_error_code status), h_len = 18\<rparr>
      in h\<lparr>h_hash := rm_core_hdr_hash th h\<rparr>)"

definition push_ack_bytes :: "twhash_32 \<Rightarrow> rm_error \<Rightarrow> u16 \<Rightarrow> u64 \<Rightarrow> bytes" where
  "push_ack_bytes th status port n =
     rm_serialize_msg_push_ack [] \<lparr>a_hdr = push_ack_hdr th status, a_delta_port = port, a_ch_ch_n = n\<rparr>"

lemma push_ack_bytes_split: "push_ack_bytes th status port n =
    rm_serialize_msg_hdr [] (push_ack_hdr th status) @ rm_serialize_u16 [] port @ rm_serialize_u64 [] n"
  by (simp add: push_ack_bytes_def rm_serialize_msg_push_ack_def rm_serialize_u64_def rm_serialize_u16_def)

lemma length_push_ack_bytes: "length (push_ack_bytes th status port n) = 18"
  by (simp add: push_ack_bytes_split RM_MSG_HDR_LEN_def)

lemma push_ack_flags: "unat (h_flags (push_ack_hdr th status)) = rm_error_code status"
  using rm_error_code_bound [of status]
  by (simp add: push_ack_hdr_def Let_def unat_of_nat take_bit_nat_eq_self)

lemma push_ack_reads:
  "ack_reads th (push_ack_bytes th status port n) status port n"
  "rm_core_tcp_msg_ack_validate th (push_ack_bytes th status port n) 18 = RM_ERR_OK"
proof -
  have hash: "h_hash (push_ack_hdr th status) = rm_core_hdr_hash th (push_ack_hdr th status)"
    "h_pt (push_ack_hdr th status) = 1"
    by (simp_all add: push_ack_hdr_def Let_def rm_core_hdr_hash_def)
  show valid: "rm_core_tcp_msg_ack_validate th (push_ack_bytes th status port n) 18 = RM_ERR_OK"
    unfolding push_ack_bytes_split rm_core_tcp_msg_ack_validate_def
    by (subst header_ok) (simp_all add: hash(2), simp add: hash(1))
  have "rm_error_of_code (rm_error_code status) = Some status" by simp
  then show "ack_reads th (push_ack_bytes th status port n) status port n"
    using valid push_ack.deser_ser [of "\<lparr>a_hdr = push_ack_hdr th status, a_delta_port = port, a_ch_ch_n = n\<rparr>" "[]"]
      push_ack_flags [of th status]
    by (auto simp: ack_reads_def push_ack_bytes_def)
qed

lemma recv_ack_ok:
  assumes "tx_good (nd_ctl n)" and "sk_out (nd_ctl n) = []"
  shows "\<exists>c. recv_ack env (err_code status) port s n = (RM_ERR_OK, n\<lparr>nd_ctl := c\<rparr>) \<and> tx_good c \<and>
    sk_out c = push_ack_bytes (re_hash32 env) status port (rv_ch_ch_n s)"
proof -
  let ?b = "push_ack_bytes (re_hash32 env) status port (rv_ch_ch_n s)"
  obtain c where "rm_tcp_tx (nd_ctl n) ?b = (RM_ERR_OK, c)" "sk_out c = ?b" "tx_good c"
    using rm_tcp_tx_ok [of "nd_ctl n" ?b] assms by (auto simp: tx_good_def)
  moreover from this(1) have "rm_tcp_tx_msg_ack (re_hash32 env) (nd_ctl n) RM_PT_MSG_PUSH_ACK (err_code status)
      (Some (port, rv_ch_ch_n s)) = (RM_ERR_OK, c)"
    using length_push_ack_bytes [of "re_hash32 env" status port "rv_ch_ch_n s"]
    by (simp add: rm_tcp_tx_msg_ack_def Let_def push_ack_bytes_def push_ack_hdr_def)
  ultimately show ?thesis by (auto simp: recv_ack_def)
qed

text \<open>What the handler sends on the control connection when it accepts a request: the acknowledgement and the checksums.\<close>

definition recv_answer :: "recv_env \<Rightarrow> rm_msg_push \<Rightarrow> bytes \<Rightarrow> bytes" where
  "recv_answer env m yb =
     (let L = unat (p_L m) in
      push_ack_bytes (re_hash32 env) RM_ERR_OK (snd (re_listen env)) (of_nat (nblocks L yb)) @
      concat (map RM_CH_CH_WIRE (map (block_entry L yb) [0..<nblocks L yb])))"

lemma recv_run:
  fixes n :: "'h node"
  assumes "recv_healthy env" and "push_request m" and "ref_ok (nd_files n) (nd_cwd n) m yb"
    and "length yb < off_max" and "tx_good (nd_ctl n)" and "sk_out (nd_ctl n) = []"
    and "re_conn env = Some c" and "rx_good c" and "sk_in c = concat (map delta_wire ds) @ rest"
    and "deltas_upto (unat (p_L m)) yb x (length x) ds" and "length x = unat (p_bytes m)" and "length x \<le> off_max"
    and "\<forall>d\<in>set ds. is_zero_diff d \<longrightarrow> length x = length yb"
  shows "\<exists>s ctl z'. rm_do_msg_push_rx st env m n =
      (case recv_replace env m (nd_files n (resolve (nd_cwd n) (c_string (p_y m))) \<noteq> None) (Some z')
              (pe_tmp (re_sys env)) (recv_dir (nd_cwd n) m) ((nd_files n)(recv_tmp env (nd_cwd n) m := Some x)) of
         (err, fs') \<Rightarrow> Some (recv_end st env s True (err_code err)
           \<lparr>nd_files = fs', nd_cwd = recv_dir (nd_cwd n) m,
            nd_core = rm_core_session_add st (nd_core n) (recv_core st env s False), nd_ctl = ctl\<rparr>)) \<and>
    rv_msg s \<and> healthy z' \<and>
    sk_out ctl = recv_answer env m yb"
proof -
  note env = assms(1) [unfolded recv_healthy_def env_healthy_def]
  have L: "0 < unat (p_L m)" using assms(2) by (simp add: push_request_def unat_gt_0)
  obtain s z where v: "rm_session_assign_validate_from_msg_push env (recv_init RM_PUSH_RX) m (nd_files n) (nd_cwd n) =
      (RM_ERR_OK, s, (nd_files n)(recv_tmp env (nd_cwd n) m := Some []), recv_dir (nd_cwd n) m)"
      "rv_type s = RM_PUSH_RX" "rv_msg s" "y_ok (rv_y s) yb"
      "rv_y s = None \<longleftrightarrow> nd_files n (resolve (nd_cwd n) (c_string (p_y m))) = None"
      "rv_y s = None \<longrightarrow> h_flags (p_hdr m) AND RM_BIT_4 \<noteq> 0" "rv_y_sz s = length yb"
      "rv_z_name s = pe_tmp (re_sys env)"
      "rv_ctx s = ctx_zero\<lparr>ctx_L := unat (p_L m)\<rparr>" "rv_ch_ch_n s = of_nat (nblocks (unat (p_L m)) yb)"
      and z: "rv_z s = Some z" "healthy z" "fs_bytes z = []"
    using validate_ok [OF assms(1-3)] by (elim exE conjE) (rule that; assumption)
  obtain port where port: "re_listen env = (0, port)" using env by (cases "re_listen env") auto
  let ?n1 = "n\<lparr>nd_files := (nd_files n)(recv_tmp env (nd_cwd n) m := Some []), nd_cwd := recv_dir (nd_cwd n) m\<rparr>"
  have "tx_good (nd_ctl ?n1)" "sk_out (nd_ctl ?n1) = []" using assms(5,6) by simp_all
  from recv_ack_ok [OF this, of env RM_ERR_OK port s] obtain ctl where
    ack: "recv_ack env (err_code RM_ERR_OK) port s ?n1 = (RM_ERR_OK, ?n1\<lparr>nd_ctl := ctl\<rparr>)" "tx_good ctl"
      "sk_out ctl = push_ack_bytes (re_hash32 env) RM_ERR_OK port (of_nat (nblocks (unat (p_L m)) yb))"
    unfolding v(10) by blast
  let ?n3 = "?n1\<lparr>nd_ctl := ctl, nd_core := rm_core_session_add st (nd_core n) (recv_core st env s False)\<rparr>"
  from recv_threads_ok [OF assms(1) v(2,4) assms(4) v(6,7) z v(9) refl L ack(2) assms(7-13)]
  obtain r ctl' z' where thr: "recv_threads env m s ctl = Some (RM_ERR_OK, r, ctl')"
      "map_option rp_status (rs_prvt r) = Some RM_RX_STATUS_OK" "rs_z r = Some z'" "healthy z'" "fs_bytes z' = x"
      "rs_y r = None \<longleftrightarrow> rv_y s = None"
      "sk_out ctl' = sk_out ctl @ concat (map RM_CH_CH_WIRE (map (block_entry (unat (p_L m)) yb)
         [0..<nblocks (unat (p_L m)) yb]))"
    by (elim exE conjE) (rule that; assumption)
  have fin: "recv_finish st env m s ?n3 (RM_ERR_OK, r, ctl') =
      (case recv_replace env m (nd_files n (resolve (nd_cwd n) (c_string (p_y m))) \<noteq> None) (Some z')
              (pe_tmp (re_sys env)) (recv_dir (nd_cwd n) m) ((nd_files n)(recv_tmp env (nd_cwd n) m := Some x)) of
         (err, fs') \<Rightarrow> recv_end st env s True (err_code err)
           \<lparr>nd_files = fs', nd_cwd = recv_dir (nd_cwd n) m,
            nd_core = rm_core_session_add st (nd_core n) (recv_core st env s False), nd_ctl = ctl'\<rparr>)"
    using thr(2,3,5,6) v(5,8) by (cases n) (auto simp: recv_finish_def Let_def recv_tmp_def split: prod.splits)
  have "rm_do_msg_push_rx st env m n = Some (recv_finish st env m s ?n3 (RM_ERR_OK, r, ctl'))"
    using env v(1) port ack(1) thr(1) by (simp add: rm_do_msg_push_rx_def Let_def)
  with fin thr(4,7) v(3) ack(3) port show ?thesis
    by (intro exI [of _ s] exI [of _ ctl'] exI [of _ z']) (simp add: recv_answer_def Let_def split: prod.splits)
qed

section \<open>Properties\<close>

text \<open>The request of the examples: a file \<open>y\<close> of three bytes, or none, is to become \<open>x = [9, 3]\<close>.\<close>

definition sample_ds :: "rm_delta_e list" where
  "sample_ds = [\<lparr>d_type = RM_DELTA_ELEMENT_RAW_BYTES, d_ref = 0, raw_bytes = Some [9], raw_bytes_n = 1\<rparr>,
     \<lparr>d_type = RM_DELTA_ELEMENT_TAIL, d_ref = 1, raw_bytes = None, raw_bytes_n = 1\<rparr>]"

definition sample_recv :: recv_env where
  "sample_recv = \<lparr>re_sys = sample_env [], re_getcwd_ok = True, re_chdir_ok = \<lambda>_. True,
     re_listen = (0, 5000), re_tx_launch = True, re_rx_launch = True,
     re_conn = Some (sample_conn (concat (map delta_wire sample_ds) @ []) False),
     re_mem_tx = mem_ok, re_mem_rx = mem_ok, re_uuid = replicate 16 0, re_addr = 64, re_fd = 3,
     re_hash32 = (\<lambda>_ _. 0)\<rparr>"

definition sample_request :: "bytes \<Rightarrow> rm_msg_push" where
  "sample_request name = sample_push\<lparr>p_L := 2, p_y_sz := of_nat (length name) + 1, p_y := name @ [0], p_bytes := 2\<rparr>"

definition sample_node :: "files \<Rightarrow> (u32 \<Rightarrow> core_session list) node" where
  "sample_node fs = \<lparr>nd_files = fs, nd_cwd = ''/srv'',
     nd_core = \<lparr>rm_mutex = Mutex_Free, rm_sessions = \<lambda>_. [], rm_sessions_list = [], rm_sessions_n = 0,
       rm_smutex = \<lambda>_. Mutex_Free\<rparr>,
     nd_ctl = \<lparr>sk_in = [], sk_closed = False, sk_rev = [], sk_out = [], sk_wev = [IO_Intr, IO_Chunk 5]\<rparr>\<rparr>"

lemma sample_recv_simps [simp]:
  "recv_healthy sample_recv"
  "re_conn sample_recv = Some (sample_conn (concat (map delta_wire sample_ds) @ []) False)"
  "pe_tmp (re_sys sample_recv) = ''tmp''" "pe_session_ok (re_sys sample_recv)"
  "tx_good (nd_ctl (sample_node fs))" "sk_out (nd_ctl (sample_node fs)) = []"
  "nd_files (sample_node fs) = fs" "nd_cwd (sample_node fs) = ''/srv''"
  by (simp_all add: recv_healthy_def sample_recv_def sample_env_healthy sample_node_def tx_good_def)
    (simp_all add: sample_env_def)

lemma sample_conn_good: "rx_good (sample_conn bs False)"
  by (simp add: rx_good_def sample_conn_def)

lemma sample_request_simps [simp]:
  "p_y (sample_request name) = name @ [0]" "p_y_sz (sample_request name) = of_nat (length name) + 1"
  "p_z_sz (sample_request name) = 0" "p_bytes (sample_request name) = 2" "p_L (sample_request name) = 2"
  "p_x_sz (sample_request name) = 2" "h_flags (p_hdr (sample_request name)) = 16"
  by (simp_all add: sample_request_def sample_push_def)

lemma sample_deltas: "deltas_upto 2 [1, 2, 3] [9, 3] (Suc (Suc 0)) sample_ds"
    "\<forall>d\<in>set sample_ds. \<not> is_zero_diff d" "sk_in (sample_conn bs c) = bs"
  by (simp_all add: sample_ds_def sample_conn_def is_zero_diff_def)
    (simp add: deltas_upto_def delta_data_def delta_wf_def delta_fits_def bslice_def)

lemma recv_replace_ok:
  assumes "recv_healthy env" and "push_request m" and "healthy z"
    and "fs (resolve cwd z_name) \<noteq> None" and "0 < p_z_sz m \<longrightarrow> resolve cwd z_name \<noteq> resolve cwd (c_string (p_y m))"
    and "has_y \<longrightarrow> fs (resolve cwd (c_string (p_y m))) \<noteq> None"
  shows "recv_replace env m has_y (Some z) z_name cwd fs = (RM_ERR_OK,
    (if h_flags (p_hdr m) AND RM_BIT_6 = 0 \<and> 0 < p_z_sz m \<and> has_y then fs(resolve cwd (c_string (p_y m)) := None) else fs)
      (resolve cwd z_name := None, resolve cwd (recv_name m) := fs (resolve cwd z_name)))"
  using assms by (simp add: recv_replace_def Let_def recv_healthy_def env_healthy_def sys_unlink_def sys_rename_def
      recv_name_def fstat_size_def healthy_def)

lemma sessions_add_del:
  "rm_sessions_list (rm_core_session_del st (rm_core_session_add st rm (recv_core st env s False))
      (recv_core st env s True)) = rm_sessions_list rm"
  "rm_sessions_n (rm_core_session_del st (rm_core_session_add st rm (recv_core st env s False))
      (recv_core st env s True)) = rm_sessions_n rm + 1"
  by (simp_all add: rm_core_session_del_def rm_core_session_add_def Let_def core_lock_def core_unlock_def recv_core_def)

lemma receive_replaces:
  fixes n :: "'h node"
  assumes "recv_healthy env" and "push_request m" and "ref_ok (nd_files n) (nd_cwd n) m yb"
    and "length yb < off_max" and "tx_good (nd_ctl n)" and "sk_out (nd_ctl n) = []"
    and "re_conn env = Some c" and "rx_good c" and "sk_in c = concat (map delta_wire ds) @ rest"
    and "deltas_upto (unat (p_L m)) yb x (length x) ds" and "length x = unat (p_bytes m)" and "length x \<le> off_max"
    and "\<forall>d\<in>set ds. is_zero_diff d \<longrightarrow> length x = length yb"
    and "c_string (p_y m) = CHR ''/'' # y" and "recv_name m = CHR ''/'' # z"
    and "recv_tmp env (nd_cwd n) m \<noteq> CHR ''/'' # y"
  shows "\<exists>r. rm_do_msg_push_rx st env m n = Some r \<and> rr_err r = 0 \<and>
    nd_files (rr_node r) =
      (if h_flags (p_hdr m) AND RM_BIT_6 = 0 \<and> 0 < p_z_sz m then (nd_files n)(CHR ''/'' # y := None) else nd_files n)
        (recv_tmp env (nd_cwd n) m := None, CHR ''/'' # z := Some x) \<and>
    sk_out (nd_ctl (rr_node r)) = recv_answer env m yb \<and>
    rm_sessions_list (nd_core (rr_node r)) = rm_sessions_list (nd_core n)"
proof -
  let ?cwd = "recv_dir (nd_cwd n) m" and ?tmp = "recv_tmp env (nd_cwd n) m"
  let ?fs = "(nd_files n)(?tmp := Some x)"
  obtain s ctl z' where run: "rm_do_msg_push_rx st env m n =
      (case recv_replace env m (nd_files n (resolve (nd_cwd n) (c_string (p_y m))) \<noteq> None) (Some z')
              (pe_tmp (re_sys env)) ?cwd ?fs of
         (err, fs') \<Rightarrow> Some (recv_end st env s True (err_code err)
           \<lparr>nd_files = fs', nd_cwd = ?cwd,
            nd_core = rm_core_session_add st (nd_core n) (recv_core st env s False), nd_ctl = ctl\<rparr>))"
    and z': "healthy z'" and out: "sk_out ctl = recv_answer env m yb"
    using recv_run [OF assms(1-13), of st] by (elim exE conjE) (rule that; assumption)
  have abs: "resolve w (c_string (p_y m)) = CHR ''/'' # y" "resolve w (recv_name m) = CHR ''/'' # z" for w
    by (simp_all add: assms(14,15) resolve_def)
  have tmp: "resolve ?cwd (pe_tmp (re_sys env)) = ?tmp" by (simp add: recv_tmp_def)
  have "recv_replace env m (nd_files n (resolve (nd_cwd n) (c_string (p_y m))) \<noteq> None) (Some z')
      (pe_tmp (re_sys env)) ?cwd ?fs = (RM_ERR_OK,
        (if h_flags (p_hdr m) AND RM_BIT_6 = 0 \<and> 0 < p_z_sz m then (nd_files n)(CHR ''/'' # y := None) else nd_files n)
          (?tmp := None, CHR ''/'' # z := Some x))"
    by (subst recv_replace_ok [OF assms(1,2) z']) (use assms(16) in \<open>auto simp: abs tmp fun_upd_twist fun_upd_idem_iff\<close>)
  with run out show ?thesis
    by (intro exI [of _ "recv_end st env s True 0 \<lparr>nd_files = _, nd_cwd = ?cwd,
            nd_core = rm_core_session_add st (nd_core n) (recv_core st env s False), nd_ctl = ctl\<rparr>"])
      (simp add: recv_end_def sessions_add_del)
qed

text \<open>
  C12. The receiver's side of a remote push: when the calls of the operating system succeed, the names
  in the request are absolute, the old file is there or may be created, and a stream of well formed elements for \<open>x\<close> arrives, the handler
  ends with OK on every division of both streams into pieces. The result has exactly the
  contents of \<open>x\<close>; the old file is gone if the result has another name and \<open>--leave\<close> was not given; no other
  file has changed. On the control connection it has sent an acknowledgement from which the peer reads
  OK, the port for the delta and the number of blocks, and then the checksums of the old file. The session is out of the list.
  If there is a zero difference among the elements, the old file must be as long as \<open>x\<close>: it is copied whole.
\<close>

theorem receive_push_replaces:
  fixes n :: "'h node"
  assumes "recv_healthy env" and "push_request m" and "ref_ok (nd_files n) (nd_cwd n) m yb"
    and "length yb < off_max" and "tx_good (nd_ctl n)" and "sk_out (nd_ctl n) = []"
    and "re_conn env = Some c" and "rx_good c" and "sk_in c = concat (map delta_wire ds) @ rest"
    and "deltas_upto (unat (p_L m)) yb x (length x) ds" and "length x = unat (p_bytes m)" and "length x \<le> off_max"
    and "\<forall>d\<in>set ds. is_zero_diff d \<longrightarrow> length x = length yb"
    and "c_string (p_y m) = CHR ''/'' # y" and "recv_name m = CHR ''/'' # z"
    and "recv_tmp env (nd_cwd n) m \<noteq> CHR ''/'' # y"
  shows "\<exists>r ack. rm_do_msg_push_rx st env m n = Some r \<and> rr_err r = 0 \<and>
    nd_files (rr_node r) =
      (if h_flags (p_hdr m) AND RM_BIT_6 = 0 \<and> 0 < p_z_sz m then (nd_files n)(CHR ''/'' # y := None) else nd_files n)
        (recv_tmp env (nd_cwd n) m := None, CHR ''/'' # z := Some x) \<and>
    sk_out (nd_ctl (rr_node r)) = ack @ concat (map RM_CH_CH_WIRE (map (block_entry (unat (p_L m)) yb)
      [0..<nblocks (unat (p_L m)) yb])) \<and>
    ack_reads (re_hash32 env) ack RM_ERR_OK (snd (re_listen env)) (of_nat (nblocks (unat (p_L m)) yb)) \<and>
    rm_sessions_list (nd_core (rr_node r)) = rm_sessions_list (nd_core n)"
proof -
  obtain r where "rm_do_msg_push_rx st env m n = Some r" "rr_err r = 0"
    "nd_files (rr_node r) =
      (if h_flags (p_hdr m) AND RM_BIT_6 = 0 \<and> 0 < p_z_sz m then (nd_files n)(CHR ''/'' # y := None) else nd_files n)
        (recv_tmp env (nd_cwd n) m := None, CHR ''/'' # z := Some x)"
    "sk_out (nd_ctl (rr_node r)) = recv_answer env m yb"
    "rm_sessions_list (nd_core (rr_node r)) = rm_sessions_list (nd_core n)"
    using receive_replaces [OF assms, of st] by (elim exE conjE) (rule that; assumption)
  then show ?thesis
    by (intro exI [of _ r] exI [of _ "push_ack_bytes (re_hash32 env) RM_ERR_OK (snd (re_listen env))
        (of_nat (nblocks (unat (p_L m)) yb))"]) (simp add: recv_answer_def Let_def push_ack_reads)
qed

theorem receive_push_replaces_witness:
  "\<exists>r. rm_do_msg_push_rx sh_lists sample_recv (sample_request [47, 121])
      (sample_node [''/y'' \<mapsto> [1, 2, 3], ''/x'' \<mapsto> [7]]) = Some r \<and> rr_err r = 0 \<and>
    nd_files (rr_node r) ''/y'' = Some [9, 3] \<and> nd_files (rr_node r) ''/x'' = Some [7]"
proof -
  have name: "c_string [47, 121, 0] = ''/y''" by (simp add: c_string_def) (simp add: char_of_def bit_Suc_0_iff)
  have tmp: "recv_tmp sample_recv ''/srv'' (sample_request [47, 121]) = ''//tmp''"
    by (simp add: recv_tmp_def recv_dir_def recv_name_def name dirname_def strip_slashes_def resolve_def)
  show ?thesis
    using receive_push_replaces [of sample_recv "sample_request [47, 121]"
        "sample_node [''/y'' \<mapsto> [1, 2, 3], ''/x'' \<mapsto> [7]]" "[1, 2, 3]" _ sample_ds "[]" "[9, 3]" "''y''" "''y''" sh_lists, OF _ _ _ _ _ _ sample_recv_simps(2) sample_conn_good]
    by (simp add: push_request_def ref_ok_def resolve_def name tmp recv_name_def off_max_def sample_deltas
        RM_BIT_6_def) (elim exE conjE, simp)
qed

lemma strip_append: "\<exists>q. p = rev (dropWhile P (rev p)) @ q"
  by (metis rev_append rev_rev_ident takeWhile_dropWhile_id)

lemma dirname_relative:
  assumes "p \<noteq> []" and "hd p \<noteq> CHR ''/''"
  shows "dirname p \<noteq> [] \<and> hd (dirname p) \<noteq> CHR ''/''"
proof -
  have strip: "strip_slashes q \<noteq> [] \<and> hd (strip_slashes q) \<noteq> CHR ''/''" if "q \<noteq> []" "hd q \<noteq> CHR ''/''" for q
  proof -
    have "strip_slashes q \<noteq> []"
      using that by (cases q) (auto simp: strip_slashes_def dropWhile_eq_Nil_conv)
    moreover from this have "hd (strip_slashes q) = hd q"
      using strip_append [of q "\<lambda>c. c = CHR ''/''"] by (metis hd_append2 strip_slashes_def)
    ultimately show ?thesis using that(2) by simp
  qed
  let ?a = "strip_slashes p"
  let ?d = "rev (dropWhile (\<lambda>c. c \<noteq> CHR ''/'') (rev ?a))"
  have "hd ?d = hd ?a" if "?d \<noteq> []" using that strip_append [of ?a "\<lambda>c. c \<noteq> CHR ''/''"] by (metis hd_append2)
  with strip [OF assms] strip [of ?d] assms(1) show ?thesis by (auto simp: dirname_def Let_def)
qed



lemma validate_msg:
  "rm_session_assign_validate_from_msg_push env (recv_init RM_PUSH_RX) m fs cwd = (e, s, fs', cwd') \<Longrightarrow>
     rv_msg s = (p_L m \<noteq> 0 \<and> p_x_sz m \<noteq> 0) \<and> ((p_L m = 0 \<or> p_x_sz m = 0) \<longrightarrow> e \<noteq> RM_ERR_OK)"
  by (auto simp: rm_session_assign_validate_from_msg_push_def Let_def recv_init_def validate_names_def
      validate_y_def validate_dir_def split: if_splits option.splits prod.splits)

lemma sessions_n [simp]:
  "rm_sessions_n (rm_core_session_add st rm c) = rm_sessions_n rm + 1"
  "rm_sessions_n (rm_core_session_del st rm c) = rm_sessions_n rm"
  by (simp_all add: rm_core_session_add_def rm_core_session_del_def Let_def core_lock_def core_unlock_def)

lemma recv_ack_core [simp]: "nd_core (snd (recv_ack env e port s n)) = nd_core n"
  by (simp add: recv_ack_def split: prod.splits)

lemma recv_finish_ends: "\<exists>err n1. recv_finish st env m s n t = recv_end st env s True err n1 \<and> nd_core n1 = nd_core n"
proof -
  obtain e r ctl where t: "t = (e, r, ctl)" by (cases t)
  define fs where "fs = (case rs_z r of None \<Rightarrow> nd_files n
    | Some z \<Rightarrow> (nd_files n)(resolve (nd_cwd n) (rv_z_name s) := Some (fs_bytes z)))"
  let ?n1 = "n\<lparr>nd_files := fs, nd_ctl := ctl\<rparr>"
  obtain err fs1 where "recv_replace env m (rs_y r \<noteq> None) (rs_z r) (rv_z_name s) (nd_cwd ?n1) fs = (err, fs1)"
    by (cases "recv_replace env m (rs_y r \<noteq> None) (rs_z r) (rv_z_name s) (nd_cwd ?n1) fs")
  then have "recv_finish st env m s n t = recv_end st env s True (err_code RM_ERR_CH_CH_TX_THREAD) ?n1 \<or>
      recv_finish st env m s n t = recv_end st env s True (err_code RM_ERR_DELTA_RX_THREAD) ?n1 \<or>
      recv_finish st env m s n t = recv_end st env s True (err_code err) (?n1\<lparr>nd_files := fs1\<rparr>)"
    by (simp add: recv_finish_def t Let_def fs_def [symmetric])
  moreover have "nd_core ?n1 = nd_core n" "nd_core (?n1\<lparr>nd_files := fs1\<rparr>) = nd_core n" by simp_all
  ultimately show ?thesis by blast
qed

lemma endsI:
  "r = recv_end st env s added err n1 \<Longrightarrow> rm_sessions_n (nd_core n1) = k + (if added then 1 else 0) \<Longrightarrow>
     (e \<noteq> RM_ERR_OK \<longrightarrow> err = err_code e) \<Longrightarrow>
   \<exists>added err n1. r = recv_end st env s added err n1 \<and>
     rm_sessions_n (nd_core n1) = k + (if added then 1 else 0) \<and> (e \<noteq> RM_ERR_OK \<longrightarrow> err = err_code e)" by blast

lemma handler_ends:
  assumes "rm_do_msg_push_rx st env m n = Some r"
    and "rm_session_assign_validate_from_msg_push env (recv_init RM_PUSH_RX) m (nd_files n) (nd_cwd n) = (e, s, fs, cwd)"
  shows "\<exists>added err n1. r = recv_end st env s added err n1 \<and>
      rm_sessions_n (nd_core n1) = rm_sessions_n (nd_core n) + (if added then 1 else 0) \<and> (e \<noteq> RM_ERR_OK \<longrightarrow> err = err_code e)"
proof (cases "e = RM_ERR_OK")
  case False
  with assms show ?thesis
    by (auto simp: rm_do_msg_push_rx_def split: if_splits intro!: exI [of _ False])
next
  case True
  let ?n1 = "n\<lparr>nd_files := fs, nd_cwd := cwd\<rparr>"
  obtain lerr port where l: "re_listen env = (lerr, port)" by (cases "re_listen env")
  obtain aerr n2 where a: "recv_ack env (err_code RM_ERR_OK) port s ?n1 = (aerr, n2)" by (cases "recv_ack env (err_code RM_ERR_OK) port s ?n1")
  have core: "nd_core n2 = nd_core n" using recv_ack_core [of env "err_code RM_ERR_OK" port s ?n1] unfolding a by simp
  consider "lerr \<noteq> 0" | "lerr = 0" "aerr \<noteq> RM_ERR_OK" | "lerr = 0" "aerr = RM_ERR_OK" by blast
  then show ?thesis
  proof cases
    case 1
    then have "r = recv_end st env s False lerr (snd (recv_ack env lerr port s ?n1))"
      using assms l True by (simp add: rm_do_msg_push_rx_def Let_def split: if_splits)
    then show ?thesis by (rule endsI) (simp_all add: True)
  next
    case 2
    then have "r = recv_end st env s False (err_code RM_ERR_OK) n2"
      using assms l a True by (simp add: rm_do_msg_push_rx_def Let_def split: if_splits)
    then show ?thesis by (rule endsI) (simp_all add: True core)
  next
    case 3
    let ?n3 = "n2\<lparr>nd_core := rm_core_session_add st (nd_core n2) (recv_core st env s False)\<rparr>"
    have "r = recv_end st env s True (err_code RM_ERR_FAIL) ?n3 \<or> (\<exists>t. r = recv_finish st env m s ?n3 t)"
      using assms l a 3 True by (auto simp: rm_do_msg_push_rx_def Let_def split: if_splits)
    then obtain err n4 where n4: "r = recv_end st env s True err n4" "nd_core n4 = nd_core ?n3"
      using recv_finish_ends [of st env m s ?n3] by metis
    from n4(1) show ?thesis by (rule endsI) (simp_all add: True core n4(2))
  qed
qed

text \<open>
  The resources of a request: after the handler and the destructor of its work item, a request
  refused for a zero block size or a missing source has its control descriptor closed once, but its
  message is never freed: the session has not been given it, and the work item has forgotten it. After every other
  request the message has been freed once, and the descriptor closed twice, by the session and by the
  destructor, in between which another thread may have got the same number. The session is out
  of the table's list again, but the counter of sessions never goes down.
\<close>

theorem request_resources:
  assumes "rm_do_msg_push_rx st env m n = Some r"
  shows "rr_closes (rm_msg_push_dtor r) = (if p_L m = 0 \<or> p_x_sz m = 0 then 1 else 2) \<and>
    rr_frees (rm_msg_push_dtor r) = (if p_L m = 0 \<or> p_x_sz m = 0 then 0 else 1) \<and>
    rm_sessions_n (nd_core (rr_node r)) \<in> {rm_sessions_n (nd_core n), rm_sessions_n (nd_core n) + 1} \<and>
    (p_L m = 0 \<or> p_x_sz m = 0 \<longrightarrow> rr_err r \<noteq> 0)"
proof -
  obtain e s fs cwd where v: "rm_session_assign_validate_from_msg_push env (recv_init RM_PUSH_RX) m
      (nd_files n) (nd_cwd n) = (e, s, fs, cwd)" by (metis prod_cases4)
  from handler_ends [OF assms v] validate_msg [OF v] show ?thesis
    by (auto simp: recv_end_def rm_msg_push_dtor_def)
qed

theorem request_resources_witness:
  "\<exists>r. rm_do_msg_push_rx sh_lists sample_recv ((sample_request [47, 121])\<lparr>p_L := 0\<rparr>) (sample_node (\<lambda>_. None)) = Some r \<and>
    rr_closes (rm_msg_push_dtor r) = 1 \<and> rr_frees (rm_msg_push_dtor r) = 0"
proof -
  let ?m = "(sample_request [47, 121])\<lparr>p_L := 0\<rparr>"
  have "\<exists>r. rm_do_msg_push_rx sh_lists sample_recv ?m (sample_node (\<lambda>_. None)) = Some r"
    by (simp add: rm_do_msg_push_rx_def rm_session_assign_validate_from_msg_push_def)
  then obtain r where "rm_do_msg_push_rx sh_lists sample_recv ?m (sample_node (\<lambda>_. None)) = Some r" ..
  with request_resources [OF this] show ?thesis by simp
qed

lemma validate_refused:
  assumes "rm_session_assign_validate_from_msg_push env s0 m fs0 cwd0 = (e, s, fs, cwd)" and "e \<noteq> RM_ERR_OK"
  shows "fs = fs0"
  using assms
  by (auto simp: rm_session_assign_validate_from_msg_push_def Let_def validate_dir_def
      split: if_splits option.splits prod.splits rm_session_type.splits)

lemma refused_run:
  fixes n :: "'h node"
  assumes "pe_session_ok (re_sys env)" and "tx_good (nd_ctl n)" and "sk_out (nd_ctl n) = []"
    and "rm_session_assign_validate_from_msg_push env (recv_init RM_PUSH_RX) m (nd_files n) (nd_cwd n) = (e, s, fs, cwd)"
    and "e \<noteq> RM_ERR_OK"
  shows "\<exists>r. rm_do_msg_push_rx st env m n = Some r \<and> rr_err r = err_code e \<and> nd_files (rr_node r) = nd_files n \<and>
    sk_out (nd_ctl (rr_node r)) = push_ack_bytes (re_hash32 env) e 0 (rv_ch_ch_n s) \<and>
    rm_sessions_n (nd_core (rr_node r)) = rm_sessions_n (nd_core n)"
proof -
  let ?n1 = "n\<lparr>nd_files := nd_files n, nd_cwd := cwd\<rparr>"
  have fs: "fs = nd_files n" by (rule validate_refused [OF assms(4,5)])
  have "tx_good (nd_ctl ?n1)" "sk_out (nd_ctl ?n1) = []" using assms(2,3) by simp_all
  from recv_ack_ok [OF this, of env e 0 s] obtain c where
    "recv_ack env (err_code e) 0 s ?n1 = (RM_ERR_OK, ?n1\<lparr>nd_ctl := c\<rparr>)" "sk_out c = push_ack_bytes (re_hash32 env) e 0 (rv_ch_ch_n s)"
    by blast
  with assms fs show ?thesis by (simp add: rm_do_msg_push_rx_def Let_def recv_end_def)
qed

text \<open>
  A request that the validation refuses changes no file and leaves the table of sessions as it was; the peer
  reads the reason from the acknowledgement: a zero block size, a missing source name, \<open>--leave\<close>
  without another name for the result, a missing name of the old file, an old file that cannot be
  opened and need not be created, and the failures of \<open>fstat\<close>, \<open>getcwd\<close>, \<open>chdir\<close> and of creating the temporary file.
\<close>

theorem refused_request_is_answered:
  fixes n :: "'h node"
  assumes "pe_session_ok (re_sys env)" and "tx_good (nd_ctl n)" and "sk_out (nd_ctl n) = []"
    and "rm_session_assign_validate_from_msg_push env (recv_init RM_PUSH_RX) m (nd_files n) (nd_cwd n) = (e, s, fs, cwd)"
    and "e \<noteq> RM_ERR_OK"
  shows "\<exists>r. rm_do_msg_push_rx st env m n = Some r \<and> rr_err r = err_code e \<and> nd_files (rr_node r) = nd_files n \<and>
    ack_reads (re_hash32 env) (sk_out (nd_ctl (rr_node r))) e 0 (rv_ch_ch_n s) \<and>
    rm_sessions_n (nd_core (rr_node r)) = rm_sessions_n (nd_core n)"
  using refused_run [OF assms, of st] push_ack_reads(1) [of "re_hash32 env" e 0 "rv_ch_ch_n s"] by metis

theorem refused_request_is_answered_witness:
  "\<exists>r. rm_do_msg_push_rx sh_lists sample_recv ((sample_request [47, 121])\<lparr>p_x_sz := 0\<rparr>)
      (sample_node [''/y'' \<mapsto> [1]]) = Some r \<and> rr_err r = err_code RM_ERR_X_ZERO_SIZE \<and>
    nd_files (rr_node r) = [''/y'' \<mapsto> [1]]"
  using refused_request_is_answered [of sample_recv "sample_node [''/y'' \<mapsto> [1]]"
      "(sample_request [47, 121])\<lparr>p_x_sz := 0\<rparr>" RM_ERR_X_ZERO_SIZE
      "(recv_init RM_PUSH_RX)\<lparr>rv_ctx := ctx_zero\<lparr>ctx_L := 2\<rparr>\<rparr>" "[''/y'' \<mapsto> [1]]" "''/srv''" sh_lists]
  by (simp add: rm_session_assign_validate_from_msg_push_def recv_init_def Let_def) blast

end
