(* ===== verification/RM_TxRemote.thy ===== *)
theory RM_TxRemote
  imports RM_Receive
begin

text \<open>
  The sender's side of a remote push, \<open>rm_tx_remote_push\<close> of \<^verbatim>\<open>src/rm_tx.c\<close>: the request and its
  acknowledgement on the control connection, and the three threads that receive the checksums, roll
  over the file and transmit the delta elements. With the handler of \<open>RM_Receive\<close> on the other side it is the whole
  protocol, which the last theorems are about.
\<close>

section \<open>The request\<close>

text \<open>
  The environment: the file calls, the session, the rolling procedure and the turns of the two delta
  threads are in \<open>te_sys\<close>; then the control connection, the address of the header of the request, the four allocations for the messages, the
  launch and the allocations of the thread that receives checksums, \<open>getpeername\<close>, the delta
  connection to the port of the acknowledgement, the number of checksums that have arrived when the
  rolling procedure looks for the \<open>i\<close>-th time, and the hash.
\<close>

record tx_env =
  te_sys :: push_env
  te_uuid :: bytes
  te_conn :: "rm_error \<times> sock"
  te_hdr_ptr :: u64
  te_msg_mem :: bool
  te_raw_mem :: bool
  te_ack_mem :: bool
  te_buf_mem :: bool
  te_ch_launch :: bool
  te_ch_mem :: mem_oracle
  te_peer_ok :: bool
  te_delta :: "u16 \<Rightarrow> rm_error \<times> sock"
  te_arrive :: "nat \<Rightarrow> nat"
  te_hash32 :: twhash_32

text \<open>
  What the request relies on: the session has an identifier, and the byte 4 of the address of the
  header is the payload type of a push, 0, because \<open>rm_tx_remote_push\<close> hands \<open>rm_calc_msg_len\<close> the
  message and not the header. A heap below 4 gigabytes is enough for that.
\<close>

definition request_ready :: "tx_env \<Rightarrow> bool" where
  "request_ready env \<longleftrightarrow> RM_UUID_LEN \<le> length (te_uuid env) \<and>
     ptr_byte (te_hdr_ptr env) 4 = rm_pt_code RM_PT_MSG_PUSH"

text \<open>A name is copied with \<open>strcpy\<close> into an array of zeros; a longer one leaves the array.\<close>

definition name_chars :: "string \<Rightarrow> bytes" where
  "name_chars s = map (\<lambda>c. of_nat (of_char c)) s"

definition name_field :: "string option \<Rightarrow> (u16 \<times> bytes) option" where
  "name_field p =
     (case p of
        None \<Rightarrow> Some (0, replicate RM_FILE_LEN_MAX 0)
      | Some s \<Rightarrow>
          if length s < RM_FILE_LEN_MAX
          then Some (of_nat (length s + 1), name_chars s @ replicate (RM_FILE_LEN_MAX - length s) 0)
          else None)"

definition push_msg ::
    "tx_env \<Rightarrow> string \<Rightarrow> string option \<Rightarrow> string option \<Rightarrow> nat \<Rightarrow> u8 \<Rightarrow> nat \<Rightarrow> rm_msg_push option" where
  "push_msg env x y z L flags x_sz =
     (case (name_field (Some x), name_field y, name_field z) of
        (Some (xn, xb), Some (yn, yb), Some (zn, zb)) \<Rightarrow>
          let hdr = \<lparr>h_hash = 0, h_pt = rm_pt_code RM_PT_MSG_PUSH, h_flags = flags, h_len = 0\<rparr>;
              m = \<lparr>p_hdr = hdr, p_ssid = take RM_UUID_LEN (te_uuid env), p_L = of_nat L, p_x_sz = xn, p_x = xb,
                p_y_sz = yn, p_y = yb, p_z_sz = zn, p_z = zb, p_ch_ch_port = 0, p_bytes = of_nat x_sz\<rparr>
          in (case rm_calc_msg_len (Arg_Push (te_hdr_ptr env) m) of
                None \<Rightarrow> None
              | Some len \<Rightarrow>
                  let hdr = hdr\<lparr>h_len := len\<rparr>;
                      hdr = hdr\<lparr>h_hash := rm_core_hdr_hash (te_hash32 env) hdr\<rparr>
                  in Some (m\<lparr>p_hdr := hdr\<rparr>))
      | _ \<Rightarrow> None)"

section \<open>The acknowledgement\<close>

text \<open>Errors are returned as an \<open>int\<close>, because the status of an acknowledgement is a byte from the wire.\<close>

definition tcp_rx_error :: "rm_error \<Rightarrow> rm_error" where
  "tcp_rx_error e = (if e = RM_ERR_EOF then RM_ERR_TCP_DISCONNECT else RM_ERR_TCP)"

text \<open>
  The 8 bytes every acknowledgement has come first; one of another type ends the push if it has an
  error. \<open>Inl\<close> is the error to return, \<open>None\<close> waits forever.
\<close>

definition tx_wait_ack ::
    "twhash_32 \<Rightarrow> sock \<Rightarrow> ((int, rm_msg_push_ack) sum \<times> sock) option" where
  "tx_wait_ack th s =
     (case rm_tcp_rx s 8 of
        None \<Rightarrow> None
      | Some (e, a, s1) \<Rightarrow>
          if e \<noteq> RM_ERR_OK then Some (Inl (err_code (tcp_rx_error e)), s1)
          else
            (case rm_deserialize_msg_ack a of
               None \<Rightarrow> None
             | Some (hdr, _) \<Rightarrow>
                 if h_pt hdr \<noteq> rm_pt_code RM_PT_MSG_PUSH_ACK \<and> h_flags hdr \<noteq> 0
                 then Some (Inl (uint (h_flags hdr)), s1)
                 else
                   (case rm_tcp_rx s1 10 of
                      None \<Rightarrow> None
                    | Some (e, b, s2) \<Rightarrow>
                        if e \<noteq> RM_ERR_OK then Some (Inl (err_code (tcp_rx_error e)), s2)
                        else
                          let err = rm_core_tcp_msg_ack_validate th (a @ b) 18 in
                          if err \<noteq> RM_ERR_OK then Some (Inl (err_code err), s2)
                          else
                            (case rm_deserialize_msg_push_ack (a @ b) of
                               None \<Rightarrow> None
                             | Some (ack, _) \<Rightarrow>
                                 if h_flags (a_hdr ack) \<noteq> 0 then Some (Inl (uint (h_flags (a_hdr ack))), s2)
                                 else Some (Inr ack, s2)))))"

section \<open>The threads\<close>

text \<open>
  The table as the rolling procedure finds it at its \<open>i\<close>-th lookup: the receiving thread has come so far.
\<close>

definition arrived ::
    "tx_env \<Rightarrow> 'h twhash \<Rightarrow> 'h \<Rightarrow> sock \<Rightarrow> nat \<Rightarrow> nat \<Rightarrow> 'h" where
  "arrived env tw h s n i =
     (case ch_ch_rx_loop tw (te_ch_mem env) (min (te_arrive env i) n)
             \<lparr>cr_h = h, cr_m = Some Mutex_Free, cr_n = 0, cr_sock = s\<rparr> of
        None \<Rightarrow> h | Some (_, c) \<Rightarrow> cr_h c)"

text \<open>What a failed connection is recorded as; \<open>getpeername\<close> stores an error code as a status.\<close>

definition connect_status :: "rm_error \<Rightarrow> rm_rx_status" where
  "connect_status e =
     (case e of
        RM_ERR_CONNECT_TIMEOUT \<Rightarrow> RM_RX_STATUS_CONNECT_TIMEOUT
      | RM_ERR_CONNECT_REFUSED \<Rightarrow> RM_RX_STATUS_CONNECT_REFUSED
      | RM_ERR_CONNECT_HOSTUNREACH \<Rightarrow> RM_RX_STATUS_CONNECT_HOSTUNREACH
      | _ \<Rightarrow> RM_RX_STATUS_CONNECT_GEN_ERR)"

text \<open>
  The consumer of the delta queue in a remote push, with its connection. The reconstruction context
  it keeps is thrown away at its end. \<open>None\<close>: it never ends. The result is its status, where
  \<open>None\<close> is the error code that is no status, and the connection, if there was one.
\<close>

definition remote_consumer ::
    "tx_env \<Rightarrow> (rm_delta_e, 'f) twfifo \<Rightarrow> rm_delta_reconstruct_ctx \<Rightarrow> u16 \<Rightarrow> rm_delta_e list \<Rightarrow> nat \<Rightarrow>
     (rm_rx_status option \<times> sock option) option" where
  "remote_consumer env fq ctx port ds x_sz =
     (if \<not> te_peer_ok env then Some (None, None)
      else case te_delta env port of
        (e, s) \<Rightarrow>
          if e \<noteq> RM_ERR_OK then Some (Some (connect_status e), None)
          else
            let p = run_pipe fq remote_rx_f (pe_sched (te_sys env)) (pipe_init fq ds x_sz (ctx, s)) in
            (case pp_cons p of
               C_Done \<Rightarrow> Some (Some RM_RX_STATUS_OK, Some (snd (pp_sink p)))
             | C_Err st \<Rightarrow> Some (Some st, Some (snd (pp_sink p)))
             | _ \<Rightarrow> None))"

record tx_result =
  tr_err :: int
  tr_ctl :: sock
  tr_delta :: "sock option"
  tr_ctx :: rm_delta_reconstruct_ctx

definition tx_fail :: "rm_error \<Rightarrow> sock \<Rightarrow> rm_delta_reconstruct_ctx \<Rightarrow> tx_result" where
  "tx_fail e s rc = \<lparr>tr_err = err_code e, tr_ctl = s, tr_delta = None, tr_ctx = rc\<rparr>"

text \<open>
  All three threads until they are joined. Launching one of the last two fails into freeing the
  session the first is using: \<open>None\<close>.
\<close>

definition tx_threads ::
    "tx_env \<Rightarrow> 'h twhash \<Rightarrow> (rm_delta_e, 'f) twfifo \<Rightarrow> 'h \<Rightarrow> rm_delta_reconstruct_ctx \<Rightarrow> stream \<Rightarrow> nat \<Rightarrow>
     rm_msg_push_ack \<Rightarrow> sock \<Rightarrow> rm_delta_reconstruct_ctx \<Rightarrow> tx_result option" where
  "tx_threads env tw fq h ctx f_x x_sz ack ctl rc =
     (if \<not> te_ch_launch env then Some (tx_fail RM_ERR_CH_CH_RX_THREAD_LAUNCH ctl rc)
      else if \<not> pe_tx_launch (te_sys env) \<or> \<not> pe_rx_launch (te_sys env) then None
      else case rm_session_ch_ch_rx_f tw (te_ch_mem env) (a_ch_ch_n ack) h Mutex_Free ctl of
        None \<Rightarrow> None
      | Some (ch_status, c) \<Rightarrow>
          let s = \<lparr>s_rec_ctx = ctx, s_prvt = \<lparr>tq_queue = fq_init fq, tq_mutex = Mutex_Free,
                tq_smutex = Mutex_Free, tq_signals = 0\<rparr>\<rparr>
          in (case rm_session_delta_tx_f tw (pe_mem_roll (te_sys env)) RM_PUSH_TX True
                     (Some (arrived env tw h ctl (unat (a_ch_ch_n ack)))) Mutex_Free (Some f_x)
                     (Some (roll_cb fq RM_PUSH_TX)) s of
                Some (Some tx_status, s', _, _) \<Rightarrow>
                  (case remote_consumer env fq ctx (a_delta_port ack) (queued fq (s_prvt s')) x_sz of
                     None \<Rightarrow> None
                   | Some (rx_status, d) \<Rightarrow>
                       let r = \<lparr>tr_err = 0, tr_ctl = cr_sock c, tr_delta = d, tr_ctx = rc\<rparr> in
                       Some (if ch_status \<noteq> RM_RX_STATUS_OK then r\<lparr>tr_err := err_code RM_ERR_CH_CH_RX_THREAD\<rparr>
                         else if tx_status \<noteq> RM_TX_STATUS_OK then r\<lparr>tr_err := err_code RM_ERR_DELTA_TX_THREAD\<rparr>
                         else if rx_status \<noteq> Some RM_RX_STATUS_OK then r\<lparr>tr_err := err_code RM_ERR_DELTA_RX_THREAD\<rparr>
                         else r\<lparr>tr_ctx := s_rec_ctx s'\<rparr>))
              | _ \<Rightarrow> None))"

section \<open>The push\<close>

text \<open>
  \<open>None\<close>: a thread or a wait that never ends, or undefined behaviour: the serialization writes past the end of its
  buffer when that has a wrong length, and the failure exit looks into the
  session, which does not exist yet when \<open>fstat\<close> or the creation of the session fails. The three
  failing allocations that do not set an error return success.
\<close>

definition rm_tx_remote_push ::
    "tx_env \<Rightarrow> 'h twhash \<Rightarrow> (rm_delta_e, 'f) twfifo \<Rightarrow> 'h \<Rightarrow> string option \<Rightarrow> string option \<Rightarrow>
     string option \<Rightarrow> nat \<Rightarrow> nat \<Rightarrow> nat \<Rightarrow> nat \<Rightarrow> u8 \<Rightarrow> rm_delta_reconstruct_ctx option \<Rightarrow> files \<Rightarrow>
     (int \<times> tx_result option) option" where
  "rm_tx_remote_push env tw fq h xo y z L all tail send flags rco fs =
     (case (xo, rco) of
        (Some x, Some rc) \<Rightarrow>
          if L = 0 \<or> send = 0 then Some (err_code RM_ERR_BAD_CALL, None)
          else case fopen_rb (te_sys env) fs x of
            None \<Rightarrow> Some (err_code RM_ERR_OPEN_X, None)
          | Some f_x \<Rightarrow>
              (case fstat_size f_x of
                 None \<Rightarrow> None
               | Some x_sz \<Rightarrow>
                   if x_sz = 0 then Some (err_code RM_ERR_X_ZERO_SIZE, None)
                   else if \<not> pe_session_ok (te_sys env) then None
                   else case te_conn env of
                     (e, ctl) \<Rightarrow>
                       if e \<noteq> RM_ERR_OK then Some (err_code e, None)
                       else map_option (\<lambda>r. (tr_err r, Some r))
                         (if \<not> te_msg_mem env then Some (tx_fail RM_ERR_OK ctl rc)
                          else case push_msg env x y z L flags x_sz of
                            None \<Rightarrow> None
                          | Some m \<Rightarrow>
                              let rc = rc\<lparr>msg_push_len := h_len (p_hdr m)\<rparr> in
                              if \<not> te_raw_mem env then Some (tx_fail RM_ERR_TOO_MUCH_REQUESTED ctl rc)
                              else if unat (h_len (p_hdr m)) < length (rm_serialize_msg_push [] m) then None
                              else case rm_tcp_write ctl (take (unat (h_len (p_hdr m))) (rm_serialize_msg_push [] m)) of
                                (e, ctl) \<Rightarrow>
                                  if e \<noteq> RM_ERR_OK then Some (tx_fail e ctl rc)
                                  else if \<not> te_ack_mem env \<or> \<not> te_buf_mem env then Some (tx_fail RM_ERR_OK ctl rc)
                                  else case tx_wait_ack (te_hash32 env) ctl of
                                    None \<Rightarrow> None
                                  | Some (Inl code, ctl) \<Rightarrow>
                                      Some \<lparr>tr_err = code, tr_ctl = ctl, tr_delta = None, tr_ctx = rc\<rparr>
                                  | Some (Inr ack, ctl) \<Rightarrow>
                                      tx_threads env tw fq h (push_ctx L all tail send) f_x x_sz ack ctl rc))
      | _ \<Rightarrow> Some (err_code RM_ERR_BAD_CALL, None))"

section \<open>Lemmas\<close>

text \<open>\<open>rm_tcp_write\<close> delivers when no call is interrupted.\<close>

definition write_good :: "sock \<Rightarrow> bool" where
  "write_good s \<longleftrightarrow> set (sk_wev s) \<inter> {IO_Err, IO_Intr} = {}"

lemma sock_write_good:
  assumes "write_good s" and "src \<noteq> []"
  shows "\<exists>n s'. sock_write src s = (Write_N n, s') \<and> sk_out s' = sk_out s @ take n src \<and> sk_in s' = sk_in s \<and>
    sk_rev s' = sk_rev s \<and> sk_closed s' = sk_closed s \<and> write_good s'"
  using assms
  by (cases "sk_wev s"; cases "hd (sk_wev s)")
    (auto simp: sock_write_def Let_def write_good_def min_def split: io_event.splits)

lemma rm_tcp_write_ok:
  assumes "write_good s"
  shows "\<exists>s'. rm_tcp_write s src = (RM_ERR_OK, s') \<and> sk_out s' = sk_out s @ src \<and> sk_in s' = sk_in s \<and>
    sk_rev s' = sk_rev s \<and> sk_closed s' = sk_closed s \<and> write_good s'"
  using assms
proof (induction s src rule: rm_tcp_write.induct)
  case (1 s src)
  show ?case
  proof (cases "src = []")
    case False
    from sock_write_good [OF 1(2) False] obtain n s' where w: "sock_write src s = (Write_N n, s')"
        "sk_out s' = sk_out s @ take n src" "sk_in s' = sk_in s" "sk_rev s' = sk_rev s" "sk_closed s' = sk_closed s"
        "write_good s'" by blast
    from 1(1) [OF False w(1) [symmetric] refl w(6)] w(2-5) False show ?thesis
      by (auto simp: rm_tcp_write.simps [of s src] w(1))
  qed (use 1(2) in \<open>simp add: rm_tcp_write.simps\<close>)
qed

text \<open>The acknowledgement of the handler, as the sender takes it.\<close>

lemma tx_wait_ack_ok:
  assumes "rx_good s" and "sk_in s = push_ack_bytes th status port n @ rest"
  shows "\<exists>s'. tx_wait_ack th s = Some (if status = RM_ERR_OK
      then Inr \<lparr>a_hdr = push_ack_hdr th status, a_delta_port = port, a_ch_ch_n = n\<rparr> else Inl (err_code status), s') \<and>
    rx_good s' \<and> sk_in s' = rest \<and> sk_out s' = sk_out s"
proof -
  let ?h = "push_ack_hdr th status" and ?b = "rm_serialize_u16 [] port @ rm_serialize_u64 [] n"
  have in1: "sk_in s = rm_serialize_msg_hdr [] ?h @ ?b @ rest" using assms(2) by (simp add: push_ack_bytes_split)
  have len: "length (rm_serialize_msg_hdr [] ?h) = 8" "length ?b = 10" by (simp_all add: RM_MSG_HDR_LEN_def)
  obtain s1 where s1: "rm_tcp_rx s 8 = Some (RM_ERR_OK, rm_serialize_msg_hdr [] ?h, s1)" "sk_in s1 = ?b @ rest"
      "rx_good s1" "sk_out s1 = sk_out s"
    using tcp_rx.rx_frame [OF assms(1) in1 len(1)] by blast
  obtain s2 where s2: "rm_tcp_rx s1 10 = Some (RM_ERR_OK, ?b, s2)" "sk_in s2 = rest" "rx_good s2"
      "sk_out s2 = sk_out s1"
    using tcp_rx.rx_frame [OF s1(3,2) len(2)] by blast
  have hdr: "rm_deserialize_msg_ack (rm_serialize_msg_hdr [] ?h) = Some (?h, [])"
    using hdr.deser_ser [of ?h "[]"] by (simp add: rm_deserialize_msg_ack_def)
  have pt: "h_pt ?h = rm_pt_code RM_PT_MSG_PUSH_ACK" by (simp add: push_ack_hdr_def Let_def)
  have split: "rm_serialize_msg_hdr [] ?h @ ?b = push_ack_bytes th status port n" by (simp add: push_ack_bytes_split)
  have body: "rm_deserialize_msg_push_ack (push_ack_bytes th status port n) =
      Some (\<lparr>a_hdr = ?h, a_delta_port = port, a_ch_ch_n = n\<rparr>, [])"
    using push_ack.deser_ser [of "\<lparr>a_hdr = ?h, a_delta_port = port, a_ch_ch_n = n\<rparr>" "[]"]
    by (simp add: push_ack_bytes_def)
  have zero: "h_flags ?h = 0 \<longleftrightarrow> status = RM_ERR_OK"
    using push_ack_flags [of th status] by (metis rm_error_code.simps(1) rm_error_of_code unat_eq_zero option.inject)
  have code: "uint (h_flags ?h) = err_code status"
    unfolding err_code_def push_ack_flags [of th, symmetric] by simp
  show ?thesis
    using s1 s2 zero code
    by (simp add: tx_wait_ack_def hdr pt split push_ack_reads(2) body Let_def del: append_assoc)
qed

section \<open>A push that is carried out\<close>

definition tx_healthy :: "tx_env \<Rightarrow> bool" where
  "tx_healthy env \<longleftrightarrow> env_healthy (te_sys env) \<and> te_msg_mem env \<and> te_raw_mem env \<and> te_ack_mem env \<and>
     te_buf_mem env \<and> te_ch_launch env \<and> te_ch_mem env = mem_ok \<and> te_peer_ok env"

lemma arrived_prefix:
  assumes "te_ch_mem env = mem_ok" and "rx_good s" and "n = nblocks L y"
    and "sk_in s = concat (map RM_CH_CH_WIRE (map (block_entry L y) [0..<n])) @ r"
  shows "\<exists>j\<le>n. arrived env tw h s n i = fold (tw_insert tw) (map (block_entry L y) [0..<j]) h"
proof (intro exI [of _ "min (te_arrive env i) n"] conjI)
  let ?j = "min (te_arrive env i) n"
  let ?es = "map (block_entry L y) [0..<?j]" and ?fs = "map (block_entry L y) [?j..<n]"
  have "[0..<n] = [0..<?j] @ [?j..<n]" using upt_add_eq_append [of 0 ?j "n - ?j"] by simp
  then have "sk_in s = concat (map RM_CH_CH_WIRE ?es) @ concat (map RM_CH_CH_WIRE ?fs) @ r"
    using assms(4) by simp
  then have "\<exists>c'. ch_ch_rx_loop tw mem_ok (length ?es) \<lparr>cr_h = h, cr_m = Some Mutex_Free, cr_n = 0, cr_sock = s\<rparr> =
      Some (RM_RX_STATUS_OK, c') \<and> cr_h c' = fold (tw_insert tw) ?es h"
    using ch_ch_rx_loop_wire [of "\<lparr>cr_h = h, cr_m = Some Mutex_Free, cr_n = 0, cr_sock = s\<rparr>" ?es
        "concat (map RM_CH_CH_WIRE ?fs) @ r" tw] assms(2) map_ch_ref [of L y ?j]
    by (auto simp del: map_map)
  then show "arrived env tw h s n i = fold (tw_insert tw) ?es h"
    using assms(1) by (auto simp: arrived_def)
qed simp

lemma remote_consumer_ok:
  assumes "tx_healthy env" and "fifo_ok fq" and "te_delta env port = (RM_ERR_OK, d0)" and "tx_good d0"
    and "deltas_upto L y x (length x) ds" and "length x \<le> off_max" and "length y \<le> off_max"
  shows "\<exists>d. remote_consumer env fq ctx port ds (length x) = Some (Some RM_RX_STATUS_OK, Some d) \<and>
    sk_out d = sk_out d0 @ concat (map delta_wire ds)"
proof -
  note fit = deltas_upto_seq_fits [OF assms(5-7)]
  let ?start = "pipe_init fq ds (length x) (ctx, d0)"
  let ?p = "run_pipe fq remote_rx_f (pe_sched (te_sys env)) ?start"
  have p: "pipe_reach fq remote_rx_f ?start ?p" "pipe_stuck fq remote_rx_f ?p"
    by (simp_all only: run_pipe_end [OF assms(2)])
  have made: "remote_made (sk_out d0) [] (ctx, d0)" using assms(4) by (simp add: remote_made_def tx_good_def)
  have "pp_cons ?p = C_Done" "remote_made (sk_out d0) ds (pp_sink ?p)"
    using remote_sink.pipe_ends [OF p(1) assms(2) made fit(1) _ _ p(2)] fit assms(6) off_max_size_t by auto
  with assms(1,3) show ?thesis
    by (auto simp: remote_consumer_def Let_def tx_healthy_def remote_made_def split_beta)
qed

lemma tx_threads_ok:
  assumes "tx_healthy env" and "fifo_ok fq" and "twhash_ok tw" and "\<forall>b. tw_bucket tw h b = []"
    and "healthy f_x" and "fs_bytes f_x = x" and "x \<noteq> []" and "length x < off_max" and "length y < off_max"
    and "0 < L" and "L < off_max" and "0 < send" and "no_collision L x y" and "zero_diff_safe L x y"
    and "rx_good ctl" and "sk_in ctl = concat (map RM_CH_CH_WIRE (map (block_entry L y) [0..<nblocks L y])) @ rest"
    and "a_ch_ch_n ack = of_nat (nblocks L y)" and "te_delta env (a_delta_port ack) = (RM_ERR_OK, d0)" and "tx_good d0"
  shows "\<exists>r d ds. tx_threads env tw fq h (push_ctx L all tail send) f_x (length x) ack ctl rc = Some r \<and>
    tr_err r = 0 \<and> sk_out (tr_ctl r) = sk_out ctl \<and> tr_delta r = Some d \<and>
    sk_out d = sk_out d0 @ concat (map delta_wire ds) \<and> deltas_upto L y x (length x) ds"
proof -
  note env = assms(1) [unfolded tx_healthy_def env_healthy_def]
  let ?n = "nblocks L y"
  let ?s = "\<lparr>s_rec_ctx = push_ctx L all tail send, s_prvt = \<lparr>tq_queue = fq_init fq, tq_mutex = Mutex_Free,
    tq_smutex = Mutex_Free, tq_signals = 0\<rparr>\<rparr>"
  let ?h = "arrived env tw h ctl ?n"
  obtain c where ch: "rm_session_ch_ch_rx_f tw mem_ok (a_ch_ch_n ack) h Mutex_Free ctl = Some (RM_RX_STATUS_OK, c)"
      "sk_out (cr_sock c) = sk_out ctl"
    using ch_ch_rx_f_wire [OF assms(10,9,15,16), of tw h] assms(17) by auto
  have "\<exists>j\<le>?n. ?h i = fold (tw_insert tw) (map (block_entry L y) [0..<j]) h" for i
    using env by (intro arrived_prefix [OF _ assms(15) refl assms(16)]) simp
  then have sound: "table_sound tw ?h L y" by (rule table_sound_prefixes [OF assms(3,10,4)])
  have q: "queued fq (s_prvt ?s) = []" using fifo_simps(1) [OF assms(2)] by (simp add: queued_def)
  have "roll_call_ok tw ?s (Some ?h) f_x y (roll_cb fq RM_PUSH_TX) (queued fq)"
    using assms sound sink_roll_cb [OF assms(2)] by (simp add: roll_call_ok_def)
  from delta_tx_ok [OF this _ q, of Mutex_Free] obtain s' fx hm where
    tx: "rm_session_delta_tx_f tw mem_ok RM_PUSH_TX True (Some ?h) Mutex_Free (Some f_x)
      (Some (roll_cb fq RM_PUSH_TX)) ?s = Some (Some RM_TX_STATUS_OK, s', fx, hm)"
      "deltas_upto L y x (length x) (queued fq (s_prvt s'))" using assms(6) by auto
  obtain d where d: "remote_consumer env fq (push_ctx L all tail send) (a_delta_port ack) (queued fq (s_prvt s'))
      (length x) = Some (Some RM_RX_STATUS_OK, Some d)"
      "sk_out d = sk_out d0 @ concat (map delta_wire (queued fq (s_prvt s')))"
    using remote_consumer_ok [OF assms(1,2,18,19) tx(2)] assms(8,9) by auto
  have n: "unat (a_ch_ch_n ack) = ?n" unfolding assms(17) by (rule nblocks_small [OF assms(10,9)])
  show ?thesis
    using ch tx d env
    by (intro exI [of _ "\<lparr>tr_err = 0, tr_ctl = cr_sock c, tr_delta = Some d, tr_ctx = s_rec_ctx s'\<rparr>"] exI [of _ d]
        exI [of _ "queued fq (s_prvt s')"]) (simp add: tx_threads_def n Let_def)
qed

text \<open>The request is a valid message, of the length in its header, and its names are those given.\<close>

lemma unat_of_char: "unat (of_nat (of_char c) :: u8) = of_char c"
proof -
  have "(of_char c :: nat) < 256" by (rule nat_of_char_less_256)
  then show ?thesis by (simp only: unat_of_nat) simp
qed

lemma of_char_zero: "(of_nat (of_char c) :: u8) = 0 \<longleftrightarrow> c = CHR 0x00"
proof
  assume "(of_nat (of_char c) :: u8) = 0"
  then have "(of_char c :: nat) = of_char (CHR 0x00)" using unat_of_char [of c] by simp
  then show "c = CHR 0x00" by (simp only: of_char_eq_iff)
qed simp

lemma c_string_name:
  assumes "CHR 0x00 \<notin> set s" and "0 < n"
  shows "c_string (name_chars s @ replicate n 0) = s"
proof -
  have "takeWhile (\<lambda>b. b \<noteq> 0) (name_chars s @ replicate n 0) = name_chars s"
    using assms by (subst takeWhile_append2) (auto simp: name_chars_def of_char_zero)
  then show ?thesis by (simp add: c_string_def name_chars_def unat_of_char comp_def)
qed

definition c_name :: "string option \<Rightarrow> bool" where
  "c_name p \<longleftrightarrow> (\<forall>s. p = Some s \<longrightarrow> CHR 0x00 \<notin> set s \<and> length s < RM_FILE_LEN_MAX)"

lemma name_field_valid:
  assumes "c_name p"
  shows "\<exists>n b. name_field p = Some (n, b) \<and> name_valid (n, b) \<and> (n = 0 \<longleftrightarrow> p = None) \<and> (\<forall>s. p = Some s \<longrightarrow> c_string b = s)"
proof (cases p)
  case (Some s)
  with assms have s: "CHR 0x00 \<notin> set s" "length s < RM_FILE_LEN_MAX" by (auto simp: c_name_def)
  then have un: "unat (of_nat (length s + 1) :: u16) = length s + 1"
    by (subst unsigned_of_nat) (simp add: take_bit_nat_eq_self RM_FILE_LEN_MAX_def)
  have "0 \<notin> set (name_chars s)" using s(1) by (auto simp: name_chars_def of_char_zero)
  then have "name_valid (of_nat (length s + 1), name_chars s @ replicate (RM_FILE_LEN_MAX - length s) 0)"
    using s(2) un unfolding name_valid_def
    by (auto simp: name_chars_def simp del: of_nat_Suc intro!: exI [of _ "name_chars s"])
  moreover have "of_nat (length s + 1) \<noteq> (0 :: u16)" using un by (metis unat_0 add_is_0 one_neq_zero)
  ultimately show ?thesis using s Some c_string_name [of s "RM_FILE_LEN_MAX - length s"]
    by (simp add: name_field_def del: of_nat_Suc)
next
  case None
  have "name_valid (0, replicate RM_FILE_LEN_MAX 0)" by (auto simp: name_valid_def)
  with None show ?thesis by (simp add: name_field_def)
qed

definition opt_name :: "u16 \<Rightarrow> bytes \<Rightarrow> string option" where
  "opt_name n b = (if n = 0 then None else Some (c_string b))"

lemma name_field_name: "name_field p = Some (n, b) \<Longrightarrow> c_name p \<Longrightarrow> opt_name n b = p"
  using name_field_valid [of p] by (cases p) (auto simp: opt_name_def)

lemma calc_msg_len_cong:
  "p_x_sz a = p_x_sz b \<Longrightarrow> p_y_sz a = p_y_sz b \<Longrightarrow> p_z_sz a = p_z_sz b \<Longrightarrow>
     rm_calc_msg_len (Arg_Push p a) = rm_calc_msg_len (Arg_Push p b)"
  by (simp only: rm_calc_msg_len_def arg_pt.simps msg_arg.case)

text \<open>The request of any call; its length depends on the address of the header.\<close>

lemma push_msg_made:
  assumes "c_name (Some x)" and "c_name y" and "c_name z" and "RM_UUID_LEN \<le> length (te_uuid env)"
  shows "\<exists>m. push_msg env x y z L flags n = Some m \<and> push_valid m \<and>
    (if ptr_byte (te_hdr_ptr env) 4 = rm_pt_code RM_PT_MSG_PUSH
     then unat (h_len (p_hdr m)) = length (rm_serialize_msg_push [] m) else unat (h_len (p_hdr m)) \<le> 18) \<and>
    p_L m = of_nat L \<and> p_bytes m = of_nat n \<and>
    h_flags (p_hdr m) = flags \<and> opt_name (p_x_sz m) (p_x m) = Some x \<and> opt_name (p_y_sz m) (p_y m) = y \<and>
    opt_name (p_z_sz m) (p_z m) = z"
proof -
  obtain xn xb where x: "name_field (Some x) = Some (xn, xb)" "name_valid (xn, xb)"
    using name_field_valid [OF assms(1)] by blast
  obtain yn yb where y: "name_field y = Some (yn, yb)" "name_valid (yn, yb)"
    using name_field_valid [OF assms(2)] by blast
  obtain zn zb where z: "name_field z = Some (zn, zb)" "name_valid (zn, zb)"
    using name_field_valid [OF assms(3)] by blast
  note names = name_field_name [OF x(1) assms(1)] name_field_name [OF y(1) assms(2)] name_field_name [OF z(1) assms(3)]
  let ?m0 = "\<lparr>p_hdr = \<lparr>h_hash = 0, h_pt = rm_pt_code RM_PT_MSG_PUSH, h_flags = flags, h_len = 0\<rparr>,
      p_ssid = take RM_UUID_LEN (te_uuid env), p_L = of_nat L, p_x_sz = xn, p_x = xb, p_y_sz = yn, p_y = yb,
      p_z_sz = zn, p_z = zb, p_ch_ch_port = 0, p_bytes = of_nat n\<rparr>"
  have "push_valid ?m0" using x(2) y(2) z(2) assms(4) by (simp add: push_valid_def RM_UUID_LEN_def)
  from calc_msg_len_push [OF this] obtain len where len: "rm_calc_msg_len (Arg_Push (te_hdr_ptr env) ?m0) = Some len" by blast
  then obtain m where m: "push_msg env x y z L flags n = Some m"
    using x y z by (simp add: push_msg_def Let_def)
  then have f: "p_ssid m = take RM_UUID_LEN (te_uuid env)" "p_L m = of_nat L" "p_bytes m = of_nat n"
      "h_flags (p_hdr m) = flags" "p_x_sz m = xn" "p_x m = xb" "p_y_sz m = yn" "p_y m = yb" "p_z_sz m = zn" "p_z m = zb"
      and hl: "h_len (p_hdr m) = len"
    using x y z len by (auto simp: push_msg_def Let_def)
  have v: "push_valid m" using f x(2) y(2) z(2) assms(4) by (simp add: push_valid_def RM_UUID_LEN_def)
  have "rm_calc_msg_len (Arg_Push (te_hdr_ptr env) m) = Some len"
    using len calc_msg_len_cong [of m ?m0] f by simp
  with calc_msg_len_push [OF v, of "te_hdr_ptr env"] hl m v f names show ?thesis
    by (intro exI [of _ m]) auto
qed

lemma push_msg_ok:
  assumes "c_name (Some x)" and "c_name y" and "c_name z" and "request_ready env"
  shows "\<exists>m. push_msg env x y z L flags n = Some m \<and> push_valid m \<and>
    unat (h_len (p_hdr m)) = length (rm_serialize_msg_push [] m) \<and> p_L m = of_nat L \<and> p_bytes m = of_nat n \<and>
    h_flags (p_hdr m) = flags \<and> opt_name (p_x_sz m) (p_x m) = Some x \<and> opt_name (p_y_sz m) (p_y m) = y \<and>
    opt_name (p_z_sz m) (p_z m) = z"
  using push_msg_made [OF assms(1-3), of env L flags n] assms(4)
  by (simp only: request_ready_def if_True simp_thms)

lemma request_ready_conn [simp]: "request_ready (te\<lparr>te_conn := c\<rparr>) = request_ready te"
  by (simp add: request_ready_def)

text \<open>The sender's run, given what the handler answers.\<close>

lemma remote_push_run:
  assumes "tx_healthy env" and "fifo_ok fq" and "twhash_ok tw" and "\<forall>b. tw_bucket tw h b = []"
    and "fs xp = Some x" and "x \<noteq> []" and "length x < off_max" and "length yb < off_max"
    and "0 < L" and "L < off_max" and "0 < send" and "no_collision L x yb" and "zero_diff_safe L x yb"
    and "c_name (Some xp)" and "c_name y" and "c_name z" and "request_ready env"
    and "te_conn env = (RM_ERR_OK, ctl)" and "write_good ctl" and "rx_good ctl" and "sk_out ctl = []"
    and "sk_in ctl = push_ack_bytes (te_hash32 env) RM_ERR_OK port (of_nat (nblocks L yb)) @
      concat (map RM_CH_CH_WIRE (map (block_entry L yb) [0..<nblocks L yb])) @ rest"
    and "te_delta env port = (RM_ERR_OK, d0)" and "tx_good d0" and "sk_out d0 = []"
  shows "\<exists>m r d ds. push_msg env xp y z L flags (length x) = Some m \<and>
    rm_tx_remote_push env tw fq h (Some xp) y z L all tail send flags (Some rc) fs = Some (0, Some r) \<and>
    sk_out (tr_ctl r) = rm_serialize_msg_push [] m \<and> tr_delta r = Some d \<and>
    sk_out d = concat (map delta_wire ds) \<and> deltas_upto L yb x (length x) ds"
proof -
  note env = assms(1) [unfolded tx_healthy_def env_healthy_def]
  let ?f = "pe_stream (te_sys env) xp x"
  have f: "fopen_rb (te_sys env) fs xp = Some ?f" "healthy ?f" "fs_bytes ?f = x" "fstat_size ?f = Some (length x)"
    using env assms(5) by (auto simp: fopen_rb_def fstat_size_def healthy_def)
  obtain m where m: "push_msg env xp y z L flags (length x) = Some m"
      "unat (h_len (p_hdr m)) = length (rm_serialize_msg_push [] m)"
    using push_msg_ok [OF assms(14-17), of L flags "length x"] by (elim exE conjE) (rule that; assumption)
  obtain c1 where c1: "rm_tcp_write ctl (rm_serialize_msg_push [] m) = (RM_ERR_OK, c1)"
      "sk_out c1 = rm_serialize_msg_push [] m" "sk_in c1 = sk_in ctl" "rx_good c1"
    using rm_tcp_write_ok [OF assms(19), of "rm_serialize_msg_push [] m"] assms(20,21) by (auto simp: rx_good_def)
  let ?ack = "\<lparr>a_hdr = push_ack_hdr (te_hash32 env) RM_ERR_OK, a_delta_port = port, a_ch_ch_n = of_nat (nblocks L yb)\<rparr>"
  have in1: "sk_in c1 = push_ack_bytes (te_hash32 env) RM_ERR_OK port (of_nat (nblocks L yb)) @
      (concat (map RM_CH_CH_WIRE (map (block_entry L yb) [0..<nblocks L yb])) @ rest)"
    using c1(3) assms(22) by simp
  obtain c2 where c2: "tx_wait_ack (te_hash32 env) c1 = Some (Inr ?ack, c2)" "rx_good c2"
      "sk_in c2 = concat (map RM_CH_CH_WIRE (map (block_entry L yb) [0..<nblocks L yb])) @ rest"
      "sk_out c2 = sk_out c1"
    using tx_wait_ack_ok [OF c1(4) in1] by auto
  have a: "a_ch_ch_n ?ack = of_nat (nblocks L yb)" "te_delta env (a_delta_port ?ack) = (RM_ERR_OK, d0)"
    using assms(23) by simp_all
  let ?rc = "rc\<lparr>msg_push_len := h_len (p_hdr m)\<rparr>"
  obtain r d ds where r: "tx_threads env tw fq h (push_ctx L all tail send) ?f (length x) ?ack c2 ?rc = Some r"
      "tr_err r = 0" "sk_out (tr_ctl r) = sk_out c2" "tr_delta r = Some d"
      "sk_out d = sk_out d0 @ concat (map delta_wire ds)" "deltas_upto L yb x (length x) ds"
    using tx_threads_ok [OF assms(1-4) f(2,3) assms(6-13) c2(2,3) a assms(24), of all tail ?rc]
    by (elim exE conjE) (rule that; assumption)
  have "rm_tx_remote_push env tw fq h (Some xp) y z L all tail send flags (Some rc) fs = Some (0, Some r)"
    using env assms(6,9,11,18) f(1,4) m c1(1) c2(1) r(1,2) by (simp add: rm_tx_remote_push_def Let_def)
  with m r c1(2) c2(4) assms(25) show ?thesis
    by (intro exI [of _ m] exI [of _ r] exI [of _ d] exI [of _ ds]) simp
qed

lemma deltas_fit_zero: "deltas_fit L n p ds \<Longrightarrow> d \<in> set ds \<Longrightarrow> is_zero_diff d \<Longrightarrow> n \<le> L"
  by (induction ds arbitrary: p) (auto simp: delta_fits_def is_zero_diff_def)

lemma dirname_absolute: "\<exists>r. dirname (CHR ''/'' # q) = CHR ''/'' # r"
proof -
  have strip: "hd (strip_slashes p) = CHR ''/''" if "hd p = CHR ''/''" "strip_slashes p \<noteq> []" for p
    using that strip_append [of p "\<lambda>c. c = CHR ''/''"] by (metis hd_append2 strip_slashes_def)
  let ?a = "strip_slashes (CHR ''/'' # q)"
  let ?d = "rev (dropWhile (\<lambda>c. c \<noteq> CHR ''/'') (rev ?a))"
  have "hd (dirname (CHR ''/'' # q)) = CHR ''/'' \<and> dirname (CHR ''/'' # q) \<noteq> []"
  proof (cases "?a = []")
    case False
    then have a: "hd ?a = CHR ''/''" using strip [of "CHR ''/'' # q"] by simp
    then have d: "?d \<noteq> []" using False by (cases ?a) (auto simp: dropWhile_eq_Nil_conv)
    then have "hd ?d = CHR ''/''" using a strip_append [of ?a "\<lambda>c. c \<noteq> CHR ''/''"] by (metis hd_append2)
    with strip [of ?d] d False show ?thesis by (auto simp: dirname_def Let_def)
  qed (simp add: dirname_def)
  then show ?thesis by (cases "dirname (CHR ''/'' # q)") auto
qed

text \<open>The handler's answer and temporary file do not depend on the delta connection.\<close>

lemma recv_conn_simps [simp]:
  "recv_healthy (re\<lparr>re_conn := c\<rparr>) = recv_healthy re"
  "recv_answer (re\<lparr>re_conn := c\<rparr>) m y = recv_answer re m y"
  "recv_tmp (re\<lparr>re_conn := c\<rparr>) w m = recv_tmp re w m"
  by (simp_all add: recv_healthy_def recv_answer_def Let_def recv_tmp_def)

lemma push_msg_conn: "push_msg (te\<lparr>te_conn := c\<rparr>) x y z L flags k = push_msg te x y z L flags k"
  by (simp add: push_msg_def Let_def split: option.split prod.split)

definition push_dest :: "string \<Rightarrow> string option \<Rightarrow> string" where
  "push_dest y z = (case z of None \<Rightarrow> y | Some zn \<Rightarrow> zn)"

definition absolute :: "string \<Rightarrow> bool" where
  "absolute p \<longleftrightarrow> (\<exists>q. p = CHR ''/'' # q)"

lemma push_names:
  assumes "opt_name (p_y_sz m) (p_y m) = Some y" and "opt_name (p_z_sz m) (p_z m) = z"
    and "absolute y" and "\<forall>zn. z = Some zn \<longrightarrow> absolute zn"
  shows "c_string (p_y m) = y" "recv_name m = push_dest y z" "p_y_sz m \<noteq> 0" "0 < p_z_sz m \<longleftrightarrow> z \<noteq> None"
    "recv_tmp re w m = resolve (dirname (push_dest y z)) (pe_tmp (re_sys re))"
proof -
  show y: "c_string (p_y m) = y" "p_y_sz m \<noteq> 0" using assms(1) by (auto simp: opt_name_def split: if_splits)
  show z: "0 < p_z_sz m \<longleftrightarrow> z \<noteq> None" using assms(2) by (auto simp: opt_name_def word_gt_0)
  show name: "recv_name m = push_dest y z"
    using y(1) assms(2) by (auto simp: recv_name_def push_dest_def opt_name_def word_gt_0)
  have "absolute (push_dest y z)" using assms(3,4) by (cases z) (simp_all add: push_dest_def)
  then obtain q where "push_dest y z = CHR ''/'' # q" by (auto simp: absolute_def)
  with dirname_absolute [of q] obtain r where "dirname (push_dest y z) = CHR ''/'' # r" by auto
  then show "recv_tmp re w m = resolve (dirname (push_dest y z)) (pe_tmp (re_sys re))"
    by (simp add: recv_tmp_def recv_dir_def name Let_def) (simp add: resolve_def)
qed

section \<open>Properties\<close>

text \<open>The run of both sides, with the message between them.\<close>

lemma remote_push_both:
  fixes n :: "'h node"
  assumes "tx_healthy te" and "recv_healthy re" and "te_hash32 te = re_hash32 re"
    and "fifo_ok fq" and "twhash_ok tw" and "\<forall>b. tw_bucket tw h b = []"
    and "fs xp = Some x" and "x \<noteq> []" and "length x < off_max" and "length yb < off_max"
    and "0 < L" and "L < off_max" and "0 < send" and "no_collision L x yb" and "zero_diff_safe L x yb"
    and "length x = length yb \<or> L < length x"
    and "c_name (Some xp)" and "c_name (Some y)" and "c_name z" and "request_ready te"
    and "absolute y" and "\<forall>zn. z = Some zn \<longrightarrow> absolute zn"
    and "flags AND RM_BIT_6 \<noteq> 0 \<longrightarrow> z \<noteq> None \<and> z \<noteq> Some y"
    and "case nd_files n y of Some b \<Rightarrow> yb = b | None \<Rightarrow> yb = [] \<and> flags AND RM_BIT_4 \<noteq> 0"
    and "resolve (dirname (push_dest y z)) (pe_tmp (re_sys re)) \<noteq> y"
    and "write_good ctl" and "rx_good ctl" and "sk_out ctl = []"
    and "te_delta te (snd (re_listen re)) = (RM_ERR_OK, d0)" and "tx_good d0" and "sk_out d0 = []"
    and "tx_good (nd_ctl n)" and "sk_out (nd_ctl n) = []" and "rx_good c"
  shows "\<exists>answer delta m body t d r.
    rm_tx_remote_push (te\<lparr>te_conn := (RM_ERR_OK, ctl\<lparr>sk_in := answer\<rparr>)\<rparr>) tw fq h (Some xp) (Some y) z
      L all tail send flags (Some rc) fs = Some (0, Some t) \<and>
    rm_deserialize_msg_hdr (sk_out (tr_ctl t)) = Some (p_hdr m, body) \<and>
    rm_deserialize_msg_push_body (p_hdr m) body = Some (m, []) \<and> tr_delta t = Some d \<and> sk_out d = delta \<and>
    rm_do_msg_push_rx st (re\<lparr>re_conn := Some (c\<lparr>sk_in := delta\<rparr>)\<rparr>) m n = Some r \<and>
    push_msg te xp (Some y) z L flags (length x) = Some m \<and> sk_out (tr_ctl t) = rm_serialize_msg_push [] m \<and>
    sk_out (nd_ctl (rr_node r)) = answer \<and> rr_err r = 0 \<and>
    nd_files (rr_node r) =
      (if flags AND RM_BIT_6 = 0 \<and> z \<noteq> None then (nd_files n)(y := None) else nd_files n)
        (resolve (dirname (push_dest y z)) (pe_tmp (re_sys re)) := None, push_dest y z := Some x)"
proof -
  let ?te = "\<lambda>answer. te\<lparr>te_conn := (RM_ERR_OK, ctl\<lparr>sk_in := answer\<rparr>)\<rparr>"
  let ?re = "\<lambda>delta. re\<lparr>re_conn := Some (c\<lparr>sk_in := delta\<rparr>)\<rparr>"
  obtain m where m: "push_msg te xp (Some y) z L flags (length x) = Some m" "push_valid m" "p_L m = of_nat L"
      "p_bytes m = of_nat (length x)" "h_flags (p_hdr m) = flags" "opt_name (p_x_sz m) (p_x m) = Some xp"
      "opt_name (p_y_sz m) (p_y m) = Some y" "opt_name (p_z_sz m) (p_z m) = z"
    using push_msg_ok [OF assms(17-20), of L flags "length x"] by (elim exE conjE) (rule that; assumption)
  note names = push_names [OF m(7,8) assms(21,22)]
  have unats: "unat (p_L m) = L" "unat (p_bytes m) = length x"
    using assms(9,12) unfolding m(3,4) by (simp_all add: unat_of_nat take_bit_nat_eq_self off_max_def)
  let ?answer = "recv_answer re m yb"
  have healthy: "tx_healthy (?te ?answer)" using assms(1) by (simp add: tx_healthy_def)
  have conn: "te_conn (?te ?answer) = (RM_ERR_OK, ctl\<lparr>sk_in := ?answer\<rparr>)" "write_good (ctl\<lparr>sk_in := ?answer\<rparr>)"
      "rx_good (ctl\<lparr>sk_in := ?answer\<rparr>)" "sk_out (ctl\<lparr>sk_in := ?answer\<rparr>) = []"
      "sk_in (ctl\<lparr>sk_in := ?answer\<rparr>) = push_ack_bytes (te_hash32 (?te ?answer)) RM_ERR_OK (snd (re_listen re))
        (of_nat (nblocks L yb)) @ concat (map RM_CH_CH_WIRE (map (block_entry L yb) [0..<nblocks L yb])) @ []"
      "te_delta (?te ?answer) (snd (re_listen re)) = (RM_ERR_OK, d0)" "request_ready (?te ?answer)"
    using assms(3,20,26-29) by (simp_all add: write_good_def rx_good_def recv_answer_def Let_def unats)
  have msg: "push_msg (?te ?answer) xp (Some y) z L flags (length x) = Some m"
    using m(1) by (simp only: push_msg_conn)
  obtain t d ds where t: "rm_tx_remote_push (?te ?answer) tw fq h (Some xp) (Some y) z L all tail send flags (Some rc) fs =
        Some (0, Some t)" "sk_out (tr_ctl t) = rm_serialize_msg_push [] m" "tr_delta t = Some d"
      "sk_out d = concat (map delta_wire ds)" "deltas_upto L yb x (length x) ds"
    using remote_push_run [where fs = fs and xp = xp, OF healthy assms(4-15,17-19) conn(7,1-6) assms(30,31), of flags all tail rc] msg
    by auto
  have req: "push_request m"
    using m(5,6,8) names(1,3,4) assms(11,23) unats(1)
    by (auto simp: push_request_def opt_name_def split: if_splits)
  have ref: "ref_ok (nd_files n) (nd_cwd n) m yb"
    using assms(24) m(5) names(1) assms(21) by (auto simp: ref_ok_def resolve_def absolute_def)
  obtain y' z' where abs: "y = CHR ''/'' # y'" "push_dest y z = CHR ''/'' # z'"
    using assms(21,22) by (cases z) (auto simp: absolute_def push_dest_def)
  have c: "rx_good (c\<lparr>sk_in := sk_out d\<rparr>)" "sk_in (c\<lparr>sk_in := sk_out d\<rparr>) = concat (map delta_wire ds) @ []"
    using assms(34) t(4) by (simp_all add: rx_good_def)
  have fit: "deltas_fit L (length x) 0 ds" using t(5) by (simp add: deltas_upto_def)
  have zero: "\<forall>d\<in>set ds. is_zero_diff d \<longrightarrow> length x = length yb"
    using deltas_fit_zero [OF fit] assms(16) by fastforce
  have tmp: "recv_tmp (?re (sk_out d)) (nd_cwd n) m \<noteq> CHR ''/'' # y'"
    using assms(25) abs(1) names(5) [of re "nd_cwd n"] by simp
  have env: "recv_healthy (?re (sk_out d))" "re_conn (?re (sk_out d)) = Some (c\<lparr>sk_in := sk_out d\<rparr>)"
    using assms(2) by simp_all
  have up: "deltas_upto (unat (p_L m)) yb x (length x) ds" "length x = unat (p_bytes m)" "length x \<le> off_max"
    using t(5) unats assms(9) by simp_all
  have cn: "c_string (p_y m) = CHR ''/'' # y'" "recv_name m = CHR ''/'' # z'" using names(1,2) abs by simp_all
  obtain r where r: "rm_do_msg_push_rx st (?re (sk_out d)) m n = Some r" "rr_err r = 0"
      "nd_files (rr_node r) =
        (if h_flags (p_hdr m) AND RM_BIT_6 = 0 \<and> 0 < p_z_sz m then (nd_files n)(CHR ''/'' # y' := None) else nd_files n)
          (recv_tmp (?re (sk_out d)) (nd_cwd n) m := None, CHR ''/'' # z' := Some x)"
      "sk_out (nd_ctl (rr_node r)) = recv_answer (?re (sk_out d)) m yb"
    using receive_replaces [OF env(1) req ref assms(10,32,33) env(2) c up zero cn tmp, of st]
    by (elim exE conjE) (rule that; assumption)
  have "rm_deserialize_msg_hdr (rm_serialize_msg_push [] m) = Some (p_hdr m, rm_serialize_msg_push_body [] m)"
    by (simp add: rm_serialize_msg_push_def rm_serialize_msg_push_body_append [OF m(2)] hdr.deser_ser)
  moreover have "rm_deserialize_msg_push_body (p_hdr m) (rm_serialize_msg_push_body [] m) = Some (m, [])"
    using rm_deserialize_msg_push_body_ser [OF m(2), of "[]"] by simp
  ultimately show ?thesis
    using t r m(1,5) names(4,5) abs
    by - (rule exI [of _ ?answer], rule exI [of _ "sk_out d"], rule exI [of _ m],
        rule exI [of _ "rm_serialize_msg_push_body [] m"], rule exI [of _ t], rule exI [of _ d], rule exI [of _ r], auto)
qed

text \<open>
  C2. The protocol of a remote push. The sender and the daemon, connected with each other, have a run
  in which both succeed: the request the sender writes is deserialized by the daemon to the message
  the handler works on, the handler's answer is what the sender reads, and the sender's delta elements
  are what the handler reads. The sender returns 0 and the handler OK, and the file of the request has become
  exactly the sender's file, for every division of the streams into pieces, every schedule of the
  sender's threads and every progress of the checksums while the sender is already rolling. The old
  file is gone if the result has another name, unless it was to stay. The conditions: the calls of the
  operating systems succeed; the sender's heap is below 4 gigabytes, or at least the byte 4 of the address of the request's
  header, which the sender takes for its type when it computes the length, is that of a push (\<open>request_ready\<close>);
  the names of the request are absolute; the checksums tell the blocks of the two files apart. A source of at most a block must
  be as long as the old file, because a zero difference makes the receiver copy all of it, and the old file must
  begin with it if one of its blocks is the source (\<open>zero_diff_safe\<close>).
\<close>

theorem remote_push_protocol:
  fixes n :: "'h node"
  assumes "tx_healthy te" and "recv_healthy re" and "te_hash32 te = re_hash32 re"
    and "fifo_ok fq" and "twhash_ok tw" and "\<forall>b. tw_bucket tw h b = []"
    and "fs xp = Some x" and "x \<noteq> []" and "length x < off_max" and "length yb < off_max"
    and "0 < L" and "L < off_max" and "0 < send" and "no_collision L x yb" and "zero_diff_safe L x yb"
    and "length x = length yb \<or> L < length x"
    and "c_name (Some xp)" and "c_name (Some y)" and "c_name z" and "request_ready te"
    and "absolute y" and "\<forall>zn. z = Some zn \<longrightarrow> absolute zn"
    and "flags AND RM_BIT_6 \<noteq> 0 \<longrightarrow> z \<noteq> None \<and> z \<noteq> Some y"
    and "case nd_files n y of Some b \<Rightarrow> yb = b | None \<Rightarrow> yb = [] \<and> flags AND RM_BIT_4 \<noteq> 0"
    and "resolve (dirname (push_dest y z)) (pe_tmp (re_sys re)) \<noteq> y"
    and "write_good ctl" and "rx_good ctl" and "sk_out ctl = []"
    and "te_delta te (snd (re_listen re)) = (RM_ERR_OK, d0)" and "tx_good d0" and "sk_out d0 = []"
    and "tx_good (nd_ctl n)" and "sk_out (nd_ctl n) = []" and "rx_good c"
  shows "\<exists>answer delta m body t d r.
    rm_tx_remote_push (te\<lparr>te_conn := (RM_ERR_OK, ctl\<lparr>sk_in := answer\<rparr>)\<rparr>) tw fq h (Some xp) (Some y) z
      L all tail send flags (Some rc) fs = Some (0, Some t) \<and>
    rm_deserialize_msg_hdr (sk_out (tr_ctl t)) = Some (p_hdr m, body) \<and>
    rm_deserialize_msg_push_body (p_hdr m) body = Some (m, []) \<and> tr_delta t = Some d \<and> sk_out d = delta \<and>
    rm_do_msg_push_rx st (re\<lparr>re_conn := Some (c\<lparr>sk_in := delta\<rparr>)\<rparr>) m n = Some r \<and>
    sk_out (nd_ctl (rr_node r)) = answer \<and> rr_err r = 0 \<and>
    nd_files (rr_node r) =
      (if flags AND RM_BIT_6 = 0 \<and> z \<noteq> None then (nd_files n)(y := None) else nd_files n)
        (resolve (dirname (push_dest y z)) (pe_tmp (re_sys re)) := None, push_dest y z := Some x)"
  using remote_push_both [where fs = fs and xp = xp, OF assms, of all tail rc st] by (elim exE conjE) (intro exI conjI; assumption)

definition sample_sock :: "io_event list \<Rightarrow> io_event list \<Rightarrow> sock" where
  "sample_sock r w = \<lparr>sk_in = [], sk_closed = False, sk_rev = r, sk_out = [], sk_wev = w\<rparr>"

text \<open>A sender whose first lookup finds one of the two checksums, and whose delta threads take turns.\<close>

definition sample_te :: tx_env where
  "sample_te = \<lparr>te_sys = sample_env [Producer_Turn, Consumer_Turn, Spurious_Turn], te_uuid = replicate 16 1,
     te_conn = (RM_ERR_OK, sample_sock [] []), te_hdr_ptr = 0x602010, te_msg_mem = True, te_raw_mem = True, te_ack_mem = True,
     te_buf_mem = True, te_ch_launch = True, te_ch_mem = mem_ok, te_peer_ok = True,
     te_delta = \<lambda>_. (RM_ERR_OK, sample_sock [] [IO_Chunk 3]), te_arrive = \<lambda>i. Suc i, te_hash32 = \<lambda>_ _. 0\<rparr>"

lemma sample_te_healthy: "tx_healthy sample_te" "te_hash32 sample_te = re_hash32 sample_recv"
  by (simp_all add: tx_healthy_def sample_te_def sample_env_healthy sample_recv_def)

lemma sample_te_ready: "request_ready sample_te" "request_ready (sample_te\<lparr>te_msg_mem := b\<rparr>)"
  by (simp_all add: request_ready_def ptr_byte_def sample_te_def RM_UUID_LEN_def)

lemma sample_no_collision: "no_collision 1 [2, 1] [1, 1]" "zero_diff_safe 1 [2, 1] [1, 1]"
  using roll_call_ok_sample [OF sink_log, of "[]"] by (simp_all add: roll_call_ok_def Let_def)

lemma c_name_small: "length s < 1000 \<Longrightarrow> CHR 0x00 \<notin> set s \<Longrightarrow> c_name (Some s)" "c_name None"
  by (simp_all add: c_name_def RM_FILE_LEN_MAX_def)

theorem remote_push_protocol_witness:
  "\<exists>answer delta m t d r.
    rm_tx_remote_push (sample_te\<lparr>te_conn := (RM_ERR_OK, (sample_sock [IO_Chunk 5] [])\<lparr>sk_in := answer\<rparr>)\<rparr>)
      tw_lists fifo_lists (\<lambda>_. []) (Some ''x'') (Some ''/y'') None 1 0 0 1 0 (Some ctx_zero) [''x'' \<mapsto> [2, 1]] =
      Some (0, Some t) \<and> tr_delta t = Some d \<and> sk_out d = delta \<and>
    rm_do_msg_push_rx sh_lists (sample_recv\<lparr>re_conn := Some ((sample_sock [IO_Intr] [])\<lparr>sk_in := delta\<rparr>)\<rparr>) m
      (sample_node [''/y'' \<mapsto> [1, 1]]) = Some r \<and>
    sk_out (nd_ctl (rr_node r)) = answer \<and> nd_files (rr_node r) ''/y'' = Some [2, 1]"
proof -
  have dest: "push_dest ''/y'' None = ''/y''" "resolve (dirname ''/y'') ''tmp'' = ''//tmp''"
    by (simp_all add: push_dest_def dirname_def strip_slashes_def resolve_def)
  have socks: "write_good (sample_sock [IO_Chunk 5] [])" "rx_good (sample_sock [IO_Chunk 5] [])"
      "sk_out (sample_sock a b) = []" "tx_good (sample_sock [] [IO_Chunk 3])" "rx_good (sample_sock [IO_Intr] [])" for a b
    by (simp_all add: sample_sock_def write_good_def rx_good_def tx_good_def)
  have delta: "te_delta sample_te p = (RM_ERR_OK, sample_sock [] [IO_Chunk 3])" for p by (simp add: sample_te_def)
  note uuid = sample_te_ready(1)
  have "\<exists>answer delta m body t d r.
    rm_tx_remote_push (sample_te\<lparr>te_conn := (RM_ERR_OK, (sample_sock [IO_Chunk 5] [])\<lparr>sk_in := answer\<rparr>)\<rparr>)
      tw_lists fifo_lists (\<lambda>_. []) (Some ''x'') (Some ''/y'') None 1 0 0 1 0 (Some ctx_zero) [''x'' \<mapsto> [2, 1]] =
      Some (0, Some t) \<and>
    rm_deserialize_msg_hdr (sk_out (tr_ctl t)) = Some (p_hdr m, body) \<and>
    rm_deserialize_msg_push_body (p_hdr m) body = Some (m, []) \<and> tr_delta t = Some d \<and> sk_out d = delta \<and>
    rm_do_msg_push_rx sh_lists (sample_recv\<lparr>re_conn := Some ((sample_sock [IO_Intr] [])\<lparr>sk_in := delta\<rparr>)\<rparr>) m
      (sample_node [''/y'' \<mapsto> [1, 1]]) = Some r \<and>
    sk_out (nd_ctl (rr_node r)) = answer \<and> rr_err r = 0 \<and>
    nd_files (rr_node r) = (if (0 :: u8) AND RM_BIT_6 = 0 \<and> None \<noteq> (None :: string option)
        then (nd_files (sample_node [''/y'' \<mapsto> [1, 1]]))(''/y'' := None) else nd_files (sample_node [''/y'' \<mapsto> [1, 1]]))
      (resolve (dirname (push_dest ''/y'' None)) (pe_tmp (re_sys sample_recv)) := None,
       push_dest ''/y'' None := Some [2, 1])"
    by (rule remote_push_protocol [where fs = "[''x'' \<mapsto> [2, 1]]" and xp = "''x''",
          OF sample_te_healthy(1) sample_recv_simps(1) sample_te_healthy(2) fifo_lists_ok
          tw_lists_ok _ _ _ _ _ _ _ _ sample_no_collision _ c_name_small(1) c_name_small(1) c_name_small(2) uuid _ _ _ _ _
          socks(1,2,3) delta socks(4,3) sample_recv_simps(5,6) socks(5)])
      (simp_all add: dest off_max_def absolute_def tw_lists_def)
  then obtain answer delta m body t d r where run:
    "rm_tx_remote_push (sample_te\<lparr>te_conn := (RM_ERR_OK, (sample_sock [IO_Chunk 5] [])\<lparr>sk_in := answer\<rparr>)\<rparr>)
      tw_lists fifo_lists (\<lambda>_. []) (Some ''x'') (Some ''/y'') None 1 0 0 1 0 (Some ctx_zero) [''x'' \<mapsto> [2, 1]] =
      Some (0, Some t)" "tr_delta t = Some d" "sk_out d = delta"
    "rm_do_msg_push_rx sh_lists (sample_recv\<lparr>re_conn := Some ((sample_sock [IO_Intr] [])\<lparr>sk_in := delta\<rparr>)\<rparr>) m
      (sample_node [''/y'' \<mapsto> [1, 1]]) = Some r"
    "sk_out (nd_ctl (rr_node r)) = answer"
    "nd_files (rr_node r) = (if (0 :: u8) AND RM_BIT_6 = 0 \<and> None \<noteq> (None :: string option)
        then (nd_files (sample_node [''/y'' \<mapsto> [1, 1]]))(''/y'' := None) else nd_files (sample_node [''/y'' \<mapsto> [1, 1]]))
      (resolve (dirname (push_dest ''/y'' None)) (pe_tmp (re_sys sample_recv)) := None,
       push_dest ''/y'' None := Some [2, 1])"
    by (elim exE conjE) (rule that; assumption)
  have "nd_files (rr_node r) ''/y'' = Some [2, 1]" using run(6) by (simp add: dest)
  with run(1-5) show ?thesis by blast
qed

text \<open>The sender up to the acknowledgement.\<close>

lemma remote_push_to_ack:
  assumes "tx_healthy env" and "fs xp = Some x" and "x \<noteq> []" and "0 < L" and "0 < send"
    and "push_msg env xp y z L flags (length x) = Some m" and "push_valid m"
    and "unat (h_len (p_hdr m)) = length (rm_serialize_msg_push [] m)"
    and "te_conn env = (RM_ERR_OK, ctl)" and "write_good ctl" and "rx_good ctl" and "sk_out ctl = []"
    and "sk_in ctl = push_ack_bytes (te_hash32 env) status port k @ rest" and "status \<noteq> RM_ERR_OK"
  shows "\<exists>r. rm_tx_remote_push env tw fq h (Some xp) y z L all tail send flags (Some rc) fs =
      Some (err_code status, Some r) \<and> tr_err r = err_code status \<and> tr_delta r = None \<and>
      sk_out (tr_ctl r) = rm_serialize_msg_push [] m"
proof -
  note env = assms(1) [unfolded tx_healthy_def env_healthy_def]
  let ?f = "pe_stream (te_sys env) xp x"
  have f: "fopen_rb (te_sys env) fs xp = Some ?f" "fstat_size ?f = Some (length x)"
    using env assms(2) by (auto simp: fopen_rb_def fstat_size_def healthy_def)
  obtain c1 where c1: "rm_tcp_write ctl (rm_serialize_msg_push [] m) = (RM_ERR_OK, c1)"
      "sk_out c1 = rm_serialize_msg_push [] m" "sk_in c1 = sk_in ctl" "rx_good c1"
    using rm_tcp_write_ok [OF assms(10), of "rm_serialize_msg_push [] m"] assms(11,12) by (auto simp: rx_good_def)
  have in1: "sk_in c1 = push_ack_bytes (te_hash32 env) status port k @ rest" using c1(3) assms(13) by simp
  obtain c2 where "tx_wait_ack (te_hash32 env) c1 = Some (Inl (err_code status), c2)" "sk_out c2 = sk_out c1"
    using tx_wait_ack_ok [OF c1(4) in1] assms(14) by auto
  with env assms(3-6,8,9) f c1(1,2) show ?thesis
    by (simp add: rm_tx_remote_push_def Let_def)
qed


text \<open>
  The address of the header decides. \<open>rm_tx_remote_push\<close> asks \<open>rm_calc_msg_len\<close> for the length of the
  message with a pointer to the message, whose first member is a pointer, where a pointer to a header is expected. When the byte 4
  of the address that \<open>malloc\<close> gave for the header is not 0, as it mostly is for a heap above 4 gigabytes, the
  length is that of another type, the buffer is allocated with it, and the serialization writes past its end.
\<close>

theorem remote_push_header_address:
  assumes "fs xp = Some x" and "x \<noteq> []" and "0 < L" and "0 < send" and "pe_read_ok (te_sys env) xp"
    and "fstat_size (pe_stream (te_sys env) xp x) = Some (length x)" and "pe_session_ok (te_sys env)"
    and "te_conn env = (RM_ERR_OK, ctl)" and "te_msg_mem env" and "te_raw_mem env"
    and "c_name (Some xp)" and "c_name y" and "c_name z" and "RM_UUID_LEN \<le> length (te_uuid env)"
    and "ptr_byte (te_hdr_ptr env) 4 \<noteq> rm_pt_code RM_PT_MSG_PUSH"
  shows "rm_tx_remote_push env tw fq h (Some xp) y z L all tail send flags (Some rc) fs = None"
proof -
  have f: "fopen_rb (te_sys env) fs xp = Some (pe_stream (te_sys env) xp x)"
    using assms(1,5) by (simp add: fopen_rb_def)
  obtain m where m: "push_msg env xp y z L flags (length x) = Some m" "push_valid m"
      "if ptr_byte (te_hdr_ptr env) 4 = rm_pt_code RM_PT_MSG_PUSH
       then unat (h_len (p_hdr m)) = length (rm_serialize_msg_push [] m) else unat (h_len (p_hdr m)) \<le> 18"
    using push_msg_made [OF assms(11-14), of L flags "length x"] by (elim exE conjE) (rule that; assumption)
  have "unat (h_len (p_hdr m)) < length (rm_serialize_msg_push [] m)"
    using m(3) assms(15) length_msg_push [OF m(2)] by simp
  with f m(1) assms(2-4,6-10) show ?thesis by (simp add: rm_tx_remote_push_def Let_def)
qed

theorem remote_push_header_address_witness:
  "rm_tx_remote_push (sample_te\<lparr>te_hdr_ptr := 0x5581deadbe10\<rparr>) tw_lists fifo_lists (\<lambda>_. []) (Some ''x'') (Some ''y'') None
     1 0 0 1 0 (Some ctx_zero) [''x'' \<mapsto> [2, 1]] = None"
proof -
  have uuid: "RM_UUID_LEN \<le> length (te_uuid (sample_te\<lparr>te_hdr_ptr := 0x5581deadbe10\<rparr>))"
    by (simp add: sample_te_def RM_UUID_LEN_def)
  show ?thesis
    by (rule remote_push_header_address [where fs = "[''x'' \<mapsto> [2, 1]]" and xp = "''x''" and x = "[2, 1]",
          OF _ _ _ _ _ _ _ _ _ _ c_name_small(1) c_name_small(1) c_name_small(2) uuid])
      (simp_all add: sample_te_def sample_env_def sample_sock_def fstat_size_def open_stream_def ptr_byte_def)
qed

text \<open>
  Running out of memory is reported as success. When the header of the request, the header of the
  acknowledgement or the buffer for it cannot be allocated, nothing sets the error, and the push
  returns 0: in the first case nothing has been sent at all, in the others the request has been sent and the answer is
  never read. In each case there is no delta connection and nothing has been synchronized.
\<close>

theorem remote_push_out_of_memory:
  assumes "fs xp = Some x" and "x \<noteq> []" and "0 < L" and "0 < send" and "pe_read_ok (te_sys env) xp"
    and "fstat_size (pe_stream (te_sys env) xp x) = Some (length x)" and "pe_session_ok (te_sys env)"
    and "te_conn env = (RM_ERR_OK, ctl)" and "write_good ctl" and "te_raw_mem env"
    and "c_name (Some xp)" and "c_name y" and "c_name z" and "request_ready env"
    and "\<not> te_msg_mem env \<or> \<not> te_ack_mem env \<or> \<not> te_buf_mem env"
  shows "\<exists>r m. push_msg env xp y z L flags (length x) = Some m \<and>
    rm_tx_remote_push env tw fq h (Some xp) y z L all tail send flags (Some rc) fs = Some (0, Some r) \<and>
    tr_delta r = None \<and>
    sk_out (tr_ctl r) = (if te_msg_mem env then sk_out ctl @ rm_serialize_msg_push [] m else sk_out ctl)"
proof -
  have f: "fopen_rb (te_sys env) fs xp = Some (pe_stream (te_sys env) xp x)"
    using assms(1,5) by (simp add: fopen_rb_def)
  obtain m where m: "push_msg env xp y z L flags (length x) = Some m"
      "unat (h_len (p_hdr m)) = length (rm_serialize_msg_push [] m)"
    using push_msg_ok [OF assms(11-14), of L flags "length x"] by (elim exE conjE) (rule that; assumption)
  obtain c1 where "rm_tcp_write ctl (rm_serialize_msg_push [] m) = (RM_ERR_OK, c1)"
      "sk_out c1 = sk_out ctl @ rm_serialize_msg_push [] m"
    using rm_tcp_write_ok [OF assms(9), of "rm_serialize_msg_push [] m"] by auto
  with f m assms(2-4,6-8,10,15) show ?thesis
    by (auto simp: rm_tx_remote_push_def Let_def tx_fail_def err_code_def)
qed

theorem remote_push_out_of_memory_witness:
  "\<exists>r. rm_tx_remote_push (sample_te\<lparr>te_msg_mem := False\<rparr>) tw_lists fifo_lists (\<lambda>_. []) (Some ''x'') (Some ''y'') None
      1 0 0 1 0 (Some ctx_zero) [''x'' \<mapsto> [2, 1]] = Some (0, Some r) \<and> sk_out (tr_ctl r) = []"
proof -
  note uuid = sample_te_ready(2) [of False]
  have "\<exists>r m. push_msg (sample_te\<lparr>te_msg_mem := False\<rparr>) ''x'' (Some ''y'') None 1 0 (length [2, 1 :: u8]) = Some m \<and>
    rm_tx_remote_push (sample_te\<lparr>te_msg_mem := False\<rparr>) tw_lists fifo_lists (\<lambda>_. []) (Some ''x'') (Some ''y'') None
      1 0 0 1 0 (Some ctx_zero) [''x'' \<mapsto> [2, 1]] = Some (0, Some r) \<and> tr_delta r = None \<and>
    sk_out (tr_ctl r) = (if te_msg_mem (sample_te\<lparr>te_msg_mem := False\<rparr>)
      then sk_out (sample_sock [] []) @ rm_serialize_msg_push [] m else sk_out (sample_sock [] []))"
    by (rule remote_push_out_of_memory [where fs = "[''x'' \<mapsto> [2, 1]]" and xp = "''x''",
          OF _ _ _ _ _ _ _ _ _ _ c_name_small(1) c_name_small(1) c_name_small(2) uuid])
      (simp_all add: sample_te_def sample_env_def sample_sock_def write_good_def fstat_size_def open_stream_def)
  then show ?thesis by (auto simp: sample_sock_def)
qed


end
