(* ===== verification/RM_Daemon.thy ===== *)
theory RM_Daemon
  imports RM_TxRemote RM_WQ
begin

text \<open>
  The daemon, \<^verbatim>\<open>src/rm_daemon.c\<close>: what it does with a connection (\<open>do_it_all\<close>), its signal handlers and its
  main loop, with \<open>rm_core_init\<close>, \<open>rm_core_deinit\<close> and \<open>rm_core_authenticate\<close> of \<^verbatim>\<open>src/rm_core.c\<close>.
\<close>

section \<open>A connection\<close>

text \<open>
  The environment of one connection: whether requests are authenticated, the address of the peer if
  it is an IPv4 address, and the allocations of the header, the buffer for it, the body, the message
  and the work item.
\<close>

record daemon_env =
  de_auth :: bool
  de_peer :: "string option"
  de_hdr_mem :: bool
  de_buf_mem :: bool
  de_body_mem :: bool
  de_msg_mem :: bool
  de_work_mem :: bool
  de_hash32 :: twhash_32

definition RM_IP_AUTH :: string where "RM_IP_AUTH = ''127.0.0.1''"

definition rm_core_authenticate :: "string \<Rightarrow> rm_error" where
  "rm_core_authenticate a = (if a \<noteq> RM_IP_AUTH then RM_ERR_FAIL else RM_ERR_OK)"

text \<open>
  What becomes of the connection: its socket, whether it has been closed, the message handed to the
  work queue, and the queue.
\<close>

record 'f served =
  sv_sock :: sock
  sv_closed :: bool
  sv_msg :: "rm_msg_push option"
  sv_wq :: "'f rm_workqueue"

text \<open>The failure exit: a general acknowledgement with the error, and the connection is closed.\<close>

definition daemon_refuse :: "daemon_env \<Rightarrow> rm_error \<Rightarrow> sock \<Rightarrow> 'f rm_workqueue \<Rightarrow> 'f served" where
  "daemon_refuse env e s wq = \<lparr>sv_sock = snd (rm_tcp_tx_msg_ack (de_hash32 env) s RM_PT_MSG_ACK (err_code e) None),
     sv_closed = True, sv_msg = None, sv_wq = wq\<rparr>"

text \<open>The header has arrived and is valid; the length of the body is the difference of two lengths as an \<open>int\<close>.\<close>

definition daemon_body ::
    "daemon_env \<Rightarrow> (rm_work, 'f) twfifo \<Rightarrow> 'f rm_workqueue \<Rightarrow> int \<Rightarrow> rm_msg_hdr \<Rightarrow> sock \<Rightarrow> 'f served option" where
  "daemon_body env fq wq fd hdr s =
     (case rm_pt_of_code (h_pt hdr) of
        None \<Rightarrow> None
      | Some pt \<Rightarrow>
          let to_read = uint (h_len hdr) - int RM_MSG_HDR_LEN in
          (case rm_core_tcp_msg_assemble (de_body_mem env \<and> 0 \<le> to_read) s pt (nat (to_read mod 2 ^ 64)) of
             None \<Rightarrow> None
           | Some (err, body, s1) \<Rightarrow>
               if err \<noteq> RM_ERR_OK then Some (daemon_refuse env err s1 wq)
               else
                 (case rm_deserialize_msg (de_msg_mem env) pt hdr (case body of None \<Rightarrow> [] | Some b \<Rightarrow> b) of
                    None \<Rightarrow> None
                  | Some None \<Rightarrow> Some (daemon_refuse env RM_ERR_OK s1 wq)
                  | Some (Some m) \<Rightarrow>
                      (case pt of
                         RM_PT_MSG_PUSH \<Rightarrow>
                           (case rm_work_create (de_work_mem env) RM_WORK_PROCESS_MSG_PUSH fd of
                              None \<Rightarrow> Some (daemon_refuse env RM_ERR_OK s1 wq)
                            | Some work \<Rightarrow>
                                map_option (\<lambda>wq'. \<lparr>sv_sock = s1, sv_closed = False, sv_msg = Some m, sv_wq = wq'\<rparr>)
                                  (rm_wq_queue_work fq wq work))
                       | RM_PT_MSG_PULL \<Rightarrow> Some \<lparr>sv_sock = s1, sv_closed = False, sv_msg = None, sv_wq = wq\<rparr>
                       | RM_PT_MSG_BYE \<Rightarrow> Some \<lparr>sv_sock = s1, sv_closed = False, sv_msg = None, sv_wq = wq\<rparr>
                       | _ \<Rightarrow> Some (daemon_refuse env RM_ERR_OK s1 wq)))))"

text \<open>
  \<open>None\<close>: waiting forever, or undefined behaviour: authenticating a peer that has no IPv4 address, sending
  the error when it has not been set because the first allocations failed, reading past the body.
\<close>

definition do_it_all ::
    "daemon_env \<Rightarrow> (rm_work, 'f) twfifo \<Rightarrow> 'f rm_workqueue \<Rightarrow> int \<Rightarrow> sock \<Rightarrow> 'f served option" where
  "do_it_all env fq wq fd s =
     (if de_auth env \<and> de_peer env = None then None
      else if de_auth env \<and> rm_core_authenticate (the (de_peer env)) \<noteq> RM_ERR_OK
      then Some (daemon_refuse env RM_ERR_AUTH s wq)
      else if \<not> de_hdr_mem env \<or> \<not> de_buf_mem env then None
      else case rm_tcp_read s [] RM_MSG_HDR_LEN of
        None \<Rightarrow> None
      | Some (err, buf, s1) \<Rightarrow>
          if err = RM_ERR_EOF \<or> err = RM_ERR_READ then Some (daemon_refuse env err s1 wq)
          else
            let err = rm_core_tcp_msg_hdr_validate (de_hash32 env) buf (int RM_MSG_HDR_LEN) in
            if err \<noteq> RM_ERR_OK then Some (daemon_refuse env err s1 wq)
            else
              (case rm_deserialize_msg_hdr buf of
                 None \<Rightarrow> None
               | Some (hdr, _) \<Rightarrow> daemon_body env fq wq fd hdr s1))"

section \<open>Signals and the main loop\<close>

datatype rm_signal = SIGINT | SIGTSTP | SIGHUP

datatype core_state = RM_CORE_ST_INITIALIZED | RM_CORE_ST_SHUT_DOWN

record daemon_state =
  ds_state :: core_state
  ds_pending :: bool
  ds_signo :: "rm_signal option"

text \<open>The installed handlers only note the signal; the last one wins.\<close>

definition rm_daemon_sig_handler :: "rm_signal \<Rightarrow> daemon_state \<Rightarrow> daemon_state" where
  "rm_daemon_sig_handler signo d = d\<lparr>ds_signo := Some signo, ds_pending := True\<rparr>"

definition rm_daemon_signal_handler :: "daemon_state \<Rightarrow> daemon_state" where
  "rm_daemon_signal_handler d =
     (let d1 = (case ds_signo d of Some SIGTSTP \<Rightarrow> d\<lparr>ds_state := RM_CORE_ST_SHUT_DOWN\<rparr> | _ \<Rightarrow> d)
      in d1\<lparr>ds_signo := None, ds_pending := False\<rparr>)"

text \<open>
  A round of the loop: the signals that arrived since \<open>accept\<close> returned the last time, and how it returns now.
  It is interrupted only by a signal that arrives while it waits.
\<close>

datatype accept_result = Accepted | Interrupted | Failed

definition daemon_round :: "rm_signal list \<times> accept_result \<Rightarrow> daemon_state \<Rightarrow> daemon_state" where
  "daemon_round r d =
     (let d1 = fold rm_daemon_sig_handler (fst r) d in
      if snd r = Interrupted \<and> ds_pending d1 then rm_daemon_signal_handler d1 else d1)"

text \<open>The loop over the rounds to come: the final state and the number of connections served.\<close>

fun daemon_loop :: "(rm_signal list \<times> accept_result) list \<Rightarrow> daemon_state \<Rightarrow> daemon_state \<times> nat" where
  "daemon_loop [] d = (d, 0)"
| "daemon_loop (r # rs) d =
     (if ds_state d = RM_CORE_ST_SHUT_DOWN then (d, 0)
      else case daemon_loop rs (daemon_round r d) of
        (d', n) \<Rightarrow> (d', n + (if snd r = Accepted then 1 else 0)))"

section \<open>Starting and stopping the core\<close>

definition RM_WORKERS_N :: nat where "RM_WORKERS_N = 8"

text \<open>The core with its table, list and work queue.\<close>

definition rm_core_init ::
    "(rm_work, 'f) twfifo \<Rightarrow> 'h \<Rightarrow> bool \<Rightarrow> (nat \<Rightarrow> bool) \<Rightarrow> rm_error \<times> 'h rsyncme \<times> 'f rm_workqueue" where
  "rm_core_init fq h0 malloc_ok launch =
     (let rm = \<lparr>rm_mutex = Mutex_Free, rm_sessions = h0, rm_sessions_list = [], rm_sessions_n = 0,
            rm_smutex = (\<lambda>_. Mutex_Free)\<rparr>
      in case rm_wq_workqueue_init fq malloc_ok launch RM_WORKERS_N of
           (err, wq) \<Rightarrow> (if err \<noteq> RM_ERR_OK then RM_ERR_WORKQUEUE_CREATE else RM_ERR_OK, rm, wq))"

text \<open>
  \<open>twhash_empty\<close> belongs to the external table; its result is a number. \<open>wakes\<close> counts the spurious wake-ups of the
  workers while they are joined. \<open>None\<close>: a join that never returns.
\<close>

definition rm_core_deinit ::
    "(rm_work, 'f) twfifo \<Rightarrow> (nat \<Rightarrow> nat) \<Rightarrow> ('h \<Rightarrow> int) \<Rightarrow> 'h rsyncme \<Rightarrow> 'f rm_workqueue \<Rightarrow> (rm_error \<times> 'f rm_workqueue) option" where
  "rm_core_deinit fq wakes twhash_empty rm wq =
     (if twhash_empty (rm_sessions rm) \<noteq> 0 then Some (RM_ERR_BUSY, wq)
      else if rm_sessions_list rm \<noteq> [] then Some (RM_ERR_FAIL, wq)
      else case rm_wq_workqueue_stop fq wakes wq of
        None \<Rightarrow> None
      | Some wq1 \<Rightarrow> Some (if rm_wq_workqueue_deinit fq wq1 \<noteq> RM_ERR_OK then RM_ERR_MEM else RM_ERR_OK, wq1))"

section \<open>Lemmas\<close>

text \<open>Receiving neither writes nor changes how writing goes.\<close>

definition same_tx :: "sock \<Rightarrow> sock \<Rightarrow> bool" where
  "same_tx s s' \<longleftrightarrow> sk_out s' = sk_out s \<and> sk_wev s' = sk_wev s"

lemma same_tx_refl [simp]: "same_tx s s"
  by (simp add: same_tx_def)

lemma sock_read_same_tx: "sock_read n s = (r, s') \<Longrightarrow> same_tx s s'"
  by (auto simp: same_tx_def sock_read_def sock_take_def Let_def split: list.splits io_event.splits if_splits)

lemma same_tx_trans: "same_tx a b \<Longrightarrow> same_tx b c \<Longrightarrow> same_tx a c"
  by (simp add: same_tx_def)

lemma tcp_rx_loop_same_tx: "tcp_rx_loop n dst s = Some (e, d, s') \<Longrightarrow> same_tx s s'"
proof (induction n dst s rule: tcp_rx_loop.induct)
  case (1 n dst s)
  obtain r s1 where r: "sock_read n s = (r, s1)" by (metis surj_pair)
  note here = sock_read_same_tx [OF r]
  show ?case
  proof (cases "n = 0")
    case False
    with 1 r here show ?thesis
      by (cases r) (auto simp: tcp_rx_loop.simps [of n dst s] intro: same_tx_trans)
  qed (use 1(3) in \<open>simp add: tcp_rx_loop.simps same_tx_def\<close>)
qed

lemma rm_tcp_rx_same_tx: "rm_tcp_rx s n = Some (e, d, s') \<Longrightarrow> same_tx s s'"
  by (auto simp: rm_tcp_rx_def dest: tcp_rx_loop_same_tx split: if_splits)

lemma rm_tcp_read_same_tx: "rm_tcp_read s dst n = Some (e, d, s') \<Longrightarrow> same_tx s s'"
proof (induction s dst n rule: rm_tcp_read.induct)
  case (1 s dst n)
  obtain r s1 where r: "sock_read n s = (r, s1)" by (metis surj_pair)
  note here = sock_read_same_tx [OF r]
  show ?case
  proof (cases "n = 0")
    case False
    with 1 r here show ?thesis
      by (cases r) (auto simp: rm_tcp_read.simps [of s dst n] intro: same_tx_trans)
  qed (use 1(2) in \<open>simp add: rm_tcp_read.simps same_tx_def\<close>)
qed

text \<open>A refusal ends with a general acknowledgement, and nothing else has been sent.\<close>

definition plain_ack_hdr :: "twhash_32 \<Rightarrow> rm_error \<Rightarrow> rm_msg_hdr" where
  "plain_ack_hdr th e =
     (let h = \<lparr>h_hash = 0, h_pt = rm_pt_code RM_PT_MSG_ACK, h_flags = of_nat (rm_error_code e), h_len = 8\<rparr>
      in h\<lparr>h_hash := rm_core_hdr_hash th h\<rparr>)"

lemma refuse_sends:
  assumes "tx_good s"
  shows "sk_out (sv_sock (daemon_refuse env e s wq)) = sk_out s @ rm_serialize_msg_hdr [] (plain_ack_hdr (de_hash32 env) e)"
proof -
  from rm_tcp_tx_ok [of s "rm_serialize_msg_hdr [] (plain_ack_hdr (de_hash32 env) e)"] assms
  show ?thesis
    by (auto simp: daemon_refuse_def rm_tcp_tx_msg_ack_def Let_def plain_ack_hdr_def rm_serialize_msg_ack_def
        RM_MSG_HDR_LEN_def tx_good_def)
qed

text \<open>What a sender makes of it.\<close>

lemma tx_wait_plain_ack:
  assumes "rx_good c" and "sk_in c = rm_serialize_msg_hdr [] (plain_ack_hdr th0 e)" and "sk_closed c"
  shows "\<exists>c'. tx_wait_ack th c = Some (Inl (err_code (if e = RM_ERR_OK then RM_ERR_TCP_DISCONNECT else e)), c')"
proof -
  let ?h = "plain_ack_hdr th0 e"
  have "sk_in c = rm_serialize_msg_hdr [] ?h @ []" using assms(2) by simp
  from tcp_rx.rx_frame [OF assms(1) this, of 8] obtain s1 where
    s1: "rm_tcp_rx c 8 = Some (RM_ERR_OK, rm_serialize_msg_hdr [] ?h, s1)" "sk_in s1 = []" "rx_good s1" "sk_closed s1"
    using assms(3) by (auto simp: RM_MSG_HDR_LEN_def)
  obtain s2 where s2: "rm_tcp_rx s1 10 = Some (RM_ERR_EOF, [], s2)"
    using tcp_rx.rx_short [OF s1(3), of 10] s1(2,4) by auto
  have hdr: "rm_deserialize_msg_ack (rm_serialize_msg_hdr [] ?h) = Some (?h, [])"
    using hdr.deser_ser [of ?h "[]"] by (simp add: rm_deserialize_msg_ack_def)
  have fl: "unat (h_flags ?h) = rm_error_code e" "h_pt ?h \<noteq> rm_pt_code RM_PT_MSG_PUSH_ACK"
    using rm_error_code_bound [of e]
    by (simp_all add: plain_ack_hdr_def Let_def unat_of_nat take_bit_nat_eq_self)
  have zero: "h_flags ?h = 0 \<longleftrightarrow> e = RM_ERR_OK"
    using fl(1) by (metis rm_error_code.simps(1) rm_error_of_code unat_eq_zero option.inject)
  have "uint (h_flags ?h) = err_code e" unfolding err_code_def fl(1) [symmetric] by simp
  with s1(1) s2 hdr fl(2) zero show ?thesis by (simp add: tx_wait_ack_def tcp_rx_error_def)
qed

text \<open>The header of a request.\<close>

definition daemon_ready :: "daemon_env \<Rightarrow> bool" where
  "daemon_ready env \<longleftrightarrow> (de_auth env \<longrightarrow> de_peer env = Some RM_IP_AUTH) \<and> de_hdr_mem env \<and> de_buf_mem env"

definition valid_hdr :: "twhash_32 \<Rightarrow> rm_msg_hdr \<Rightarrow> bool" where
  "valid_hdr th hdr \<longleftrightarrow> h_hash hdr = rm_core_hdr_hash th hdr \<and> h_pt hdr \<in> {0, 1, 2, 3, 5}"

lemma daemon_header:
  assumes "daemon_ready env" and "read_good s" and "sk_in s = rm_serialize_msg_hdr [] hdr @ r"
  shows "\<exists>s1. do_it_all env fq wq fd s =
      (if h_hash hdr \<noteq> rm_core_hdr_hash (de_hash32 env) hdr then Some (daemon_refuse env RM_ERR_FAIL s1 wq)
       else if h_pt hdr \<notin> {0, 1, 2, 3, 5} then Some (daemon_refuse env RM_ERR_MSG_PT_UNKNOWN s1 wq)
       else daemon_body env fq wq fd hdr s1) \<and>
    sk_in s1 = r \<and> read_good s1 \<and> same_tx s s1"
proof -
  obtain s1 where s1: "rm_tcp_read s [] RM_MSG_HDR_LEN = Some (RM_ERR_OK, rm_serialize_msg_hdr [] hdr, s1)"
      "sk_in s1 = r" "read_good s1" "sk_out s1 = sk_out s" "sk_wev s1 = sk_wev s"
    using tcp_read.rx_frame [OF assms(2,3), of RM_MSG_HDR_LEN] by auto
  have des: "rm_deserialize_msg_hdr (rm_serialize_msg_hdr [] hdr) = Some (hdr, [])"
    using hdr.deser_ser [of hdr "[]"] by simp
  have val: "rm_core_tcp_msg_hdr_validate th (rm_serialize_msg_hdr [] hdr) (int RM_MSG_HDR_LEN) =
      (if h_hash hdr \<noteq> rm_core_hdr_hash th hdr then RM_ERR_FAIL
       else if h_pt hdr \<in> {0, 1, 2, 3, 5} then RM_ERR_OK else RM_ERR_MSG_PT_UNKNOWN)" for th
    using header_ok [of 8 th hdr "[]"] by (simp add: RM_MSG_HDR_LEN_def)
  show ?thesis
    using assms(1) s1 des
    by (intro exI [of _ s1])
      (auto simp: do_it_all_def daemon_ready_def rm_core_authenticate_def val Let_def same_tx_def)
qed

lemma read_good_rx: "read_good s \<Longrightarrow> rx_good s"
  by (auto simp: read_good_def rx_good_def)

text \<open>The body of a push request, when there is memory for it.\<close>

lemma daemon_push_body:
  assumes "h_pt hdr = rm_pt_code RM_PT_MSG_PUSH" and "8 \<le> unat (h_len hdr)" and "length b = unat (h_len hdr) - 8"
    and "sk_in s1 = b @ r" and "read_good s1" and "de_body_mem env"
  shows "\<exists>s2. daemon_body env fq wq fd hdr s1 =
      (case rm_deserialize_msg (de_msg_mem env) RM_PT_MSG_PUSH hdr b of
         None \<Rightarrow> None
       | Some None \<Rightarrow> Some (daemon_refuse env RM_ERR_OK s2 wq)
       | Some (Some m) \<Rightarrow>
           (case rm_work_create (de_work_mem env) RM_WORK_PROCESS_MSG_PUSH fd of
              None \<Rightarrow> Some (daemon_refuse env RM_ERR_OK s2 wq)
            | Some work \<Rightarrow> map_option (\<lambda>wq'. \<lparr>sv_sock = s2, sv_closed = False, sv_msg = Some m, sv_wq = wq'\<rparr>)
                (rm_wq_queue_work fq wq work))) \<and>
    sk_in s2 = r \<and> same_tx s1 s2"
proof -
  have pt: "rm_pt_of_code (h_pt hdr) = Some RM_PT_MSG_PUSH"
    using rm_pt_of_code [of RM_PT_MSG_PUSH] assms(1) by simp
  have u: "uint (h_len hdr) - int RM_MSG_HDR_LEN = int (length b)"
    using assms(2,3) by (simp add: RM_MSG_HDR_LEN_def of_nat_diff)
  have "unat (h_len hdr) < 2 ^ 64" by (rule order_less_le_trans [OF unsigned_less]) simp
  then have "length b < 2 ^ 64" using assms(3) by simp
  then have n: "nat (int (length b) mod 2 ^ 64) = length b" by (simp add: nat_mod_as_int)
  obtain s2 where "rm_tcp_rx s1 (length b) = Some (RM_ERR_OK, b, s2)" "sk_in s2 = r" "same_tx s1 s2"
    using tcp_rx.rx_frame [OF read_good_rx [OF assms(5)] assms(4) refl] rm_tcp_rx_same_tx by metis
  then show ?thesis
    using assms(6) unfolding daemon_body_def pt Let_def u n
    by (intro exI [of _ s2]) (simp add: rm_core_tcp_msg_assemble_def split: option.split)
qed

lemma assemble_same_tx: "rm_core_tcp_msg_assemble ok s pt n = Some (e, b, s') \<Longrightarrow> same_tx s s'"
  by (auto simp: rm_core_tcp_msg_assemble_def split: if_splits option.splits prod.splits dest: rm_tcp_rx_same_tx)

lemma daemon_body_closed:
  assumes "daemon_body env fq wq fd hdr s1 = Some sv" and "sv_closed sv"
  shows "\<exists>e s2. sv = daemon_refuse env e s2 wq \<and> same_tx s1 s2"
proof -
  let ?n = "uint (h_len hdr) - int RM_MSG_HDR_LEN"
  obtain pt where pt: "rm_pt_of_code (h_pt hdr) = Some pt"
    using assms(1) by (auto simp: daemon_body_def split: option.splits)
  obtain e b s2 where a: "rm_core_tcp_msg_assemble (de_body_mem env \<and> 0 \<le> ?n) s1 pt (nat (?n mod 2 ^ 64)) = Some (e, b, s2)"
    using assms(1) unfolding daemon_body_def pt Let_def by (auto split: option.splits)
  have st: "same_tx s1 s2" by (rule assemble_same_tx [OF a])
  show ?thesis
  proof (cases "e = RM_ERR_OK")
    case False
    with assms(1) show ?thesis unfolding daemon_body_def pt Let_def option.case a prod.case
      using st by auto
  next
    case True
    have "sv = daemon_refuse env RM_ERR_OK s2 wq"
      using assms True unfolding daemon_body_def pt Let_def option.case a prod.case
      by (cases pt) (auto simp: rm_deserialize_msg_def split: option.splits if_splits)
    with st show ?thesis by blast
  qed
qed

section \<open>Properties\<close>

lemma daemon_takes_push:
  assumes "push_msg te x y z L flags n = Some m"
    and "c_name (Some x)" and "c_name y" and "c_name z" and "request_ready te"
    and "te_hash32 te = de_hash32 env" and "daemon_ready env" and "de_body_mem env" and "de_msg_mem env"
    and "de_work_mem env" and "read_good s" and "sk_in s = rm_serialize_msg_push [] m @ rest"
    and "wq_ok wq" and "0 < wq_active_n wq"
  shows "\<exists>sv i. do_it_all env fq wq fd s = Some sv \<and> sv_msg sv = Some m \<and> \<not> sv_closed sv \<and>
    sk_in (sv_sock sv) = rest \<and> same_tx s (sv_sock sv) \<and>
    i < length (wq_workers wq) \<and> w_active (wq_workers wq ! i) \<and>
    wq_workers (sv_wq sv) = (wq_workers wq)[i := worker_enqueue fq
      \<lparr>wk_task = RM_WORK_PROCESS_MSG_PUSH, wk_fd = fd, wk_idx = w_idx (wq_workers wq ! i)\<rparr> (wq_workers wq ! i)]"
proof -
  have m: "push_valid m" "unat (h_len (p_hdr m)) = length (rm_serialize_msg_push [] m)"
    using push_msg_ok [OF assms(2-5), of L flags n] assms(1) by auto
  have hash: "h_hash (p_hdr m) = rm_core_hdr_hash (de_hash32 env) (p_hdr m)" "h_pt (p_hdr m) = 0"
    using assms(1,6) by (auto simp: push_msg_def Let_def rm_core_hdr_hash_def split: option.splits prod.splits)
  let ?b = "rm_serialize_msg_push_body [] m"
  have ser: "rm_serialize_msg_push [] m = rm_serialize_msg_hdr [] (p_hdr m) @ ?b"
    by (simp add: rm_serialize_msg_push_def rm_serialize_msg_push_body_append [OF m(1)])
  have "sk_in s = rm_serialize_msg_hdr [] (p_hdr m) @ (?b @ rest)" using assms(12) ser by simp
  from daemon_header [OF assms(7,11) this, of fq wq fd] hash obtain s1 where
    s1: "do_it_all env fq wq fd s = daemon_body env fq wq fd (p_hdr m) s1" "sk_in s1 = ?b @ rest" "read_good s1"
      "same_tx s s1" by auto
  have len: "8 \<le> unat (h_len (p_hdr m))" "length ?b = unat (h_len (p_hdr m)) - 8"
    using m(2) ser by (simp_all add: RM_MSG_HDR_LEN_def)
  have des: "rm_deserialize_msg True RM_PT_MSG_PUSH (p_hdr m) ?b = Some (Some m)"
    using rm_deserialize_msg_push_body_ser [OF m(1), of "[]"] by (simp add: rm_deserialize_msg_def)
  let ?w = "\<lparr>wk_task = RM_WORK_PROCESS_MSG_PUSH, wk_fd = fd, wk_idx = 0\<rparr>"
  obtain i wq' where q: "rm_wq_queue_work fq wq ?w = Some wq'" "i < length (wq_workers wq)"
      "w_active (wq_workers wq ! i)" "wq_workers wq' = (wq_workers wq)[i := worker_enqueue fq
        (?w\<lparr>wk_idx := w_idx (wq_workers wq ! i)\<rparr>) (wq_workers wq ! i)]"
    using queue_work_picks [OF assms(13,14), of fq ?w] by blast
  from daemon_push_body [OF _ len s1(2,3) assms(8), of fq wq fd] hash(2) obtain s2 where
    "daemon_body env fq wq fd (p_hdr m) s1 = Some \<lparr>sv_sock = s2, sv_closed = False, sv_msg = Some m, sv_wq = wq'\<rparr>"
    "sk_in s2 = rest" "same_tx s1 s2"
    using q(1) des assms(9,10) by (auto simp: rm_work_create_def rm_work_init_def)
  with s1(1,4) q(2-4) show ?thesis by (auto simp: same_tx_def)
qed

text \<open>
  C13. The daemon takes a sender's request: from the bytes \<open>rm_tx_remote_push\<close> writes for any names and options, when
  the length it has computed for the request is right (\<open>request_ready\<close>: the byte 4 of the address of the header is 0, as it is
  in a heap below 4 gigabytes), and when the daemon's allocations succeed, it reads back that message, queues it as one work item for an active worker, and keeps the
  connection open without having sent anything on it; what the sender sends after the request stays
  in the connection for the handler.
\<close>

theorem daemon_queues_push:
  assumes "push_msg te x y z L flags n = Some m"
    and "c_name (Some x)" and "c_name y" and "c_name z" and "request_ready te"
    and "te_hash32 te = de_hash32 env" and "daemon_ready env" and "de_body_mem env" and "de_msg_mem env"
    and "de_work_mem env" and "read_good s" and "sk_in s = rm_serialize_msg_push [] m @ rest"
    and "wq_ok wq" and "0 < wq_active_n wq"
  shows "\<exists>sv i. do_it_all env fq wq fd s = Some sv \<and> sv_msg sv = Some m \<and> \<not> sv_closed sv \<and>
    sk_in (sv_sock sv) = rest \<and> sk_out (sv_sock sv) = sk_out s \<and>
    i < length (wq_workers wq) \<and> w_active (wq_workers wq ! i) \<and>
    wq_workers (sv_wq sv) = (wq_workers wq)[i := worker_enqueue fq
      \<lparr>wk_task = RM_WORK_PROCESS_MSG_PUSH, wk_fd = fd, wk_idx = w_idx (wq_workers wq ! i)\<rparr> (wq_workers wq ! i)]"
  using daemon_takes_push [OF assms, of fq fd] unfolding same_tx_def by blast

text \<open>
  C34. The length in a header is trusted. A push request that passes the header check, but whose length leaves
  less than 26 bytes for the body, makes the daemon read past the end of the body it has allocated and received:
  anyone who can connect can cause that with a few bytes, before a session or a name is validated.
\<close>

theorem short_request_overreads:
  assumes "daemon_ready env" and "de_body_mem env" and "de_msg_mem env" and "read_good s"
    and "h_hash hdr = rm_core_hdr_hash (de_hash32 env) hdr" and "h_pt hdr = rm_pt_code RM_PT_MSG_PUSH"
    and "8 \<le> unat (h_len hdr)" and "unat (h_len hdr) < 34"
    and "sk_in s = rm_serialize_msg_hdr [] hdr @ body @ rest" and "length body = unat (h_len hdr) - 8"
  shows "do_it_all env fq wq fd s = None"
proof -
  from daemon_header [OF assms(1,4,9), of fq wq fd] assms(5,6) obtain s1 where
    s1: "do_it_all env fq wq fd s = daemon_body env fq wq fd hdr s1" "sk_in s1 = body @ rest" "read_good s1"
    by auto
  have "rm_deserialize_msg True RM_PT_MSG_PUSH hdr body = None"
    using push_body_short [of body hdr] assms(8,10) by (simp add: rm_deserialize_msg_def)
  with daemon_push_body [OF assms(6,7,10) s1(2,3) assms(2), of fq wq fd] s1(1) assms(3) show ?thesis by auto
qed

text \<open>
  C35. What a sender learns when the daemon turns it away. Whenever the daemon closes a connection, it
  has queued nothing and has sent one general acknowledgement with some error; a sender waiting for its
  acknowledgement gets exactly this error, unless the error is OK, which the daemon sends for a valid
  request of another type and when it is out of memory for the message or the work item: then the
  sender takes the connection for broken.
\<close>

theorem refusal_reaches_sender:
  assumes "do_it_all env fq wq fd s = Some sv" and "sv_closed sv" and "tx_good s" and "sk_out s = []"
    and "rx_good c" and "sk_in c = sk_out (sv_sock sv)" and "sk_closed c"
  shows "sv_msg sv = None \<and> sv_wq sv = wq \<and>
    (\<exists>e c'. sk_out (sv_sock sv) = rm_serialize_msg_hdr [] (plain_ack_hdr (de_hash32 env) e) \<and>
      tx_wait_ack th c = Some (Inl (err_code (if e = RM_ERR_OK then RM_ERR_TCP_DISCONNECT else e)), c'))"
proof -
  have "\<exists>e s2. sv = daemon_refuse env e s2 wq \<and> same_tx s s2"
  proof (cases "\<exists>e b s1. rm_tcp_read s [] RM_MSG_HDR_LEN = Some (e, b, s1)")
    case True
    then obtain e b s1 where r: "rm_tcp_read s [] RM_MSG_HDR_LEN = Some (e, b, s1)" by blast
    note st = rm_tcp_read_same_tx [OF r]
    have "sv = daemon_refuse env RM_ERR_AUTH s wq \<or> (\<exists>e. sv = daemon_refuse env e s1 wq) \<or>
        (\<exists>hdr. daemon_body env fq wq fd hdr s1 = Some sv)"
      using assms(1) unfolding do_it_all_def r option.case prod.case Let_def
      by (auto split: if_splits option.splits)
    then show ?thesis using daemon_body_closed [OF _ assms(2)] st same_tx_trans same_tx_refl by blast
  next
    case False
    then have "sv = daemon_refuse env RM_ERR_AUTH s wq"
      using assms(1) by (auto simp: do_it_all_def split: if_splits option.splits)
    then show ?thesis using same_tx_refl by blast
  qed
  then obtain e s2 where e: "sv = daemon_refuse env e s2 wq" "same_tx s s2" by blast
  then have "tx_good s2" "sk_out s2 = []" using assms(3,4) by (simp_all add: same_tx_def tx_good_def)
  then have out: "sk_out (sv_sock sv) = rm_serialize_msg_hdr [] (plain_ack_hdr (de_hash32 env) e)"
    using refuse_sends [of s2 env e wq] e(1) by simp
  have "sk_in c = rm_serialize_msg_hdr [] (plain_ack_hdr (de_hash32 env) e)" using assms(6) out by (rule trans)
  from tx_wait_plain_ack [OF assms(5) this assms(7), of th] out
  have "\<exists>e c'. sk_out (sv_sock sv) = rm_serialize_msg_hdr [] (plain_ack_hdr (de_hash32 env) e) \<and>
      tx_wait_ack th c = Some (Inl (err_code (if e = RM_ERR_OK then RM_ERR_TCP_DISCONNECT else e)), c')" by blast
  moreover have "sv_msg sv = None \<and> sv_wq sv = wq" unfolding e(1) by (simp add: daemon_refuse_def)
  ultimately show ?thesis by blast
qed

text \<open>A daemon whose allocations succeed, with one worker, and a request as the sender of the examples writes it.\<close>

definition sample_daemon :: daemon_env where
  "sample_daemon = \<lparr>de_auth = True, de_peer = Some ''127.0.0.1'', de_hdr_mem = True, de_buf_mem = True,
     de_body_mem = True, de_msg_mem = True, de_work_mem = True, de_hash32 = \<lambda>_ _. 0\<rparr>"

definition sample_pool :: "rm_work list rm_workqueue" where
  "sample_pool = \<lparr>wq_workers = [(rm_wq_worker_init fifo_lists 0)\<lparr>w_active := True\<rparr>], wq_workers_n = 1,
     wq_active_n = 1, wq_running = True, wq_first = 0, wq_next = 0\<rparr>"

lemma sample_daemon_simps [simp]:
  "daemon_ready sample_daemon" "de_body_mem sample_daemon" "de_msg_mem sample_daemon" "de_work_mem sample_daemon"
  "de_hash32 sample_daemon = (\<lambda>_ _. 0)"
  by (simp_all add: sample_daemon_def daemon_ready_def RM_IP_AUTH_def)

lemma sample_pool_ok: "wq_ok sample_pool" "0 < wq_active_n sample_pool"
  by (simp_all add: sample_pool_def wq_ok_def rm_wq_worker_init_def)

theorem daemon_queues_push_witness:
  "\<exists>m sv. push_msg sample_te ''x'' (Some ''/y'') None 1 0 2 = Some m \<and>
    do_it_all sample_daemon fifo_lists sample_pool 7
      ((sample_sock [IO_Chunk 3] [])\<lparr>sk_in := rm_serialize_msg_push [] m\<rparr>) = Some sv \<and> sv_msg sv = Some m"
proof -
  note uuid = sample_te_ready(1)
  have names: "c_name (Some ''x'')" "c_name (Some ''/y'')" "c_name None" by (simp_all add: c_name_small)
  obtain m where m: "push_msg sample_te ''x'' (Some ''/y'') None 1 0 2 = Some m"
    using push_msg_ok [OF names uuid, of 1 0 2] by blast
  have "te_hash32 sample_te = de_hash32 sample_daemon" by (simp add: sample_te_def)
  from daemon_queues_push [OF m names uuid this _ _ _ _ _ _ sample_pool_ok,
      of "(sample_sock [IO_Chunk 3] [])\<lparr>sk_in := rm_serialize_msg_push [] m\<rparr>" "[]" fifo_lists 7] m
  show ?thesis by (simp add: sample_sock_def read_good_def) blast
qed

theorem short_request_overreads_witness:
  "do_it_all sample_daemon fifo_lists sample_pool 7 ((sample_sock [] [])\<lparr>sk_in := rm_serialize_msg_hdr []
      \<lparr>h_hash = 0, h_pt = 0, h_flags = 0, h_len = 9\<rparr> @ [1] @ []\<rparr>) = None"
  by (rule short_request_overreads [where hdr = "\<lparr>h_hash = 0, h_pt = 0, h_flags = 0, h_len = 9\<rparr>" and body = "[1]"
        and rest = "[]"])
    (simp_all add: sample_sock_def read_good_def rm_core_hdr_hash_def)

theorem refusal_reaches_sender_witness:
  "\<exists>sv e c'. do_it_all (sample_daemon\<lparr>de_peer := Some ''10.0.0.1''\<rparr>) fifo_lists sample_pool 7 (sample_sock [] []) = Some sv \<and>
    sv_msg sv = None \<and>
    tx_wait_ack (\<lambda>_ _. 0) \<lparr>sk_in = sk_out (sv_sock sv), sk_closed = True, sk_rev = [IO_Chunk 3], sk_out = [], sk_wev = []\<rparr> =
      Some (Inl (err_code (if e = RM_ERR_OK then RM_ERR_TCP_DISCONNECT else e)), c')"
proof -
  let ?env = "sample_daemon\<lparr>de_peer := Some ''10.0.0.1''\<rparr>"
  let ?sv = "daemon_refuse ?env RM_ERR_AUTH (sample_sock [] []) sample_pool"
  have run: "do_it_all ?env fifo_lists sample_pool 7 (sample_sock [] []) = Some ?sv"
    by (simp add: do_it_all_def sample_daemon_def rm_core_authenticate_def RM_IP_AUTH_def)
  have sv: "sv_closed ?sv" "tx_good (sample_sock [] [])" "sk_out (sample_sock [] []) = []"
    by (simp_all add: daemon_refuse_def sample_sock_def tx_good_def)
  show ?thesis
    using refusal_reaches_sender [OF run sv, of "\<lparr>sk_in = sk_out (sv_sock ?sv), sk_closed = True,
        sk_rev = [IO_Chunk 3], sk_out = [], sk_wev = []\<rparr>" "\<lambda>_ _. 0"] run by (auto simp: rx_good_def)
qed

section \<open>Signals and shutdown\<close>

lemma fold_sig_handler:
  "fold rm_daemon_sig_handler sigs d =
     (if sigs = [] then d else d\<lparr>ds_signo := Some (last sigs), ds_pending := True\<rparr>)"
  by (induction sigs arbitrary: d) (auto simp: rm_daemon_sig_handler_def)

lemma daemon_round_state:
  "ds_state (daemon_round r d) = (if snd r = Interrupted \<and> (fst r \<noteq> [] \<or> ds_pending d) \<and>
     (if fst r = [] then ds_signo d else Some (last (fst r))) = Some SIGTSTP then RM_CORE_ST_SHUT_DOWN else ds_state d)"
  by (auto simp: daemon_round_def fold_sig_handler rm_daemon_signal_handler_def Let_def split: option.splits rm_signal.splits)

text \<open>
  C36. A request to shut down can be lost. The loop acts on a signal only when \<open>accept\<close> is interrupted:
  a signal that arrives while a connection is being served stays pending until another signal
  interrupts \<open>accept\<close>, so in rounds without an interruption the daemon serves every connection and
  never stops, whatever signals arrive; and as only the last signal is remembered, a \<open>SIGTSTP\<close> followed by another signal before
  the interruption does not stop it either. It stops exactly after a round interrupted with \<open>SIGTSTP\<close> as the last signal.
\<close>

theorem shutdown_needs_interruption:
  assumes "ds_state d = RM_CORE_ST_INITIALIZED" and "\<forall>r\<in>set rs. snd r \<noteq> Interrupted"
  shows "ds_state (fst (daemon_loop rs d)) = RM_CORE_ST_INITIALIZED \<and>
    snd (daemon_loop rs d) = length (filter (\<lambda>r. snd r = Accepted) rs) \<and>
    (ds_state (daemon_round (sigs @ [SIGTSTP, s], Interrupted) d) = RM_CORE_ST_SHUT_DOWN \<longleftrightarrow> s = SIGTSTP) \<and>
    daemon_loop ((sigs @ [SIGTSTP], Interrupted) # rs) d = (daemon_round (sigs @ [SIGTSTP], Interrupted) d, 0)"
proof -
  have "ds_state (fst (daemon_loop rs d)) = RM_CORE_ST_INITIALIZED \<and>
      snd (daemon_loop rs d) = length (filter (\<lambda>r. snd r = Accepted) rs)"
    using assms
  proof (induction rs arbitrary: d)
    case (Cons r rs)
    then have "ds_state (daemon_round r d) = RM_CORE_ST_INITIALIZED" by (simp add: daemon_round_state)
    from Cons.IH [OF this] Cons.prems show ?case by (auto split: prod.splits)
  qed simp
  moreover have "ds_state (daemon_round (sigs @ [SIGTSTP, s], Interrupted) d) = RM_CORE_ST_SHUT_DOWN \<longleftrightarrow> s = SIGTSTP"
    using assms(1) by (simp add: daemon_round_state)
  moreover have "daemon_loop ((sigs @ [SIGTSTP], Interrupted) # rs) d = (daemon_round (sigs @ [SIGTSTP], Interrupted) d, 0)"
    using assms(1) by (cases rs) (simp_all add: daemon_round_state)
  ultimately show ?thesis by blast
qed

theorem shutdown_needs_interruption_witness:
  "ds_state (fst (daemon_loop [([SIGTSTP], Accepted), ([], Accepted)]
     \<lparr>ds_state = RM_CORE_ST_INITIALIZED, ds_pending = False, ds_signo = None\<rparr>)) = RM_CORE_ST_INITIALIZED \<and>
   snd (daemon_loop [([SIGTSTP], Accepted), ([], Accepted)]
     \<lparr>ds_state = RM_CORE_ST_INITIALIZED, ds_pending = False, ds_signo = None\<rparr>) = Suc (Suc 0)"
  using shutdown_needs_interruption [of "\<lparr>ds_state = RM_CORE_ST_INITIALIZED, ds_pending = False, ds_signo = None\<rparr>"
      "[([SIGTSTP], Accepted), ([], Accepted)]" "[]" SIGTSTP] by simp

end
