(* ===== verification/RM_Util.thy ===== *)
theory RM_Util
  imports RM_Push
begin

text \<open>
  \<^verbatim>\<open>src/rm_util.c\<close>: the difference of time stamps, log lines, the names of the log files and their
  opening, going into the background. The decimal notation and \<open>strtoul\<close> of the C library are here too: the file names and the
  command line (\<open>RM_Cmd\<close>) use them.
\<close>

section \<open>Numbers as text\<close>

definition c_digit :: "nat \<Rightarrow> char" where
  "c_digit d = char_of (48 + d)"

fun c_decimal :: "nat \<Rightarrow> string" where
  "c_decimal n = (if n < 10 then [c_digit n] else c_decimal (n div 10) @ [c_digit (n mod 10)])"

declare c_decimal.simps [simp del]

text \<open>\<open>%04d\<close> and the like.\<close>

definition c_padded :: "nat \<Rightarrow> nat \<Rightarrow> string" where
  "c_padded w n = replicate (w - length (c_decimal n)) (CHR ''0'') @ c_decimal n"

definition c_isdigit :: "char \<Rightarrow> bool" where
  "c_isdigit c \<longleftrightarrow> 48 \<le> (of_char c :: nat) \<and> (of_char c :: nat) \<le> 57"

definition c_isspace :: "char \<Rightarrow> bool" where
  "c_isspace c \<longleftrightarrow> (of_char c :: nat) = 32 \<or> 9 \<le> (of_char c :: nat) \<and> (of_char c :: nat) \<le> 13"

definition digits_value :: "string \<Rightarrow> nat" where
  "digits_value ds = foldl (\<lambda>v c. 10 * v + (of_char c - 48)) 0 ds"

definition ULONG_MAX :: nat where "ULONG_MAX = 2 ^ 64 - 1"

text \<open>
  \<open>strtoul (s, &end, 10)\<close> with 64 bit numbers: white space, an optional sign, digits; a number that is too
  big becomes \<open>ULONG_MAX\<close>, a minus negates with wrap-around. The second result is the rest after the number, which
  is the whole of \<open>s\<close> if there is none.
\<close>

definition strtoul :: "string \<Rightarrow> nat \<times> string" where
  "strtoul s =
     (let t = dropWhile c_isspace s;
          neg = (t \<noteq> [] \<and> hd t = CHR ''-'');
          u = (if t \<noteq> [] \<and> (hd t = CHR ''-'' \<or> hd t = CHR ''+'') then tl t else t);
          ds = takeWhile c_isdigit u;
          v = digits_value ds
      in if ds = [] then (0, s)
         else (if ULONG_MAX < v then ULONG_MAX else if neg then (2 ^ 64 - v) mod 2 ^ 64 else v,
               dropWhile c_isdigit u))"

section \<open>Time\<close>

record timespec =
  tv_sec :: int
  tv_nsec :: int

definition RM_NANOSEC_PER_SEC :: int where "RM_NANOSEC_PER_SEC = 1000000000"

definition rm_util_calc_timespec_diff :: "timespec \<Rightarrow> timespec \<Rightarrow> timespec" where
  "rm_util_calc_timespec_diff t1 t2 =
     (if tv_nsec t2 < tv_nsec t1
      then \<lparr>tv_sec = tv_sec t2 - tv_sec t1 - 1, tv_nsec = RM_NANOSEC_PER_SEC + tv_nsec t2 - tv_nsec t1\<rparr>
      else \<lparr>tv_sec = tv_sec t2 - tv_sec t1, tv_nsec = tv_nsec t2 - tv_nsec t1\<rparr>)"

text \<open>Broken-down time; the month counts from 0.\<close>

record tm =
  tm_year :: nat
  tm_mon :: nat
  tm_mday :: nat
  tm_hour :: nat
  tm_min :: nat
  tm_sec :: nat

definition rm_util_dt :: "tm option \<Rightarrow> string option" where
  "rm_util_dt = map_option (\<lambda>t. c_padded 4 (tm_year t) @ ''-'' @ c_padded 2 (tm_mon t + 1) @ ''-'' @ c_padded 2 (tm_mday t) @
     ''_'' @ c_padded 2 (tm_hour t) @ ''-'' @ c_padded 2 (tm_min t) @ ''-'' @ c_padded 2 (tm_sec t))"

definition rm_util_dt_detail :: "tm option \<Rightarrow> nat \<Rightarrow> string option" where
  "rm_util_dt_detail t usec = map_option (\<lambda>d. d @ '':'' @ c_padded 6 usec) (rm_util_dt t)"

section \<open>Log lines\<close>

text \<open>
  A line: the date, a tabulator, the format, a newline, cut at the size of the buffer. What \<open>vfprintf\<close> makes of the line
  and the arguments is the parameter \<open>printf\<close>; the result has the text of the stream.
\<close>

definition log_line :: "string \<Rightarrow> string \<Rightarrow> string" where
  "log_line date fmt = take (4096 - 1) (date @ CHR 0x09 # fmt @ [CHR 0x0A])"

definition rm_util_log :: "(string \<Rightarrow> string) \<Rightarrow> tm option \<Rightarrow> nat \<Rightarrow> string \<Rightarrow> string \<Rightarrow> rm_error \<times> string" where
  "rm_util_log printf t usec fmt out =
     (case rm_util_dt_detail t usec of
        None \<Rightarrow> (RM_ERR_FAIL, out)
      | Some date \<Rightarrow> (RM_ERR_OK, out @ printf (log_line date fmt)))"

text \<open>With the text of \<open>errno\<close> after the format.\<close>

definition rm_util_log_perr ::
    "(string \<Rightarrow> string) \<Rightarrow> tm option \<Rightarrow> nat \<Rightarrow> string \<Rightarrow> string \<Rightarrow> string \<Rightarrow> rm_error \<times> string" where
  "rm_util_log_perr printf t usec strerror fmt out = rm_util_log printf t usec (fmt @ '', '' @ strerror) out"

text \<open>A format that fits is followed by the only newline of its own; a longer one swallows it.\<close>

lemma log_line_whole:
  assumes "length date = 26"
  shows "last (log_line date fmt) = CHR 0x0A \<longleftrightarrow> length fmt \<le> 4067 \<or> fmt ! 4067 = CHR 0x0A"
proof (cases "length fmt \<le> 4067")
  case True
  then show ?thesis using assms by (simp add: log_line_def)
next
  case False
  then have "log_line date fmt = date @ CHR 0x09 # take 4068 fmt"
    using assms by (simp add: log_line_def take_Cons')
  moreover have "take 4068 fmt = take 4067 fmt @ [fmt ! 4067]"
    using False take_Suc_conv_app_nth [of 4067 fmt] by simp
  ultimately show ?thesis using False by simp
qed

section \<open>Log files\<close>

text \<open>
  What the operating system answers: the local time, the microseconds, \<open>malloc\<close>, \<open>fopen\<close> and \<open>freopen\<close> of a
  path, \<open>chdir\<close>, the two calls of \<open>fork\<close>, \<open>setsid\<close>.
\<close>

record util_env =
  ue_time :: "tm option"
  ue_usec :: nat
  ue_mem :: bool
  ue_fopen :: "string \<Rightarrow> bool"
  ue_freopen :: "string \<Rightarrow> bool"
  ue_chdir :: "string \<Rightarrow> bool"
  ue_fork :: int
  ue_setsid :: bool
  ue_fork2 :: int

text \<open>The process: its files, working directory, what its output streams are redirected to, and its descriptors.\<close>

record util_proc =
  up_files :: files
  up_cwd :: "string option"
  up_stdout :: "string option"
  up_stderr :: "string option"
  up_fds :: "nat set"

text \<open>
  The buffer: the bytes allocated, and the name with its extension, which is copied to a fixed place; it is the
  end of the date when that has its 26 characters.
\<close>

definition log_buffer :: "string \<Rightarrow> string \<Rightarrow> nat" where
  "log_buffer dir name = length dir + length name + 1 + 27 + 1 + 3 + 1"

definition log_path :: "string \<Rightarrow> string \<Rightarrow> string \<Rightarrow> string \<Rightarrow> string" where
  "log_path dir name date ext =
     (if length date < 26 then dir @ name @ ''_'' @ date
      else take (length dir + length name + 27) (dir @ name @ ''_'' @ date) @ ext)"

definition log_open :: "util_env \<Rightarrow> string \<Rightarrow> util_proc \<Rightarrow> util_proc option" where
  "log_open env p q = (if ue_fopen env p then Some (q\<lparr>up_files := (up_files q)(p := Some [])\<rparr>) else None)"

definition rm_util_openlogs :: "util_env \<Rightarrow> string option \<Rightarrow> string \<Rightarrow> util_proc \<Rightarrow> rm_error \<times> util_proc" where
  "rm_util_openlogs env dir name q =
     (case dir of
        None \<Rightarrow> (RM_ERR_BAD_CALL, q)
      | Some d \<Rightarrow>
          if \<not> ue_mem env then (RM_ERR_MEM, q)
          else case rm_util_dt_detail (ue_time env) (ue_usec env) of
            None \<Rightarrow> (RM_ERR_GENERAL_ERROR, q)
          | Some date \<Rightarrow>
              let out = log_path d name date ''.log''; err = log_path d name date ''.err'' in
              (case log_open env out q of
                 None \<Rightarrow> (RM_ERR_FOPEN_STDOUT, q)
               | Some q1 \<Rightarrow>
                   if \<not> ue_freopen env out then (RM_ERR_FREOPEN_STDOUT, q1)
                   else
                     (case log_open env err (q1\<lparr>up_stdout := Some out\<rparr>) of
                        None \<Rightarrow> (RM_ERR_FOPEN_STDERR, q1\<lparr>up_stdout := Some out\<rparr>)
                      | Some q2 \<Rightarrow>
                          if \<not> ue_freopen env err then (RM_ERR_FREOPEN_STDERR, q2)
                          else (RM_ERR_OK, q2\<lparr>up_stderr := Some err\<rparr>))))"

section \<open>Into the background\<close>

text \<open>Closing the descriptors leaves the standard streams.\<close>

definition close_fds :: "bool \<Rightarrow> util_proc \<Rightarrow> util_proc" where
  "close_fds noclose q = (if noclose then q else q\<lparr>up_fds := {fd \<in> up_fds q. fd \<le> 2}\<rparr>)"

definition util_finish ::
    "util_env \<Rightarrow> string option \<Rightarrow> bool \<Rightarrow> string option \<Rightarrow> util_proc \<Rightarrow> rm_error \<times> util_proc" where
  "util_finish env dir noclose logname q =
     (if (case dir of None \<Rightarrow> False | Some d \<Rightarrow> \<not> ue_chdir env d) then (RM_ERR_CHDIR, q)
      else
        let q1 = (case dir of None \<Rightarrow> q | Some d \<Rightarrow> q\<lparr>up_cwd := Some d\<rparr>) in
        (case logname of
           None \<Rightarrow> (RM_ERR_OK, close_fds noclose q1)
         | Some n \<Rightarrow>
             (case rm_util_openlogs env (Some ''./log/'') n q1 of
                (e, q2) \<Rightarrow> if e \<noteq> RM_ERR_OK then (RM_ERR_IO_ERROR, q2) else (RM_ERR_OK, close_fds noclose q2))))"

definition rm_util_chdir_umask_openlog ::
    "util_env \<Rightarrow> string option \<Rightarrow> bool \<Rightarrow> string option \<Rightarrow> util_proc \<Rightarrow> rm_error \<times> util_proc" where
  "rm_util_chdir_umask_openlog = util_finish"

text \<open>\<open>None\<close>: this process is one of the parents and has exited with success.\<close>

definition rm_util_daemonize ::
    "util_env \<Rightarrow> string option \<Rightarrow> bool \<Rightarrow> string option \<Rightarrow> util_proc \<Rightarrow> (rm_error \<times> util_proc) option" where
  "rm_util_daemonize env dir noclose logname q =
     (if logname = None then Some (RM_ERR_BAD_CALL, q)
      else if ue_fork env < 0 then Some (RM_ERR_FAIL, q)
      else if 0 < ue_fork env then None
      else if \<not> ue_setsid env then Some (RM_ERR_SETSID, q)
      else if ue_fork2 env < 0 then Some (RM_ERR_FORK, q)
      else if 0 < ue_fork2 env then None
      else Some (util_finish env dir noclose logname q))"

section \<open>Lemmas\<close>

lemma c_isdigit_digit [simp]: "d < 10 \<Longrightarrow> c_isdigit (c_digit d)"
  by (simp add: c_isdigit_def c_digit_def)

lemma of_char_digit [simp]: "d < 10 \<Longrightarrow> of_char (c_digit d) = 48 + d"
  by (simp add: c_digit_def)

lemma digits_value_snoc: "digits_value (ds @ [c]) = 10 * digits_value ds + (of_char c - 48)"
  by (simp add: digits_value_def)

lemma c_decimal_digits: "c \<in> set (c_decimal n) \<Longrightarrow> c_isdigit c"
proof (induction n rule: c_decimal.induct)
  case (1 n)
  then show ?case by (cases "n < 10") (auto simp: c_decimal.simps [of n])
qed

lemma c_decimal_not_Nil [simp]: "c_decimal n \<noteq> []"
  by (simp add: c_decimal.simps [of n])

lemma digits_value_decimal [simp]: "digits_value (c_decimal n) = n"
proof (induction n rule: c_decimal.induct)
  case (1 n)
  show ?case
  proof (cases "n < 10")
    case True
    then show ?thesis by (simp add: c_decimal.simps [of n] digits_value_def)
  next
    case False
    then show ?thesis using 1 by (simp add: c_decimal.simps [of n] digits_value_snoc)
  qed
qed

lemma length_c_decimal: "n < 10 ^ w \<Longrightarrow> 0 < w \<Longrightarrow> length (c_decimal n) \<le> w"
proof (induction n arbitrary: w rule: c_decimal.induct)
  case (1 n)
  show ?case
  proof (cases "n < 10")
    case False
    with 1(2) obtain v where w: "w = Suc v" "0 < v" by (cases w; cases "w - 1") auto
    with 1(2) have "n div 10 < 10 ^ v" by (simp add: div_less_iff_less_mult mult.commute)
    with 1(1) [OF False this] w(2) False w(1) show ?thesis by (simp add: c_decimal.simps [of n])
  qed (use 1 in \<open>simp add: c_decimal.simps [of n]\<close>)
qed

lemma length_c_padded: "n < 10 ^ w \<Longrightarrow> 0 < w \<Longrightarrow> length (c_padded w n) = w"
  using length_c_decimal [of n w] by (simp add: c_padded_def)

text \<open>A decimal number, with what follows it, is read back; with a minus the negated one is.\<close>

lemma takeWhile_decimal:
  assumes "r = [] \<or> \<not> c_isdigit (hd r)"
  shows "takeWhile c_isdigit (c_decimal n @ r) = c_decimal n" and "dropWhile c_isdigit (c_decimal n @ r) = r"
  using assms by (cases r; simp add: takeWhile_append dropWhile_append c_decimal_digits)+

lemma not_special_digit: "c_isdigit c \<Longrightarrow> \<not> c_isspace c \<and> c \<noteq> CHR ''-'' \<and> c \<noteq> CHR ''+''"
  by (auto simp: c_isdigit_def c_isspace_def)

lemma hd_c_decimal: "\<not> c_isspace (hd (c_decimal n))" "hd (c_decimal n) \<noteq> CHR ''-''" "hd (c_decimal n) \<noteq> CHR ''+''"
  using not_special_digit [OF c_decimal_digits [of "hd (c_decimal n)" n]] by simp_all

lemma strtoul_decimal:
  assumes "n < 2 ^ 64" and "r = [] \<or> \<not> c_isdigit (hd r)"
  shows "strtoul (c_decimal n @ r) = (n, r)"
proof -
  have "dropWhile c_isspace (c_decimal n @ r) = c_decimal n @ r"
    using hd_c_decimal(1) [of n] by (cases "c_decimal n") auto
  with assms hd_c_decimal(2,3) [of n] takeWhile_decimal [OF assms(2), of n] show ?thesis
    by (simp add: strtoul_def Let_def hd_append ULONG_MAX_def)
qed

lemma strtoul_negative:
  assumes "n < 2 ^ 64"
  shows "strtoul (CHR ''-'' # c_decimal n) = ((2 ^ 64 - n) mod 2 ^ 64, [])"
  using assms takeWhile_decimal [of "[]" n]
  by (simp add: strtoul_def Let_def ULONG_MAX_def c_isspace_def del: takeWhile_eq_all_conv dropWhile_eq_Nil_conv)

text \<open>The difference of two time stamps.\<close>

definition timespec_ok :: "timespec \<Rightarrow> bool" where
  "timespec_ok t \<longleftrightarrow> 0 \<le> tv_nsec t \<and> tv_nsec t < RM_NANOSEC_PER_SEC"

definition timespec_ns :: "timespec \<Rightarrow> int" where
  "timespec_ns t = tv_sec t * RM_NANOSEC_PER_SEC + tv_nsec t"

lemma timespec_diff:
  assumes "timespec_ok t1" and "timespec_ok t2"
  shows "timespec_ok (rm_util_calc_timespec_diff t1 t2)"
    and "timespec_ns (rm_util_calc_timespec_diff t1 t2) = timespec_ns t2 - timespec_ns t1"
  using assms by (auto simp: timespec_ok_def timespec_ns_def rm_util_calc_timespec_diff_def RM_NANOSEC_PER_SEC_def)

text \<open>The names of the log files have the date and the extension, and fit into the buffer.\<close>

definition tm_ok :: "tm \<Rightarrow> bool" where
  "tm_ok t \<longleftrightarrow> tm_year t < 10000 \<and> tm_mon t < 12 \<and> tm_mday t < 32 \<and> tm_hour t < 24 \<and> tm_min t < 60 \<and> tm_sec t < 61"

lemma dt_detail_length:
  assumes "tm_ok t" and "usec < 1000000" and "rm_util_dt_detail (Some t) usec = Some d"
  shows "length d = 26"
proof -
  have "length (c_padded 4 (tm_year t)) = 4" "length (c_padded 2 (Suc (tm_mon t))) = 2" "length (c_padded 2 (tm_mday t)) = 2"
    "length (c_padded 2 (tm_hour t)) = 2" "length (c_padded 2 (tm_min t)) = 2" "length (c_padded 2 (tm_sec t)) = 2"
    "length (c_padded 6 usec) = 6"
    using assms(1,2) by (auto intro!: length_c_padded simp: tm_ok_def)
  with assms(3) show ?thesis by (auto simp: rm_util_dt_detail_def rm_util_dt_def)
qed

lemma log_path_fits:
  assumes "length d = 26" and "length ext \<le> 4"
  shows "log_path dir name d ext = dir @ name @ ''_'' @ d @ ext" and "length (log_path dir name d ext) < log_buffer dir name"
  using assms by (simp_all add: log_path_def log_buffer_def)

lemma chdir_umask_nothing: "rm_util_chdir_umask_openlog env None True None q = (RM_ERR_OK, q)"
  by (simp add: rm_util_chdir_umask_openlog_def util_finish_def close_fds_def)

end
