(* ===== verification/RM_Cmd.thy ===== *)
theory RM_Cmd
  imports RM_TxRemote RM_Util
begin

text \<open>
  The command line tool, \<^verbatim>\<open>src/rm_cmd.c\<close>: the options as \<open>getopt_long\<close> of the C library delivers them, the checks
  on their combination, the request that follows, and the exit status.
\<close>

section \<open>Options\<close>

definition RM_BIT_0 :: u8 where "RM_BIT_0 = 1"
definition RM_BIT_1 :: u8 where "RM_BIT_1 = 2"
definition RM_BIT_2 :: u8 where "RM_BIT_2 = 4"
definition RM_BIT_3 :: u8 where "RM_BIT_3 = 8"
definition RM_BIT_5 :: u8 where "RM_BIT_5 = 32"
definition RM_DEFAULT_L :: nat where "RM_DEFAULT_L = 512"
definition RM_DEFAULT_PORT :: u16 where "RM_DEFAULT_PORT = 5048"
definition RM_DEFAULT_TCP_CONNECT_TIMEOUT_S :: u16 where "RM_DEFAULT_TCP_CONNECT_TIMEOUT_S = 10"
definition RM_DEFAULT_TCP_CONNECT_TIMEOUT_US :: u16 where "RM_DEFAULT_TCP_CONNECT_TIMEOUT_US = 0"
definition EXIT_SUCCESS :: int where "EXIT_SUCCESS = 0"
definition EXIT_FAILURE :: int where "EXIT_FAILURE = 1"

text \<open>
  The values \<open>getopt_long\<close> returns, with \<open>optarg\<close>. \<open>Opt_Other\<close> is every other value: the question mark
  for a mistake, and \<open>--type\<close>, which is in the table but not in the \<open>switch\<close>. The value 0 does not
  occur, because no option of the table has it.
\<close>

datatype cmd_opt =
    Opt_Push | Opt_Pull | Opt_Force | Opt_Leave | Opt_Help | Opt_Version
  | Opt_Timeout_s string | Opt_Timeout_us string | Opt_Loglevel string
  | Opt_X string | Opt_Y string | Opt_Z string | Opt_I string
  | Opt_P string | Opt_L string | Opt_A string | Opt_T string | Opt_S string
  | Opt_Other

text \<open>
  The variables of \<open>main\<close>: \<open>x\<close>, \<open>y\<close>, \<open>z\<close> are the arrays of \<open>RM_FILE_LEN_MAX\<close> bytes, given by the string in them;
  the pointers \<open>xp\<close>, \<open>yp\<close>, \<open>zp\<close> are set to them or \<open>NULL\<close>.
\<close>

record cmd =
  cm_flags :: u8
  cm_x :: string
  cm_y :: string
  cm_z :: string
  cm_xp :: bool
  cm_yp :: bool
  cm_zp :: bool
  cm_addr :: "string option"
  cm_port :: u16
  cm_L :: nat
  cm_all :: nat
  cm_tail :: nat
  cm_send :: nat
  cm_send_set :: bool
  cm_timeout_s :: u16
  cm_timeout_us :: u16
  cm_loglevel :: nat

definition cmd_init :: cmd where
  "cmd_init = \<lparr>cm_flags = 0, cm_x = [], cm_y = [], cm_z = [], cm_xp = False, cm_yp = False, cm_zp = False,
     cm_addr = None, cm_port = RM_DEFAULT_PORT, cm_L = RM_DEFAULT_L, cm_all = 0, cm_tail = 0, cm_send = 0,
     cm_send_set = False, cm_timeout_s = 0, cm_timeout_us = 0, cm_loglevel = rm_loglevel_code RM_LOGLEVEL_NORMAL\<rparr>"

text \<open>A numeric argument: too big, or not a number with nothing after it, ends the program.\<close>

definition cmd_number :: "nat \<Rightarrow> string \<Rightarrow> nat option" where
  "cmd_number lim s =
     (case strtoul s of
        (helper, rest) \<Rightarrow> if lim < helper then None else if rest = s \<or> rest \<noteq> [] then None else Some helper)"

text \<open>A step of the loop: \<open>Inl\<close> is the exit status.\<close>

definition cmd_set_number :: "nat \<Rightarrow> string \<Rightarrow> (nat \<Rightarrow> cmd) \<Rightarrow> (int, cmd) sum" where
  "cmd_set_number lim s upd = (case cmd_number lim s of None \<Rightarrow> Inl EXIT_FAILURE | Some n \<Rightarrow> Inr (upd n))"

definition cmd_set_name :: "string \<Rightarrow> cmd \<Rightarrow> (int, cmd) sum" where
  "cmd_set_name s c = (if RM_FILE_LEN_MAX - 1 < length s then Inl EXIT_FAILURE else Inr c)"

fun cmd_step :: "cmd_opt \<Rightarrow> cmd \<Rightarrow> (int, cmd) sum" where
  "cmd_step Opt_Push c = Inr (c\<lparr>cm_flags := cm_flags c AND NOT RM_BIT_0\<rparr>)"
| "cmd_step Opt_Pull c = Inr (c\<lparr>cm_flags := cm_flags c OR RM_BIT_0\<rparr>)"
| "cmd_step Opt_Force c = Inr (c\<lparr>cm_flags := cm_flags c OR RM_BIT_4\<rparr>)"
| "cmd_step Opt_Leave c = Inr (c\<lparr>cm_flags := cm_flags c OR RM_BIT_6\<rparr>)"
| "cmd_step Opt_Help c = Inl EXIT_SUCCESS"
| "cmd_step Opt_Version c = Inl EXIT_SUCCESS"
| "cmd_step (Opt_Timeout_s s) c = cmd_set_number (0x10000 - 1) s (\<lambda>n. c\<lparr>cm_timeout_s := of_nat n\<rparr>)"
| "cmd_step (Opt_Timeout_us s) c = cmd_set_number (0x10000 - 1) s (\<lambda>n. c\<lparr>cm_timeout_us := of_nat n\<rparr>)"
| "cmd_step (Opt_Loglevel s) c = cmd_set_number (0x10 - 1) s (\<lambda>n. c\<lparr>cm_loglevel := n\<rparr>)"
| "cmd_step (Opt_X s) c = cmd_set_name s (c\<lparr>cm_x := s, cm_flags := cm_flags c OR RM_BIT_1, cm_xp := True\<rparr>)"
| "cmd_step (Opt_Y s) c = cmd_set_name s (c\<lparr>cm_y := s, cm_flags := cm_flags c OR RM_BIT_2, cm_yp := True\<rparr>)"
| "cmd_step (Opt_Z s) c = cmd_set_name s (c\<lparr>cm_z := s, cm_flags := cm_flags c OR RM_BIT_3, cm_zp := True\<rparr>)"
| "cmd_step (Opt_I s) c = Inr (c\<lparr>cm_addr := Some s, cm_flags := cm_flags c OR RM_BIT_5\<rparr>)"
| "cmd_step (Opt_P s) c = cmd_set_number (0x10000 - 1) s (\<lambda>n. c\<lparr>cm_port := of_nat n\<rparr>)"
| "cmd_step (Opt_L s) c = cmd_set_number (0x100000000 - 1) s (\<lambda>n. c\<lparr>cm_L := n\<rparr>)"
| "cmd_step (Opt_A s) c = cmd_set_number (0x100000000 - 1) s (\<lambda>n. c\<lparr>cm_all := n\<rparr>)"
| "cmd_step (Opt_T s) c = cmd_set_number (0x100000000 - 1) s (\<lambda>n. c\<lparr>cm_tail := n\<rparr>)"
| "cmd_step (Opt_S s) c = cmd_set_number (0x100000000 - 1) s (\<lambda>n. c\<lparr>cm_send := n, cm_send_set := True\<rparr>)"
| "cmd_step Opt_Other c = Inl EXIT_FAILURE"

fun cmd_options :: "cmd_opt list \<Rightarrow> cmd \<Rightarrow> (int, cmd) sum" where
  "cmd_options [] c = Inr c"
| "cmd_options (opt # opts) c = (case cmd_step opt c of Inl e \<Rightarrow> Inl e | Inr c' \<Rightarrow> cmd_options opts c')"

section \<open>Checks\<close>

text \<open>The one argument that is no option.\<close>

definition cmd_command :: "string list \<Rightarrow> cmd \<Rightarrow> (int, cmd) sum" where
  "cmd_command args c =
     (case args of
        [a] \<Rightarrow>
          if a = ''push'' then Inr (c\<lparr>cm_flags := cm_flags c AND NOT RM_BIT_0\<rparr>)
          else if a = ''pull'' then Inr (c\<lparr>cm_flags := cm_flags c OR RM_BIT_0\<rparr>)
          else Inl EXIT_FAILURE
      | _ \<Rightarrow> Inl EXIT_FAILURE)"

text \<open>\<open>z == NULL\<close> is never true of an array, so only the names are compared.\<close>

definition cmd_names :: "cmd \<Rightarrow> (int, cmd) sum" where
  "cmd_names c =
     (if cm_flags c AND RM_BIT_0 = 0
      then
        if cm_flags c AND RM_BIT_1 = 0 then Inl EXIT_FAILURE
        else if cm_flags c AND RM_BIT_6 \<noteq> 0 \<and> cm_y c = cm_z c then Inl EXIT_FAILURE
        else Inr c
      else
        if cm_flags c AND RM_BIT_2 = 0 then Inl EXIT_FAILURE
        else if cm_flags c AND RM_BIT_6 \<noteq> 0 \<and> cm_x c = cm_z c then Inl EXIT_FAILURE
        else Inr c)"

definition cmd_sizes :: "cmd \<Rightarrow> (int, cmd) sum" where
  "cmd_sizes c =
     (if cm_L c = 0 then Inl EXIT_FAILURE
      else if cm_send c = 0 \<and> cm_send_set c then Inl (err_code RM_ERR_BAD_CALL)
      else
        let c = (if cm_send c = 0 then c\<lparr>cm_send := cm_L c\<rparr> else c) in
        Inr (if cm_timeout_s c = 0 \<and> cm_timeout_us c = 0
             then c\<lparr>cm_timeout_s := RM_DEFAULT_TCP_CONNECT_TIMEOUT_S, cm_timeout_us := RM_DEFAULT_TCP_CONNECT_TIMEOUT_US\<rparr>
             else c))"

definition cmd_defaults :: "cmd \<Rightarrow> (int, cmd) sum" where
  "cmd_defaults c =
     (if cm_flags c AND RM_BIT_5 \<noteq> 0 then Inr (if cm_yp c then c else c\<lparr>cm_y := cm_x c, cm_yp := True\<rparr>)
      else if cm_flags c AND RM_BIT_0 = 0 then if cm_yp c then Inr c else Inl EXIT_FAILURE
      else if cm_xp c then Inr c else Inl EXIT_FAILURE)"

definition cmd_then :: "(int, cmd) sum \<Rightarrow> (cmd \<Rightarrow> (int, cmd) sum) \<Rightarrow> (int, cmd) sum" where
  "cmd_then r f = (case r of Inl e \<Rightarrow> Inl e | Inr c \<Rightarrow> f c)"

definition cmd_parse :: "cmd_opt list \<Rightarrow> string list \<Rightarrow> (int, cmd) sum" where
  "cmd_parse opts args =
     cmd_then (cmd_then (cmd_then (cmd_then (cmd_options opts cmd_init) (cmd_command args)) cmd_names) cmd_sizes) cmd_defaults"

section \<open>The request\<close>

text \<open>
  What \<open>main\<close> returns for an error: the number of the error if it is one the \<open>switch\<close> knows, -1 otherwise. Not
  enough memory exits with failure.
\<close>

definition remote_errors :: "rm_error list" where
  "remote_errors = [RM_ERR_OPEN_X, RM_ERR_FSTAT_X, RM_ERR_FSTAT_Y, RM_ERR_FSTAT_TMP, RM_ERR_X_ZERO_SIZE, RM_ERR_CREATE_SESSION,
     RM_ERR_GETADDRINFO, RM_ERR_CONNECT_TIMEOUT, RM_ERR_CONNECT_REFUSED, RM_ERR_CONNECT_HOSTUNREACH, RM_ERR_CONNECT_GEN_ERR,
     RM_ERR_AUTH, RM_ERR_CHDIR_Y, RM_ERR_CHDIR_Z, RM_ERR_CH_CH_RX_THREAD_LAUNCH, RM_ERR_DELTA_TX_THREAD_LAUNCH,
     RM_ERR_DELTA_RX_THREAD_LAUNCH, RM_ERR_CH_CH_RX_THREAD, RM_ERR_DELTA_TX_THREAD, RM_ERR_DELTA_RX_THREAD, RM_ERR_Y_Z_SYNC,
     RM_ERR_Y_NULL, RM_ERR_OPEN_Z, RM_ERR_OPEN_Y, RM_ERR_OPEN_TMP, RM_ERR_Y_ZERO_SIZE, RM_ERR_Z_ZERO_SIZE, RM_ERR_BAD_CALL,
     RM_ERR_BLOCK_SIZE, RM_ERR_RENAME_TMP_Y, RM_ERR_RENAME_TMP_Z]"

definition local_errors :: "rm_error list" where
  "local_errors = [RM_ERR_OPEN_X, RM_ERR_OPEN_Y, RM_ERR_OPEN_Z, RM_ERR_COPY_BUFFERED, RM_ERR_FSTAT_X, RM_ERR_FSTAT_Y,
     RM_ERR_FSTAT_Z, RM_ERR_OPEN_TMP, RM_ERR_CREATE_SESSION, RM_ERR_DELTA_TX_THREAD_LAUNCH, RM_ERR_DELTA_RX_THREAD_LAUNCH,
     RM_ERR_DELTA_TX_THREAD, RM_ERR_DELTA_RX_THREAD, RM_ERR_FILE_SIZE, RM_ERR_FILE_SIZE_REC_MISMATCH, RM_ERR_UNLINK_Y,
     RM_ERR_RENAME_TMP_Y, RM_ERR_RENAME_TMP_Z, RM_ERR_CHDIR]"

definition cmd_result :: "rm_error list \<Rightarrow> int \<Rightarrow> int" where
  "cmd_result known res =
     (if res = err_code RM_ERR_OK then err_code RM_ERR_OK
      else if res = err_code RM_ERR_MEM then EXIT_FAILURE
      else if res \<in> err_code ` set known then res else - 1)"

text \<open>
  The environment: how the connection to an address goes, and with the rest of it the environment of
  the push; for a local request the process sets its file mode first. A remote pull does nothing.
\<close>

record cmd_env =
  ce_connect :: "string option \<Rightarrow> u16 \<Rightarrow> u16 \<Rightarrow> u16 \<Rightarrow> rm_error \<times> sock"
  ce_tx :: tx_env
  ce_util :: util_env
  ce_proc :: util_proc

definition cmd_name :: "bool \<Rightarrow> string \<Rightarrow> string option" where
  "cmd_name p s = (if p then Some s else None)"

definition cmd_request ::
    "cmd_env \<Rightarrow> 'h twhash \<Rightarrow> (rm_delta_e, 'f) twfifo \<Rightarrow> 'h \<Rightarrow> cmd \<Rightarrow> files \<Rightarrow> (int \<times> files) option" where
  "cmd_request env tw fq h c fs =
     (let xp = cmd_name (cm_xp c) (cm_x c); yp = cmd_name (cm_yp c) (cm_y c); zp = cmd_name (cm_zp c) (cm_z c) in
      if cm_flags c AND RM_BIT_5 \<noteq> 0 then
        if cm_flags c AND RM_BIT_0 = 0 then
          map_option (\<lambda>(res, _). (cmd_result remote_errors res, fs))
            (rm_tx_remote_push
              ((ce_tx env)\<lparr>te_conn := ce_connect env (cm_addr c) (cm_port c) (cm_timeout_s c) (cm_timeout_us c)\<rparr>)
              tw fq h xp yp zp (cm_L c) (cm_all c) (cm_tail c) (cm_send c) (cm_flags c) (Some ctx_zero) fs)
        else Some (err_code RM_ERR_OK, fs)
      else
        let e = fst (rm_util_chdir_umask_openlog (ce_util env) None True None (ce_proc env));
            (a, b) = (if cm_flags c AND RM_BIT_0 = 0 then (xp, yp) else (yp, xp)) in
        if e \<noteq> RM_ERR_OK then Some (err_code e, fs)
        else
        map_option (\<lambda>(res, fs', _). (cmd_result local_errors (err_code res), fs'))
          (rm_tx_local_push (te_sys (ce_tx env)) tw fq h a b zp (cm_L c) (cm_all c) (cm_tail c) (cm_send c)
            (cm_flags c) (Some ctx_zero) fs))"

text \<open>
  The whole program: the exit status and the files after it. \<open>None\<close> is the \<open>None\<close> of the push.
\<close>

definition cmd_main ::
    "cmd_env \<Rightarrow> 'h twhash \<Rightarrow> (rm_delta_e, 'f) twfifo \<Rightarrow> 'h \<Rightarrow> nat \<Rightarrow> cmd_opt list \<Rightarrow> string list \<Rightarrow> files \<Rightarrow>
     (int \<times> files) option" where
  "cmd_main env tw fq h argc opts args fs =
     (if argc < 2 then Some (EXIT_FAILURE, fs)
      else map_option (\<lambda>(r, fs'). (r mod 256, fs'))
        (case cmd_parse opts args of Inl e \<Rightarrow> Some (e, fs) | Inr c \<Rightarrow> cmd_request env tw fq h c fs))"

section \<open>Lemmas\<close>

text \<open>Bits of the flags.\<close>

lemma flag_or: "a AND b = 0 \<Longrightarrow> (f OR a) AND b = f AND (b :: u8)"
  by (simp add: bit.conj_disj_distrib2)

lemma flag_or_self: "b \<noteq> 0 \<Longrightarrow> (f OR b) AND b \<noteq> (0 :: u8)"
  by (simp add: bit.conj_disj_distrib2)

lemma flag_andnot:
  assumes "a AND b = 0"
  shows "(f AND NOT a) AND b = f AND (b :: u8)"
proof (rule bit_word_eqI)
  fix n
  have "\<not> (bit a n \<and> bit b n)" using arg_cong [OF assms, of "\<lambda>w. bit w n"] by (simp add: bit_and_iff)
  then show "bit ((f AND NOT a) AND b) n \<longleftrightarrow> bit (f AND b) n" if "n < LENGTH(8)"
    using that by (auto simp: bit_simps)
qed

lemma flag_andnot_self [simp]: "(f AND NOT b) AND b = (0 :: u8)"
  by (simp add: and.assoc)

lemmas flag_defs = RM_BIT_0_def RM_BIT_1_def RM_BIT_2_def RM_BIT_3_def RM_BIT_4_def RM_BIT_5_def RM_BIT_6_def

text \<open>What every step keeps.\<close>

definition buffer_ok :: "u8 \<Rightarrow> u8 \<Rightarrow> bool \<Rightarrow> string \<Rightarrow> bool" where
  "buffer_ok f b set_p s \<longleftrightarrow> (f AND b \<noteq> 0 \<longleftrightarrow> set_p) \<and> (\<not> set_p \<longrightarrow> s = []) \<and> c_name (Some s)"

definition cmd_inv :: "cmd \<Rightarrow> bool" where
  "cmd_inv c \<longleftrightarrow>
     buffer_ok (cm_flags c) RM_BIT_1 (cm_xp c) (cm_x c) \<and> buffer_ok (cm_flags c) RM_BIT_2 (cm_yp c) (cm_y c) \<and>
     buffer_ok (cm_flags c) RM_BIT_3 (cm_zp c) (cm_z c) \<and> (cm_flags c AND RM_BIT_5 \<noteq> 0 \<longleftrightarrow> cm_addr c \<noteq> None) \<and>
     cm_L c < 2 ^ 32 \<and> cm_all c < 2 ^ 32 \<and> cm_tail c < 2 ^ 32 \<and> cm_send c < 2 ^ 32 \<and>
     (\<not> cm_send_set c \<longrightarrow> cm_send c = 0)"

fun opt_name_ok :: "cmd_opt \<Rightarrow> bool" where
  "opt_name_ok (Opt_X s) = (CHR 0x00 \<notin> set s)"
| "opt_name_ok (Opt_Y s) = (CHR 0x00 \<notin> set s)"
| "opt_name_ok (Opt_Z s) = (CHR 0x00 \<notin> set s)"
| "opt_name_ok _ = True"

lemma flag_masks [simp]:
  "RM_BIT_0 AND RM_BIT_1 = 0" "RM_BIT_0 AND RM_BIT_2 = 0" "RM_BIT_0 AND RM_BIT_3 = 0" "RM_BIT_0 AND RM_BIT_5 = 0"
  "RM_BIT_4 AND RM_BIT_1 = 0" "RM_BIT_4 AND RM_BIT_2 = 0" "RM_BIT_4 AND RM_BIT_3 = 0" "RM_BIT_4 AND RM_BIT_5 = 0"
  "RM_BIT_6 AND RM_BIT_1 = 0" "RM_BIT_6 AND RM_BIT_2 = 0" "RM_BIT_6 AND RM_BIT_3 = 0" "RM_BIT_6 AND RM_BIT_5 = 0"
  "RM_BIT_1 AND RM_BIT_2 = 0" "RM_BIT_1 AND RM_BIT_3 = 0" "RM_BIT_1 AND RM_BIT_5 = 0"
  "RM_BIT_2 AND RM_BIT_1 = 0" "RM_BIT_2 AND RM_BIT_3 = 0" "RM_BIT_2 AND RM_BIT_5 = 0"
  "RM_BIT_3 AND RM_BIT_1 = 0" "RM_BIT_3 AND RM_BIT_2 = 0" "RM_BIT_3 AND RM_BIT_5 = 0"
  "RM_BIT_5 AND RM_BIT_1 = 0" "RM_BIT_5 AND RM_BIT_2 = 0" "RM_BIT_5 AND RM_BIT_3 = 0"
  "RM_BIT_1 \<noteq> 0" "RM_BIT_2 \<noteq> 0" "RM_BIT_3 \<noteq> 0" "RM_BIT_5 \<noteq> 0"
  by (simp_all add: flag_defs)

lemma buffer_ok_other [simp]:
  "a AND b = 0 \<Longrightarrow> buffer_ok (f OR a) b p s \<longleftrightarrow> buffer_ok f b p s"
  "a AND b = 0 \<Longrightarrow> buffer_ok (f AND NOT a) b p s \<longleftrightarrow> buffer_ok f b p s"
  by (simp_all add: buffer_ok_def flag_or flag_andnot)

lemma buffer_ok_set:
  "b \<noteq> 0 \<Longrightarrow> CHR 0x00 \<notin> set s \<Longrightarrow> length s < RM_FILE_LEN_MAX \<Longrightarrow> buffer_ok (f OR b) b True s"
  by (simp add: buffer_ok_def flag_or_self c_name_def)

lemma cmd_number_bound: "cmd_number lim s = Some n \<Longrightarrow> n \<le> lim"
  by (auto simp: cmd_number_def split: prod.splits if_splits)

lemma cmd_set_number_Inr: "cmd_set_number lim s upd = Inr c \<Longrightarrow> \<exists>n. n \<le> lim \<and> c = upd n"
  by (auto simp: cmd_set_number_def dest: cmd_number_bound split: option.splits)

lemma cmd_set_name_Inr: "cmd_set_name s c = Inr c' \<Longrightarrow> c' = c \<and> length s < RM_FILE_LEN_MAX"
  by (auto simp: cmd_set_name_def RM_FILE_LEN_MAX_def split: if_splits)

lemma cmd_inv_init: "cmd_inv cmd_init"
  by (simp add: cmd_inv_def cmd_init_def buffer_ok_def c_name_def RM_FILE_LEN_MAX_def RM_DEFAULT_L_def)

lemma cmd_inv_step:
  assumes "cmd_step opt c = Inr c'" and "cmd_inv c" and "opt_name_ok opt"
  shows "cmd_inv c'"
proof -
  have num: "cmd_inv c'" if "cmd_set_number lim s upd = Inr c'" and "\<And>n. n \<le> lim \<Longrightarrow> cmd_inv (upd n)" for lim s upd
    using cmd_set_number_Inr [OF that(1)] that(2) by blast
  have nam: "cmd_inv c'" if "cmd_set_name s d = Inr c'" and "length s < RM_FILE_LEN_MAX \<Longrightarrow> cmd_inv d" for s d
    using cmd_set_name_Inr [OF that(1)] that(2) by blast
  note inv = assms(2) [unfolded cmd_inv_def]
  show ?thesis
    using assms(1,3)
    by (cases opt; simp only: cmd_step.simps opt_name_ok.simps sum.inject sum.distinct; (elim num nam)?; hypsubst?;
        insert inv; simp add: cmd_inv_def flag_or flag_or_self flag_andnot buffer_ok_set)
qed

lemma cmd_inv_options:
  "cmd_options opts c = Inr c' \<Longrightarrow> cmd_inv c \<Longrightarrow> \<forall>opt\<in>set opts. opt_name_ok opt \<Longrightarrow> cmd_inv c'"
  by (induction opts arbitrary: c) (auto split: sum.splits dest: cmd_inv_step)

lemma cmd_then_Inr: "cmd_then r f = Inr c' \<longleftrightarrow> (\<exists>c. r = Inr c \<and> f c = Inr c')"
  by (cases r) (simp_all add: cmd_then_def)

lemma cmd_then_Inl: "cmd_then r f = Inl e \<longleftrightarrow> r = Inl e \<or> (\<exists>c. r = Inr c \<and> f c = Inl e)"
  by (cases r) (simp_all add: cmd_then_def)

lemma cmd_command_Inr:
  "cmd_command args c = Inr c' \<Longrightarrow>
     \<exists>f. c' = c\<lparr>cm_flags := f\<rparr> \<and> (f = cm_flags c AND NOT RM_BIT_0 \<or> f = cm_flags c OR RM_BIT_0)"
  by (auto simp: cmd_command_def split: list.splits if_splits)

lemma cmd_names_Inr:
  "cmd_names c = Inr c' \<Longrightarrow> c' = c \<and> cm_flags c AND (if cm_flags c AND RM_BIT_0 = 0 then RM_BIT_1 else RM_BIT_2) \<noteq> 0"
  by (auto simp: cmd_names_def split: if_splits)

lemma cmd_inv_command: "cmd_command args c = Inr c' \<Longrightarrow> cmd_inv c \<Longrightarrow> cmd_inv c'"
  by (drule cmd_command_Inr) (auto simp: cmd_inv_def flag_or flag_andnot)

text \<open>
  An accepted combination: the sizes are in range, at least one part of the timeout is set, and both names are
  there, but for a remote pull that lacks its own.
\<close>

definition cmd_valid :: "cmd \<Rightarrow> bool" where
  "cmd_valid c \<longleftrightarrow>
     0 < cm_L c \<and> cm_L c < 2 ^ 32 \<and> 0 < cm_send c \<and> cm_send c < 2 ^ 32 \<and> cm_all c < 2 ^ 32 \<and> cm_tail c < 2 ^ 32 \<and>
     (cm_timeout_s c \<noteq> 0 \<or> cm_timeout_us c \<noteq> 0) \<and> (cm_flags c AND RM_BIT_5 \<noteq> 0 \<longleftrightarrow> cm_addr c \<noteq> None) \<and>
     cm_yp c \<and> (cm_flags c AND RM_BIT_0 = 0 \<or> cm_flags c AND RM_BIT_5 = 0 \<longrightarrow> cm_xp c) \<and>
     c_name (cmd_name (cm_xp c) (cm_x c)) \<and> c_name (cmd_name (cm_yp c) (cm_y c)) \<and> c_name (cmd_name (cm_zp c) (cm_z c))"

lemma cmd_sizes_valid:
  assumes "cmd_sizes c = Inr c'" and "cmd_inv c"
  shows "cmd_inv (c'\<lparr>cm_send := cm_send c\<rparr>) \<and> 0 < cm_L c' \<and> 0 < cm_send c' \<and> cm_send c' < 2 ^ 32 \<and>
    (cm_timeout_s c' \<noteq> 0 \<or> cm_timeout_us c' \<noteq> 0) \<and> cm_flags c' = cm_flags c"
  using assms
  by (auto simp: cmd_sizes_def cmd_inv_def Let_def RM_DEFAULT_TCP_CONNECT_TIMEOUT_S_def split: if_splits)

lemma c_name_buffer: "buffer_ok f b p s \<Longrightarrow> c_name (cmd_name q s)"
  by (simp add: buffer_ok_def cmd_name_def c_name_def)

lemma cmd_parse_valid:
  assumes "cmd_parse opts args = Inr c" and "\<forall>opt\<in>set opts. opt_name_ok opt"
  shows "cmd_valid c"
proof -
  obtain c1 c2 c3 where c: "cmd_options opts cmd_init = Inr c1" "cmd_command args c1 = Inr c2" "cmd_names c2 = Inr c2"
      "cmd_sizes c2 = Inr c3" "cmd_defaults c3 = Inr c"
    using assms(1) cmd_names_Inr unfolding cmd_parse_def cmd_then_Inr by metis
  have inv: "cmd_inv c2"
    by (rule cmd_inv_command [OF c(2) cmd_inv_options [OF c(1) cmd_inv_init assms(2)]])
  have s: "cmd_inv (c3\<lparr>cm_send := cm_send c2\<rparr>)" "0 < cm_L c3" "0 < cm_send c3" "cm_send c3 < 2 ^ 32"
      "cm_timeout_s c3 \<noteq> 0 \<or> cm_timeout_us c3 \<noteq> 0" "cm_flags c3 = cm_flags c2"
    using cmd_sizes_valid [OF c(4) inv] by blast+
  note inv3 = s(1) [unfolded cmd_inv_def, simplified]
  have x: "cm_flags c3 AND RM_BIT_0 = 0 \<Longrightarrow> cm_xp c3" "cm_flags c3 AND RM_BIT_0 \<noteq> 0 \<Longrightarrow> cm_yp c3"
    using cmd_names_Inr [OF c(3)] inv3 s(6) by (auto simp: buffer_ok_def)
  have names: "c_name (cmd_name p (cm_x c3))" "c_name (cmd_name p (cm_y c3))" "c_name (cmd_name p (cm_z c3))" for p
    using inv3 c_name_buffer by blast+
  have "cm_yp c" "cm_flags c = cm_flags c3" "cm_xp c = cm_xp c3" "cm_flags c3 AND RM_BIT_5 \<noteq> 0 \<or> cm_xp c3"
      "c_name (cmd_name (cm_yp c) (cm_y c))" "cm_x c = cm_x c3" "cm_z c = cm_z c3" "cm_zp c = cm_zp c3"
      "cm_L c = cm_L c3" "cm_send c = cm_send c3" "cm_all c = cm_all c3" "cm_tail c = cm_tail c3"
      "cm_timeout_s c = cm_timeout_s c3" "cm_timeout_us c = cm_timeout_us c3" "cm_addr c = cm_addr c3"
    using c(5) x names by (auto simp: cmd_defaults_def split: if_splits)
  with s(2-5) x(1) names inv3 show ?thesis by (auto simp: cmd_valid_def)
qed

text \<open>The address is there exactly for a remote request.\<close>

definition addr_flag :: "cmd \<Rightarrow> bool" where
  "addr_flag c \<longleftrightarrow> (cm_flags c AND RM_BIT_5 = 0 \<longleftrightarrow> cm_addr c = None)"

lemma addr_flag_step: "cmd_step opt c = Inr c' \<Longrightarrow> addr_flag c \<Longrightarrow> addr_flag c'"
  by (cases opt) (auto simp: addr_flag_def flag_or flag_or_self flag_andnot dest!: cmd_set_number_Inr cmd_set_name_Inr)

lemma addr_flag_options: "cmd_options opts c = Inr c' \<Longrightarrow> addr_flag c \<Longrightarrow> addr_flag c'"
  by (induction opts arbitrary: c) (auto split: sum.splits dest: addr_flag_step)

lemma cmd_parse_addr:
  assumes "cmd_parse opts args = Inr c"
  shows "cm_flags c AND RM_BIT_5 = 0 \<longleftrightarrow> cm_addr c = None"
proof -
  obtain c1 c2 c3 where c: "cmd_options opts cmd_init = Inr c1" "cmd_command args c1 = Inr c2" "cmd_names c2 = Inr c2"
      "cmd_sizes c2 = Inr c3" "cmd_defaults c3 = Inr c"
    using assms cmd_names_Inr unfolding cmd_parse_def cmd_then_Inr by metis
  have "addr_flag cmd_init" by (simp add: addr_flag_def cmd_init_def)
  from addr_flag_options [OF c(1) this] cmd_command_Inr [OF c(2)] have "addr_flag c2"
    by (auto simp: addr_flag_def flag_or flag_andnot)
  with c(4,5) show ?thesis
    by (auto simp: addr_flag_def cmd_sizes_def cmd_defaults_def Let_def split: if_splits)
qed

text \<open>The exit status: no error is taken for success.\<close>

lemma cmd_result_zero: "cmd_result known res mod 256 = 0 \<longleftrightarrow> res = 0"
proof -
  have "res mod 256 = res" if "res \<in> err_code ` set known" using that err_code_bound by auto
  then show ?thesis by (auto simp: cmd_result_def EXIT_FAILURE_def)
qed

lemma cmd_step_status: "cmd_step opt c = Inl e \<Longrightarrow> e = EXIT_FAILURE \<or> e = EXIT_SUCCESS \<and> opt \<in> {Opt_Help, Opt_Version}"
  by (cases opt) (auto simp: cmd_set_number_def cmd_set_name_def split: if_splits option.splits)

lemma cmd_options_status:
  "cmd_options opts c = Inl e \<Longrightarrow> e = EXIT_FAILURE \<or> e = EXIT_SUCCESS \<and> set opts \<inter> {Opt_Help, Opt_Version} \<noteq> {}"
  by (induction opts arbitrary: c) (auto split: sum.splits dest: cmd_step_status)

lemma cmd_checks_status:
  "cmd_command args c = Inl e \<Longrightarrow> e = EXIT_FAILURE"
  "cmd_names c = Inl e \<Longrightarrow> e = EXIT_FAILURE"
  "cmd_sizes c = Inl e \<Longrightarrow> e = EXIT_FAILURE \<or> e = err_code RM_ERR_BAD_CALL"
  "cmd_defaults c = Inl e \<Longrightarrow> e = EXIT_FAILURE"
  by (auto simp: cmd_command_def cmd_names_def cmd_sizes_def cmd_defaults_def Let_def split: list.splits if_splits)

lemma cmd_parse_status:
  assumes "cmd_parse opts args = Inl e" and "e mod 256 = 0"
  shows "Opt_Help \<in> set opts \<or> Opt_Version \<in> set opts"
proof -
  have "EXIT_FAILURE mod 256 \<noteq> 0" "err_code RM_ERR_BAD_CALL mod 256 \<noteq> 0" by (simp_all add: err_code_def EXIT_FAILURE_def)
  then have no: "e \<noteq> EXIT_FAILURE" "e \<noteq> err_code RM_ERR_BAD_CALL" using assms(2) by auto
  then have "cmd_options opts cmd_init = Inl e"
    using assms(1) unfolding cmd_parse_def cmd_then_Inl by (meson cmd_checks_status)
  from cmd_options_status [OF this] no show ?thesis by auto
qed

text \<open>What a numeric argument looks like.\<close>

definition number_syntax :: "string \<Rightarrow> nat \<Rightarrow> bool" where
  "number_syntax s n \<longleftrightarrow>
     (\<exists>w sg ds. s = w @ sg @ ds \<and> (\<forall>c\<in>set w. c_isspace c) \<and> sg \<in> {[], ''+'', ''-''} \<and> ds \<noteq> [] \<and>
       (\<forall>c\<in>set ds. c_isdigit c) \<and> n = (if sg = ''-'' then (2 ^ 64 - digits_value ds) mod 2 ^ 64 else digits_value ds))"

lemma cmd_number_syntax:
  assumes "cmd_number lim s = Some n" and "lim < ULONG_MAX"
  shows "n \<le> lim \<and> number_syntax s n"
proof -
  define t u ds where tu: "t = dropWhile c_isspace s"
    "u = (if t \<noteq> [] \<and> (hd t = CHR ''-'' \<or> hd t = CHR ''+'') then tl t else t)" "ds = takeWhile c_isdigit u"
  note st = strtoul_def [of s, folded tu(1), unfolded Let_def, folded tu(2), folded tu(3)]
  have ds: "ds \<noteq> []" using assms(1) by (auto simp: cmd_number_def st split: if_splits)
  have rest: "dropWhile c_isdigit u = []" and v: "digits_value ds \<le> ULONG_MAX"
      and n: "n \<le> lim" "n = (if t \<noteq> [] \<and> hd t = CHR ''-'' then (2 ^ 64 - digits_value ds) mod 2 ^ 64 else digits_value ds)"
    using assms ds by (auto simp: cmd_number_def st split: if_splits)
  have u: "u = ds" using rest takeWhile_dropWhile_id [of c_isdigit u] tu(3) by (metis append_Nil2)
  obtain w where w: "s = w @ t" "\<forall>c\<in>set w. c_isspace c"
    using takeWhile_dropWhile_id [of c_isspace s] tu(1) by (metis set_takeWhileD)
  obtain sg where sg: "t = sg @ ds" "sg \<in> {[], ''+'', ''-''}" "sg = ''-'' \<longleftrightarrow> t \<noteq> [] \<and> hd t = CHR ''-''"
  proof (cases "t \<noteq> [] \<and> (hd t = CHR ''-'' \<or> hd t = CHR ''+'')")
    case True
    then show ?thesis using u tu(2) that [of "[hd t]"] by (cases t) auto
  next
    case False
    then show ?thesis using u tu(2) that [of "[]"] by auto
  qed
  have "\<forall>c\<in>set ds. c_isdigit c" using tu(3) by (auto dest: set_takeWhileD)
  moreover have "s = w @ sg @ ds" using w(1) sg(1) by simp
  ultimately have "number_syntax s n"
    using n(2) ds w(2) sg(2,3) unfolding number_syntax_def
    by (intro exI [of _ w] exI [of _ sg] exI [of _ ds]) simp
  with n(1) show ?thesis by simp
qed

lemma cmd_number_decimal:
  assumes "n < 2 ^ 64"
  shows "cmd_number lim (c_decimal n) = (if n \<le> lim then Some n else None)"
  using strtoul_decimal [OF assms, of "[]"] by (simp add: cmd_number_def c_decimal_not_Nil [symmetric])

lemma cmd_number_negative:
  assumes "0 < n" and "n \<le> lim" and "n < 2 ^ 64"
  shows "cmd_number lim (CHR ''-'' # c_decimal (2 ^ 64 - n)) = Some n"
  using strtoul_negative [of "2 ^ 64 - n"] assms by (simp add: cmd_number_def)

section \<open>Properties\<close>

text \<open>
  C37. What the command line lets through: whatever the options and arguments, the request that follows
  satisfies what the pushes rely on. The block size and the send threshold are not 0, all sizes
  fit into 32 bits, a timeout is set, the names the request needs are there, and every name fits the
  array it is copied to, so that a remote push has a valid message. Its header says how long the message is
  exactly when the byte 4 of the address of the header is 0, because that byte is taken for the payload type
  when the length is computed; it is 0 when the heap is below 4 gigabytes. Otherwise the length is too small.
\<close>

theorem command_line_is_checked:
  assumes "cmd_parse opts args = Inr c" and "\<forall>opt\<in>set opts. opt_name_ok opt" and "RM_UUID_LEN \<le> length (te_uuid te)"
  shows "cmd_valid c \<and>
    (cm_flags c AND RM_BIT_0 = 0 \<longrightarrow>
      (\<exists>m. push_msg te (cm_x c) (cmd_name (cm_yp c) (cm_y c)) (cmd_name (cm_zp c) (cm_z c)) (cm_L c) (cm_flags c) n = Some m \<and>
        push_valid m \<and> unat (h_len (p_hdr m)) \<le> length (rm_serialize_msg_push [] m) \<and>
        (unat (h_len (p_hdr m)) = length (rm_serialize_msg_push [] m) \<longleftrightarrow>
          ptr_byte (te_hdr_ptr te) 4 = rm_pt_code RM_PT_MSG_PUSH)))"
proof (intro conjI impI)
  show v: "cmd_valid c" by (rule cmd_parse_valid [OF assms(1,2)])
  assume "cm_flags c AND RM_BIT_0 = 0"
  with v have "c_name (Some (cm_x c))" by (auto simp: cmd_valid_def cmd_name_def)
  moreover have "c_name (cmd_name (cm_yp c) (cm_y c))" "c_name (cmd_name (cm_zp c) (cm_z c))"
    using v unfolding cmd_valid_def by blast+
  ultimately obtain m where m: "push_msg te (cm_x c) (cmd_name (cm_yp c) (cm_y c)) (cmd_name (cm_zp c) (cm_z c)) (cm_L c)
        (cm_flags c) n = Some m" "push_valid m"
      "if ptr_byte (te_hdr_ptr te) 4 = rm_pt_code RM_PT_MSG_PUSH
       then unat (h_len (p_hdr m)) = length (rm_serialize_msg_push [] m) else unat (h_len (p_hdr m)) \<le> 18"
    using push_msg_made [OF _ _ _ assms(3), of "cm_x c" _ _ "cm_L c" "cm_flags c" n] by blast
  then show "\<exists>m. push_msg te (cm_x c) (cmd_name (cm_yp c) (cm_y c)) (cmd_name (cm_zp c) (cm_z c)) (cm_L c) (cm_flags c) n = Some m \<and>
      push_valid m \<and> unat (h_len (p_hdr m)) \<le> length (rm_serialize_msg_push [] m) \<and>
      (unat (h_len (p_hdr m)) = length (rm_serialize_msg_push [] m) \<longleftrightarrow>
        ptr_byte (te_hdr_ptr te) 4 = rm_pt_code RM_PT_MSG_PUSH)"
    using length_msg_push [OF m(2)] by (intro exI [of _ m]) (auto split: if_splits)
qed

theorem command_line_is_checked_witness:
  "\<exists>c. cmd_parse [Opt_X ''x'', Opt_I ''host'', Opt_L ''64''] [''push''] = Inr c \<and> cmd_valid c \<and> cm_y c = ''x''"
proof -
  have "\<exists>c. cmd_parse [Opt_X ''x'', Opt_I ''host'', Opt_L ''64''] [''push''] = Inr c \<and> cm_y c = ''x''"
    by (simp add: cmd_parse_def cmd_then_def cmd_set_name_def cmd_set_number_def cmd_number_def strtoul_def Let_def
        c_isspace_def c_isdigit_def digits_value_def ULONG_MAX_def RM_FILE_LEN_MAX_def cmd_init_def cmd_command_def cmd_names_def
        cmd_sizes_def cmd_defaults_def flag_defs)
  then obtain c where c: "cmd_parse [Opt_X ''x'', Opt_I ''host'', Opt_L ''64''] [''push''] = Inr c" "cm_y c = ''x''" by blast
  have "RM_UUID_LEN \<le> length (te_uuid sample_te)" by (simp add: sample_te_def RM_UUID_LEN_def)
  from command_line_is_checked [OF c(1) _ this] c show ?thesis by simp
qed

text \<open>
  Numeric arguments. One that is accepted is white space, a sign and digits, with nothing after
  it, and its value is in range; the decimal notation of a number in range is read back, and one
  that is out of range is refused. But a minus is taken modulo \<open>2 ^ 64\<close>, so that every number in range is also
  accepted in the form of a huge negative one.
\<close>

theorem numeric_arguments:
  assumes "lim < ULONG_MAX"
  shows "(\<forall>s n. cmd_number lim s = Some n \<longrightarrow> n \<le> lim \<and> number_syntax s n) \<and>
    (\<forall>n < 2 ^ 64. cmd_number lim (c_decimal n) = (if n \<le> lim then Some n else None)) \<and>
    (\<forall>n. 0 < n \<longrightarrow> n \<le> lim \<longrightarrow> cmd_number lim (CHR ''-'' # c_decimal (2 ^ 64 - n)) = Some n)"
  using cmd_number_syntax [OF _ assms] cmd_number_decimal [of _ lim] cmd_number_negative [of _ lim] assms
  by (auto simp: ULONG_MAX_def)

theorem numeric_arguments_witness:
  "cmd_number (0x10000 - 1) (c_decimal 5048) = Some 5048 \<and> cmd_number (0x10000 - 1) (c_decimal 70000) = None"
  using numeric_arguments [of "0x10000 - 1"] by (simp add: ULONG_MAX_def)

text \<open>
  The exit status. It is 0 exactly when the push has succeeded, for every error of a push, also one that
  came as a byte from the receiver; a status is 8 bits wide, and no error is lost by that. A command
  line that is refused does not give 0. But a remote pull gives 0 and does nothing.
\<close>

theorem exit_status_tells:
  assumes "cmd_main env tw fq h argc opts args fs = Some (st, fs')" and "2 \<le> argc"
  shows "case cmd_parse opts args of
      Inl e \<Rightarrow> fs' = fs \<and> (st = 0 \<longrightarrow> Opt_Help \<in> set opts \<or> Opt_Version \<in> set opts)
    | Inr c \<Rightarrow>
        let x = cmd_name (cm_xp c) (cm_x c); y = cmd_name (cm_yp c) (cm_y c); z = cmd_name (cm_zp c) (cm_z c);
            pull = (cm_flags c AND RM_BIT_0 \<noteq> 0);
            te = (ce_tx env)\<lparr>te_conn := ce_connect env (cm_addr c) (cm_port c) (cm_timeout_s c) (cm_timeout_us c)\<rparr> in
        if cm_addr c = None
        then \<exists>err rc. rm_tx_local_push (te_sys (ce_tx env)) tw fq h (if pull then y else x) (if pull then x else y) z
            (cm_L c) (cm_all c) (cm_tail c) (cm_send c) (cm_flags c) (Some ctx_zero) fs = Some (err, fs', rc) \<and>
          (st = 0 \<longleftrightarrow> err = RM_ERR_OK)
        else if pull then st = 0 \<and> fs' = fs
        else fs' = fs \<and> (\<exists>res t. rm_tx_remote_push te tw fq h x y z (cm_L c) (cm_all c) (cm_tail c) (cm_send c)
            (cm_flags c) (Some ctx_zero) fs = Some (res, t) \<and> (st = 0 \<longleftrightarrow> res = 0))"
proof (cases "cmd_parse opts args")
  case (Inl e)
  then have "st = e mod 256" "fs' = fs" using assms by (auto simp: cmd_main_def)
  with Inl cmd_parse_status [OF Inl] show ?thesis by simp
next
  case (Inr c)
  then obtain r where r: "cmd_request env tw fq h c fs = Some (r, fs')" "st = r mod 256"
    using assms by (auto simp: cmd_main_def)
  have addr: "cm_flags c AND RM_BIT_5 = 0 \<longleftrightarrow> cm_addr c = None" by (rule cmd_parse_addr [OF Inr])
  note zero = cmd_result_zero [of local_errors] cmd_result_zero [of remote_errors]
  note run = r(1) [unfolded cmd_request_def Let_def chdir_umask_nothing fst_conv]
  consider (push) "cm_addr c = None" "cm_flags c AND RM_BIT_0 = 0" | (pull) "cm_addr c = None" "cm_flags c AND RM_BIT_0 \<noteq> 0"
    | (remote) "cm_addr c \<noteq> None" "cm_flags c AND RM_BIT_0 = 0" | (nothing) "cm_addr c \<noteq> None" "cm_flags c AND RM_BIT_0 \<noteq> 0"
    by blast
  then show ?thesis
  proof cases
    case push
    with run addr r(2) zero show ?thesis unfolding Inr sum.case Let_def by auto
  next
    case pull
    with run addr r(2) zero show ?thesis unfolding Inr sum.case Let_def by auto
  next
    case remote
    with run addr r(2) zero show ?thesis unfolding Inr sum.case Let_def by auto
  next
    case nothing
    with run addr r(2) show ?thesis unfolding Inr sum.case Let_def by auto
  qed
qed

text \<open>The command line for two local files.\<close>

definition local_opts :: "string \<Rightarrow> string \<Rightarrow> bool \<Rightarrow> cmd_opt list" where
  "local_opts x y leave = [Opt_X x, Opt_Y y] @ (if leave then [Opt_Leave] else [])"

definition local_cmd :: "string \<Rightarrow> string \<Rightarrow> bool \<Rightarrow> bool \<Rightarrow> cmd" where
  "local_cmd x y leave pull =
     cmd_init\<lparr>cm_flags := 6 OR (if leave then 64 else 0) OR (if pull then 1 else 0), cm_x := x, cm_y := y, cm_xp := True,
       cm_yp := True, cm_send := RM_DEFAULT_L, cm_timeout_s := RM_DEFAULT_TCP_CONNECT_TIMEOUT_S\<rparr>"

lemma cmd_parse_local:
  assumes "length x < RM_FILE_LEN_MAX" and "length y < RM_FILE_LEN_MAX" and "x \<noteq> []" and "y \<noteq> []"
  shows "cmd_parse (local_opts x y leave) [if pull then ''pull'' else ''push''] = Inr (local_cmd x y leave pull)"
proof -
  have n: "cmd_set_name x c = Inr c" "cmd_set_name y c = Inr c" for c
    using assms(1,2) by (simp_all add: cmd_set_name_def RM_FILE_LEN_MAX_def)
  have o: "cmd_options (local_opts x y leave) cmd_init =
      Inr (cmd_init\<lparr>cm_flags := 6 OR (if leave then 64 else 0), cm_x := x, cm_y := y, cm_xp := True, cm_yp := True\<rparr>)"
    by (simp add: local_opts_def n cmd_init_def flag_defs)
  show ?thesis
    using assms(3,4) unfolding cmd_parse_def o
    by (cases leave; cases pull)
      (simp_all add: cmd_then_def cmd_command_def cmd_names_def cmd_sizes_def cmd_defaults_def local_cmd_def cmd_init_def
        flag_defs RM_DEFAULT_L_def RM_DEFAULT_TCP_CONNECT_TIMEOUT_US_def)
qed

text \<open>A process on which every call of \<open>RM_Util\<close> succeeds.\<close>

definition sample_util :: util_env where
  "sample_util = \<lparr>ue_time = None, ue_usec = 0, ue_mem = True, ue_fopen = (\<lambda>_. True), ue_freopen = (\<lambda>_. True),
     ue_chdir = (\<lambda>_. True), ue_fork = 0, ue_setsid = True, ue_fork2 = 0\<rparr>"

definition sample_process :: util_proc where
  "sample_process = \<lparr>up_files = (\<lambda>_. None), up_cwd = None, up_stdout = None, up_stderr = None, up_fds = {}\<rparr>"

theorem exit_status_tells_witness:
  "\<exists>err rc. cmd_main \<lparr>ce_connect = \<lambda>_ _ _ _. (RM_ERR_FAIL, sample_sock [] []), ce_tx = sample_te,
      ce_util = sample_util, ce_proc = sample_process\<rparr> tw_lists fifo_lists (\<lambda>_. []) 6 (local_opts ''x'' ''y'' False) [''push''] (\<lambda>_. None) =
    Some (5, \<lambda>_. None) \<and>
   rm_tx_local_push (te_sys sample_te) tw_lists fifo_lists (\<lambda>_. []) (Some ''x'') (Some ''y'') None 512 0 0 512 6
     (Some ctx_zero) (\<lambda>_. None) = Some (err, \<lambda>_. None, rc) \<and> err \<noteq> RM_ERR_OK"
proof -
  let ?e = "\<lparr>ce_connect = \<lambda>_ _ _ _. (RM_ERR_FAIL, sample_sock [] []), ce_tx = sample_te, ce_util = sample_util, ce_proc = sample_process\<rparr>"
  have p: "cmd_parse (local_opts ''x'' ''y'' False) [''push''] = Inr (local_cmd ''x'' ''y'' False False)"
    using cmd_parse_local [of "''x''" "''y''" False False] by (simp add: RM_FILE_LEN_MAX_def)
  have l: "cm_xp (local_cmd ''x'' ''y'' False False)" "cm_x (local_cmd ''x'' ''y'' False False) = ''x''"
    "cm_yp (local_cmd ''x'' ''y'' False False)" "cm_y (local_cmd ''x'' ''y'' False False) = ''y''"
    "\<not> cm_zp (local_cmd ''x'' ''y'' False False)" "cm_L (local_cmd ''x'' ''y'' False False) = 512"
    "cm_send (local_cmd ''x'' ''y'' False False) = 512" "cm_all (local_cmd ''x'' ''y'' False False) = 0"
    "cm_tail (local_cmd ''x'' ''y'' False False) = 0" "cm_flags (local_cmd ''x'' ''y'' False False) = 6"
    "cm_addr (local_cmd ''x'' ''y'' False False) = None"
    by (simp_all add: local_cmd_def cmd_init_def RM_DEFAULT_L_def)
  have run: "cmd_main ?e tw_lists fifo_lists (\<lambda>_. []) 6 (local_opts ''x'' ''y'' False) [''push''] (\<lambda>_. None) = Some (5, \<lambda>_. None)"
    by (simp add: cmd_main_def p cmd_request_def l cmd_name_def chdir_umask_nothing Let_def flag_defs rm_tx_local_push_def
        fopen_rb_def cmd_result_def local_errors_def err_code_def)
  from exit_status_tells [OF run] run show ?thesis by (simp add: p l cmd_name_def Let_def flag_defs)
qed

text \<open>
  C4. The tool on two existing local files, when the calls of the operating system succeed, the checksums of blocks of
  512 bytes tell the files apart, and the file that is replaced begins with the other if one of its blocks is all of
  the other, which is a condition only if that has at most 512 bytes: \<open>push\<close> makes \<open>y\<close> the same as \<open>x\<close>, \<open>pull\<close> makes \<open>x\<close> the same as \<open>y\<close>, the exit
  status is 0 and no other file has changed, under every schedule of the threads. With \<open>--leave\<close> and
  no name for the result, which the tool means to refuse, the same happens: the file that was to stay is overwritten.
\<close>

theorem command_syncs_local_files:
  assumes "env_healthy (te_sys (ce_tx env))" and "fifo_ok fq" and "twhash_ok tw" and "\<forall>b. tw_bucket tw h b = []"
    and "length x < RM_FILE_LEN_MAX" and "length y < RM_FILE_LEN_MAX" and "x \<noteq> []" and "y \<noteq> []"
    and "(src, dst) = (if pull then (y, x) else (x, y))" and "dst \<noteq> pe_tmp (te_sys (ce_tx env))"
    and "fs src = Some sb" and "fs dst = Some db" and "length sb < off_max" and "length db < off_max"
    and "no_collision 512 sb db" and "zero_diff_safe 512 sb db" and "2 \<le> argc"
  shows "cmd_main env tw fq h argc (local_opts x y leave) [if pull then ''pull'' else ''push''] fs =
    Some (0, fs(pe_tmp (te_sys (ce_tx env)) := None, dst := Some sb))"
proof -
  let ?c = "local_cmd x y leave pull" and ?env = "te_sys (ce_tx env)"
  have l: "cm_xp ?c" "cm_x ?c = x" "cm_yp ?c" "cm_y ?c = y" "\<not> cm_zp ?c" "cm_L ?c = 512" "cm_send ?c = 512"
    "cm_flags ?c AND RM_BIT_5 = 0" "cm_flags ?c AND RM_BIT_0 = 0 \<longleftrightarrow> \<not> pull"
    by (auto simp: local_cmd_def cmd_init_def RM_DEFAULT_L_def flag_defs)
  have "(512 :: nat) < off_max" by (simp add: off_max_def)
  from local_push_ok [OF assms(1-4,11-14) _ this _ assms(15,16,10) _ assms(10), of 512 None "cm_all ?c" "cm_tail ?c"
      "cm_flags ?c" ctx_zero]
  obtain c where "rm_tx_local_push ?env tw fq h (Some src) (Some dst) None 512 (cm_all ?c) (cm_tail ?c) 512 (cm_flags ?c)
      (Some ctx_zero) fs = Some (RM_ERR_OK, fs(pe_tmp ?env := None, dst := Some sb), Some c)"
    using assms(10) by (auto simp: fun_upd_twist split: if_splits)
  with l assms(9,17) show ?thesis
    by (auto simp: cmd_main_def cmd_parse_local [OF assms(5-8)] cmd_request_def cmd_name_def chdir_umask_nothing Let_def
        cmd_result_def split: if_splits)
qed

theorem command_syncs_local_files_witness:
  "cmd_main \<lparr>ce_connect = \<lambda>_ _ _ _. (RM_ERR_FAIL, sample_sock [] []),
       ce_tx = sample_te\<lparr>te_sys := sample_env [Producer_Turn, Consumer_Turn]\<rparr>, ce_util = sample_util, ce_proc = sample_process\<rparr>
     tw_lists fifo_lists (\<lambda>_. []) 6 (local_opts ''x'' ''y'' True) [''push''] [''x'' \<mapsto> [2, 1], ''y'' \<mapsto> []] =
   Some (0, [''x'' \<mapsto> [2, 1], ''y'' \<mapsto> [2, 1]])"
proof -
  have "no_collision 512 [2, 1] []" "zero_diff_safe 512 [2, 1] []"
    by (simp_all add: no_collision_def zero_diff_safe_def nblocks_def)
  from command_syncs_local_files [OF _ fifo_lists_ok tw_lists_ok _ _ _ _ _ _ _ _ _ _ _ this, where x = "''x''" and y = "''y''"
      and src = "''x''" and dst = "''y''" and pull = False and leave = True and h = "\<lambda>_. []" and argc = 6
      and fs = "[''x'' \<mapsto> [2, 1], ''y'' \<mapsto> []]" and env = "\<lparr>ce_connect = \<lambda>_ _ _ _. (RM_ERR_FAIL, sample_sock [] []),
       ce_tx = sample_te\<lparr>te_sys := sample_env [Producer_Turn, Consumer_Turn]\<rparr>, ce_util = sample_util, ce_proc = sample_process\<rparr>"]
  show ?thesis
    using sample_env_healthy [of "[Producer_Turn, Consumer_Turn]"]
    by (simp add: tw_lists_def RM_FILE_LEN_MAX_def off_max_def sample_env_def fun_upd_twist)
qed

end
