(* ===== verification/RM_Connect.thy ===== *)
theory RM_Connect
  imports RM_Tcp
begin

text \<open>
  Connecting and listening, the second half of \<^verbatim>\<open>src/rm_tcp.c\<close>, on a table of descriptors: which one is connected to
  which address, whether it blocks, and which ones are left open.
\<close>

section \<open>Descriptors\<close>

record 'a sockfd =
  sf_block :: bool
  sf_peer :: "'a option"
  sf_port :: "u16 option"

type_synonym 'a fds = "int \<Rightarrow> 'a sockfd option"

definition fd_new :: "'a sockfd" where
  "fd_new = \<lparr>sf_block = True, sf_peer = None, sf_port = None\<rparr>"

definition fd_close :: "int \<Rightarrow> 'a fds \<Rightarrow> 'a fds" where
  "fd_close fd f = f(fd := None)"

definition fd_connect :: "int \<Rightarrow> 'a \<Rightarrow> 'a fds \<Rightarrow> 'a fds" where
  "fd_connect fd a f = f(fd := map_option (\<lambda>s. s\<lparr>sf_peer := Some a\<rparr>) (f fd))"

text \<open>\<open>fcntl\<close> fails for a descriptor that is not open.\<close>

definition rm_tcp_set_socket_blocking_mode :: "int \<Rightarrow> nat \<Rightarrow> 'a fds \<Rightarrow> int \<times> 'a fds" where
  "rm_tcp_set_socket_blocking_mode fd on f =
     (if fd < 0 \<or> 1 < on then (- 1, f)
      else case f fd of None \<Rightarrow> (- 2, f) | Some s \<Rightarrow> (0, f(fd := Some (s\<lparr>sf_block := (on \<noteq> 0)\<rparr>))))"

section \<open>Connecting\<close>

text \<open>The error numbers of the system that the code looks at.\<close>

definition EINTR :: int where "EINTR = 4"
definition ECONNREFUSED :: int where "ECONNREFUSED = 111"
definition EHOSTUNREACH :: int where "EHOSTUNREACH = 113"
definition EINPROGRESS :: int where "EINPROGRESS = 115"

text \<open>
  Waiting for one descriptor with \<open>select\<close>, a function of the bound, the two sets of descriptors and the time; \<open>None\<close> stands
  for a number that is no direction.
\<close>

datatype rm_io_direction = RM_READ | RM_WRITE

definition rm_core_select ::
    "(int \<Rightarrow> int set \<Rightarrow> int set \<Rightarrow> u16 \<times> u16 \<Rightarrow> int) \<Rightarrow> int \<Rightarrow> rm_io_direction option \<Rightarrow> u16 \<Rightarrow> u16 \<Rightarrow> int" where
  "rm_core_select select fd dir timeout_s timeout_us =
     (case dir of
        Some RM_READ \<Rightarrow> select (fd + 1) {fd} {} (timeout_s, timeout_us)
      | Some RM_WRITE \<Rightarrow> select (fd + 1) {} {fd} (timeout_s, timeout_us)
      | None \<Rightarrow> - 1)"

text \<open>
  An address that \<open>getaddrinfo\<close> gives, with the answers of the calls on it: \<open>socket\<close>, the error number of
  \<open>connect\<close> (0 when it succeeds at once), \<open>rm_core_select\<close> for writing, and \<open>SO_ERROR\<close>.
\<close>

record 'a attempt =
  at_addr :: 'a
  at_fd :: int
  at_connect :: int
  at_select :: int
  at_error :: int

definition connect_once :: "int \<Rightarrow> 'a attempt \<Rightarrow> 'a fds \<Rightarrow> rm_error \<times> 'a fds" where
  "connect_once fd a f =
     (let f1 = snd (rm_tcp_set_socket_blocking_mode fd 0 f) in
      if at_connect a = 0 then (RM_ERR_OK, fd_connect fd (at_addr a) f1)
      else if at_connect a \<noteq> EINPROGRESS \<and> at_connect a \<noteq> EINTR then (RM_ERR_FAIL, f1)
      else if at_select a = ECONNREFUSED then (RM_ERR_CONNECT_REFUSED, f1)
      else
        let err = (if at_select a = - 1 then RM_ERR_FAIL
                   else if 0 < at_select a then
                     if at_error a = 0 then RM_ERR_OK
                     else if at_error a = ECONNREFUSED then RM_ERR_CONNECT_REFUSED
                     else if at_error a = EHOSTUNREACH then RM_ERR_CONNECT_HOSTUNREACH
                     else RM_ERR_FAIL
                   else RM_ERR_CONNECT_TIMEOUT);
            f2 = (if err = RM_ERR_OK then fd_connect fd (at_addr a) f1 else f1)
        in (err, snd (rm_tcp_set_socket_blocking_mode fd 1 f2)))"

text \<open>The two functions differ in where the address comes from.\<close>

definition rm_tcp_connect_nonblock_timeout_once :: "int \<Rightarrow> 'a attempt \<Rightarrow> 'a fds \<Rightarrow> rm_error \<times> 'a fds" where
  "rm_tcp_connect_nonblock_timeout_once = connect_once"

definition rm_tcp_connect_nonblock_timeout_once_sockaddr :: "int \<Rightarrow> 'a attempt \<Rightarrow> 'a fds \<Rightarrow> rm_error \<times> 'a fds" where
  "rm_tcp_connect_nonblock_timeout_once_sockaddr = connect_once"

definition connect_error :: "rm_error \<Rightarrow> rm_error" where
  "connect_error e =
     (if e = RM_ERR_CONNECT_TIMEOUT \<or> e = RM_ERR_CONNECT_REFUSED \<or> e = RM_ERR_CONNECT_HOSTUNREACH then e
      else RM_ERR_CONNECT_GEN_ERR)"

text \<open>The loop over the addresses; \<open>fd\<close> is the variable of the caller, and the error the last one noted.\<close>

fun connect_loop :: "'a attempt list \<Rightarrow> rm_error \<Rightarrow> int \<Rightarrow> 'a fds \<Rightarrow> rm_error \<times> int \<times> 'a fds" where
  "connect_loop [] errsave fd f = (errsave, fd, f)"
| "connect_loop (a # as) errsave fd f =
     (if at_fd a < 0 then connect_loop as errsave (at_fd a) f
      else case rm_tcp_connect_nonblock_timeout_once (at_fd a) a (f(at_fd a := Some fd_new)) of
        (err, f1) \<Rightarrow>
          if err = RM_ERR_OK then (RM_ERR_OK, at_fd a, f1)
          else connect_loop as (connect_error err) (at_fd a) (fd_close (at_fd a) f1))"

text \<open>\<open>None\<close>: the name could not be resolved.\<close>

definition rm_tcp_connect_nonblock_timeout ::
    "'a attempt list option \<Rightarrow> int \<Rightarrow> 'a fds \<Rightarrow> rm_error \<times> int \<times> 'a fds" where
  "rm_tcp_connect_nonblock_timeout res fd f =
     (case res of None \<Rightarrow> (RM_ERR_GETADDRINFO, fd, f) | Some as \<Rightarrow> connect_loop as RM_ERR_FAIL fd f)"

definition rm_tcp_connect_nonblock_timeout_sockaddr :: "'a attempt \<Rightarrow> 'a fds \<Rightarrow> rm_error \<times> int \<times> 'a fds" where
  "rm_tcp_connect_nonblock_timeout_sockaddr a f =
     (if at_fd a < 0 then (RM_ERR_FAIL, at_fd a, f)
      else case rm_tcp_connect_nonblock_timeout_once_sockaddr (at_fd a) a (f(at_fd a := Some fd_new)) of
        (err, f1) \<Rightarrow>
          if err \<noteq> RM_ERR_OK then (connect_error err, at_fd a, fd_close (at_fd a) f1) else (RM_ERR_OK, at_fd a, f1))"

text \<open>The blocking variants, \<open>rm_core_connect\<close> for any type of socket.\<close>

fun blocking_loop :: "'a attempt list \<Rightarrow> int \<Rightarrow> 'a fds \<Rightarrow> rm_error \<times> int \<times> 'a fds" where
  "blocking_loop [] fd f = (RM_ERR_FAIL, fd, f)"
| "blocking_loop (a # as) fd f =
     (if at_fd a < 0 then blocking_loop as (at_fd a) f
      else if at_connect a = 0 then (RM_ERR_OK, at_fd a, fd_connect (at_fd a) (at_addr a) (f(at_fd a := Some fd_new)))
      else blocking_loop as (at_fd a) (fd_close (at_fd a) (f(at_fd a := Some fd_new))))"

definition rm_tcp_connect :: "'a attempt list option \<Rightarrow> int \<Rightarrow> 'a fds \<Rightarrow> rm_error \<times> int \<times> 'a fds" where
  "rm_tcp_connect res fd f = (case res of None \<Rightarrow> (RM_ERR_GETADDRINFO, fd, f) | Some as \<Rightarrow> blocking_loop as fd f)"

definition rm_core_connect :: "'a attempt list option \<Rightarrow> int \<Rightarrow> 'a fds \<Rightarrow> rm_error \<times> int \<times> 'a fds" where
  "rm_core_connect res fd f = (case res of None \<Rightarrow> (RM_ERR_GETADDRINFO, fd, f) | Some as \<Rightarrow> blocking_loop as fd f)"

section \<open>Listening\<close>

text \<open>
  The answers: \<open>socket\<close>, and whether \<open>setsockopt\<close>, \<open>bind\<close> and \<open>listen\<close> succeed on an open descriptor; on one
  that is not they fail. \<open>getsockname\<close> gives the port the system has chosen.
\<close>

record listen_env =
  le_fd :: int
  le_setsockopt :: bool
  le_bind :: bool
  le_listen :: bool
  le_port :: "u16 option"

text \<open>The result, the variable for the descriptor, the variable for the port, and the descriptors.\<close>

definition rm_tcp_listen ::
    "listen_env \<Rightarrow> int \<Rightarrow> u16 \<Rightarrow> bool \<Rightarrow> 'a fds \<Rightarrow> int \<times> int \<times> u16 \<times> 'a fds" where
  "rm_tcp_listen env listen_fd port reuseaddr f =
     (let fd = le_fd env; f1 = (if fd < 0 then f else f(fd := Some fd_new)) in
      if reuseaddr \<and> (fd < 0 \<or> \<not> le_setsockopt env) then (- 1, listen_fd, port, f1)
      else if fd < 0 \<or> \<not> le_bind env then (- 1, listen_fd, port, f1)
      else if \<not> le_listen env then (- 1, listen_fd, port, f1)
      else if port = 0 then
        (case le_port env of
           None \<Rightarrow> (- 5555, fd, port, f1)
         | Some p \<Rightarrow> (0, fd, p, f1(fd := Some (fd_new\<lparr>sf_port := Some p\<rparr>))))
      else (0, fd, port, f1(fd := Some (fd_new\<lparr>sf_port := Some port\<rparr>))))"

section \<open>Lemmas\<close>

text \<open>An address accepts at once, or after the wait.\<close>

definition at_once :: "'a attempt \<Rightarrow> bool" where
  "at_once a \<longleftrightarrow> at_connect a = 0"

definition accepts :: "'a attempt \<Rightarrow> bool" where
  "accepts a \<longleftrightarrow> 0 \<le> at_fd a \<and> (at_once a \<or>
     (at_connect a = EINPROGRESS \<or> at_connect a = EINTR) \<and> 0 < at_select a \<and> at_select a \<noteq> ECONNREFUSED \<and> at_error a = 0)"

lemma connect_once_new:
  assumes "0 \<le> at_fd a"
  shows "if accepts a
    then connect_once (at_fd a) a (f(at_fd a := Some fd_new)) =
      (RM_ERR_OK, f(at_fd a := Some \<lparr>sf_block = \<not> at_once a, sf_peer = Some (at_addr a), sf_port = None\<rparr>))
    else \<exists>e s. e \<noteq> RM_ERR_OK \<and> connect_once (at_fd a) a (f(at_fd a := Some fd_new)) = (e, f(at_fd a := Some s))"
  using assms
  by (auto simp: connect_once_def rm_tcp_set_socket_blocking_mode_def fd_connect_def fd_new_def accepts_def at_once_def
      Let_def EINPROGRESS_def EINTR_def ECONNREFUSED_def)

lemma connect_error_not_OK [simp]: "connect_error e \<noteq> RM_ERR_OK"
  by (auto simp: connect_error_def)

text \<open>The first address that accepts is taken; otherwise nothing is left open.\<close>

lemma connect_loop_result:
  assumes "\<forall>a\<in>set as. at_fd a < 0 \<or> f (at_fd a) = None" and "e \<noteq> RM_ERR_OK"
  shows "case find accepts as of
      Some a \<Rightarrow> connect_loop as e fd f = (RM_ERR_OK, at_fd a,
        f(at_fd a := Some \<lparr>sf_block = \<not> at_once a, sf_peer = Some (at_addr a), sf_port = None\<rparr>))
    | None \<Rightarrow> \<exists>e' fd'. connect_loop as e fd f = (e', fd', f) \<and> e' \<noteq> RM_ERR_OK \<and>
        fd' = (if as = [] then fd else at_fd (last as))"
  using assms
proof (induction as arbitrary: e fd)
  case (Cons a as)
  show ?case
  proof (cases "at_fd a < 0")
    case True
    then have "\<not> accepts a" by (simp add: accepts_def)
    with True Cons.IH [of e "at_fd a"] Cons.prems show ?thesis by (auto split: option.splits)
  next
    case False
    then have f: "f(at_fd a := None) = f" using Cons.prems(1) by auto
    show ?thesis
    proof (cases "accepts a")
      case True
      with False connect_once_new [of a f] show ?thesis by (simp add: rm_tcp_connect_nonblock_timeout_once_def)
    next
      case no: False
      with False connect_once_new [of a f] obtain e' s where "e' \<noteq> RM_ERR_OK"
          "connect_once (at_fd a) a (f(at_fd a := Some fd_new)) = (e', f(at_fd a := Some s))" by auto
      with no False f Cons.IH [of "connect_error e'" "at_fd a"] Cons.prems show ?thesis
        by (auto simp: rm_tcp_connect_nonblock_timeout_once_def fd_close_def split: option.splits)
    qed
  qed
qed simp

section \<open>Properties\<close>

text \<open>
  C38. Connecting with a timeout, whatever the calls answer: the first address that accepts in time is taken, and then its
  descriptor is the only new one; when none does the result is an error and no descriptor is left
  open. But a connection that is made at once, as on the same host, stays in nonblocking mode, in which the
  transfers of \<open>rm_tcp_read\<close> and \<open>rm_tcp_rx\<close> fail as soon as they would have to wait; and after a failure the
  caller's variable has the number of a descriptor that is closed already, which the sender's thread closes again.
\<close>

theorem connect_takes_first:
  assumes "\<forall>a\<in>set as. at_fd a < 0 \<or> f (at_fd a) = None" and "as \<noteq> []"
  shows "case find accepts as of
      Some a \<Rightarrow> rm_tcp_connect_nonblock_timeout (Some as) fd f = (RM_ERR_OK, at_fd a,
        f(at_fd a := Some \<lparr>sf_block = (at_connect a \<noteq> 0), sf_peer = Some (at_addr a), sf_port = None\<rparr>))
    | None \<Rightarrow> \<exists>e. rm_tcp_connect_nonblock_timeout (Some as) fd f = (e, at_fd (last as), f) \<and> e \<noteq> RM_ERR_OK \<and>
        (\<exists>e'. rm_tcp_connect_nonblock_timeout_sockaddr (last as) f = (e', at_fd (last as), f) \<and> e' \<noteq> RM_ERR_OK)"
proof (cases "find accepts as")
  case (Some a)
  with connect_loop_result [OF assms(1), of RM_ERR_FAIL fd] show ?thesis
    by (simp add: rm_tcp_connect_nonblock_timeout_def at_once_def)
next
  case None
  let ?a = "last as"
  have "\<not> accepts ?a" and f: "at_fd ?a < 0 \<or> f(at_fd ?a := None) = f"
    using None assms last_in_set [OF assms(2)] by (auto simp: find_None_iff intro: fun_upd_idem)
  then have "\<exists>e'. rm_tcp_connect_nonblock_timeout_sockaddr ?a f = (e', at_fd ?a, f) \<and> e' \<noteq> RM_ERR_OK"
    using connect_once_new [of ?a f]
    by (auto simp: rm_tcp_connect_nonblock_timeout_sockaddr_def rm_tcp_connect_nonblock_timeout_once_sockaddr_def fd_close_def)
  with None assms(2) connect_loop_result [OF assms(1), of RM_ERR_FAIL fd] show ?thesis
    by (auto simp: rm_tcp_connect_nonblock_timeout_def)
qed

theorem connect_takes_first_witness:
  "rm_tcp_connect_nonblock_timeout (Some [\<lparr>at_addr = ''a'', at_fd = 3, at_connect = ECONNREFUSED, at_select = 0, at_error = 0\<rparr>,
      \<lparr>at_addr = ''b'', at_fd = 3, at_connect = EINPROGRESS, at_select = 1, at_error = 0\<rparr>]) (- 1) (\<lambda>_. None) =
    (RM_ERR_OK, 3, [3 \<mapsto> \<lparr>sf_block = True, sf_peer = Some ''b'', sf_port = None\<rparr>])"
  using connect_takes_first [of "[\<lparr>at_addr = ''a'', at_fd = 3, at_connect = ECONNREFUSED, at_select = 0, at_error = 0\<rparr>,
      \<lparr>at_addr = ''b'', at_fd = 3, at_connect = EINPROGRESS, at_select = 1, at_error = 0\<rparr>]" "\<lambda>_. None" "- 1"]
  by (simp add: accepts_def at_once_def ECONNREFUSED_def EINPROGRESS_def EINTR_def)

text \<open>
  Listening: it succeeds exactly when every call does, and then the descriptor returned is the only new one and listens on the
  port given, or on the one chosen by the system if that was 0. A failure that comes after \<open>socket\<close> leaves
  the descriptor open, and its result is a number that is no error of the program: sent as the status
  byte of an acknowledgement it is 255, which stands for nothing, or that of \<open>RM_ERR_BUSY\<close>.
\<close>

theorem listen_result:
  assumes "0 \<le> le_fd env"
  shows "case rm_tcp_listen env lfd port reuse f of (r, lfd', port', f') \<Rightarrow>
    (r = 0 \<longleftrightarrow> (reuse \<longrightarrow> le_setsockopt env) \<and> le_bind env \<and> le_listen env \<and> (port = 0 \<longrightarrow> le_port env \<noteq> None)) \<and>
    (if r = 0 then lfd' = le_fd env \<and> (port \<noteq> 0 \<longrightarrow> port' = port) \<and> (port = 0 \<longrightarrow> le_port env = Some port') \<and>
        f' = f(le_fd env \<mapsto> \<lparr>sf_block = True, sf_peer = None, sf_port = Some port'\<rparr>)
     else f' = f(le_fd env \<mapsto> \<lparr>sf_block = True, sf_peer = None, sf_port = None\<rparr>) \<and>
        (of_int r = (255 :: u8) \<and> rm_error_of_code 255 = None \<or> of_int r = (of_nat (rm_error_code RM_ERR_BUSY) :: u8)))"
proof -
  have "rm_error_of_code 255 = None" by (simp add: rm_error_of_code_def)
  then show ?thesis
    using assms by (auto simp: rm_tcp_listen_def Let_def fd_new_def split: option.splits)
qed

theorem listen_result_witness:
  "rm_tcp_listen \<lparr>le_fd = 5, le_setsockopt = True, le_bind = True, le_listen = True, le_port = Some 40000\<rparr> (- 1) 0 False
      (\<lambda>_. None :: nat sockfd option) = (0, 5, 40000, [5 \<mapsto> \<lparr>sf_block = True, sf_peer = None, sf_port = Some 40000\<rparr>])"
  using listen_result [where env = "\<lparr>le_fd = 5, le_setsockopt = True, le_bind = True, le_listen = True, le_port = Some 40000\<rparr>"
      and f = "\<lambda>_. None :: nat sockfd option" and lfd = "- 1" and port = 0 and reuse = False]
  by (simp add: rm_tcp_listen_def Let_def)

end
