(* ===== verification/RM_Life.thy ===== *)
theory RM_Life
  imports RM_Daemon "HOL-Library.Multiset"
begin

text \<open>
  What is allocated and released: messages and acknowledgements (\<^verbatim>\<open>src/rm_do_msg.c\<close>), sessions with their
  private parts (\<^verbatim>\<open>src/rm_session.c\<close>), work items and work queues (\<^verbatim>\<open>src/rm_wq.c\<close>), with the two
  handlers of pull requests, which do no more than create a session.
\<close>

section \<open>Memory and descriptors\<close>

text \<open>
  The live blocks by what they hold, and the descriptors closed so far. The second line is what a push owns: its streams,
  the connection to the receiver, the entries of the table of checksums, delta elements and their literal bytes, the
  serialized request and the buffer of the acknowledgement.
\<close>

datatype block =
    B_Session | B_Prvt | B_Msg | B_Hdr | B_Ack | B_Work | B_Wq | B_Workers | B_Name
  | B_Stream_X | B_Stream_Y | B_Stream_Z | B_Control | B_Node | B_Elem | B_Bytes | B_Window | B_Raw | B_Buf

record resources =
  rs_live :: "block multiset"
  rs_closed :: "int list"

definition r_alloc :: "block \<Rightarrow> resources \<Rightarrow> resources" where
  "r_alloc b r = r\<lparr>rs_live := add_mset b (rs_live r)\<rparr>"

text \<open>\<open>None\<close>: freeing what is not allocated.\<close>

definition r_free :: "block \<Rightarrow> resources \<Rightarrow> resources option" where
  "r_free b r = (if b \<in># rs_live r then Some (r\<lparr>rs_live := rs_live r - {#b#}\<rparr>) else None)"

definition r_close :: "int \<Rightarrow> resources \<Rightarrow> resources" where
  "r_close fd r = (if 0 \<le> fd then r\<lparr>rs_closed := rs_closed r @ [fd]\<rparr> else r)"

section \<open>Messages\<close>

definition rm_msg_push_alloc :: "bool \<Rightarrow> resources \<Rightarrow> rm_error \<times> resources" where
  "rm_msg_push_alloc mem r = (if mem then (RM_ERR_OK, r_alloc B_Hdr r) else (RM_ERR_FAIL, r))"

definition rm_msg_push_free :: "resources \<Rightarrow> resources option" where
  "rm_msg_push_free r = Option.bind (r_free B_Hdr r) (r_free B_Msg)"

definition rm_msg_ack_alloc :: "bool \<Rightarrow> resources \<Rightarrow> rm_error \<times> resources" where
  "rm_msg_ack_alloc mem r = (if mem then (RM_ERR_OK, r_alloc B_Hdr r) else (RM_ERR_FAIL, r))"

definition rm_msg_ack_free :: "resources \<Rightarrow> resources option" where
  "rm_msg_ack_free r = Option.bind (r_free B_Hdr r) (r_free B_Ack)"

definition rm_msg_push_ack_alloc :: "bool \<Rightarrow> rm_msg_push_ack \<Rightarrow> resources \<Rightarrow> rm_error \<times> rm_msg_push_ack \<times> resources" where
  "rm_msg_push_ack_alloc mem ack r =
     (case rm_msg_ack_alloc mem r of
        (e, r1) \<Rightarrow> if e \<noteq> RM_ERR_OK then (RM_ERR_FAIL, ack, r1) else (RM_ERR_OK, ack\<lparr>a_delta_port := 0\<rparr>, r1))"

definition rm_msg_push_ack_free :: "resources \<Rightarrow> resources option" where
  "rm_msg_push_ack_free r = Option.bind (r_free B_Hdr r) (r_free B_Ack)"

section \<open>Sessions\<close>

text \<open>
  The private part, whatever its type: whether it holds a message, its descriptors, the callback of the consumer
  of delta elements, and the elements still in its queue.
\<close>

datatype delta_rx_f = Rx_Process_Delta_Element | Rx_Tx_Delta_Element

record prvt =
  pv_msg :: bool
  pv_fd :: int
  pv_ch_ch_fd :: int
  pv_delta_fd :: int
  pv_delta_rx_f :: "delta_rx_f option"
  pv_queue :: "rm_delta_e list"

definition prvt_zero :: prvt where
  "prvt_zero = \<lparr>pv_msg = False, pv_fd = 0, pv_ch_ch_fd = 0, pv_delta_fd = 0, pv_delta_rx_f = None, pv_queue = []\<rparr>"

definition rm_session_push_rx_init :: prvt where
  "rm_session_push_rx_init = prvt_zero\<lparr>pv_fd := - 1, pv_ch_ch_fd := - 1, pv_delta_fd := - 1\<rparr>"

definition rm_session_push_local_init :: prvt where
  "rm_session_push_local_init = prvt_zero\<lparr>pv_delta_rx_f := Some Rx_Process_Delta_Element\<rparr>"

definition rm_session_push_tx_init :: prvt where
  "rm_session_push_tx_init = rm_session_push_local_init\<lparr>pv_delta_rx_f := Some Rx_Tx_Delta_Element\<rparr>"

record life_session =
  ls_type :: rm_session_type
  ls_id :: bytes
  ls_prvt :: prvt

text \<open>\<open>mem\<close>: whether the two allocations succeed; \<open>uuid\<close>: the 16 bytes of a fresh identifier.\<close>

definition rm_session_create ::
    "rm_session_type \<Rightarrow> bool \<times> bool \<Rightarrow> bytes \<Rightarrow> resources \<Rightarrow> (life_session option \<times> resources) option" where
  "rm_session_create t mem uuid r =
     (if \<not> fst mem then Some (None, r)
      else
        let r1 = r_alloc B_Session r;
            init = (case t of
                RM_PUSH_RX \<Rightarrow> Some rm_session_push_rx_init
              | RM_PULL_RX \<Rightarrow> Some prvt_zero
              | RM_PUSH_TX \<Rightarrow> Some rm_session_push_tx_init
              | RM_PUSH_LOCAL \<Rightarrow> Some rm_session_push_local_init
              | _ \<Rightarrow> None)
        in (case init of
              None \<Rightarrow> map_option (Pair None) (r_free B_Session r1)
            | Some p \<Rightarrow>
                if \<not> snd mem then map_option (Pair None) (r_free B_Session r1)
                else Some (Some \<lparr>ls_type = t, ls_id = take RM_UUID_LEN uuid, ls_prvt = p\<rparr>, r_alloc B_Prvt r1)))"

definition rm_session_push_rx_free :: "prvt \<Rightarrow> resources \<Rightarrow> resources option" where
  "rm_session_push_rx_free p r =
     Option.bind (if pv_msg p then rm_msg_push_free r else Some r)
       (\<lambda>r1. r_free B_Prvt (r_close (pv_fd p) (r_close (pv_delta_fd p) r1)))"

text \<open>Elements left in the queue are reported and lost.\<close>

definition rm_session_push_local_free :: "prvt \<Rightarrow> resources \<Rightarrow> resources option" where
  "rm_session_push_local_free p r = r_free B_Prvt r"

definition rm_session_push_tx_free :: "prvt \<Rightarrow> resources \<Rightarrow> resources option" where
  "rm_session_push_tx_free p r = r_free B_Prvt r"

definition rm_session_free :: "life_session \<Rightarrow> resources \<Rightarrow> resources option" where
  "rm_session_free s r =
     Option.bind
       (case ls_type s of
          RM_PUSH_RX \<Rightarrow> rm_session_push_rx_free (ls_prvt s) r
        | RM_PULL_RX \<Rightarrow> Some r
        | RM_PUSH_TX \<Rightarrow> rm_session_push_tx_free (ls_prvt s) r
        | RM_PUSH_LOCAL \<Rightarrow> rm_session_push_local_free (ls_prvt s) r
        | _ \<Rightarrow> Some r)
       (r_free B_Session)"

section \<open>Pull requests\<close>

text \<open>The session of a table entry, with its address.\<close>

definition life_core :: "u64 \<Rightarrow> life_session \<Rightarrow> core_session" where
  "life_core addr s = \<lparr>cs_id = ls_id s, cs_hash = replicate 16 0, cs_addr = addr, cs_hashed_hash = 0\<rparr>"

definition pull_session ::
    "rm_session_type \<Rightarrow> 'h sess_table \<Rightarrow> bool \<times> bool \<Rightarrow> bytes \<Rightarrow> u64 \<Rightarrow> 'h rsyncme \<Rightarrow> resources \<Rightarrow>
     (int \<times> 'h rsyncme \<times> resources) option" where
  "pull_session t st mem uuid addr rm r =
     map_option (\<lambda>(s, r1). case s of
         None \<Rightarrow> (- 1, rm, r1)
       | Some s \<Rightarrow> (0, rm_core_session_add st rm (life_core addr s), r1))
       (rm_session_create t mem uuid r)"

definition rm_do_msg_pull_tx ::
    "'h sess_table \<Rightarrow> bool \<times> bool \<Rightarrow> bytes \<Rightarrow> u64 \<Rightarrow> 'h rsyncme \<Rightarrow> resources \<Rightarrow> (int \<times> 'h rsyncme \<times> resources) option" where
  "rm_do_msg_pull_tx = pull_session RM_PULL_TX"

definition rm_do_msg_pull_rx ::
    "'h sess_table \<Rightarrow> bool \<times> bool \<Rightarrow> bytes \<Rightarrow> u64 \<Rightarrow> 'h rsyncme \<Rightarrow> resources \<Rightarrow> (int \<times> 'h rsyncme \<times> resources) option" where
  "rm_do_msg_pull_rx = pull_session RM_PULL_RX"

text \<open>The names of the pull message, as it arrived; the request is never accepted.\<close>

definition rm_session_assign_from_msg_pull :: "bytes \<Rightarrow> u16 \<Rightarrow> rm_error \<times> bytes" where
  "rm_session_assign_from_msg_pull y y_sz = (RM_ERR_FAIL, rm_md5 (take (unat y_sz) y))"

section \<open>Work items and queues\<close>

text \<open>\<open>has_msg\<close>: the item still owns its message; the block of its header is not freed here.\<close>

definition rm_work_free :: "bool \<Rightarrow> resources \<Rightarrow> resources option" where
  "rm_work_free has_msg r = Option.bind (if has_msg then r_free B_Msg r else Some r) (r_free B_Work)"

text \<open>
  \<open>rm_wq_workqueue_deinit\<close> frees the name, and the workers only if it finds every one stopped with an empty queue, and
  \<open>rm_wq_workqueue_free\<close> does not look at its result.
\<close>

definition rm_wq_workqueue_free :: "(rm_work, 'f) twfifo \<Rightarrow> 'f rm_workqueue \<Rightarrow> resources \<Rightarrow> resources option" where
  "rm_wq_workqueue_free fq wq r =
     Option.bind (r_free B_Name r) (\<lambda>r1.
       Option.bind (if rm_wq_workqueue_deinit fq wq = RM_ERR_OK then r_free B_Workers r1 else Some r1) (r_free B_Wq))"

definition rm_wq_workqueue_create ::
    "(rm_work, 'f) twfifo \<Rightarrow> bool \<Rightarrow> bool \<Rightarrow> (nat \<Rightarrow> bool) \<Rightarrow> nat \<Rightarrow> resources \<Rightarrow>
     ('f rm_workqueue option \<times> resources) option" where
  "rm_wq_workqueue_create fq wq_mem workers_mem launch workers_n r =
     (if \<not> wq_mem then Some (None, r)
      else
        let r1 = r_alloc B_Wq r in
        (case rm_wq_workqueue_init fq workers_mem launch workers_n of
           (err, wq) \<Rightarrow>
             if err = RM_ERR_MEM then map_option (Pair None) (r_free B_Wq r1)
             else
               let r2 = r_alloc B_Name (r_alloc B_Workers r1) in
               if err = RM_ERR_WORKQUEUE_CREATE then map_option (Pair None) (rm_wq_workqueue_free fq wq r2)
               else Some (Some wq, r2)))"

section \<open>Lemmas\<close>

lemma r_free_alloc [simp]: "r_free b (r_alloc b r) = Some r"
  by (simp add: r_free_def r_alloc_def)

lemma r_live_alloc [simp]: "rs_live (r_alloc b r) = add_mset b (rs_live r)" "rs_closed (r_alloc b r) = rs_closed r"
  by (simp_all add: r_alloc_def)

lemma r_live_close [simp]: "rs_live (r_close fd r) = rs_live r"
    "rs_closed (r_close fd r) = rs_closed r @ (if 0 \<le> fd then [fd] else [])"
  by (simp_all add: r_close_def)

lemma r_free_Some:
  "b \<in># rs_live r \<Longrightarrow> r_free b r = Some \<lparr>rs_live = rs_live r - {#b#}, rs_closed = rs_closed r\<rparr>"
  by (simp add: r_free_def)

text \<open>Messages are released as they were allocated.\<close>

lemma msg_push_alloc_free: "rm_msg_push_alloc True (r_alloc B_Msg r) = (RM_ERR_OK, r1) \<Longrightarrow> rm_msg_push_free r1 = Some r"
  by (auto simp: rm_msg_push_alloc_def rm_msg_push_free_def)

lemma msg_ack_alloc_free: "rm_msg_ack_alloc True (r_alloc B_Ack r) = (RM_ERR_OK, r1) \<Longrightarrow> rm_msg_ack_free r1 = Some r"
  by (auto simp: rm_msg_ack_alloc_def rm_msg_ack_free_def)

lemma msg_push_ack_alloc_free:
  "rm_msg_push_ack_alloc True ack (r_alloc B_Ack r) = (RM_ERR_OK, ack', r1) \<Longrightarrow> rm_msg_push_ack_free r1 = Some r"
  by (auto simp: rm_msg_push_ack_alloc_def rm_msg_ack_alloc_def rm_msg_push_ack_free_def)

text \<open>A work item that still owns its message leaves the header of the message behind.\<close>

lemma work_free_leaks_header: "rm_work_free True (r_alloc B_Work (r_alloc B_Hdr (r_alloc B_Msg r))) = Some (r_alloc B_Hdr r)"
  by (simp add: rm_work_free_def r_free_def r_alloc_def)

lemma deinit_loop_idle:
  "\<forall>w\<in>set ws. \<not> w_busy w \<and> fq_list fq (w_queue w) = [] \<Longrightarrow> k \<le> length ws \<Longrightarrow> wq_deinit_loop fq k ws = RM_ERR_OK"
  by (induction k) (simp_all add: rm_wq_worker_deinit_def)

text \<open>A queue without a single worker is not created, and nothing of it is left.\<close>

lemma workqueue_create_fails:
  assumes "rm_wq_workqueue_create fq wq_mem workers_mem launch n r = Some (None, r')" and "fifo_ok fq" and "n < 2 ^ 32"
  shows "r' = r"
proof -
  obtain err wq where i: "rm_wq_workqueue_init fq workers_mem launch n = (err, wq)" by (metis surj_pair)
  consider "\<not> wq_mem" | "wq_mem" "err = RM_ERR_MEM" | "wq_mem" "err = RM_ERR_WORKQUEUE_CREATE"
    using assms(1) i by (auto simp: rm_wq_workqueue_create_def Let_def split: if_splits)
  then show ?thesis
  proof cases
    case 3
    then have mem: "workers_mem" using i by (cases workers_mem) (simp_all add: rm_wq_workqueue_init_def Let_def)
    let ?w = "\<lparr>wq_workers = [], wq_workers_n = of_nat n, wq_active_n = 0, wq_running = False, wq_first = 0, wq_next = 0\<rparr>"
    obtain b wq1 where l: "wq_launch fq launch n False ?w = (b, wq1)" by (metis surj_pair)
    have wq: "wq_workers wq = map (new_worker fq launch) [0..<n]" "wq_workers_n wq = of_nat n"
      using i mem l wq_launch_workers [OF l] by (auto simp: rm_wq_workqueue_init_def Let_def)
    have "rm_wq_workqueue_deinit fq wq = RM_ERR_OK"
      unfolding rm_wq_workqueue_deinit_def wq
      by (rule deinit_loop_idle)
        (use assms(2,3) in \<open>auto simp: new_worker_def rm_wq_worker_init_def fifo_simps take_bit_nat_eq_self unsigned_of_nat\<close>)
    with assms(1) i 3 show ?thesis
      by (simp add: rm_wq_workqueue_create_def Let_def rm_wq_workqueue_free_def)
  qed (use assms(1) i in \<open>auto simp: rm_wq_workqueue_create_def Let_def\<close>)
qed

text \<open>The pull handlers.\<close>

lemma pull_tx_never: "rm_do_msg_pull_tx st mem uuid addr rm r = Some (- 1, rm, r)"
  by (simp add: rm_do_msg_pull_tx_def pull_session_def rm_session_create_def Let_def)

lemma pull_rx_leaks:
  assumes "fst mem" and "snd mem"
  shows "\<exists>s. rm_do_msg_pull_rx st mem uuid addr rm r =
    Some (0, rm_core_session_add st rm s, r_alloc B_Prvt (r_alloc B_Session r))"
  using assms by (auto simp: rm_do_msg_pull_rx_def pull_session_def rm_session_create_def Let_def)

section \<open>Properties\<close>

text \<open>
  C39. The life of a session. Creating one fails exactly when an allocation does or the type is that of a transmitted pull,
  and then leaves nothing behind. A session is released, with whatever message and descriptors it has been given
  in between, together with its message; only the private part of a received pull stays allocated. The descriptors
  closed are those of the delta and of the control connection of a received push, if they are set, in this
  order; a transmitted push closes none, not even its connection to the receiver.
\<close>

theorem session_lifecycle:
  "\<exists>so r1. rm_session_create t mem uuid r = Some (so, r1) \<and>
    (so = None \<longleftrightarrow> \<not> fst mem \<or> \<not> snd mem \<or> t = RM_PULL_TX) \<and> (so = None \<longrightarrow> r1 = r) \<and>
    (\<forall>s p. so = Some s \<longrightarrow>
      rm_session_free (s\<lparr>ls_prvt := p\<rparr>)
          (if t = RM_PUSH_RX \<and> pv_msg p then r_alloc B_Hdr (r_alloc B_Msg r1) else r1) =
        Some \<lparr>rs_live = (if t = RM_PULL_RX then add_mset B_Prvt (rs_live r) else rs_live r),
          rs_closed = rs_closed r @ (if t = RM_PUSH_RX then filter (\<lambda>fd. 0 \<le> fd) [pv_delta_fd p, pv_fd p] else [])\<rparr>)"
  by (cases t; cases "fst mem"; cases "snd mem")
    (auto simp: rm_session_create_def Let_def rm_session_free_def rm_session_push_rx_free_def rm_session_push_tx_free_def
      rm_session_push_local_free_def rm_msg_push_free_def r_free_def r_alloc_def r_close_def)

theorem session_lifecycle_witness:
  "\<exists>s r1. rm_session_create RM_PUSH_RX (True, True) [] \<lparr>rs_live = {#}, rs_closed = []\<rparr> = Some (Some s, r1) \<and>
    rm_session_free (s\<lparr>ls_prvt := prvt_zero\<lparr>pv_delta_fd := 4, pv_fd := 7\<rparr>\<rparr>) r1 =
      Some \<lparr>rs_live = {#}, rs_closed = [4, 7]\<rparr>"
proof -
  let ?r = "\<lparr>rs_live = {#}, rs_closed = []\<rparr>" and ?p = "prvt_zero\<lparr>pv_delta_fd := 4, pv_fd := 7\<rparr>"
  obtain s r1 where "rm_session_create RM_PUSH_RX (True, True) [] ?r = Some (Some s, r1)"
      "\<And>p. rm_session_free (s\<lparr>ls_prvt := p\<rparr>) (if pv_msg p then r_alloc B_Hdr (r_alloc B_Msg r1) else r1) =
        Some \<lparr>rs_live = {#}, rs_closed = filter (\<lambda>fd. 0 \<le> fd) [pv_delta_fd p, pv_fd p]\<rparr>"
    using session_lifecycle [of RM_PUSH_RX "(True, True)" "[]" ?r] by auto
  from this(1) this(2) [of ?p] show ?thesis by (simp add: prvt_zero_def)
qed

end
