(* ===== verification/RM_Threads.thy ===== *)
theory RM_Threads
  imports RM_TxRemote
begin

text \<open>
  The consumer thread of the sender as one function, \<open>rm_session_delta_rx_f_local\<close> of \<^verbatim>\<open>src/rm_session.c\<close>, with the
  guards before its loop; launching a thread, \<open>rm_launch_thread\<close> of \<^verbatim>\<open>src/rm.c\<close>; and the two callbacks of
  \<^verbatim>\<open>src/rm_rx.c\<close> that transmit a checksum for a session.
\<close>

section \<open>The consumer\<close>

text \<open>
  What the thread leaves: its status (\<open>None\<close> is the error code that is no status), the context of the session,
  the result file of a local push, and the connection of a remote one.
\<close>

record consumer_end =
  ce_status :: "rm_rx_status option"
  ce_ctx :: rm_delta_reconstruct_ctx
  ce_z :: "stream option"
  ce_conn :: "sock option"

text \<open>
  \<open>ctx\<close> is the context of the session when the thread starts, \<open>s_ctx\<close> what the producer has made of it when
  it ends, \<open>ds\<close> the elements the producer queues. \<open>None\<close>: it waits for ever, or it is started on a session
  of another type or without private part, where its error exit stores the status through a \<open>NULL\<close> pointer.
\<close>

definition rm_session_delta_rx_f_local ::
    "tx_env \<Rightarrow> (rm_delta_e, 'f) twfifo \<Rightarrow> rm_session_type \<Rightarrow> bool \<Rightarrow> stream option \<Rightarrow> stream option \<Rightarrow>
     rm_delta_reconstruct_ctx \<Rightarrow> rm_delta_reconstruct_ctx \<Rightarrow> u16 \<Rightarrow> rm_delta_e list \<Rightarrow> nat \<Rightarrow> consumer_end option" where
  "rm_session_delta_rx_f_local env fq type has_prvt f_y f_z ctx s_ctx port ds x_sz =
     (if type \<noteq> RM_PUSH_TX \<and> type \<noteq> RM_PUSH_LOCAL \<or> \<not> has_prvt then None
      else if type = RM_PUSH_LOCAL then
        (case (f_y, f_z) of
           (Some y, Some z) \<Rightarrow>
             let p = run_pipe fq local_rx_f (pe_sched (te_sys env)) (pipe_init fq ds x_sz (y, Some z, ctx));
                 (_, z', c) = pp_sink p
             in (case pp_cons p of
                   C_Done \<Rightarrow> Some \<lparr>ce_status = Some RM_RX_STATUS_OK, ce_ctx = local_merge s_ctx c, ce_z = z', ce_conn = None\<rparr>
                 | C_Err e \<Rightarrow> Some \<lparr>ce_status = Some e, ce_ctx = s_ctx, ce_z = z', ce_conn = None\<rparr>
                 | _ \<Rightarrow> None)
         | _ \<Rightarrow> Some \<lparr>ce_status = Some RM_RX_STATUS_INTERNAL_ERR, ce_ctx = s_ctx, ce_z = f_z, ce_conn = None\<rparr>)
      else map_option (\<lambda>(st, c). \<lparr>ce_status = st, ce_ctx = s_ctx, ce_z = f_z, ce_conn = c\<rparr>)
        (remote_consumer env fq ctx port ds x_sz))"

section \<open>Launching\<close>

text \<open>The results of the three calls of the thread library, which are 0 for success.\<close>

definition rm_launch_thread :: "int \<Rightarrow> int \<Rightarrow> int \<Rightarrow> rm_error" where
  "rm_launch_thread attr_init attr_set create =
     (if attr_init \<noteq> 0 then RM_ERR_FAIL
      else if attr_set \<noteq> 0 then RM_ERR_FAIL
      else if create \<noteq> 0 then RM_ERR_FAIL
      else RM_ERR_OK)"

section \<open>Transmitting a checksum for a session\<close>

text \<open>
  The element and the session may be \<open>NULL\<close>; of the session its type, and its private part with the
  connection for checksums of a push or the only connection of a pull.
\<close>

definition f_tx_ch_ch ::
    "(sock \<Rightarrow> rm_ch_ch_ref \<Rightarrow> int \<times> sock) \<Rightarrow> rm_ch_ch_ref option \<Rightarrow> (rm_session_type \<times> sock option) option \<Rightarrow>
     rm_error \<times> sock option" where
  "f_tx_ch_ch tx eo so =
     (case (eo, so) of
        (Some e, Some (t, fd)) \<Rightarrow>
          if t = RM_PUSH_RX \<or> t = RM_PULL_RX then
            (case fd of
               None \<Rightarrow> (RM_ERR_RX, None)
             | Some s \<Rightarrow> (case tx s e of (r, s') \<Rightarrow> (if r < 0 then RM_ERR_TX else RM_ERR_OK, Some s')))
          else (RM_ERR_ARG, fd)
      | (_, Some (t, fd)) \<Rightarrow> (RM_ERR_BAD_CALL, fd)
      | _ \<Rightarrow> (RM_ERR_BAD_CALL, None))"

definition rm_rx_f_tx_ch_ch ::
    "rm_ch_ch_ref option \<Rightarrow> (rm_session_type \<times> sock option) option \<Rightarrow> rm_error \<times> sock option" where
  "rm_rx_f_tx_ch_ch = f_tx_ch_ch rm_tcp_tx_ch_ch"

definition rm_rx_f_tx_ch_ch_ref_1 ::
    "rm_ch_ch_ref option \<Rightarrow> (rm_session_type \<times> sock option) option \<Rightarrow> rm_error \<times> sock option" where
  "rm_rx_f_tx_ch_ch_ref_1 = f_tx_ch_ch rm_tcp_tx_ch_ch_ref"

section \<open>Lemmas\<close>

text \<open>The pushes run this consumer.\<close>

lemma local_threads_consumer:
  "local_threads (te_sys env) tw fq h x_sz ctx f_x f_y f_z =
     (let s = \<lparr>s_rec_ctx = ctx, s_prvt = \<lparr>tq_queue = fq_init fq, tq_mutex = Mutex_Free, tq_smutex = Mutex_Free,
            tq_signals = 0\<rparr>\<rparr>
      in case rm_session_delta_tx_f tw (pe_mem_roll (te_sys env)) RM_PUSH_LOCAL True (Some (\<lambda>_. h)) Mutex_Free
                (Some f_x) (Some (roll_cb fq RM_PUSH_LOCAL)) s of
           None \<Rightarrow> None
         | Some (st, s', _, _) \<Rightarrow>
             let ds = queued fq (s_prvt s') in
             map_option (\<lambda>c. (case st of None \<Rightarrow> RM_TX_STATUS_OK | Some t \<Rightarrow> t, the (ce_status c), the (ce_z c), ce_ctx c,
                 fq_list fq (pp_queue (run_pipe fq local_rx_f (pe_sched (te_sys env)) (pipe_init fq ds x_sz (f_y, Some f_z, ctx)))) = []))
               (rm_session_delta_rx_f_local env fq RM_PUSH_LOCAL True (Some f_y) (Some f_z) ctx (s_rec_ctx s') port ds x_sz))"
  by (auto simp: local_threads_def rm_session_delta_rx_f_local_def Let_def split: option.splits prod.splits consumer_pc.splits)

lemma remote_consumer_thread:
  "remote_consumer env fq ctx port ds x_sz = map_option (\<lambda>c. (ce_status c, ce_conn c))
     (rm_session_delta_rx_f_local env fq RM_PUSH_TX True None None ctx s_ctx port ds x_sz)"
  by (cases "remote_consumer env fq ctx port ds x_sz")
    (simp_all add: rm_session_delta_rx_f_local_def case_prod_beta)

text \<open>A checksum goes out in its wire format, with the number of its block in the other variant.\<close>

lemma f_tx_ch_ch_ok:
  assumes "tx_good s" and "length (s_ch e) = RM_STRONG_CHECK_BYTES" and "t = RM_PUSH_RX \<or> t = RM_PULL_RX"
  shows "\<exists>s'. rm_rx_f_tx_ch_ch (Some e) (Some (t, Some s)) = (RM_ERR_OK, Some s') \<and>
    sk_out s' = sk_out s @ RM_CH_CH_WIRE e"
  using rm_tcp_tx_ch_ch_ok [OF assms(1,2)] assms(3) by (auto simp: rm_rx_f_tx_ch_ch_def f_tx_ch_ch_def)

end
