(* ===== verification/RM_Main.thy ===== *)
theory RM_Main
  imports RM_Daemon RM_Util
begin

text \<open>
  The program of the daemon, \<open>main\<close> of \<^verbatim>\<open>src/rm_daemon.c\<close>: its options, the steps before the loop, the loop
  of \<open>RM_Daemon\<close>, and the exit.
\<close>

section \<open>Options\<close>

text \<open>What \<open>getopt_long\<close> returns; \<open>Do_Other\<close> is a mistake.\<close>

datatype daemon_opt = Do_Auth | Do_Daemon | Do_Help | Do_Version | Do_Verbose | Do_L string | Do_Other

record daemon_conf =
  dc_authenticate :: bool
  dc_daemon :: bool
  dc_loglevel :: nat

definition daemon_conf_init :: daemon_conf where
  "daemon_conf_init = \<lparr>dc_authenticate = False, dc_daemon = False, dc_loglevel = 0\<rparr>"

text \<open>\<open>Inl\<close> is the exit status: 0 for success and 1 for failure.\<close>

fun daemon_option :: "daemon_opt \<Rightarrow> daemon_conf \<Rightarrow> (int, daemon_conf) sum" where
  "daemon_option Do_Auth c = Inr (c\<lparr>dc_authenticate := True\<rparr>)"
| "daemon_option Do_Daemon c = Inr (c\<lparr>dc_daemon := True\<rparr>)"
| "daemon_option Do_Help c = Inl 0"
| "daemon_option Do_Version c = Inl 0"
| "daemon_option Do_Verbose c = Inr (c\<lparr>dc_loglevel := rm_loglevel_code RM_LOGLEVEL_VERBOSE\<rparr>)"
| "daemon_option (Do_L s) c =
     (case strtoul s of
        (helper, rest) \<Rightarrow>
          if rm_loglevel_code RM_LOGLEVEL_VERBOSE < helper then Inl 1
          else if rest = s \<or> rest \<noteq> [] then Inl 1
          else Inr (c\<lparr>dc_loglevel := helper\<rparr>))"
| "daemon_option Do_Other c = Inl 1"

fun daemon_options :: "daemon_opt list \<Rightarrow> daemon_conf \<Rightarrow> (int, daemon_conf) sum" where
  "daemon_options [] c = Inr c"
| "daemon_options (opt # opts) c = (case daemon_option opt c of Inl e \<Rightarrow> Inl e | Inr c' \<Rightarrow> daemon_options opts c')"

section \<open>Starting, serving, stopping\<close>

text \<open>
  The answers of the system: the process functions, \<open>bind\<close> and \<open>listen\<close> (a failing \<open>socket\<close> makes \<open>bind\<close>
  fail), the allocation of the workers, which threads can be launched, the rounds of the loop, and what the workers
  have made of the table of sessions and the queue when the loop ends; then how often each sleeping worker is woken for no reason
  while it is joined.
\<close>

record ('h, 'f) main_env =
  me_util :: util_env
  me_proc :: util_proc
  me_bind :: bool
  me_listen :: bool
  me_malloc :: bool
  me_launch :: "nat \<Rightarrow> bool"
  me_rounds :: "(rm_signal list \<times> accept_result) list"
  me_progress :: "'h rsyncme \<times> 'f rm_workqueue \<Rightarrow> 'h rsyncme \<times> 'f rm_workqueue"
  me_wakes :: "nat \<Rightarrow> nat"

text \<open>What has become of it: the exit status, the connections served, how the core was stopped, and the queue.\<close>

record 'f main_result =
  mr_status :: int
  mr_served :: nat
  mr_deinit :: "rm_error option"
  mr_wq :: "'f rm_workqueue option"

definition main_exit :: "int \<Rightarrow> 'f main_result" where
  "main_exit e = \<lparr>mr_status = e, mr_served = 0, mr_deinit = None, mr_wq = None\<rparr>"

definition main_process :: "('h, 'f) main_env \<Rightarrow> daemon_conf \<Rightarrow> (rm_error \<times> util_proc) option" where
  "main_process env c =
     (if dc_daemon c then rm_util_daemonize (me_util env) (Some ''/usr/local/rsyncme'') False (Some ''rsyncme'') (me_proc env)
      else Some (rm_util_chdir_umask_openlog (me_util env) (Some ''/usr/local/rsyncme/'') True (Some ''rsyncme'') (me_proc env)))"

text \<open>
  The result of stopping is only reported. Inner \<open>None\<close>: a worker is never joined; outer \<open>None\<close>: the loop is still running after the
  rounds given.
\<close>

definition daemon_main ::
    "('h, 'f) main_env \<Rightarrow> (rm_work, 'f) twfifo \<Rightarrow> ('h \<Rightarrow> int) \<Rightarrow> 'h \<Rightarrow> daemon_opt list \<Rightarrow> 'f main_result option option" where
  "daemon_main env fq twhash_empty h0 opts =
     (case daemon_options opts daemon_conf_init of
        Inl e \<Rightarrow> Some (Some (main_exit e))
      | Inr c \<Rightarrow>
          (case main_process env c of
             None \<Rightarrow> Some (Some (main_exit 0))
           | Some (err, _) \<Rightarrow>
               if err \<noteq> RM_ERR_OK then Some (Some (main_exit 1))
               else if \<not> me_bind env then Some (Some (main_exit 1))
               else case rm_core_init fq h0 (me_malloc env) (me_launch env) of
                 (status, rm, wq) \<Rightarrow>
                   if status \<noteq> RM_ERR_OK then Some (Some (main_exit 1))
                   else if \<not> me_listen env then Some (Some (main_exit 1))
                   else case daemon_loop (me_rounds env) \<lparr>ds_state = RM_CORE_ST_INITIALIZED, ds_pending = False, ds_signo = None\<rparr> of
                     (d, n) \<Rightarrow>
                       if ds_state d \<noteq> RM_CORE_ST_SHUT_DOWN then None
                       else case me_progress env (rm, wq) of
                         (rm1, wq1) \<Rightarrow>
                           Some (map_option (\<lambda>(e, wq2). \<lparr>mr_status = 0, mr_served = n, mr_deinit = Some e, mr_wq = Some wq2\<rparr>)
                             (rm_core_deinit fq (me_wakes env) twhash_empty rm1 wq1))))"

section \<open>Lemmas\<close>

lemma daemon_loop_until:
  assumes "\<forall>r\<in>set rs. snd r \<noteq> Interrupted" and "ds_state d = RM_CORE_ST_INITIALIZED"
  shows "\<exists>d'. daemon_loop (rs @ [(sigs @ [SIGTSTP], Interrupted)]) d = (d', length (filter (\<lambda>r. snd r = Accepted) rs)) \<and>
    ds_state d' = RM_CORE_ST_SHUT_DOWN"
  using assms
proof (induction rs arbitrary: d)
  case Nil
  then show ?case by (simp add: daemon_round_state)
next
  case (Cons r rs)
  then have "ds_state (daemon_round r d) = RM_CORE_ST_INITIALIZED" by (simp add: daemon_round_state)
  from Cons.IH [OF _ this] Cons.prems show ?case by auto
qed

lemma core_init_ok:
  assumes "launch i" and "i < RM_WORKERS_N"
  shows "\<exists>rm wq. rm_core_init fq h0 True launch = (RM_ERR_OK, rm, wq) \<and> rm_sessions rm = h0 \<and> rm_sessions_list rm = [] \<and>
    wq_ok wq \<and> 0 < wq_active_n wq"
proof -
  let ?i = "rm_wq_workqueue_init fq True launch RM_WORKERS_N"
  have ok: "wq_ok (snd ?i)" "wq_workers (snd ?i) = map (new_worker fq launch) [0..<RM_WORKERS_N]" "fst ?i = RM_ERR_OK"
    using workqueue_init_ok [of RM_WORKERS_N fq launch] assms by (auto simp: RM_WORKERS_N_def)
  have "new_worker fq launch i \<in> set (filter w_active (wq_workers (snd ?i)))"
    using assms by (auto simp: ok(2) new_worker_def image_iff intro!: bexI [of _ i])
  then have "0 < wq_active_n (snd ?i)" using ok(1) by (metis length_pos_if_in_set wq_ok_def)
  with ok(1,3) show ?thesis by (simp add: rm_core_init_def case_prod_beta)
qed

section \<open>Properties\<close>

text \<open>
  C40. A run of the daemon from start to stop. When its options are valid and the system lets it start at least one of
  its eight workers, it serves every connection that is accepted before the first \<open>SIGTSTP\<close> to interrupt
  \<open>accept\<close>, and exits with 0. If the external \<open>twhash_empty\<close> answers its question with a number other than 0 for
  the table of sessions as the workers have left it, the workers are not stopped and work that is queued is abandoned; only if it answers
  0, and no session is listed, is the queue stopped, and the exit waits for ever if a worker has missed the signal and
  is not woken up spuriously.
\<close>

theorem daemon_runs:
  assumes "daemon_options opts daemon_conf_init = Inr c" and "main_process env c = Some (RM_ERR_OK, q)"
    and "me_bind env" and "me_listen env" and "me_malloc env" and "me_launch env i" and "i < RM_WORKERS_N"
    and "me_rounds env = rs @ [(sigs @ [SIGTSTP], Interrupted)]" and "\<forall>r\<in>set rs. snd r \<noteq> Interrupted"
  shows "\<exists>rm wq rm1 wq1. wq_ok wq \<and> 0 < wq_active_n wq \<and> rm_sessions rm = h0 \<and> me_progress env (rm, wq) = (rm1, wq1) \<and>
    daemon_main env fq twhash_empty h0 opts = Some (map_option
      (\<lambda>(e, wq2). \<lparr>mr_status = 0, mr_served = length (filter (\<lambda>r. snd r = Accepted) rs), mr_deinit = Some e, mr_wq = Some wq2\<rparr>)
      (if twhash_empty (rm_sessions rm1) \<noteq> 0 then Some (RM_ERR_BUSY, wq1)
       else if rm_sessions_list rm1 \<noteq> [] then Some (RM_ERR_FAIL, wq1)
       else map_option (\<lambda>wq2. (if rm_wq_workqueue_deinit fq wq2 \<noteq> RM_ERR_OK then RM_ERR_MEM else RM_ERR_OK, wq2))
         (rm_wq_workqueue_stop fq (me_wakes env) wq1)))"
proof -
  let ?d = "\<lparr>ds_state = RM_CORE_ST_INITIALIZED, ds_pending = False, ds_signo = None\<rparr>"
  obtain rm wq where init: "rm_core_init fq h0 True (me_launch env) = (RM_ERR_OK, rm, wq)" "rm_sessions rm = h0"
      "rm_sessions_list rm = []" "wq_ok wq" "0 < wq_active_n wq"
    using core_init_ok [of "me_launch env", OF assms(6,7), of fq h0] by blast
  obtain d' where "daemon_loop (me_rounds env) ?d = (d', length (filter (\<lambda>r. snd r = Accepted) rs))"
      "ds_state d' = RM_CORE_ST_SHUT_DOWN"
    using daemon_loop_until [OF assms(9), of ?d sigs] assms(8) by auto
  moreover obtain rm1 wq1 where "me_progress env (rm, wq) = (rm1, wq1)" by (metis surj_pair)
  ultimately show ?thesis
    using assms(1-5) init
    by (intro exI [of _ rm] exI [of _ wq] exI [of _ rm1] exI [of _ wq1])
      (simp add: daemon_main_def rm_core_deinit_def split: option.split)
qed

text \<open>An environment in which everything succeeds.\<close>

definition sample_main :: "(nat, rm_work list) main_env" where
  "sample_main = \<lparr>me_util = \<lparr>ue_time = Some \<lparr>tm_year = 2016, tm_mon = 0, tm_mday = 5, tm_hour = 16, tm_min = 52, tm_sec = 45\<rparr>,
       ue_usec = 81207, ue_mem = True, ue_fopen = (\<lambda>_. True), ue_freopen = (\<lambda>_. True), ue_chdir = (\<lambda>_. True), ue_fork = 0,
       ue_setsid = True, ue_fork2 = 0\<rparr>,
     me_proc = \<lparr>up_files = (\<lambda>_. None), up_cwd = None, up_stdout = None, up_stderr = None, up_fds = {0, 1, 2}\<rparr>,
     me_bind = True, me_listen = True, me_malloc = True, me_launch = (\<lambda>i. i = 3),
     me_rounds = [([], Accepted), ([SIGINT], Accepted)] @ [([SIGHUP] @ [SIGTSTP], Interrupted)], me_progress = (\<lambda>s. s), me_wakes = (\<lambda>_. 0)\<rparr>"

theorem daemon_runs_witness:
  "\<exists>r. daemon_main sample_main fifo_lists (\<lambda>_. 1) 0 [Do_Auth, Do_L ''2''] = Some (Some r) \<and> mr_status r = 0 \<and>
    mr_served r = Suc (Suc 0) \<and> mr_deinit r = Some RM_ERR_BUSY"
proof -
  have opts: "daemon_options [Do_Auth, Do_L ''2''] daemon_conf_init =
      Inr \<lparr>dc_authenticate = True, dc_daemon = False, dc_loglevel = 2\<rparr>"
    by (simp add: daemon_conf_init_def strtoul_def Let_def c_isspace_def c_isdigit_def digits_value_def ULONG_MAX_def)
  have "\<exists>q. main_process sample_main \<lparr>dc_authenticate = True, dc_daemon = False, dc_loglevel = 2\<rparr> = Some (RM_ERR_OK, q)"
    by (simp add: main_process_def sample_main_def rm_util_chdir_umask_openlog_def util_finish_def rm_util_openlogs_def
        rm_util_dt_detail_def rm_util_dt_def log_open_def Let_def)
  then obtain q where q: "main_process sample_main \<lparr>dc_authenticate = True, dc_daemon = False, dc_loglevel = 2\<rparr> =
      Some (RM_ERR_OK, q)" by blast
  show ?thesis
    using daemon_runs [OF opts q, where i = 3 and rs = "[([], Accepted), ([SIGINT], Accepted)]" and sigs = "[SIGHUP]"
        and fq = fifo_lists and twhash_empty = "\<lambda>_. 1" and ?h0.0 = 0]
    by (auto simp: sample_main_def RM_WORKERS_N_def)
qed

end
