(* ===== verification/RM_System.thy ===== *)
theory RM_System
  imports RM_Cmd RM_Daemon
begin

text \<open>
  The tool and the daemon together: from the command line of a remote push to the file the handler
  leaves, over the message the tool writes, the daemon's reading of it, the work item it queues, and the
  handler the worker calls.
\<close>

section \<open>The whole system\<close>

text \<open>The environment of the tool when every address is answered by the connection \<open>ctl\<close>.\<close>

definition connected :: "cmd_env \<Rightarrow> sock \<Rightarrow> cmd_env" where
  "connected env ctl = env\<lparr>ce_connect := (\<lambda>_ _ _ _. (RM_ERR_OK, ctl))\<rparr>"

lemma cmd_main_remote:
  assumes "cmd_parse opts args = Inr c" and "cm_flags c AND RM_BIT_0 = 0" and "cm_addr c \<noteq> None" and "2 \<le> argc"
    and "cmd_name (cm_xp c) (cm_x c) = Some xp" and "cmd_name (cm_yp c) (cm_y c) = Some y"
    and "rm_tx_remote_push ((ce_tx env)\<lparr>te_conn := (RM_ERR_OK, ctl)\<rparr>) tw fq h (Some xp) (Some y)
      (cmd_name (cm_zp c) (cm_z c)) (cm_L c) (cm_all c) (cm_tail c) (cm_send c) (cm_flags c) (Some ctx_zero) fs = Some (0, t)"
  shows "cmd_main (connected env ctl) tw fq h argc opts args fs = Some (0, fs)"
  using assms cmd_parse_addr [OF assms(1)]
  by (simp add: cmd_main_def cmd_request_def connected_def cmd_result_def)

text \<open>
  C1. The whole system. The tool is called with any options and arguments that ask for a push of \<open>x\<close> to \<open>y\<close> on
  another host, possibly under a third name, and the daemon there takes the connection. Then there is
  a run of the two in which each reads what the other writes: the tool exits with status 0 and
  changes no file on its side; the daemon accepts the request, keeps the connection and queues one item for an active
  worker; the handler which that worker calls with the message and the connection the daemon leaves succeeds,
  and the file of the request is exactly the file of the sender. This holds however the streams are cut into pieces,
  for every schedule of the sender's threads, and for any state of the daemon's pool that has an active worker. The
  conditions: the calls of the operating systems succeed; the tool's heap is below 4 gigabytes, so that the byte 4 of the
  address of the request's header, which \<open>rm_tx_remote_push\<close> has taken for its type, is that of a push
  (\<open>request_ready\<close>); the names of the request are absolute; the checksums tell the blocks of the two files apart; and a
  source of at most a block is as long as the old file, which begins with it if one of its blocks is the source.
\<close>

theorem system_push:
  fixes n :: "'h node"
  assumes "cmd_parse opts args = Inr c" and "\<forall>opt\<in>set opts. opt_name_ok opt" and "2 \<le> argc"
    and "cm_flags c AND RM_BIT_0 = 0" and "cm_addr c \<noteq> None"
    and "y = cm_y c" and "z = cmd_name (cm_zp c) (cm_z c)" and "te = ce_tx env"
    and "tx_healthy te" and "recv_healthy re" and "daemon_ready de" and "de_body_mem de" and "de_msg_mem de" and "de_work_mem de"
    and "te_hash32 te = re_hash32 re" and "te_hash32 te = de_hash32 de" and "request_ready te"
    and "fifo_ok fq" and "twhash_ok tw" and "\<forall>b. tw_bucket tw h b = []"
    and "fs (cm_x c) = Some x" and "x \<noteq> []" and "length x < off_max" and "length yb < off_max"
    and "no_collision (cm_L c) x yb" and "zero_diff_safe (cm_L c) x yb" and "length x = length yb \<or> cm_L c < length x"
    and "absolute y" and "\<forall>zn. z = Some zn \<longrightarrow> absolute zn"
    and "cm_flags c AND RM_BIT_6 \<noteq> 0 \<longrightarrow> z \<noteq> None \<and> z \<noteq> Some y"
    and "case nd_files n y of Some b \<Rightarrow> yb = b | None \<Rightarrow> yb = [] \<and> cm_flags c AND RM_BIT_4 \<noteq> 0"
    and "resolve (dirname (push_dest y z)) (pe_tmp (re_sys re)) \<noteq> y"
    and "write_good ctl" and "rx_good ctl" and "sk_out ctl = []"
    and "te_delta te (snd (re_listen re)) = (RM_ERR_OK, d0)" and "tx_good d0" and "sk_out d0 = []"
    and "read_good srv" and "tx_good srv" and "sk_out srv = []" and "rx_good dc"
    and "wq_ok wq" and "0 < wq_active_n wq"
  shows "\<exists>answer t d sv m i r.
    cmd_main (connected env (ctl\<lparr>sk_in := answer\<rparr>)) tw fq h argc opts args fs = Some (0, fs) \<and>
    rm_tx_remote_push (te\<lparr>te_conn := (RM_ERR_OK, ctl\<lparr>sk_in := answer\<rparr>)\<rparr>) tw fq h (Some (cm_x c)) (Some y) z
      (cm_L c) (cm_all c) (cm_tail c) (cm_send c) (cm_flags c) (Some ctx_zero) fs = Some (0, Some t) \<and> tr_delta t = Some d \<and>
    do_it_all de wfq wq fd (srv\<lparr>sk_in := sk_out (tr_ctl t)\<rparr>) = Some sv \<and> sv_msg sv = Some m \<and> \<not> sv_closed sv \<and>
    i < length (wq_workers wq) \<and> w_active (wq_workers wq ! i) \<and>
    wq_workers (sv_wq sv) = (wq_workers wq)[i := worker_enqueue wfq
      \<lparr>wk_task = RM_WORK_PROCESS_MSG_PUSH, wk_fd = fd, wk_idx = w_idx (wq_workers wq ! i)\<rparr> (wq_workers wq ! i)] \<and>
    rm_do_msg_push_rx st (re\<lparr>re_conn := Some (dc\<lparr>sk_in := sk_out d\<rparr>)\<rparr>) m (n\<lparr>nd_ctl := sv_sock sv\<rparr>) = Some r \<and>
    sk_out (nd_ctl (rr_node r)) = answer \<and> rr_err r = 0 \<and>
    nd_files (rr_node r) =
      (if cm_flags c AND RM_BIT_6 = 0 \<and> z \<noteq> None then (nd_files n)(y := None) else nd_files n)
        (resolve (dirname (push_dest y z)) (pe_tmp (re_sys re)) := None, push_dest y z := Some x)"
proof -
  have v: "cmd_valid c" by (rule cmd_parse_valid [OF assms(1,2)])
  then have names: "cmd_name (cm_xp c) (cm_x c) = Some (cm_x c)" "cmd_name (cm_yp c) (cm_y c) = Some y"
      "c_name (Some (cm_x c))" "c_name (Some y)" "c_name z"
    and sizes: "0 < cm_L c" "cm_L c < off_max" "0 < cm_send c"
    using assms(4,6,7) by (auto simp: cmd_valid_def cmd_name_def off_max_def)
  let ?sv = "\<lambda>m. srv\<lparr>sk_in := rm_serialize_msg_push [] m\<rparr>"
  obtain m0 where m0: "push_msg te (cm_x c) (Some y) z (cm_L c) (cm_flags c) (length x) = Some m0"
    using push_msg_ok [OF names(3-5) assms(17)] by blast
  have srv: "read_good (?sv m0)" "sk_in (?sv m0) = rm_serialize_msg_push [] m0 @ []"
    using assms(39) by (simp_all add: read_good_def)
  obtain sv i where sv: "do_it_all de wfq wq fd (?sv m0) = Some sv" "sv_msg sv = Some m0" "\<not> sv_closed sv"
      "same_tx (?sv m0) (sv_sock sv)" "i < length (wq_workers wq)" "w_active (wq_workers wq ! i)"
      "wq_workers (sv_wq sv) = (wq_workers wq)[i := worker_enqueue wfq
        \<lparr>wk_task = RM_WORK_PROCESS_MSG_PUSH, wk_fd = fd, wk_idx = w_idx (wq_workers wq ! i)\<rparr> (wq_workers wq ! i)]"
    using daemon_takes_push [OF m0 names(3-5) assms(17,16,11-14) srv assms(43,44), of wfq fd] by blast
  have node: "tx_good (nd_ctl (n\<lparr>nd_ctl := sv_sock sv\<rparr>))" "sk_out (nd_ctl (n\<lparr>nd_ctl := sv_sock sv\<rparr>)) = []"
      "nd_files (n\<lparr>nd_ctl := sv_sock sv\<rparr>) = nd_files n"
    using sv(4) assms(40,41) by (simp_all add: same_tx_def tx_good_def)
  have ref: "case nd_files (n\<lparr>nd_ctl := sv_sock sv\<rparr>) y of Some b \<Rightarrow> yb = b | None \<Rightarrow> yb = [] \<and> cm_flags c AND RM_BIT_4 \<noteq> 0"
    using assms(31) by simp
  obtain answer delta m body t d r where run:
      "rm_tx_remote_push (te\<lparr>te_conn := (RM_ERR_OK, ctl\<lparr>sk_in := answer\<rparr>)\<rparr>) tw fq h (Some (cm_x c)) (Some y) z
        (cm_L c) (cm_all c) (cm_tail c) (cm_send c) (cm_flags c) (Some ctx_zero) fs = Some (0, Some t)"
      "tr_delta t = Some d" "sk_out d = delta"
      "rm_do_msg_push_rx st (re\<lparr>re_conn := Some (dc\<lparr>sk_in := delta\<rparr>)\<rparr>) m (n\<lparr>nd_ctl := sv_sock sv\<rparr>) = Some r"
      "push_msg te (cm_x c) (Some y) z (cm_L c) (cm_flags c) (length x) = Some m"
      "sk_out (tr_ctl t) = rm_serialize_msg_push [] m" "sk_out (nd_ctl (rr_node r)) = answer" "rr_err r = 0"
      "nd_files (rr_node r) =
        (if cm_flags c AND RM_BIT_6 = 0 \<and> z \<noteq> None then (nd_files (n\<lparr>nd_ctl := sv_sock sv\<rparr>))(y := None)
         else nd_files (n\<lparr>nd_ctl := sv_sock sv\<rparr>))
        (resolve (dirname (push_dest y z)) (pe_tmp (re_sys re)) := None, push_dest y z := Some x)"
    using remote_push_both [where fs = fs and xp = "cm_x c" and n = "n\<lparr>nd_ctl := sv_sock sv\<rparr>", OF assms(9,10,15,18-24)
        sizes assms(25-27) names(3-5) assms(17,28-30) ref assms(32-38) node(1,2) assms(42),
        of "cm_all c" "cm_tail c" ctx_zero st]
    by (elim exE conjE) (rule that; assumption)
  have m: "m = m0" using m0 run(5) by simp
  have main: "cmd_main (connected env (ctl\<lparr>sk_in := answer\<rparr>)) tw fq h argc opts args fs = Some (0, fs)"
    using run(1) unfolding assms(7,8) by (rule cmd_main_remote [OF assms(1,4,5,3) names(1,2)])
  show ?thesis
    using main run sv unfolding m node(3)
    by (intro exI [of _ answer] exI [of _ t] exI [of _ d] exI [of _ sv] exI [of _ m0] exI [of _ i] exI [of _ r]) simp
qed

text \<open>A tool and a daemon on which everything succeeds.\<close>

definition sample_opts :: "cmd_opt list" where
  "sample_opts = [Opt_X ''x'', Opt_Y ''/y'', Opt_I ''host'', Opt_L ''1'']"

definition sample_cmd :: cmd where
  "sample_cmd = cmd_init\<lparr>cm_flags := 38, cm_x := ''x'', cm_y := ''/y'', cm_xp := True, cm_yp := True, cm_addr := Some ''host'',
     cm_L := 1, cm_send := 1, cm_timeout_s := RM_DEFAULT_TCP_CONNECT_TIMEOUT_S\<rparr>"

lemma sample_cmd_parse: "cmd_parse sample_opts [''push''] = Inr sample_cmd"
  by (simp add: sample_opts_def sample_cmd_def cmd_parse_def cmd_then_def cmd_set_name_def cmd_set_number_def cmd_number_def
      strtoul_def Let_def c_isspace_def c_isdigit_def digits_value_def ULONG_MAX_def RM_FILE_LEN_MAX_def cmd_init_def
      cmd_command_def cmd_names_def cmd_sizes_def cmd_defaults_def flag_defs RM_DEFAULT_TCP_CONNECT_TIMEOUT_US_def)

lemma sample_cmd_simps [simp]:
  "cm_x sample_cmd = ''x''" "cm_y sample_cmd = ''/y''" "cmd_name (cm_zp sample_cmd) (cm_z sample_cmd) = None"
  "cm_L sample_cmd = 1" "cm_addr sample_cmd = Some ''host''" "cm_flags sample_cmd AND RM_BIT_0 = 0"
  "cm_flags sample_cmd AND RM_BIT_6 = 0"
  by (simp_all add: sample_cmd_def cmd_init_def cmd_name_def flag_defs)

definition sample_tool :: cmd_env where
  "sample_tool = \<lparr>ce_connect = (\<lambda>_ _ _ _. (RM_ERR_FAIL, sample_sock [] [])), ce_tx = sample_te,
     ce_util = sample_util, ce_proc = sample_process\<rparr>"

theorem system_push_witness:
  "\<exists>answer t d sv m r.
    cmd_main (connected sample_tool ((sample_sock [IO_Chunk 5] [])\<lparr>sk_in := answer\<rparr>)) tw_lists fifo_lists (\<lambda>_. []) 10
      sample_opts [''push''] [''x'' \<mapsto> [2, 1]] = Some (0, [''x'' \<mapsto> [2, 1]]) \<and>
    rm_tx_remote_push (sample_te\<lparr>te_conn := (RM_ERR_OK, (sample_sock [IO_Chunk 5] [])\<lparr>sk_in := answer\<rparr>)\<rparr>) tw_lists fifo_lists
      (\<lambda>_. []) (Some (cm_x sample_cmd)) (Some ''/y'') None (cm_L sample_cmd) (cm_all sample_cmd) (cm_tail sample_cmd)
      (cm_send sample_cmd) (cm_flags sample_cmd) (Some ctx_zero) [''x'' \<mapsto> [2, 1]] = Some (0, Some t) \<and> tr_delta t = Some d \<and>
    do_it_all sample_daemon fifo_lists sample_pool 7 ((sample_sock [IO_Chunk 3] [])\<lparr>sk_in := sk_out (tr_ctl t)\<rparr>) = Some sv \<and>
    sv_msg sv = Some m \<and>
    rm_do_msg_push_rx sh_lists (sample_recv\<lparr>re_conn := Some ((sample_sock [IO_Intr] [])\<lparr>sk_in := sk_out d\<rparr>)\<rparr>) m
      ((sample_node [''/y'' \<mapsto> [1, 1]])\<lparr>nd_ctl := sv_sock sv\<rparr>) = Some r \<and>
    sk_out (nd_ctl (rr_node r)) = answer \<and> nd_files (rr_node r) ''/y'' = Some [2, 1]"
proof -
  have dest: "push_dest ''/y'' None = ''/y''" "resolve (dirname ''/y'') ''tmp'' = ''//tmp''"
    by (simp_all add: push_dest_def dirname_def strip_slashes_def resolve_def)
  have names: "\<forall>opt\<in>set sample_opts. opt_name_ok opt" by (simp add: sample_opts_def)
  have tx: "ce_tx sample_tool = sample_te" "te_hash32 sample_te = de_hash32 sample_daemon"
      "request_ready sample_te"
    by (simp_all add: sample_te_ready sample_tool_def, simp add: sample_te_def)
  have socks: "write_good (sample_sock [IO_Chunk 5] [])" "rx_good (sample_sock [IO_Chunk 5] [])"
      "sk_out (sample_sock a b) = []" "tx_good (sample_sock [] [IO_Chunk 3])" "rx_good (sample_sock [IO_Intr] [])"
      "read_good (sample_sock [IO_Chunk 3] [])" "tx_good (sample_sock [IO_Chunk 3] [])" for a b
    by (simp_all add: sample_sock_def write_good_def rx_good_def tx_good_def read_good_def)
  have delta: "te_delta sample_te p = (RM_ERR_OK, sample_sock [] [IO_Chunk 3])" for p by (simp add: sample_te_def)
  have "\<exists>answer t d sv m i r.
    cmd_main (connected sample_tool ((sample_sock [IO_Chunk 5] [])\<lparr>sk_in := answer\<rparr>)) tw_lists fifo_lists (\<lambda>_. []) 10
      sample_opts [''push''] [''x'' \<mapsto> [2, 1]] = Some (0, [''x'' \<mapsto> [2, 1]]) \<and>
    rm_tx_remote_push (sample_te\<lparr>te_conn := (RM_ERR_OK, (sample_sock [IO_Chunk 5] [])\<lparr>sk_in := answer\<rparr>)\<rparr>) tw_lists fifo_lists
      (\<lambda>_. []) (Some (cm_x sample_cmd)) (Some ''/y'') None (cm_L sample_cmd) (cm_all sample_cmd) (cm_tail sample_cmd)
      (cm_send sample_cmd) (cm_flags sample_cmd) (Some ctx_zero) [''x'' \<mapsto> [2, 1]] = Some (0, Some t) \<and> tr_delta t = Some d \<and>
    do_it_all sample_daemon fifo_lists sample_pool 7 ((sample_sock [IO_Chunk 3] [])\<lparr>sk_in := sk_out (tr_ctl t)\<rparr>) = Some sv \<and>
    sv_msg sv = Some m \<and> \<not> sv_closed sv \<and>
    i < length (wq_workers sample_pool) \<and> w_active (wq_workers sample_pool ! i) \<and>
    wq_workers (sv_wq sv) = (wq_workers sample_pool)[i := worker_enqueue fifo_lists
      \<lparr>wk_task = RM_WORK_PROCESS_MSG_PUSH, wk_fd = 7, wk_idx = w_idx (wq_workers sample_pool ! i)\<rparr> (wq_workers sample_pool ! i)] \<and>
    rm_do_msg_push_rx sh_lists (sample_recv\<lparr>re_conn := Some ((sample_sock [IO_Intr] [])\<lparr>sk_in := sk_out d\<rparr>)\<rparr>) m
      ((sample_node [''/y'' \<mapsto> [1, 1]])\<lparr>nd_ctl := sv_sock sv\<rparr>) = Some r \<and>
    sk_out (nd_ctl (rr_node r)) = answer \<and> rr_err r = 0 \<and>
    nd_files (rr_node r) =
      (if cm_flags sample_cmd AND RM_BIT_6 = 0 \<and> (None :: string option) \<noteq> None
       then (nd_files (sample_node [''/y'' \<mapsto> [1, 1]]))(''/y'' := None) else nd_files (sample_node [''/y'' \<mapsto> [1, 1]]))
        (resolve (dirname (push_dest ''/y'' None)) (pe_tmp (re_sys sample_recv)) := None, push_dest ''/y'' None := Some [2, 1])"
    by (rule system_push [where fs = "[''x'' \<mapsto> [2, 1]]", OF sample_cmd_parse names _ _ _ _ _ tx(1)[symmetric]
          sample_te_healthy(1) sample_recv_simps(1) _ _ _ _ sample_te_healthy(2) tx(2,3) fifo_lists_ok tw_lists_ok _ _ _ _ _
          _ _ _ _ _ _ _ _ socks(1,2,3) delta socks(4,3,6,7,3,5) sample_pool_ok])
      (simp_all add: dest off_max_def absolute_def tw_lists_def sample_no_collision [unfolded One_nat_def])
  then show ?thesis
    by (elim exE conjE) (intro exI conjI, assumption+, simp add: dest)
qed

end
