(* ===== verification/RM_Release.thy ===== *)
theory RM_Release
  imports RM_Life RM_Buffers "HOL-Library.Monad_Syntax"
begin

text \<open>
  What a local push opens, allocates and releases, on every way out of \<open>rm_tx_local_push\<close> of \<^verbatim>\<open>src/rm_tx.c\<close>: the
  control flow of \<open>RM_Push\<close>, with the conditions computed by the same definitions, on the live blocks of \<open>RM_Life\<close>.
  Releasing a block twice, or one that is not there, is \<open>None\<close>. What outlives a call is counted: the streams, the entries
  of the table, the session, the delta elements from the producer to the consumer, and the buffers of the rolling procedure.
\<close>

section \<open>Releasing several blocks\<close>

primrec alloc_n :: "nat \<Rightarrow> block \<Rightarrow> resources \<Rightarrow> resources" where
  "alloc_n 0 b r = r"
| "alloc_n (Suc n) b r = alloc_n n b (r_alloc b r)"

primrec free_n :: "nat \<Rightarrow> block \<Rightarrow> resources \<Rightarrow> resources option" where
  "free_n 0 b r = Some r"
| "free_n (Suc n) b r = Option.bind (r_free b r) (free_n n b)"

text \<open>A stream is closed if the variable is not \<open>NULL\<close>.\<close>

definition close_stream :: "bool \<Rightarrow> block \<Rightarrow> resources \<Rightarrow> resources option" where
  "close_stream is_open b r = (if is_open then r_free b r else Some r)"

text \<open>A delta element with literals owns their bytes, which the consumer frees before it frees the element.\<close>

definition elem_blocks :: "rm_delta_e \<Rightarrow> block list" where
  "elem_blocks d = (if d_type d = RM_DELTA_ELEMENT_RAW_BYTES then [B_Bytes, B_Elem] else [B_Elem])"

primrec alloc_blocks :: "block list \<Rightarrow> resources \<Rightarrow> resources" where
  "alloc_blocks [] r = r"
| "alloc_blocks (b # bs) r = alloc_blocks bs (r_alloc b r)"

primrec free_blocks :: "block list \<Rightarrow> resources \<Rightarrow> resources option" where
  "free_blocks [] r = Some r"
| "free_blocks (b # bs) r = Option.bind (r_free b r) (free_blocks bs)"

text \<open>
  The two threads until they are joined: the producer has allocated the elements \<open>ds\<close> it has queued and the buffers of the
  rolling procedure it has not given back, the consumer has freed what it has applied.
\<close>

definition buffer_blocks :: "bool \<times> bool \<Rightarrow> block list" where
  "buffer_blocks bufs = (if fst bufs then [B_Window] else []) @ (if snd bufs then [B_Bytes] else [])"

definition join_blocks :: "bool \<times> bool \<Rightarrow> rm_delta_e list \<Rightarrow> ('f, 's) pipe \<Rightarrow> resources \<Rightarrow> resources option" where
  "join_blocks bufs ds p r = free_blocks (concat (map elem_blocks (pp_done p)))
     (alloc_blocks (concat (map elem_blocks ds) @ buffer_blocks bufs) r)"

section \<open>The local push\<close>

text \<open>The variables that own something, \<open>lv_nodes\<close> being the entries of the table \<open>h\<close>.\<close>

record local_vars =
  lv_f_x :: bool
  lv_f_y :: bool
  lv_f_z :: bool
  lv_ref_exist :: bool
  lv_nodes :: nat
  lv_s :: "life_session option"

definition local_err_exit :: "local_vars \<Rightarrow> resources \<Rightarrow> resources option" where
  "local_err_exit v r =
     do {
       r \<leftarrow> close_stream (lv_f_x v) B_Stream_X r;
       r \<leftarrow> close_stream (lv_f_y v) B_Stream_Y r;
       r \<leftarrow> close_stream (lv_f_z v) B_Stream_Z r;
       r \<leftarrow> (if lv_ref_exist v then free_n (lv_nodes v) B_Node r else Some r);
       (case lv_s v of
          None \<Rightarrow> Some r
        | Some s \<Rightarrow>
            Option.bind (free_n (length (pv_queue (ls_prvt s))) B_Elem r)
              (rm_session_free (s\<lparr>ls_prvt := ls_prvt s\<lparr>pv_queue := []\<rparr>\<rparr>)))
     }"

definition local_goto_err :: "rm_error \<Rightarrow> local_vars \<Rightarrow> resources \<Rightarrow> (rm_error \<times> resources) option" where
  "local_goto_err e v r = map_option (Pair e) (local_err_exit v r)"

text \<open>From the label \<open>done\<close>: \<open>f_z\<close> and \<open>c\<close> are the result and the context of the push, \<open>fs\<close> the files.\<close>

definition local_done ::
    "push_env \<Rightarrow> u8 \<Rightarrow> string \<Rightarrow> string option \<Rightarrow> nat \<Rightarrow> files \<Rightarrow> stream \<Rightarrow> rm_delta_reconstruct_ctx \<Rightarrow>
     local_vars \<Rightarrow> resources \<Rightarrow> (rm_error \<times> resources) option" where
  "local_done env flags y z x_sz fs f_z c v r =
     Option.bind (close_stream (lv_f_x v) B_Stream_X r) (\<lambda>r.
       let v = v\<lparr>lv_f_x := False\<rparr> in
       case fstat_size f_z of
         None \<Rightarrow> local_goto_err RM_ERR_FSTAT_Z v r
       | Some z_sz \<Rightarrow>
           Option.bind (r_free B_Stream_Z r) (\<lambda>r.
             let v = v\<lparr>lv_f_z := False\<rparr> in
             if z_sz \<noteq> x_sz then local_goto_err RM_ERR_FILE_SIZE v r
             else if lv_ref_exist v then
               do {
                 r \<leftarrow> close_stream (lv_f_y v) B_Stream_Y r;
                 r \<leftarrow> free_n (lv_nodes v) B_Node r;
                 let v = v\<lparr>lv_f_y := False, lv_nodes := 0\<rparr>;
                 (case lv_s v of
                    None \<Rightarrow> None
                  | Some s \<Rightarrow>
                      if z_sz \<noteq> sz_add (rec_by_ref c) (rec_by_raw c) then local_goto_err RM_ERR_FILE_SIZE_REC_MISMATCH v r
                      else if pv_queue (ls_prvt s) \<noteq> [] then local_goto_err RM_ERR_QUEUE_NOT_EMPTY v r
                      else
                        Option.bind (rm_session_free s r) (\<lambda>r.
                          case push_replace env flags y z fs of
                            (err, _) \<Rightarrow>
                              if err \<noteq> RM_ERR_OK then local_goto_err err (v\<lparr>lv_s := None\<rparr>) r
                              else Some (RM_ERR_OK, r)))
               }
             else if z_sz \<noteq> rec_by_raw c then local_goto_err RM_ERR_FILE_SIZE_REC_MISMATCH v r
             else Some (RM_ERR_OK, r)))"

text \<open>Without a reference file.\<close>

definition local_copy ::
    "push_env \<Rightarrow> u8 \<Rightarrow> files \<Rightarrow> string \<Rightarrow> string \<Rightarrow> string option \<Rightarrow> stream \<Rightarrow> nat \<Rightarrow> rm_delta_reconstruct_ctx \<Rightarrow>
     local_vars \<Rightarrow> resources \<Rightarrow> (rm_error \<times> resources) option" where
  "local_copy env flags fs x y z f_x x_sz rc v r =
     (let dest = (case z of Some zn \<Rightarrow> zn | None \<Rightarrow> y) in
      case fopen_wb env fs dest of
        None \<Rightarrow> local_goto_err RM_ERR_OPEN_Z v r
      | Some (f_z, fs1) \<Rightarrow>
          let r = r_alloc B_Stream_Z r; v = v\<lparr>lv_f_z := True\<rparr>;
              f_x1 = (if dest = x then f_x\<lparr>fs_bytes := []\<rparr> else f_x);
              (err, _, f_z, _) = rm_copy_buffered f_x1 f_z x_sz None
          in if err \<noteq> RM_ERR_OK then local_goto_err RM_ERR_COPY_BUFFERED v r
             else local_done env flags y z x_sz (fs1(dest := Some (fs_bytes f_z))) f_z
                    (rc\<lparr>rec_method := RM_RECONSTRUCT_METHOD_COPY_BUFFERED, rec_by_raw := x_sz, delta_raw_n := 1,
                       msg_push_len := 0\<rparr>) v r)"

text \<open>
  What the producer has lost and what it has queued when it ends, and the end of a run of the two threads.
\<close>

definition local_run ::
    "push_env \<Rightarrow> 'h twhash \<Rightarrow> (rm_delta_e, 'f) twfifo \<Rightarrow> 'h \<Rightarrow> nat \<Rightarrow> rm_delta_reconstruct_ctx \<Rightarrow>
     stream \<Rightarrow> stream \<Rightarrow> stream \<Rightarrow> ((bool \<times> bool) \<times> rm_delta_e list \<times> ('f, local_state) pipe) option" where
  "local_run env tw fq h x_sz ctx f_x f_y f_z =
     (let s = \<lparr>s_rec_ctx = ctx, s_prvt = \<lparr>tq_queue = fq_init fq, tq_mutex = Mutex_Free,
            tq_smutex = Mutex_Free, tq_signals = 0\<rparr>\<rparr>
      in map_option (\<lambda>(_, s', _, _). let ds = queued fq (s_prvt s') in
            (delta_tx_left tw (pe_mem_roll env) RM_PUSH_LOCAL True (Some (\<lambda>_. h)) Mutex_Free
               (Some f_x) (Some (roll_cb fq RM_PUSH_LOCAL)) s,
             ds, run_pipe fq local_rx_f (pe_sched env) (pipe_init fq ds x_sz (f_y, Some f_z, ctx))))
          (rm_session_delta_tx_f tw (pe_mem_roll env) RM_PUSH_LOCAL True (Some (\<lambda>_. h)) Mutex_Free
             (Some f_x) (Some (roll_cb fq RM_PUSH_LOCAL)) s))"

text \<open>
  With a reference file. The session is created with the allocations of \<open>pe_session_ok\<close>; \<open>None\<close> is also the launch of the second
  thread that fails, after which the session is freed under the first, and a thread that never ends.
\<close>

definition local_delta ::
    "push_env \<Rightarrow> 'h twhash \<Rightarrow> (rm_delta_e, 'f) twfifo \<Rightarrow> 'h \<Rightarrow> bytes \<Rightarrow> files \<Rightarrow> stream \<Rightarrow> nat \<Rightarrow> string \<Rightarrow> stream \<Rightarrow>
     nat \<Rightarrow> string option \<Rightarrow> rm_delta_reconstruct_ctx \<Rightarrow> u8 \<Rightarrow> local_vars \<Rightarrow> resources \<Rightarrow> (rm_error \<times> resources) option" where
  "local_delta env tw fq h uuid fs f_x x_sz y f_y y_sz z ctx flags v r =
     (let L = ctx_L ctx;
          blocks_n_exp = y_sz div L + (if y_sz mod L \<noteq> 0 then 1 else 0);
          (err, _, st) = rm_rx_insert_nonoverlapping_ch_ch_ref tw (pe_mem_insert env) 0 f_y (Some h) L None
                           blocks_n_exp None ();
          v = v\<lparr>lv_nodes := ins_n st\<rparr>;
          r = alloc_n (ins_n st) B_Node r
      in if err \<noteq> RM_ERR_OK then local_goto_err RM_ERR_NONOVERLAPPING_INSERT v r
         else case fopen_wb env fs (pe_tmp env) of
           None \<Rightarrow> local_goto_err RM_ERR_OPEN_TMP v r
         | Some (f_z, fs1) \<Rightarrow>
             let v = v\<lparr>lv_f_z := True\<rparr>; r = r_alloc B_Stream_Z r in
             Option.bind (rm_session_create RM_PUSH_LOCAL (pe_session_ok env, True) uuid r) (\<lambda>(so, r).
               case so of
                 None \<Rightarrow> local_goto_err RM_ERR_CREATE_SESSION v r
               | Some s \<Rightarrow>
                   if \<not> pe_tx_launch env then local_goto_err RM_ERR_DELTA_TX_THREAD_LAUNCH (v\<lparr>lv_s := Some s\<rparr>) r
                   else if \<not> pe_rx_launch env then None
                   else
                     do {
                       (tx, rx, f_z1, c, drained) \<leftarrow> local_threads env tw fq (the (ins_h st)) x_sz ctx f_x (ins_f st) f_z;
                       (bufs, ds, p) \<leftarrow> local_run env tw fq (the (ins_h st)) x_sz ctx f_x (ins_f st) f_z;
                       r \<leftarrow> join_blocks bufs ds p r;
                       let s = s\<lparr>ls_prvt := (ls_prvt s)\<lparr>pv_queue := fq_list fq (pp_queue p)\<rparr>\<rparr>;
                       local_done env flags y z x_sz (fs1(pe_tmp env := Some (fs_bytes f_z1))) f_z1 c (v\<lparr>lv_s := Some s\<rparr>) r
                     }))"

definition local_push_blocks ::
    "push_env \<Rightarrow> 'h twhash \<Rightarrow> (rm_delta_e, 'f) twfifo \<Rightarrow> 'h \<Rightarrow> bytes \<Rightarrow> string option \<Rightarrow> string option \<Rightarrow>
     string option \<Rightarrow> nat \<Rightarrow> nat \<Rightarrow> nat \<Rightarrow> nat \<Rightarrow> u8 \<Rightarrow> rm_delta_reconstruct_ctx option \<Rightarrow> files \<Rightarrow> resources \<Rightarrow>
     (rm_error \<times> resources) option" where
  "local_push_blocks env tw fq h uuid xo yo z L all tail send flags rco fs r =
     (case (xo, yo, rco) of
        (Some x, Some y, Some rc) \<Rightarrow>
          if L = 0 \<or> send = 0 then Some (RM_ERR_BAD_CALL, r)
          else (case fopen_rb env fs x of
             None \<Rightarrow> Some (RM_ERR_OPEN_X, r)
           | Some f_x \<Rightarrow>
               let v = \<lparr>lv_f_x = True, lv_f_y = False, lv_f_z = False, lv_ref_exist = False, lv_nodes = 0, lv_s = None\<rparr>;
                   r = r_alloc B_Stream_X r
               in (case fstat_size f_x of
                     None \<Rightarrow> local_goto_err RM_ERR_FSTAT_X v r
                   | Some x_sz \<Rightarrow>
                       (case fopen_rb env fs y of
                          Some f_y \<Rightarrow>
                            let v = v\<lparr>lv_f_y := True, lv_ref_exist := True\<rparr>; r = r_alloc B_Stream_Y r in
                            (case fstat_size f_y of
                               None \<Rightarrow> local_goto_err RM_ERR_FSTAT_Y v r
                             | Some y_sz \<Rightarrow>
                                 local_delta env tw fq h uuid fs f_x x_sz y f_y y_sz z (push_ctx L all tail send) flags v r)
                        | None \<Rightarrow>
                            if flags AND RM_BIT_4 \<noteq> 0 then local_copy env flags fs x y z f_x x_sz rc v r
                            else local_goto_err RM_ERR_OPEN_Y v r)))
      | _ \<Rightarrow> Some (RM_ERR_BAD_CALL, r))"

section \<open>What the rolling procedure keeps of its session\<close>

text \<open>A property of the session that the callback and the report of the collisions keep, holds when the procedure returns.\<close>

definition sess_inv :: "('q sess \<Rightarrow> bool) \<Rightarrow> 'q roll step \<Rightarrow> bool" where
  "sess_inv P r = (case r of Continue s \<Rightarrow> P (r_sess s) | Copy_Tail s \<Rightarrow> P (r_sess s) | Return _ s \<Rightarrow> P (r_sess s) | Undefined \<Rightarrow> True)"

lemma sess_inv_simps [simp]:
  "sess_inv P (Continue s) = P (r_sess s)" "sess_inv P (Copy_Tail s) = P (r_sess s)" "sess_inv P (Return e s) = P (r_sess s)"
  "sess_inv P Undefined"
  by (simp_all add: sess_inv_def)

lemma sess_inv_then: "sess_inv P r \<Longrightarrow> (\<And>s. P (r_sess s) \<Longrightarrow> sess_inv P (g s)) \<Longrightarrow> sess_inv P (then_do r g)"
  by (cases r) (simp_all add: then_do_def)

definition cb_keeps :: "('q sess \<Rightarrow> bool) \<Rightarrow> 'q rm_delta_f \<Rightarrow> bool" where
  "cb_keeps P f \<longleftrightarrow> (\<forall>d s. P s \<longrightarrow> P (snd (f d s)))"

lemma sess_roll_tx: "cb_keeps P (e_delta_f env) \<Longrightarrow> P (r_sess s) \<Longrightarrow> sess_inv P (roll_tx env err type ref raw n s)"
  by (auto simp: roll_tx_def rm_rolling_ch_proc_tx_def Let_def cb_keeps_def)

lemma sess_roll_flush: "cb_keeps P (e_delta_f env) \<Longrightarrow> P (r_sess s) \<Longrightarrow> sess_inv P (roll_flush env ref s)"
  by (auto simp: roll_flush_def intro!: sess_inv_then sess_roll_tx)

lemma sess_roll_move: "P (r_sess s) \<Longrightarrow> sess_inv P (if r_match s then roll_window env s else roll_shift env s)"
  by (auto simp: roll_window_def roll_shift_def Let_def split: prod.split)

lemma sess_roll_bucket: "P (r_sess s) \<Longrightarrow> sess_inv P (roll_bucket es s)"
  by (induction es s rule: roll_bucket.induct) (auto simp: Let_def split: prod.split)

lemma sess_roll_lookup: "P (r_sess s) \<Longrightarrow> sess_inv P (roll_lookup env s)"
  by (auto simp: roll_lookup_def Let_def intro!: sess_inv_then sess_roll_bucket split: option.split)

lemma sess_roll_emit:
  assumes "cb_keeps P (e_delta_f env)" and "P (r_sess s)"
  shows "sess_inv P (roll_emit_match env s)" and "sess_inv P (roll_emit_raw env s)"
  using assms
  by (auto simp: roll_emit_match_def roll_emit_raw_def roll_raw_alloc_def roll_raw_byte_def roll_raw_store_def Let_def
      intro!: sess_inv_then sess_roll_flush sess_roll_tx split: prod.split option.split)

lemma sess_roll_iter:
  assumes "cb_keeps P (e_delta_f env)" and "P (r_sess s)"
  shows "sess_inv P (roll_iter env s)"
proof (cases "r_send_left s \<le> e_copy_tail env")
  case False
  show ?thesis
    unfolding roll_iter_def if_not_P [OF False]
    by (rule sess_inv_then [OF sess_roll_move [where P = P, OF assms(2)]], rule sess_inv_then [OF sess_roll_lookup], assumption)
      (simp add: sess_roll_emit [OF assms(1)])
qed (use assms(2) in \<open>simp add: roll_iter_def\<close>)

lemma sess_roll_loop:
  assumes "roll_loop env s = Some r"
  shows "cb_keeps P (e_delta_f env) \<longrightarrow> P (r_sess s) \<longrightarrow> sess_inv P r"
proof (rule roll_loop.raw_induct [OF _ assms], intro impI)
  fix f env s r
  assume ih: "\<And>env s r. f env s = Some r \<Longrightarrow> cb_keeps P (e_delta_f env) \<longrightarrow> P (r_sess s) \<longrightarrow> sess_inv P r"
    and r: "(case roll_iter env s of Continue s' \<Rightarrow> if 0 < r_send_left s' then f env s' else Some (Continue s') | z \<Rightarrow> Some z) = Some r"
    and p: "cb_keeps P (e_delta_f env)" "P (r_sess s)"
  show "sess_inv P r"
  proof (cases "roll_iter env s")
    case (Continue s')
    with r sess_roll_iter [OF p] ih [of env s' r] p(1) show ?thesis by (cases "0 < r_send_left s'") auto
  qed (use r sess_roll_iter [OF p] in auto)
qed

definition report_keeps :: "('q sess \<Rightarrow> bool) \<Rightarrow> bool" where
  "report_keeps P \<longleftrightarrow> (\<forall>s a b c d. P s \<longrightarrow> P (s\<lparr>s_rec_ctx := (s_rec_ctx s)\<lparr>collisions_1st_level := a, collisions_2nd_level := b,
      copy_all_threshold_fired := c, copy_tail_threshold_fired := d\<rparr>\<rparr>))"

lemma sess_roll_last:
  assumes "cb_keeps P (e_delta_f env)" and "P (r_sess u)"
  shows "sess_inv P (case roll_tx env err type ref raw k u of
      Continue s \<Rightarrow> Return RM_ERR_OK (roll_release (s\<lparr>r_raw := None\<rparr>))
    | Return e s \<Rightarrow> Return e (roll_release s) | r \<Rightarrow> r)"
  using sess_roll_tx [where err = err and type = type and ref = ref and raw = raw and n = k, OF assms]
  by (cases "roll_tx env err type ref raw k u") auto

lemma sess_roll_copy_tail:
  assumes "cb_keeps P (e_delta_f env)" and "report_keeps P" and "P (r_sess s)"
  shows "sess_inv P (roll_copy_tail env a b c s)"
proof -
  have "P (r_sess (roll_report b c s))" using assms by (simp add: roll_report_def report_keeps_def)
  then show ?thesis
    using assms(1)
    by (auto simp: roll_copy_tail_def Let_def intro!: sess_inv_then [OF sess_roll_flush] sess_roll_last
        split: prod.split)
qed

lemma sess_rolling_proc:
  assumes "rm_rolling_ch_proc tw mem (Some s) h hm (Some fx) (Some f) from = Some (err, so, fx', hm')"
    and "cb_keeps P f" and "report_keeps P" and "P s"
  shows "\<exists>s'. so = Some s' \<and> P s'"
proof -
  obtain e r where r: "roll_proc tw mem s h hm fx f from = Some (Return e r)" "so = Some (r_sess r)"
    using assms(1) by (auto simp: rm_rolling_ch_proc_def split: option.splits step.splits)
  have start: "r_sess (roll_start fx s hm n) = s" for n by (simp add: roll_start_def)
  have ends: "P (r_sess r)" if "roll_loop env s1 = Some z" "e_delta_f env = f" "P (r_sess s1)" "roll_end env z = Return e r" for env z s1
  proof -
    have "sess_inv P (roll_end env z)"
      using sess_roll_loop [of env s1 z P] that(1-3) assms(2,3) sess_roll_copy_tail [of P env]
      by (cases z) (auto simp: roll_end_def roll_report_def report_keeps_def)
    with that(4) show ?thesis by simp
  qed
  have tail: "P (r_sess r)" if "roll_copy_tail env a b c s1 = Return e r" "e_delta_f env = f" "P (r_sess s1)" for env a b c s1
    using sess_roll_copy_tail [of P env s1 a b c] that assms(2,3) by simp
  have "P (r_sess r)"
    using r(1) assms(4) start
    by (auto simp: roll_proc_def Let_def split: option.splits if_splits intro: ends tail)
  with r(2) show ?thesis by simp
qed

section \<open>What is released\<close>

text \<open>Every release takes a multiset of blocks away, or fails.\<close>

definition free_mset :: "block multiset \<Rightarrow> resources \<Rightarrow> resources option" where
  "free_mset A r = (if A \<subseteq># rs_live r then Some (r\<lparr>rs_live := rs_live r - A\<rparr>) else None)"

definition add_blocks :: "block multiset \<Rightarrow> resources \<Rightarrow> resources" where
  "add_blocks A r = r\<lparr>rs_live := rs_live r + A\<rparr>"

lemma free_mset_bind: "Option.bind (free_mset A r) (free_mset B) = free_mset (A + B) r"
proof -
  have "A + B \<subseteq># M \<longleftrightarrow> A \<subseteq># M \<and> B \<subseteq># M - A" for M
    unfolding subseteq_mset_def all_conj_distrib [symmetric] count_union count_diff by (rule all_cong1) arith
  then show ?thesis by (simp add: free_mset_def)
qed

text \<open>A sequence of releases before a result is one.\<close>

lemma free_mset_end:
  "Option.bind (free_mset A r) (\<lambda>r. Some (e, r)) = map_option (Pair e) (free_mset A r)"
  "Option.bind (free_mset A r) (\<lambda>r. map_option (Pair e) (free_mset B r)) = map_option (Pair e) (free_mset (A + B) r)"
  by (cases "free_mset A r"; simp add: free_mset_bind [symmetric])+

lemma r_free_mset: "r_free b = free_mset {#b#}"
  by (simp add: fun_eq_iff r_free_def free_mset_def)

lemma free_mset_empty [simp]: "free_mset {#} r = Some r"
  by (simp add: free_mset_def)

lemma free_n_mset: "free_n n b = free_mset (replicate_mset n b)"
  by (induction n) (rule ext, simp add: r_free_mset free_mset_bind)+

lemma free_blocks_mset: "free_blocks bs = free_mset (mset bs)"
  by (induction bs) (rule ext, simp add: r_free_mset free_mset_bind)+

lemma close_stream_mset: "close_stream c b = free_mset (if c then {#b#} else {#})"
  by (simp add: fun_eq_iff close_stream_def r_free_mset)

lemma add_blocks_add [simp]: "add_blocks A (add_blocks B r) = add_blocks (B + A) r"
  by (simp add: add_blocks_def add.assoc)

lemma add_blocks_empty [simp]: "add_blocks {#} r = r"
  by (simp add: add_blocks_def)

lemma r_alloc_blocks: "r_alloc b r = add_blocks {#b#} r"
  by (simp add: r_alloc_def add_blocks_def)

lemma alloc_n_blocks: "alloc_n n b r = add_blocks (replicate_mset n b) r"
  by (induction n arbitrary: r) (simp_all add: r_alloc_blocks)

lemma alloc_blocks_blocks: "alloc_blocks bs r = add_blocks (mset bs) r"
  by (induction bs arbitrary: r) (simp_all add: r_alloc_blocks)

lemma free_add: "A \<subseteq># B \<Longrightarrow> free_mset A (add_blocks B r) = Some (add_blocks (B - A) r)"
  by (simp add: free_mset_def add_blocks_def subset_mset.add_increasing)

lemma free_add_left: "free_mset A (add_blocks (A + B) r) = Some (add_blocks B r)"
  by (simp add: free_add)

lemma session_free_mset:
  "ls_type s = RM_PUSH_LOCAL \<or> ls_type s = RM_PUSH_TX \<Longrightarrow> rm_session_free s = free_mset {#B_Prvt, B_Session#}"
  by (auto simp: fun_eq_iff rm_session_free_def rm_session_push_local_free_def rm_session_push_tx_free_def r_free_mset
      free_mset_bind add_mset_commute)

text \<open>What the variables own at an exit.\<close>

definition session_blocks :: "life_session option \<Rightarrow> block multiset" where
  "session_blocks so = (case so of None \<Rightarrow> {#} | Some s \<Rightarrow>
     {#B_Prvt, B_Session#} + replicate_mset (length (pv_queue (ls_prvt s))) B_Elem)"

definition owned :: "local_vars \<Rightarrow> block multiset" where
  "owned v = (if lv_f_x v then {#B_Stream_X#} else {#}) + (if lv_f_y v then {#B_Stream_Y#} else {#}) +
     (if lv_f_z v then {#B_Stream_Z#} else {#}) +
     (if lv_ref_exist v then replicate_mset (lv_nodes v) B_Node else {#}) + session_blocks (lv_s v)"

definition vars_ok :: "local_vars \<Rightarrow> bool" where
  "vars_ok v \<longleftrightarrow> (\<forall>s. lv_s v = Some s \<longrightarrow> ls_type s = RM_PUSH_LOCAL)"

lemma local_err_exit_mset:
  assumes "vars_ok v"
  shows "local_err_exit v r = free_mset (owned v) r"
proof -
  have s: "(case lv_s v of None \<Rightarrow> Some r | Some s \<Rightarrow>
      Option.bind (free_n (length (pv_queue (ls_prvt s))) B_Elem r)
        (rm_session_free (s\<lparr>ls_prvt := ls_prvt s\<lparr>pv_queue := []\<rparr>\<rparr>))) = free_mset (session_blocks (lv_s v)) r" for r
    using assms
    by (auto simp: vars_ok_def session_blocks_def free_n_mset session_free_mset free_mset_bind split: option.split)
  have n: "(if lv_ref_exist v then free_n (lv_nodes v) B_Node r else Some r) =
      free_mset (if lv_ref_exist v then replicate_mset (lv_nodes v) B_Node else {#}) r" for r
    by (simp add: free_n_mset)
  show ?thesis
    unfolding local_err_exit_def s n close_stream_mset owned_def
    by (simp only: free_mset_bind add.assoc)
qed

lemma local_goto_err_ok:
  "vars_ok v \<Longrightarrow> local_goto_err e v (add_blocks (owned v + lost) r) = Some (e, add_blocks lost r)"
  by (simp add: local_goto_err_def local_err_exit_mset free_add_left)


lemma local_goto_err_none: "vars_ok v \<Longrightarrow> owned v = {#} \<Longrightarrow> local_goto_err e v r = Some (e, r)"
  using local_goto_err_ok [of v e "{#}" r] by simp

text \<open>One release after the other.\<close>

lemma free_owned: "M = A + N \<Longrightarrow> free_mset A (add_blocks (M + lost) r) = Some (add_blocks (N + lost) r)"
  by (simp add: add.assoc free_add_left)

lemma own_x:
  "lv_f_x v = c \<Longrightarrow> close_stream c B_Stream_X (add_blocks (owned v + lost) r) =
     Some (add_blocks (owned (v\<lparr>lv_f_x := False\<rparr>) + lost) r)"
  unfolding close_stream_mset by (rule free_owned) (auto simp: owned_def ac_simps)

lemma own_y:
  "lv_f_y v = c \<Longrightarrow> close_stream c B_Stream_Y (add_blocks (owned v + lost) r) =
     Some (add_blocks (owned (v\<lparr>lv_f_y := False\<rparr>) + lost) r)"
  unfolding close_stream_mset by (rule free_owned) (auto simp: owned_def ac_simps)

lemma own_z:
  "lv_f_z v \<Longrightarrow> r_free B_Stream_Z (add_blocks (owned v + lost) r) =
     Some (add_blocks (owned (v\<lparr>lv_f_z := False\<rparr>) + lost) r)"
  unfolding r_free_mset by (rule free_owned) (auto simp: owned_def ac_simps)

lemma own_nodes:
  "lv_nodes v = n \<Longrightarrow> lv_ref_exist v \<Longrightarrow> free_n n B_Node (add_blocks (owned v + lost) r) =
     Some (add_blocks (owned (v\<lparr>lv_nodes := 0\<rparr>) + lost) r)"
  unfolding free_n_mset by (rule free_owned) (auto simp: owned_def ac_simps)

lemma own_session:
  "lv_s v = Some s \<Longrightarrow> ls_type s = RM_PUSH_LOCAL \<Longrightarrow> pv_queue (ls_prvt s) = [] \<Longrightarrow>
     rm_session_free s (add_blocks (owned v + lost) r) = Some (add_blocks (owned (v\<lparr>lv_s := None\<rparr>) + lost) r)"
  by (simp add: session_free_mset, rule free_owned) (auto simp: owned_def session_blocks_def ac_simps)

lemmas own_simps = own_x own_y own_z own_nodes own_session

lemma vars_ok_update [simp]:
  "vars_ok (v\<lparr>lv_f_x := a\<rparr>) = vars_ok v" "vars_ok (v\<lparr>lv_f_y := a\<rparr>) = vars_ok v" "vars_ok (v\<lparr>lv_f_z := a\<rparr>) = vars_ok v"
  "vars_ok (v\<lparr>lv_nodes := n\<rparr>) = vars_ok v" "vars_ok (v\<lparr>lv_s := None\<rparr>)"
  by (simp_all add: vars_ok_def)

text \<open>
  From \<open>done\<close> on: the error is that of \<open>push_finish\<close>, or of the end of \<open>push_copy\<close>, and all that the variables own is released.
\<close>

lemma local_done_delta:
  assumes "vars_ok v" and "lv_f_z v" and "lv_ref_exist v" and "lv_s v = Some s"
  shows "local_done env flags y z x_sz (fs(pe_tmp env := Some (fs_bytes f_z))) f_z c v (add_blocks (owned v + lost) r) =
    Some (fst (push_finish env flags y z x_sz fs (tx, rx, f_z, c, pv_queue (ls_prvt s) = [])), add_blocks lost r)"
proof -
  have t: "ls_type s = RM_PUSH_LOCAL" using assms(1,4) by (simp add: vars_ok_def)
  have e: "owned (v\<lparr>lv_f_x := False, lv_f_z := False, lv_f_y := False, lv_nodes := 0, lv_s := None\<rparr>) = {#}"
    by (simp add: owned_def session_blocks_def)
  show ?thesis
    using assms t e
    by (simp add: local_done_def push_finish_def Let_def own_simps local_goto_err_ok local_goto_err_none
        split: option.split prod.split)
qed

lemma local_done_copy:
  assumes "vars_ok v" and "lv_f_z v" and "\<not> lv_f_y v" and "\<not> lv_ref_exist v" and "lv_s v = None"
  shows "local_done env flags y z x_sz fs f_z c v (add_blocks (owned v + lost) r) =
    Some (case fstat_size f_z of
        None \<Rightarrow> RM_ERR_FSTAT_Z
      | Some z_sz \<Rightarrow>
          if z_sz \<noteq> x_sz then RM_ERR_FILE_SIZE
          else if z_sz \<noteq> rec_by_raw c then RM_ERR_FILE_SIZE_REC_MISMATCH else RM_ERR_OK, add_blocks lost r)"
proof -
  have e: "owned (v\<lparr>lv_f_x := False, lv_f_z := False\<rparr>) = {#}"
    using assms by (simp add: owned_def session_blocks_def)
  show ?thesis
    using assms e
    by (simp add: local_done_def Let_def own_simps local_goto_err_none split: option.split)
      (auto simp: local_goto_err_ok)
qed


text \<open>No delta element is lost or doubled on its way: a consumer that fails holds one, which it never frees.\<close>

definition pipe_account :: "(rm_delta_e, 'f) twfifo \<Rightarrow> rm_delta_e list \<Rightarrow> rm_delta_e list \<Rightarrow> ('f, 's) pipe \<Rightarrow> bool" where
  "pipe_account fq ds held p \<longleftrightarrow>
     length held = (case pp_cons p of C_Err _ \<Rightarrow> 1 | _ \<Rightarrow> 0) \<and>
     ds = pp_done p @ held @ fq_list fq (pp_queue p) @ pp_todo p"

lemma pipe_account_consume:
  assumes "fifo_ok fq" and "pipe_account fq ds held p" and "consumer_step fq f p = Some p'"
  shows "\<exists>held'. pipe_account fq ds held' p'"
proof (cases "pp_cons p")
  case C_Drain
  obtain r q where d: "fq_dequeue fq (pp_queue p) = (r, q)" by (metis surj_pair)
  show ?thesis
  proof (cases r)
    case None
    then show ?thesis
      using assms(2,3) C_Drain d fifo_dequeue [OF assms(1) d]
      by (intro exI [of _ "[]"]) (auto simp: pipe_account_def consumer_step_def)
  next
    case (Some e)
    then show ?thesis
      using assms(2,3) C_Drain d fifo_dequeue [OF assms(1) d]
      by (intro exI [of _ "if fst (f e (pp_sink p)) \<noteq> RM_ERR_OK then [e] else []"])
        (auto simp: pipe_account_def consumer_step_def split: prod.splits if_splits)
  qed
qed (use assms(2,3) in \<open>auto simp: pipe_account_def consumer_step_def\<close>)

lemma pipe_account_reach:
  assumes "fifo_ok fq" and "pipe_reach fq f (pipe_init fq ds n s) p"
  shows "\<exists>held. pipe_account fq ds held p"
  using assms(2)
proof induction
  case start
  then show ?case
    by (intro exI [of _ "[]"]) (simp add: pipe_account_def pipe_init_def fifo_simps [OF assms(1)])
next
  case (consume p p')
  then show ?case using pipe_account_consume [OF assms(1)] by blast
next
  case (produce p p')
  then obtain held where "pipe_account fq ds held p" by blast
  with produce.hyps(2) show ?case
    by (intro exI [of _ held])
      (auto simp: pipe_account_def producer_step_def fifo_simps [OF assms(1)] split: list.splits if_splits consumer_pc.splits)
next
  case (spurious p)
  then obtain held where "pipe_account fq ds held p" by blast
  with spurious.hyps(2) show ?case by (intro exI [of _ held]) (auto simp: pipe_account_def)
qed

text \<open>A consumer that ends normally has applied as many bytes as the file has, so they were all queued.\<close>

lemma consumer_done_bytes:
  assumes fq: "fifo_ok fq" and "pipe_reach fq f (pipe_init fq ds n s) p" and n: "bytes_of ds < n" "n < size_t_mod"
  shows "pp_left p = n - bytes_of (pp_done p) \<and> pp_cons p \<noteq> C_Done"
  using assms(2)
proof induction
  case start
  then show ?case by (simp add: pipe_init_def)
next
  case (consume p p')
  have done_le: "bytes_of (pp_done q) < n" if "pipe_reach fq f (pipe_init fq ds n s) q" for q
    using pipe_account_reach [OF fq that] n(1) by (auto simp: pipe_account_def)
  have p: "0 < pp_left p" using done_le [OF consume.hyps(1)] consume.IH by simp
  have p': "bytes_of (pp_done p') < n"
    using done_le [OF pipe_reach.consume [OF consume.hyps(1,2)]] .
  show ?case
  proof (cases "pp_cons p")
    case C_Drain
    obtain r q where d: "fq_dequeue fq (pp_queue p) = (r, q)" by (metis surj_pair)
    show ?thesis
    proof (cases r)
      case (Some x)
      obtain err s1 where fx: "f x (pp_sink p) = (err, s1)" by (metis surj_pair)
      show ?thesis
      proof (cases "err = RM_ERR_OK")
        case True
        with consume.hyps(2) C_Drain d Some fx have q: "p' = p\<lparr>pp_queue := q, pp_left := sz_sub (pp_left p) (raw_bytes_n x),
            pp_sink := s1, pp_done := pp_done p @ [x]\<rparr>" by (simp add: consumer_step_def)
        then have "raw_bytes_n x < pp_left p" using p' consume.IH by simp
        moreover have "pp_left p < size_t_mod" using consume.IH n(2) by simp
        ultimately show ?thesis using q consume.IH C_Drain by (simp add: sz_simps)
      qed (use consume C_Drain d Some fx in \<open>auto simp: consumer_step_def\<close>)
    qed (use consume C_Drain d p in \<open>auto simp: consumer_step_def\<close>)
  qed (use consume p in \<open>auto simp: consumer_step_def\<close>)
next
  case (produce p p')
  then show ?case by (auto simp: producer_step_def split: list.splits if_splits)
qed simp

text \<open>The literal bytes of the elements.\<close>

definition literal_blocks :: "rm_delta_e list \<Rightarrow> block multiset" where
  "literal_blocks ds = replicate_mset (length (filter (\<lambda>d. d_type d = RM_DELTA_ELEMENT_RAW_BYTES) ds)) B_Bytes"

lemma elem_blocks_mset:
  "mset (concat (map elem_blocks ds)) = replicate_mset (length ds) B_Elem + literal_blocks ds"
  by (induction ds) (simp_all add: elem_blocks_def literal_blocks_def ac_simps)

text \<open>When the threads are joined, the queue and at most one more element are left.\<close>

lemma run_pipe_blocks:
  assumes "fifo_ok fq" and "p = run_pipe fq f sched (pipe_init fq ds n s)"
  shows "\<exists>held. length held = (case pp_cons p of C_Err _ \<Rightarrow> 1 | _ \<Rightarrow> 0) \<and> set held \<subseteq> set ds \<and>
    (\<forall>bufs r. join_blocks bufs ds p r = Some (add_blocks (replicate_mset (length (fq_list fq (pp_queue p))) B_Elem +
      (mset (concat (map elem_blocks held)) + literal_blocks (fq_list fq (pp_queue p)) + mset (buffer_blocks bufs))) r))"
proof -
  let ?q = "fq_list fq (pp_queue p)"
  note run = run_pipe_end [OF assms(1), of f "pipe_init fq ds n s" sched, folded assms(2)]
  obtain held where a: "pipe_account fq ds held p" using pipe_account_reach [OF assms(1) conjunct1 [OF run]] by blast
  have "pp_todo p = []"
    using run by (auto simp: pipe_stuck_def consumer_step_def producer_step_def split: consumer_pc.splits list.splits prod.splits
      option.splits if_splits)
  with a have ds: "ds = pp_done p @ held @ ?q" by (simp add: pipe_account_def)
  let ?b = "\<lambda>xs. mset (concat (map elem_blocks xs))"
  have sum: "?b ds = ?b (pp_done p) + (?b held + ?b ?q)" by (subst ds) (simp only: map_append concat_append mset_append)
  have "join_blocks bufs ds p r = Some (add_blocks ((?b held + ?b ?q) + mset (buffer_blocks bufs)) r)" for bufs r
    unfolding join_blocks_def free_blocks_mset alloc_blocks_blocks mset_append [of "concat (map elem_blocks ds)"] sum add.assoc
      [of "?b (pp_done p)"] by (rule free_add_left)
  then have "join_blocks bufs ds p r = Some (add_blocks (replicate_mset (length ?q) B_Elem +
      (?b held + literal_blocks ?q + mset (buffer_blocks bufs))) r)" for bufs r
    using elem_blocks_mset [of ?q] by (simp only: ac_simps)
  with a ds show ?thesis by (intro exI [of _ held]) (auto simp: pipe_account_def)
qed


lemma owned_alloc:
  "\<not> lv_f_y v \<Longrightarrow> add_blocks (add_mset B_Stream_Y (owned v)) r = add_blocks (owned (v\<lparr>lv_f_y := True\<rparr>)) r"
  "\<not> lv_f_z v \<Longrightarrow> add_blocks (add_mset B_Stream_Z (owned v)) r = add_blocks (owned (v\<lparr>lv_f_z := True\<rparr>)) r"
  "lv_nodes v = 0 \<Longrightarrow> lv_ref_exist v \<Longrightarrow>
     add_blocks (owned v + replicate_mset n B_Node) r = add_blocks (owned (v\<lparr>lv_nodes := n\<rparr>)) r"
  by (simp_all add: owned_def ac_simps)

lemma local_copy_ok:
  assumes "vars_ok v" and "\<not> lv_f_z v" and "\<not> lv_f_y v" and "\<not> lv_ref_exist v" and "lv_s v = None"
  shows "local_copy env flags fs x y z f_x x_sz rc v (add_blocks (owned v) r) =
    Some (fst (push_copy env fs x f_x x_sz (case z of Some zn \<Rightarrow> zn | None \<Rightarrow> y) rc), r)"
proof -
  have err: "local_goto_err e v (add_blocks (owned v) r) = Some (e, r)" if "vars_ok v" for e v
    using local_goto_err_ok [OF that, of e "{#}" r] by simp
  have ends: "local_done env flags y z x_sz fs f_z c v (add_blocks (owned v) r) =
    Some (case fstat_size f_z of
        None \<Rightarrow> RM_ERR_FSTAT_Z
      | Some z_sz \<Rightarrow>
          if z_sz \<noteq> x_sz then RM_ERR_FILE_SIZE
          else if z_sz \<noteq> rec_by_raw c then RM_ERR_FILE_SIZE_REC_MISMATCH else RM_ERR_OK, r)"
    if "vars_ok v" "lv_f_z v" "\<not> lv_f_y v" "\<not> lv_ref_exist v" "lv_s v = None" for fs f_z c v z
    using local_done_copy [OF that, of env flags y z x_sz fs f_z c "{#}" r] by simp
  define dest where "dest = (case z of Some zn \<Rightarrow> zn | None \<Rightarrow> y)"
  show ?thesis
  proof (cases "fopen_wb env fs dest")
    case None
    then show ?thesis using err [OF assms(1)] by (simp add: local_copy_def push_copy_def dest_def)
  next
    case (Some w)
    then obtain f_z fs1 where o: "fopen_wb env fs dest = Some (f_z, fs1)" by (cases w) auto
    obtain e f m z1 where c: "rm_copy_buffered (if dest = x then f_x\<lparr>fs_bytes := []\<rparr> else f_x) f_z x_sz None = (e, f, z1, m)"
      by (metis prod_cases4)
    have v: "vars_ok (v\<lparr>lv_f_z := True\<rparr>)" "lv_f_z (v\<lparr>lv_f_z := True\<rparr>)" "\<not> lv_f_y (v\<lparr>lv_f_z := True\<rparr>)"
        "\<not> lv_ref_exist (v\<lparr>lv_f_z := True\<rparr>)" "lv_s (v\<lparr>lv_f_z := True\<rparr>) = None"
      using assms by simp_all
    have a: "r_alloc B_Stream_Z (add_blocks (owned v) r) = add_blocks (owned (v\<lparr>lv_f_z := True\<rparr>)) r"
      using owned_alloc(2) [OF assms(2)] by (simp add: r_alloc_blocks)
    show ?thesis
      unfolding local_copy_def push_copy_def Let_def dest_def [symmetric] o option.case prod.case c a err [OF v(1)] ends [OF v]
      by (simp split: option.split)
  qed
qed

text \<open>
  What is left behind: one element whose application failed, the literal bytes of those still queued, and the buffers of
  the rolling procedure.
\<close>

definition left_behind :: "rm_error \<Rightarrow> block multiset \<Rightarrow> bool" where
  "left_behind e M \<longleftrightarrow> (e = RM_ERR_OK \<longrightarrow> M = {#}) \<and>
     (\<exists>held left bufs. M = mset (concat (map elem_blocks held)) + literal_blocks left + mset (buffer_blocks bufs) \<and>
        length held \<le> 1)"

lemma left_behind_none: "left_behind e {#}"
  unfolding left_behind_def
  by (intro conjI exI [of _ "[]"] exI [of _ "(False, False)"]) (simp_all add: literal_blocks_def buffer_blocks_def)

text \<open>
  The producer of a local push does not count bytes in the session, only the consumer does, at its normal end; so
  after a consumer that has failed the size of the result does not match, unless it is 0, and then there is no failure.
\<close>

lemma local_producer_counts_nothing:
  assumes "rm_session_delta_tx_f tw mem RM_PUSH_LOCAL True h hm (Some f_x) (Some (roll_cb fq RM_PUSH_LOCAL)) s = Some (st, s', fx, m)"
    and "rec_by_ref (s_rec_ctx s) = 0" and "rec_by_raw (s_rec_ctx s) = 0"
  shows "rec_by_ref (s_rec_ctx s') = 0 \<and> rec_by_raw (s_rec_ctx s') = 0"
proof -
  let ?P = "\<lambda>s. rec_by_ref (s_rec_ctx s) = 0 \<and> rec_by_raw (s_rec_ctx s) = 0"
  obtain e so m' where r: "rm_rolling_ch_proc tw mem (Some s) h None (Some f_x) (Some (roll_cb fq RM_PUSH_LOCAL)) 0 = Some (e, so, fx, m')"
      "s' = the so"
    using assms(1) by (auto simp: rm_session_delta_tx_f_def split: option.splits)
  have cb: "cb_keeps ?P (roll_cb fq RM_PUSH_LOCAL)"
    by (auto simp: cb_keeps_def roll_cb_def rm_roll_proc_cb_1_def Let_def split: option.splits)
  have "report_keeps ?P" by (simp add: report_keeps_def)
  from sess_rolling_proc [where P = ?P, OF r(1) cb this] assms(2,3) r(2) show ?thesis by auto
qed

lemma nothing_to_consume:
  "pipe_reach fq f (pipe_init fq ds 0 s) p \<Longrightarrow> (pp_cons p = C_Start \<or> pp_cons p = C_Done) \<and> pp_left p = 0"
  by (induction rule: pipe_reach.induct) (auto simp: pipe_init_def consumer_step_def producer_step_def split: list.splits if_splits)

lemma local_threads_run:
  assumes "local_threads env tw fq h x_sz ctx f_x f_y f_z = Some (tx, rx, z, c, drained)" and "fifo_ok fq"
    and "rec_by_ref ctx = 0" and "rec_by_raw ctx = 0"
    and x: "x_sz = length (fs_bytes f_x)" "x_sz < off_max" "ctx_L ctx < size_t_mod"
  shows "\<exists>bufs ds p. local_run env tw fq h x_sz ctx f_x f_y f_z = Some (bufs, ds, p) \<and>
    p = run_pipe fq local_rx_f (pe_sched env) (pipe_init fq ds x_sz (f_y, Some f_z, ctx)) \<and>
    drained = (fq_list fq (pp_queue p) = []) \<and>
    (x_sz = sz_add (rec_by_ref c) (rec_by_raw c) \<longrightarrow> pp_cons p = C_Done \<and> bufs = (False, False))"
proof -
  let ?s = "\<lparr>s_rec_ctx = ctx, s_prvt = \<lparr>tq_queue = fq_init fq, tq_mutex = Mutex_Free, tq_smutex = Mutex_Free, tq_signals = 0\<rparr>\<rparr>"
  obtain st s' fx m where tx: "rm_session_delta_tx_f tw (pe_mem_roll env) RM_PUSH_LOCAL True (Some (\<lambda>_. h)) Mutex_Free
      (Some f_x) (Some (roll_cb fq RM_PUSH_LOCAL)) ?s = Some (st, s', fx, m)"
    using assms(1) by (auto simp: local_threads_def Let_def split: option.splits)
  let ?ds = "queued fq (s_prvt s')"
  let ?p = "run_pipe fq local_rx_f (pe_sched env) (pipe_init fq ?ds x_sz (f_y, Some f_z, ctx))"
  let ?bufs = "delta_tx_left tw (pe_mem_roll env) RM_PUSH_LOCAL True (Some (\<lambda>_. h)) Mutex_Free
      (Some f_x) (Some (roll_cb fq RM_PUSH_LOCAL)) ?s"
  have z: "rec_by_ref (s_rec_ctx s') = 0" "rec_by_raw (s_rec_ctx s') = 0"
    using local_producer_counts_nothing [OF tx] assms(3,4) by simp_all
  have reach: "pipe_reach fq local_rx_f (pipe_init fq ?ds x_sz (f_y, Some f_z, ctx)) ?p"
    using run_pipe_end [OF assms(2)] by blast
  then have "pp_cons ?p = C_Start \<or> pp_cons ?p = C_Done" if "x_sz = 0"
    using nothing_to_consume [of fq local_rx_f ?ds "(f_y, Some f_z, ctx)" ?p] that by auto
  moreover have "sz_add 0 0 = 0" by (simp add: sz_add_def)
  moreover have "pp_cons ?p \<noteq> C_Done" if "?bufs \<noteq> (False, False)"
  proof -
    have "queued fq (s_prvt ?s) = []" using fifo_simps [OF assms(2)] by (simp add: queued_def)
    with delta_tx_left_ok [OF assms(2) disjI1 [OF refl] tx _ _ _ that] x have "bytes_of ?ds < x_sz" by simp
    with consumer_done_bytes [OF assms(2) reach] x(2) off_max_size_t show ?thesis by simp
  qed
  ultimately show ?thesis
    using assms(1) z by (auto simp: local_threads_def local_run_def Let_def tx split: option.splits prod.splits consumer_pc.splits)
qed

definition new_session :: "rm_session_type \<Rightarrow> bytes \<Rightarrow> life_session" where
  "new_session t uuid = \<lparr>ls_type = t, ls_id = take RM_UUID_LEN uuid,
     ls_prvt = (if t = RM_PUSH_TX then rm_session_push_tx_init else rm_session_push_local_init)\<rparr>"

lemma session_create_mset:
  "t = RM_PUSH_LOCAL \<or> t = RM_PUSH_TX \<Longrightarrow> rm_session_create t (ok, True) uuid r =
     Some (if ok then (Some (new_session t uuid), add_blocks {#B_Prvt, B_Session#} r) else (None, r))"
  by (auto simp: rm_session_create_def Let_def r_alloc_blocks new_session_def add_mset_commute)

lemma new_session_simps [simp]: "ls_type (new_session t uuid) = t" "pv_queue (ls_prvt (new_session t uuid)) = []"
  by (simp_all add: new_session_def rm_session_push_local_init_def rm_session_push_tx_init_def prvt_zero_def)

lemma local_delta_ok:
  assumes "fifo_ok fq" and ctx: "rec_by_ref ctx = 0" "rec_by_raw ctx = 0"
    and x: "x_sz = length (fs_bytes f_x)" "x_sz < off_max" "ctx_L ctx < size_t_mod"
    and v: "v = \<lparr>lv_f_x = True, lv_f_y = True, lv_f_z = False, lv_ref_exist = True, lv_nodes = 0, lv_s = None\<rparr>"
  shows "case push_delta env tw fq h fs f_x x_sz y f_y y_sz z ctx flags rc of
      None \<Rightarrow> local_delta env tw fq h uuid fs f_x x_sz y f_y y_sz z ctx flags v (add_blocks (owned v) r) = None
    | Some (e, _, _) \<Rightarrow> \<exists>lost. left_behind e lost \<and>
        local_delta env tw fq h uuid fs f_x x_sz y f_y y_sz z ctx flags v (add_blocks (owned v) r) = Some (e, add_blocks lost r)"
proof -
  obtain err n st where ins: "rm_rx_insert_nonoverlapping_ch_ch_ref tw (pe_mem_insert env) 0 f_y (Some h) (ctx_L ctx) None
      (y_sz div ctx_L ctx + (if y_sz mod ctx_L ctx \<noteq> 0 then 1 else 0)) None () = (err, n, st)" by (metis prod_cases3)
  let ?v = "v\<lparr>lv_nodes := ins_n st\<rparr>" and ?s = "new_session RM_PUSH_LOCAL uuid"
  let ?vz = "?v\<lparr>lv_f_z := True\<rparr>" and ?vs = "?v\<lparr>lv_f_z := True, lv_s := Some ?s\<rparr>"
  have goto: "local_goto_err e v (add_blocks (owned v) r) = Some (e, r)" if "vars_ok v" for e v
    using local_goto_err_ok [OF that, of e "{#}" r] by simp
  have ok: "vars_ok ?v" "vars_ok ?vz" "vars_ok ?vs" by (simp_all add: v vars_ok_def)
  have alloc: "alloc_n (ins_n st) B_Node (add_blocks (owned v) r) = add_blocks (owned ?v) r"
      "r_alloc B_Stream_Z (add_blocks (owned ?v) r) = add_blocks (owned ?vz) r"
      "add_blocks {#B_Prvt, B_Session#} (add_blocks (owned ?vz) r) = add_blocks (owned ?vs) r"
    by (simp_all add: alloc_n_blocks r_alloc_blocks v owned_def session_blocks_def add_mset_commute ac_simps)
  note steps = local_delta_def push_delta_def Let_def ins prod.case alloc
  show ?thesis
  proof (cases "err \<noteq> RM_ERR_OK \<or> fopen_wb env fs (pe_tmp env) = None")
    case True
    then have "\<exists>e. push_delta env tw fq h fs f_x x_sz y f_y y_sz z ctx flags rc = Some (e, fs, rc) \<and>
        local_delta env tw fq h uuid fs f_x x_sz y f_y y_sz z ctx flags v (add_blocks (owned v) r) = Some (e, r)"
      unfolding steps goto [OF ok(1)] by auto
    then show ?thesis using left_behind_none by (auto intro!: exI [of _ "{#}"])
  next
    case False
    then obtain f_z fs1 where o: "fopen_wb env fs (pe_tmp env) = Some (f_z, fs1)" by auto
    note opened = o option.case session_create_mset [OF disjI1 [OF refl]] Option.bind.bind_lunit
    consider "\<not> pe_session_ok env \<or> \<not> pe_tx_launch env" | "pe_session_ok env" "pe_tx_launch env" "\<not> pe_rx_launch env"
      | "pe_session_ok env" "pe_tx_launch env" "pe_rx_launch env" by blast
    then show ?thesis
    proof cases
      case 1
      then have "\<exists>e rc'. push_delta env tw fq h fs f_x x_sz y f_y y_sz z ctx flags rc = Some (e, fs1, rc') \<and>
          local_delta env tw fq h uuid fs f_x x_sz y f_y y_sz z ctx flags v (add_blocks (owned v) r) = Some (e, r)"
        using False unfolding steps opened by (auto simp: goto [OF ok(2)] goto [OF ok(3)] alloc)
      then show ?thesis using left_behind_none by (auto intro!: exI [of _ "{#}"])
    next
      case 2
      then show ?thesis using False unfolding steps opened by simp
    next
      case 3
      show ?thesis
      proof (cases "local_threads env tw fq (the (ins_h st)) x_sz ctx f_x (ins_f st) f_z")
        case None
        then show ?thesis using 3 False unfolding steps opened by simp
      next
        case (Some t)
        then obtain tx rx z1 c drained where t: "t = (tx, rx, z1, c, drained)" by (metis prod_cases5)
        obtain bufs ds p where p: "local_run env tw fq (the (ins_h st)) x_sz ctx f_x (ins_f st) f_z = Some (bufs, ds, p)"
            "p = run_pipe fq local_rx_f (pe_sched env) (pipe_init fq ds x_sz (ins_f st, Some f_z, ctx))"
            "drained = (fq_list fq (pp_queue p) = [])" "x_sz = sz_add (rec_by_ref c) (rec_by_raw c) \<longrightarrow> pp_cons p = C_Done \<and> bufs = (False, False)"
          using local_threads_run [OF Some [unfolded t] assms(1) ctx x] by blast
        let ?q = "fq_list fq (pp_queue p)"
        obtain held where held: "length held = (case pp_cons p of C_Err _ \<Rightarrow> 1 | _ \<Rightarrow> 0)"
            "\<And>r. join_blocks bufs ds p r = Some (add_blocks (replicate_mset (length ?q) B_Elem +
              (mset (concat (map elem_blocks held)) + literal_blocks ?q + mset (buffer_blocks bufs))) r)"
          using run_pipe_blocks [OF assms(1) p(2)] by blast
        let ?lost = "mset (concat (map elem_blocks held)) + literal_blocks ?q + mset (buffer_blocks bufs)"
        let ?w = "?vz\<lparr>lv_s := Some (?s\<lparr>ls_prvt := ls_prvt ?s\<lparr>pv_queue := ?q\<rparr>\<rparr>)\<rparr>"
        have own: "add_blocks (replicate_mset (length ?q) B_Elem + ?lost) (add_blocks (owned ?vs) r) =
            add_blocks (owned ?w + ?lost) r"
          unfolding v owned_def session_blocks_def add_blocks_add by (simp add: ac_simps add_mset_commute)
        have w: "vars_ok ?w" "lv_f_z ?w" "lv_ref_exist ?w" by (simp_all add: v vars_ok_def)
        note fin = local_done_delta [OF w, of "?s\<lparr>ls_prvt := ls_prvt ?s\<lparr>pv_queue := ?q\<rparr>\<rparr>" env flags y z x_sz fs1 z1 c ?lost r tx rx]
        let ?fin = "push_finish env flags y z x_sz fs1 (tx, rx, z1, c, ?q = [])"
        have "local_delta env tw fq h uuid fs f_x x_sz y f_y y_sz z ctx flags v (add_blocks (owned v) r) =
            Some (fst ?fin, add_blocks ?lost r)"
          using 3 False Some t p(1) held(2) own fin unfolding steps opened
          by (simp add: alloc)
        moreover have "push_delta env tw fq h fs f_x x_sz y f_y y_sz z ctx flags rc = Some ?fin"
          using 3 False Some t p(3) unfolding push_delta_def Let_def ins prod.case opened by simp
        moreover have "left_behind (fst ?fin) ?lost"
          proof -
          have "?lost = {#}" if ok: "fst ?fin = RM_ERR_OK"
          proof -
            have "?q = []" "x_sz = sz_add (rec_by_ref c) (rec_by_raw c)"
              using ok by (auto simp: push_finish_def Let_def split: option.splits if_splits)
            with p(4) held(1) show ?thesis by (simp add: literal_blocks_def buffer_blocks_def)
          qed
          moreover have "length held \<le> 1" using held(1) by (cases "pp_cons p") auto
          ultimately show ?thesis unfolding left_behind_def by blast
        qed
        ultimately show ?thesis by (cases ?fin) auto
      qed
    qed
  qed
qed


lemma local_push_blocks_ok:
  assumes "fifo_ok fq" and x: "\<And>x f_x. xo = Some x \<Longrightarrow> fopen_rb env fs x = Some f_x \<Longrightarrow> length (fs_bytes f_x) < off_max" "L < size_t_mod"
  shows "case rm_tx_local_push env tw fq h xo yo z L all tail send flags rco fs of
      None \<Rightarrow> local_push_blocks env tw fq h uuid xo yo z L all tail send flags rco fs r = None
    | Some (e, _, _) \<Rightarrow> \<exists>lost. left_behind e lost \<and>
        local_push_blocks env tw fq h uuid xo yo z L all tail send flags rco fs r = Some (e, add_blocks lost r)"
proof (cases "\<exists>x y rc. xo = Some x \<and> yo = Some y \<and> rco = Some rc \<and> L \<noteq> 0 \<and> send \<noteq> 0 \<and> fopen_rb env fs x \<noteq> None")
  case False
  then have "\<exists>e. rm_tx_local_push env tw fq h xo yo z L all tail send flags rco fs = Some (e, fs, rco) \<and>
      local_push_blocks env tw fq h uuid xo yo z L all tail send flags rco fs r = Some (e, r)"
    by (cases xo; cases yo; cases rco; cases "L = 0 \<or> send = 0") (auto simp: rm_tx_local_push_def local_push_blocks_def)
  then show ?thesis using left_behind_none by (auto intro!: exI [of _ "{#}"])
next
  case True
  then obtain x y rc f_x where a: "xo = Some x" "yo = Some y" "rco = Some rc" "\<not> (L = 0 \<or> send = 0)" "fopen_rb env fs x = Some f_x"
    by auto
  let ?v = "\<lparr>lv_f_x = True, lv_f_y = False, lv_f_z = False, lv_ref_exist = False, lv_nodes = 0, lv_s = None\<rparr>"
  let ?w = "?v\<lparr>lv_f_y := True, lv_ref_exist := True\<rparr>"
  have own: "r_alloc B_Stream_X r = add_blocks (owned ?v) r" "r_alloc B_Stream_Y (add_blocks (owned ?v) r) = add_blocks (owned ?w) r"
    by (simp_all add: r_alloc_blocks owned_def session_blocks_def add_mset_commute)
  have goto: "local_goto_err e v (add_blocks (owned v) r) = Some (e, r)" if "v = ?v \<or> v = ?w" for e v
    using local_goto_err_ok [of v e "{#}" r] that by (auto simp: vars_ok_def)
  note steps = rm_tx_local_push_def local_push_blocks_def a option.case prod.case Let_def own if_not_P [OF a(4)]
  show ?thesis
  proof (cases "fstat_size f_x")
    case None
    then show ?thesis unfolding steps using left_behind_none by (auto simp: goto intro!: exI [of _ "{#}"])
  next
    case (Some x_sz)
    show ?thesis
    proof (cases "fopen_rb env fs y")
      case None
      have "local_copy env flags fs x y z f_x x_sz rc ?v (add_blocks (owned ?v) r) =
          Some (fst (push_copy env fs x f_x x_sz (case z of Some zn \<Rightarrow> zn | None \<Rightarrow> y) rc), r)"
        by (rule local_copy_ok) (simp_all add: vars_ok_def)
      then show ?thesis
        unfolding steps Some None using left_behind_none
        by (auto simp: goto split_beta intro!: exI [of _ "{#}"])
    next
      case y: (Some f_y)
      show ?thesis
      proof (cases "fstat_size f_y")
        case None
        then show ?thesis unfolding steps Some y using left_behind_none by (auto simp: goto intro!: exI [of _ "{#}"])
      next
        case (Some y_sz)
        have w: "?w = \<lparr>lv_f_x = True, lv_f_y = True, lv_f_z = False, lv_ref_exist = True, lv_nodes = 0, lv_s = None\<rparr>" by simp
        have sz: "x_sz = length (fs_bytes f_x)" "x_sz < off_max" "ctx_L (push_ctx L all tail send) < size_t_mod"
          using x a(1,5) \<open>fstat_size f_x = Some x_sz\<close> by (auto simp: fstat_size_def split: if_splits)
        from local_delta_ok [OF assms(1) _ _ sz w, where env = env and tw = tw and h = h and fs = fs and y = y
            and f_y = f_y and y_sz = y_sz and z = z and flags = flags and rc = rc and uuid = uuid and r = r]
        show ?thesis
          unfolding steps \<open>fstat_size f_x = Some x_sz\<close> y Some
          by (cases "push_delta env tw fq h fs f_x x_sz y f_y y_sz z (push_ctx L all tail send) flags rc") auto
      qed
    qed
  qed
qed


section \<open>The property\<close>

text \<open>
  C16. A local push cleans up after itself, on every way out and whatever fails: streams, the session with its private part and
  the entries of the table are released exactly once, with the error that \<open>rm_tx_local_push\<close> returns. A push that returns
  \<open>RM_ERR_OK\<close> leaves nothing at all, in particular none of its threads has failed, although the function forgets their
  errors. After an error there may be left the one element whose application has failed, the literal bytes of the
  elements that were still queued, but not these elements, and the window and the literal bytes (\<open>bufs\<close>) of a
  producer that has returned from the loop of \<open>rm_rolling_ch_proc\<close>, which frees them at its two ends only. The file and
  the block are of a size that C can express. A push that never returns, since its consumer waits for a producer that
  has failed, is \<open>None\<close>: nothing is claimed of it.
\<close>

theorem local_push_releases:
  assumes "fifo_ok fq" and "rm_tx_local_push env tw fq h xo yo z L all tail send flags rco fs = Some (e, fs', rc')"
    and "\<And>x f_x. xo = Some x \<Longrightarrow> fopen_rb env fs x = Some f_x \<Longrightarrow> length (fs_bytes f_x) < off_max" and "L < size_t_mod"
  shows "\<exists>lost held left bufs. local_push_blocks env tw fq h uuid xo yo z L all tail send flags rco fs r =
      Some (e, r\<lparr>rs_live := rs_live r + lost\<rparr>) \<and> (e = RM_ERR_OK \<longrightarrow> lost = {#}) \<and>
    lost = mset (concat (map elem_blocks held)) +
      replicate_mset (length (filter (\<lambda>d :: rm_delta_e. d_type d = RM_DELTA_ELEMENT_RAW_BYTES) left)) B_Bytes +
      mset (buffer_blocks bufs) \<and> length held \<le> 1"
proof -
  obtain lost where "left_behind e lost"
      "local_push_blocks env tw fq h uuid xo yo z L all tail send flags rco fs r = Some (e, add_blocks lost r)"
    using local_push_blocks_ok [OF assms(1), where env = env and tw = tw and h = h and xo = xo and yo = yo and z = z and L = L
        and all = all and tail = tail and send = send and flags = flags and rco = rco and fs = fs and uuid = uuid and r = r]
      assms(2-) by auto
  then show ?thesis
    unfolding left_behind_def literal_blocks_def add_blocks_def by (elim conjE exE) (intro exI conjI; assumption)
qed

theorem local_push_releases_witness:
  "local_push_blocks (sample_env [Producer_Turn, Consumer_Turn, Spurious_Turn]) tw_lists fifo_lists (\<lambda>_. []) (replicate 16 7)
      (Some ''x'') (Some ''y'') None 1 0 0 1 0 (Some ctx_zero) [''x'' \<mapsto> [2, 1], ''y'' \<mapsto> [1, 1]] \<lparr>rs_live = {#B_Work#}, rs_closed = []\<rparr> =
    Some (RM_ERR_OK, \<lparr>rs_live = {#B_Work#}, rs_closed = []\<rparr>)"
proof -
  have nc: "no_collision 1 [2, 1] [1, 1]" "zero_diff_safe 1 [2, 1] [1, 1]"
    using roll_call_ok_sample [OF sink_log, of "[]"] by (simp_all add: roll_call_ok_def Let_def)
  obtain fs' rc where run: "rm_tx_local_push (sample_env [Producer_Turn, Consumer_Turn, Spurious_Turn]) tw_lists fifo_lists (\<lambda>_. [])
      (Some ''x'') (Some ''y'') None 1 0 0 1 0 (Some ctx_zero) [''x'' \<mapsto> [2, 1], ''y'' \<mapsto> [1, 1]] = Some (RM_ERR_OK, fs', rc)"
    using local_push_ok [OF sample_env_healthy fifo_lists_ok tw_lists_ok, of "\<lambda>_. []"
        "[''x'' \<mapsto> [2, 1], ''y'' \<mapsto> [1, 1]]" "''x''" "[2, 1]" "''y''" "[1, 1]" 1 1 "[Producer_Turn, Consumer_Turn, Spurious_Turn]" None
        "''y''" 0 0 0 ctx_zero] nc
    by (auto simp: tw_lists_def off_max_def sample_env_def)
  let ?fs = "[''x'' \<mapsto> [2, 1], ''y'' \<mapsto> [1, 1]]"
  have small: "length (fs_bytes f) < off_max"
    if "Some ''x'' = Some x" "fopen_rb (sample_env [Producer_Turn, Consumer_Turn, Spurious_Turn]) ?fs x = Some f" for x f
    using that by (auto simp: fopen_rb_def sample_env_def open_stream_def off_max_def)
  have "(1::nat) < size_t_mod" by (simp add: size_t_mod_def)
  from local_push_releases [where uuid = "replicate 16 7" and r = "\<lparr>rs_live = {#B_Work#}, rs_closed = []\<rparr>",
      OF fifo_lists_ok run small this] show ?thesis by auto
qed

end
