(* ===== verification/RM_ReleaseTx.thy ===== *)
theory RM_ReleaseTx
  imports RM_Release
begin

text \<open>
  What a remote push opens, allocates and releases, on every way out of \<open>rm_tx_remote_push\<close> of \<^verbatim>\<open>src/rm_tx.c\<close>: the
  control flow of \<open>RM_TxRemote\<close>, on the live blocks of \<open>RM_Life\<close>, with the connection to the receiver as one of them.
\<close>

section \<open>The remote push\<close>

text \<open>
  The session exists in all of what follows; \<open>tv_s_f_x\<close> is whether it has been given the stream of the source, which
  before that is only in the local variable \<open>f_x\<close>.
\<close>

record tx_vars =
  tv_ack_hdr :: bool
  tv_buf :: bool
  tv_s_f_x :: bool
  tv_nodes :: nat
  tv_s :: life_session

text \<open>The request and its header are not among what the failure exit releases.\<close>

definition remote_err_exit :: "tx_vars \<Rightarrow> resources \<Rightarrow> resources option" where
  "remote_err_exit v r =
     do {
       r \<leftarrow> (if tv_ack_hdr v then r_free B_Hdr r else Some r);
       r \<leftarrow> (if tv_buf v then r_free B_Buf r else Some r);
       r \<leftarrow> close_stream (tv_s_f_x v) B_Stream_X r;
       r \<leftarrow> rm_session_free (tv_s v) r;
       free_n (tv_nodes v) B_Node r
     }"

definition remote_goto_err :: "int \<Rightarrow> tx_vars \<Rightarrow> resources \<Rightarrow> (int \<times> resources) option" where
  "remote_goto_err e v r = map_option (Pair e) (remote_err_exit v r)"

text \<open>The entries received, and one more that was allocated before receiving it failed.\<close>

definition ch_ch_blocks :: "rm_rx_status \<Rightarrow> nat \<Rightarrow> resources \<Rightarrow> resources" where
  "ch_ch_blocks st n r =
     (let r = alloc_n n B_Node r
      in if st = RM_RX_STATUS_OK \<or> st = RM_RX_STATUS_CH_CH_RX_MEM then r else r_alloc B_Node r)"

text \<open>Without a connection the consumer applies nothing.\<close>

definition remote_join ::
    "tx_env \<Rightarrow> (rm_delta_e, 'f) twfifo \<Rightarrow> rm_delta_reconstruct_ctx \<Rightarrow> u16 \<Rightarrow> bool \<times> bool \<Rightarrow> rm_delta_e list \<Rightarrow> nat \<Rightarrow>
     resources \<Rightarrow> resources option" where
  "remote_join env fq ctx port bufs ds x_sz r =
     (if \<not> te_peer_ok env \<or> fst (te_delta env port) \<noteq> RM_ERR_OK
      then Some (alloc_blocks (concat (map elem_blocks ds) @ buffer_blocks bufs) r)
      else join_blocks bufs ds
             (run_pipe fq remote_rx_f (pe_sched (te_sys env)) (pipe_init fq ds x_sz (ctx, snd (te_delta env port)))) r)"

definition tx_threads_blocks ::
    "tx_env \<Rightarrow> 'h twhash \<Rightarrow> (rm_delta_e, 'f) twfifo \<Rightarrow> 'h \<Rightarrow> rm_delta_reconstruct_ctx \<Rightarrow> stream \<Rightarrow> nat \<Rightarrow>
     rm_msg_push_ack \<Rightarrow> sock \<Rightarrow> tx_vars \<Rightarrow> resources \<Rightarrow> (int \<times> resources) option" where
  "tx_threads_blocks env tw fq h ctx f_x x_sz ack ctl v r =
     (if \<not> te_ch_launch env then remote_goto_err (err_code RM_ERR_CH_CH_RX_THREAD_LAUNCH) v r
      else if \<not> pe_tx_launch (te_sys env) \<or> \<not> pe_rx_launch (te_sys env) then None
      else case rm_session_ch_ch_rx_f tw (te_ch_mem env) (a_ch_ch_n ack) h Mutex_Free ctl of
        None \<Rightarrow> None
      | Some (ch_status, c) \<Rightarrow>
          let s = \<lparr>s_rec_ctx = ctx, s_prvt = \<lparr>tq_queue = fq_init fq, tq_mutex = Mutex_Free,
                tq_smutex = Mutex_Free, tq_signals = 0\<rparr>\<rparr>;
              v = v\<lparr>tv_s_f_x := True, tv_nodes := cr_n c\<rparr>;
              r = ch_ch_blocks ch_status (cr_n c) r
          in (case rm_session_delta_tx_f tw (pe_mem_roll (te_sys env)) RM_PUSH_TX True
                     (Some (arrived env tw h ctl (unat (a_ch_ch_n ack)))) Mutex_Free (Some f_x)
                     (Some (roll_cb fq RM_PUSH_TX)) s of
                Some (Some tx_status, s', _, _) \<Rightarrow>
                  let ds = queued fq (s_prvt s');
                      bufs = delta_tx_left tw (pe_mem_roll (te_sys env)) RM_PUSH_TX True
                               (Some (arrived env tw h ctl (unat (a_ch_ch_n ack)))) Mutex_Free (Some f_x)
                               (Some (roll_cb fq RM_PUSH_TX)) s
                  in do {
                    (rx_status, _) \<leftarrow> remote_consumer env fq ctx (a_delta_port ack) ds x_sz;
                    r \<leftarrow> remote_join env fq ctx (a_delta_port ack) bufs ds x_sz r;
                    (if ch_status \<noteq> RM_RX_STATUS_OK then remote_goto_err (err_code RM_ERR_CH_CH_RX_THREAD) v r
                     else if tx_status \<noteq> RM_TX_STATUS_OK then remote_goto_err (err_code RM_ERR_DELTA_TX_THREAD) v r
                     else if rx_status \<noteq> Some RM_RX_STATUS_OK then remote_goto_err (err_code RM_ERR_DELTA_RX_THREAD) v r
                     else
                       do {
                         r \<leftarrow> close_stream (tv_s_f_x v) B_Stream_X r;
                         r \<leftarrow> rm_session_free (tv_s v) r;
                         r \<leftarrow> r_free B_Raw r;
                         r \<leftarrow> r_free B_Hdr r;
                         r \<leftarrow> r_free B_Hdr r;
                         r \<leftarrow> free_n (tv_nodes v) B_Node r;
                         Some (0, r)
                       })
                  }
              | _ \<Rightarrow> None))"

text \<open>From the request on.\<close>

definition remote_request ::
    "tx_env \<Rightarrow> 'h twhash \<Rightarrow> (rm_delta_e, 'f) twfifo \<Rightarrow> 'h \<Rightarrow> string \<Rightarrow> string option \<Rightarrow> string option \<Rightarrow>
     nat \<Rightarrow> nat \<Rightarrow> nat \<Rightarrow> nat \<Rightarrow> u8 \<Rightarrow> stream \<Rightarrow> nat \<Rightarrow> sock \<Rightarrow> tx_vars \<Rightarrow> resources \<Rightarrow> (int \<times> resources) option" where
  "remote_request env tw fq h x y z L all tail send flags f_x x_sz ctl v r =
     (case push_msg env x y z L flags x_sz of
        None \<Rightarrow> None
      | Some m \<Rightarrow>
          if \<not> te_raw_mem env then Some (err_code RM_ERR_TOO_MUCH_REQUESTED, r)
          else if unat (h_len (p_hdr m)) < length (rm_serialize_msg_push [] m) then None
          else
            let r = r_alloc B_Raw r in
            (case rm_tcp_write ctl (take (unat (h_len (p_hdr m))) (rm_serialize_msg_push [] m)) of
               (e, ctl) \<Rightarrow>
                 if e \<noteq> RM_ERR_OK then remote_goto_err (err_code e) v r
                 else if \<not> te_ack_mem env then remote_goto_err (err_code RM_ERR_OK) v r
                 else
                   let r = r_alloc B_Hdr r; v = v\<lparr>tv_ack_hdr := True\<rparr> in
                   if \<not> te_buf_mem env then remote_goto_err (err_code RM_ERR_OK) v r
                   else
                     let r = r_alloc B_Buf r; v = v\<lparr>tv_buf := True\<rparr> in
                     (case tx_wait_ack (te_hash32 env) ctl of
                        None \<Rightarrow> None
                      | Some (Inl code, ctl) \<Rightarrow> remote_goto_err code v r
                      | Some (Inr ack, ctl) \<Rightarrow>
                          Option.bind (r_free B_Buf r)
                            (tx_threads_blocks env tw fq h (push_ctx L all tail send) f_x x_sz ack ctl (v\<lparr>tv_buf := False\<rparr>)))))"

text \<open>
  Three returns do not go through the failure exit. The buffer is given back after the acknowledgement has been read,
  also when its status is an error, in which case the failure exit finds \<open>NULL\<close>.
\<close>

definition remote_push_blocks ::
    "tx_env \<Rightarrow> 'h twhash \<Rightarrow> (rm_delta_e, 'f) twfifo \<Rightarrow> 'h \<Rightarrow> string option \<Rightarrow> string option \<Rightarrow>
     string option \<Rightarrow> nat \<Rightarrow> nat \<Rightarrow> nat \<Rightarrow> nat \<Rightarrow> u8 \<Rightarrow> rm_delta_reconstruct_ctx option \<Rightarrow> files \<Rightarrow> resources \<Rightarrow>
     (int \<times> resources) option" where
  "remote_push_blocks env tw fq h xo y z L all tail send flags rco fs r =
     (case (xo, rco) of
        (Some x, Some rc) \<Rightarrow>
          if L = 0 \<or> send = 0 then Some (err_code RM_ERR_BAD_CALL, r)
          else case fopen_rb (te_sys env) fs x of
            None \<Rightarrow> Some (err_code RM_ERR_OPEN_X, r)
          | Some f_x \<Rightarrow>
              let r = r_alloc B_Stream_X r in
              (case fstat_size f_x of
                 None \<Rightarrow> None
               | Some x_sz \<Rightarrow>
                   if x_sz = 0 then Some (err_code RM_ERR_X_ZERO_SIZE, r)
                   else
                     Option.bind (rm_session_create RM_PUSH_TX (pe_session_ok (te_sys env), True) (te_uuid env) r)
                       (\<lambda>(so, r). case so of
                          None \<Rightarrow> None
                        | Some s \<Rightarrow>
                            let v = \<lparr>tv_ack_hdr = False, tv_buf = False, tv_s_f_x = False, tv_nodes = 0, tv_s = s\<rparr> in
                            (case te_conn env of
                               (e, ctl) \<Rightarrow>
                                 if e \<noteq> RM_ERR_OK then remote_goto_err (err_code e) v r
                                 else
                                   let r = r_alloc B_Control r in
                                   (case rm_msg_push_alloc (te_msg_mem env) r of
                                      (e, r) \<Rightarrow>
                                        if e \<noteq> RM_ERR_OK then remote_goto_err (err_code RM_ERR_OK) v r
                                        else remote_request env tw fq h x y z L all tail send flags f_x x_sz ctl v r))))
      | _ \<Rightarrow> Some (err_code RM_ERR_BAD_CALL, r))"

section \<open>What a remote push leaves\<close>

definition tx_owned :: "tx_vars \<Rightarrow> block multiset" where
  "tx_owned v = (if tv_ack_hdr v then {#B_Hdr#} else {#}) + (if tv_buf v then {#B_Buf#} else {#}) +
     (if tv_s_f_x v then {#B_Stream_X#} else {#}) + {#B_Prvt, B_Session#} + replicate_mset (tv_nodes v) B_Node"

lemma remote_goto_err_ok:
  assumes "ls_type (tv_s v) = RM_PUSH_TX"
  shows "remote_goto_err e v (add_blocks (tx_owned v + lost) r) = Some (e, add_blocks lost r)"
proof -
  have "(if c then r_free b r else Some r) = free_mset (if c then {#b#} else {#}) r" for c b r
    by (simp add: r_free_mset)
  moreover have "rm_session_free (tv_s v) = free_mset {#B_Prvt, B_Session#}" using assms by (simp add: session_free_mset)
  ultimately have "remote_err_exit v r = free_mset (tx_owned v) r" for r
    unfolding remote_err_exit_def close_stream_mset free_n_mset tx_owned_def
    by (simp only: free_mset_bind add.assoc)
  then show ?thesis by (simp add: remote_goto_err_def free_add_left)
qed

text \<open>
  The blocks at a return. With the control connection open, in this order: a push that is carried out, one whose
  threads have failed, one that has ended before they had the file, one without memory for the message, and one
  without memory for its serialized form.
\<close>

definition remote_left :: "tx_env \<Rightarrow> int \<Rightarrow> tx_result option \<Rightarrow> block multiset \<Rightarrow> bool" where
  "remote_left env e res M \<longleftrightarrow>
     (case res of
        None \<Rightarrow> M = {#} \<or> M = {#B_Stream_X#}
      | Some t \<Rightarrow>
          (\<exists>N. set_mset N \<subseteq> {B_Elem, B_Bytes} \<and> M = {#B_Control#} + N \<and> e = 0 \<and> tr_delta t \<noteq> None) \<or>
          (\<exists>N. set_mset N \<subseteq> {B_Elem, B_Bytes, B_Window, B_Node} \<and> M = {#B_Control, B_Hdr, B_Raw#} + N \<and>
             e \<in> err_code ` {RM_ERR_CH_CH_RX_THREAD, RM_ERR_DELTA_TX_THREAD, RM_ERR_DELTA_RX_THREAD}) \<or>
          tr_delta t = None \<and>
            (M = {#B_Stream_X, B_Control, B_Hdr, B_Raw#} \<or>
             M = {#B_Stream_X, B_Control#} \<and> \<not> te_msg_mem env \<or>
             M = {#B_Stream_X, B_Control, B_Hdr, B_Session, B_Prvt#} \<and> \<not> te_raw_mem env))"

lemma connect_status_not_ok: "connect_status e \<noteq> RM_RX_STATUS_OK"
  by (cases "e = RM_ERR_CONNECT_TIMEOUT"; cases "e = RM_ERR_CONNECT_REFUSED"; cases "e = RM_ERR_CONNECT_HOSTUNREACH")
    (simp_all add: connect_status_def split: rm_error.split)

lemma remote_join_ok:
  assumes "fifo_ok fq" and "remote_consumer env fq ctx port ds x_sz = Some (rx, d)"
  shows "\<exists>N. set_mset N \<subseteq> {B_Elem, B_Bytes} \<and>
    (\<forall>bufs r. remote_join env fq ctx port bufs ds x_sz r = Some (add_blocks (N + mset (buffer_blocks bufs)) r)) \<and>
    (rx = Some RM_RX_STATUS_OK \<longrightarrow> d \<noteq> None)"
proof -
  have elems: "set_mset (mset (concat (map elem_blocks xs))) \<subseteq> {B_Elem, B_Bytes}" for xs
    by (auto simp: elem_blocks_def split: if_splits)
  have lits: "set_mset (literal_blocks xs) \<subseteq> {B_Elem, B_Bytes}" for xs by (auto simp: literal_blocks_def)
  have d: "rx = Some RM_RX_STATUS_OK \<longrightarrow> d \<noteq> None"
    using assms(2) by (auto simp: remote_consumer_def connect_status_not_ok Let_def split: if_splits prod.splits consumer_pc.splits)
  show ?thesis
  proof (cases "\<not> te_peer_ok env \<or> fst (te_delta env port) \<noteq> RM_ERR_OK")
    case True
    then show ?thesis
      using elems [of ds] d by (intro exI [of _ "mset (concat (map elem_blocks ds))"])
        (simp add: remote_join_def alloc_blocks_blocks)
  next
    case False
    let ?p = "run_pipe fq remote_rx_f (pe_sched (te_sys env)) (pipe_init fq ds x_sz (ctx, snd (te_delta env port)))"
    let ?q = "fq_list fq (pp_queue ?p)"
    obtain held where "\<forall>bufs r. join_blocks bufs ds ?p r = Some (add_blocks (replicate_mset (length ?q) B_Elem +
        (mset (concat (map elem_blocks held)) + literal_blocks ?q + mset (buffer_blocks bufs))) r)"
      using run_pipe_blocks [where p = ?p, OF assms(1) refl] by blast
    then show ?thesis
      using False elems [of held] lits [of ?q] d
      by (intro exI [of _ "replicate_mset (length ?q) B_Elem + (mset (concat (map elem_blocks held)) + literal_blocks ?q)"])
        (auto simp: remote_join_def add.assoc split: if_splits)
  qed
qed

lemma buffer_blocks_sub: "set_mset (mset (buffer_blocks bufs)) \<subseteq> {B_Window, B_Bytes}" "buffer_blocks (False, False) = []"
  by (auto simp: buffer_blocks_def)

lemma both_left:
  assumes "X = Some t" and "B = Some (tr_err t, add_blocks M r)" and "remote_left env (tr_err t) (Some t) M"
  shows "case X of None \<Rightarrow> B = None | Some t \<Rightarrow> \<exists>M. remote_left env (tr_err t) (Some t) M \<and> B = Some (tr_err t, add_blocks M r)"
  using assms by auto

text \<open>The threads: before them, besides what the variables own, there are the stream of the source, the connection and the request.\<close>

lemma tx_threads_left:
  assumes "fifo_ok fq" and "ls_type s = RM_PUSH_TX"
    and v: "v = \<lparr>tv_ack_hdr = True, tv_buf = False, tv_s_f_x = False, tv_nodes = 0, tv_s = s\<rparr>"
  shows "case tx_threads env tw fq h ctx f_x x_sz ack ctl rc of
      None \<Rightarrow> tx_threads_blocks env tw fq h ctx f_x x_sz ack ctl v (add_blocks (tx_owned v + {#B_Stream_X, B_Control, B_Hdr, B_Raw#}) r) = None
    | Some t \<Rightarrow> \<exists>M. remote_left env (tr_err t) (Some t) M \<and>
        tx_threads_blocks env tw fq h ctx f_x x_sz ack ctl v (add_blocks (tx_owned v + {#B_Stream_X, B_Control, B_Hdr, B_Raw#}) r) =
          Some (tr_err t, add_blocks M r)"
proof -
  let ?r = "add_blocks (tx_owned v + {#B_Stream_X, B_Control, B_Hdr, B_Raw#}) r"
  have type: "ls_type (tv_s v) = RM_PUSH_TX" using assms(2) v by simp
  consider "\<not> te_ch_launch env" | "te_ch_launch env" "\<not> pe_tx_launch (te_sys env) \<or> \<not> pe_rx_launch (te_sys env)"
    | "te_ch_launch env" "pe_tx_launch (te_sys env)" "pe_rx_launch (te_sys env)" by blast
  then show ?thesis
  proof cases
    case 1
    then show ?thesis
      using remote_goto_err_ok [OF type, of "err_code RM_ERR_CH_CH_RX_THREAD_LAUNCH" "{#B_Stream_X, B_Control, B_Hdr, B_Raw#}" r]
      by (auto simp: tx_threads_def tx_threads_blocks_def tx_fail_def remote_left_def)
  next
    case 2
    then show ?thesis by (auto simp: tx_threads_def tx_threads_blocks_def)
  next
    case 3
    let ?q = "\<lparr>s_rec_ctx = ctx, s_prvt = \<lparr>tq_queue = fq_init fq, tq_mutex = Mutex_Free, tq_smutex = Mutex_Free, tq_signals = 0\<rparr>\<rparr>"
    let ?ch = "rm_session_ch_ch_rx_f tw (te_ch_mem env) (a_ch_ch_n ack) h Mutex_Free ctl"
    let ?tx = "rm_session_delta_tx_f tw (pe_mem_roll (te_sys env)) RM_PUSH_TX True
        (Some (arrived env tw h ctl (unat (a_ch_ch_n ack)))) Mutex_Free (Some f_x) (Some (roll_cb fq RM_PUSH_TX)) ?q"
    let ?rx = "\<lambda>s'. remote_consumer env fq ctx (a_delta_port ack) (queued fq (s_prvt s')) x_sz"
    have open3: "\<not> \<not> te_ch_launch env" "\<not> (\<not> pe_tx_launch (te_sys env) \<or> \<not> pe_rx_launch (te_sys env))" using 3 by simp_all
    note steps = tx_threads_def tx_threads_blocks_def if_not_P [OF open3(1)] if_not_P [OF open3(2)] Let_def
    show ?thesis
    proof (cases "\<exists>st c tx s' fx m rx d. ?ch = Some (st, c) \<and> ?tx = Some (Some tx, s', fx, m) \<and> ?rx s' = Some (rx, d)")
      case False
      then show ?thesis unfolding steps by (auto split: option.splits prod.splits)
    next
      case True
      then obtain st c tx s' fx m rx d where run: "?ch = Some (st, c)" "?tx = Some (Some tx, s', fx, m)" "?rx s' = Some (rx, d)"
        by (elim exE conjE) (rule that; assumption)
      let ?bufs = "delta_tx_left tw (pe_mem_roll (te_sys env)) RM_PUSH_TX True
        (Some (arrived env tw h ctl (unat (a_ch_ch_n ack)))) Mutex_Free (Some f_x) (Some (roll_cb fq RM_PUSH_TX)) ?q"
      obtain N0 where N0: "set_mset N0 \<subseteq> {B_Elem, B_Bytes}" "rx = Some RM_RX_STATUS_OK \<longrightarrow> d \<noteq> None"
          "\<And>r. remote_join env fq ctx (a_delta_port ack) ?bufs (queued fq (s_prvt s')) x_sz r =
             Some (add_blocks (N0 + mset (buffer_blocks ?bufs)) r)"
        using remote_join_ok [OF assms(1) run(3)] by blast
      obtain N where N: "N = N0 + mset (buffer_blocks ?bufs)" "rx = Some RM_RX_STATUS_OK \<longrightarrow> d \<noteq> None"
          "\<And>r. remote_join env fq ctx (a_delta_port ack) ?bufs (queued fq (s_prvt s')) x_sz r = Some (add_blocks N r)"
        using N0 by blast
      let ?v = "v\<lparr>tv_s_f_x := True, tv_nodes := cr_n c\<rparr>"
      let ?node = "if st = RM_RX_STATUS_OK \<or> st = RM_RX_STATUS_CH_CH_RX_MEM then {#} else {#B_Node#}"
      let ?lost = "{#B_Control, B_Hdr, B_Raw#} + (?node + N)"
      have own: "add_blocks N (ch_ch_blocks st (cr_n c) ?r) = add_blocks (tx_owned ?v + ?lost) r"
        unfolding ch_ch_blocks_def Let_def alloc_n_blocks r_alloc_blocks v tx_owned_def
        by (simp add: ac_simps add_mset_commute)
      have goto: "remote_goto_err e ?v (add_blocks (tx_owned ?v + ?lost) r) = Some (e, add_blocks ?lost r)" for e
        by (rule remote_goto_err_ok) (use type in simp)
      note steps' = steps run option.case prod.case N(3) Option.bind.bind_lunit own goto
      let ?e = "if st \<noteq> RM_RX_STATUS_OK then err_code RM_ERR_CH_CH_RX_THREAD
        else if tx \<noteq> RM_TX_STATUS_OK then err_code RM_ERR_DELTA_TX_THREAD else err_code RM_ERR_DELTA_RX_THREAD"
      show ?thesis
      proof (cases "st = RM_RX_STATUS_OK \<and> tx = RM_TX_STATUS_OK \<and> rx = Some RM_RX_STATUS_OK")
        case False
        then have "tx_threads_blocks env tw fq h ctx f_x x_sz ack ctl v ?r = Some (?e, add_blocks ?lost r)"
          unfolding steps' by simp
        moreover obtain t where t: "tx_threads env tw fq h ctx f_x x_sz ack ctl rc = Some t" "tr_err t = ?e"
          using False unfolding steps' by auto
        moreover have "remote_left env ?e (Some t) ?lost"
          using N0(1) N(1) buffer_blocks_sub(1) [of ?bufs] by (auto simp: remote_left_def intro!: exI [of _ "?node + N"])
        ultimately show ?thesis by (intro both_left [where t = t and M = ?lost]) simp_all
      next
        case True
        let ?all = "{#B_Stream_X#} + ({#B_Prvt, B_Session#} + ({#B_Raw#} + ({#B_Hdr#} + ({#B_Hdr#} + replicate_mset (cr_n c) B_Node))))"
        have all: "tx_owned ?v + ?lost = ?all + ({#B_Control#} + N)"
          using True by (simp add: v tx_owned_def ac_simps add_mset_commute)
        have sess: "rm_session_free (tv_s ?v) = free_mset {#B_Prvt, B_Session#}" using type by (simp add: session_free_mset)
        have "tx_threads_blocks env tw fq h ctx f_x x_sz ack ctl v ?r = Some (0, add_blocks ({#B_Control#} + N) r)"
          using True free_add_left [of ?all "{#B_Control#} + N" r, folded all] unfolding steps'
          by (simp only: close_stream_mset r_free_mset free_n_mset sess free_mset_end) simp
        moreover obtain t where t: "tx_threads env tw fq h ctx f_x x_sz ack ctl rc = Some t" "tr_err t = 0" "tr_delta t \<noteq> None"
          using True N(2) unfolding steps' by auto
        moreover have "?bufs = (False, False)" by (rule delta_tx_left_success) (use run(2) True in simp)
        then have "set_mset N \<subseteq> {B_Elem, B_Bytes}" using N0(1) N(1) by (simp add: buffer_blocks_sub(2))
        ultimately show ?thesis
          by (intro both_left [where t = t and M = "{#B_Control#} + N"]) (auto simp: remote_left_def)
      qed
    qed
  qed
qed


text \<open>From the request on; \<open>res\<close> is the rest of \<open>rm_tx_remote_push\<close>.\<close>

definition request_result ::
    "tx_env \<Rightarrow> 'h twhash \<Rightarrow> (rm_delta_e, 'f) twfifo \<Rightarrow> 'h \<Rightarrow> string \<Rightarrow> string option \<Rightarrow> string option \<Rightarrow>
     nat \<Rightarrow> nat \<Rightarrow> nat \<Rightarrow> nat \<Rightarrow> u8 \<Rightarrow> stream \<Rightarrow> nat \<Rightarrow> sock \<Rightarrow> rm_delta_reconstruct_ctx \<Rightarrow> tx_result option" where
  "request_result env tw fq h x y z L all tail send flags f_x x_sz ctl rc =
     (case push_msg env x y z L flags x_sz of
        None \<Rightarrow> None
      | Some m \<Rightarrow>
          let rc = rc\<lparr>msg_push_len := h_len (p_hdr m)\<rparr> in
          if \<not> te_raw_mem env then Some (tx_fail RM_ERR_TOO_MUCH_REQUESTED ctl rc)
          else if unat (h_len (p_hdr m)) < length (rm_serialize_msg_push [] m) then None
          else case rm_tcp_write ctl (take (unat (h_len (p_hdr m))) (rm_serialize_msg_push [] m)) of
            (e, ctl) \<Rightarrow>
              if e \<noteq> RM_ERR_OK then Some (tx_fail e ctl rc)
              else if \<not> te_ack_mem env \<or> \<not> te_buf_mem env then Some (tx_fail RM_ERR_OK ctl rc)
              else case tx_wait_ack (te_hash32 env) ctl of
                None \<Rightarrow> None
              | Some (Inl code, ctl) \<Rightarrow>
                  Some \<lparr>tr_err = code, tr_ctl = ctl, tr_delta = None, tr_ctx = rc\<rparr>
              | Some (Inr ack, ctl) \<Rightarrow>
                  tx_threads env tw fq h (push_ctx L all tail send) f_x x_sz ack ctl rc)"

lemma remote_request_left:
  assumes "fifo_ok fq" and "ls_type s = RM_PUSH_TX"
    and v: "v = \<lparr>tv_ack_hdr = False, tv_buf = False, tv_s_f_x = False, tv_nodes = 0, tv_s = s\<rparr>"
    and "X = request_result env tw fq h x y z L all tail send flags f_x x_sz ctl rc"
    and "B = remote_request env tw fq h x y z L all tail send flags f_x x_sz ctl v
      (add_blocks (tx_owned v + {#B_Stream_X, B_Control, B_Hdr#}) r)"
  shows "case X of None \<Rightarrow> B = None | Some t \<Rightarrow> \<exists>M. remote_left env (tr_err t) (Some t) M \<and> B = Some (tr_err t, add_blocks M r)"
proof (cases "push_msg env x y z L flags x_sz")
  case None
  then show ?thesis by (simp add: assms(4,5) request_result_def remote_request_def)
next
  case (Some m)
  let ?early = "{#B_Stream_X, B_Control, B_Hdr, B_Raw#}"
  let ?a = "v\<lparr>tv_ack_hdr := True\<rparr>" and ?b = "v\<lparr>tv_ack_hdr := True, tv_buf := True\<rparr>"
  have own: "r_alloc B_Raw (add_blocks (tx_owned v + {#B_Stream_X, B_Control, B_Hdr#}) r) = add_blocks (tx_owned v + ?early) r"
      "r_alloc B_Hdr (add_blocks (tx_owned v + ?early) r) = add_blocks (tx_owned ?a + ?early) r"
      "r_alloc B_Buf (add_blocks (tx_owned ?a + ?early) r) = add_blocks (tx_owned ?b + ?early) r"
    by (simp_all add: r_alloc_blocks v tx_owned_def add_mset_commute)
  have raw: "add_blocks (tx_owned v + {#B_Stream_X, B_Control, B_Hdr#}) r =
      add_blocks {#B_Stream_X, B_Control, B_Hdr, B_Session, B_Prvt#} r"
    by (simp add: v tx_owned_def add_mset_commute)
  have buf: "r_free B_Buf (add_blocks (tx_owned ?b + ?early) r) = Some (add_blocks (tx_owned (?b\<lparr>tv_buf := False\<rparr>) + ?early) r)"
    unfolding r_free_mset by (rule free_owned) (simp add: v tx_owned_def)
  have goto: "remote_goto_err e w (add_blocks (tx_owned w + ?early) r) = Some (e, add_blocks ?early r)"
    if "w = v \<or> w = ?a \<or> w = ?b" for e w
    by (rule remote_goto_err_ok) (use that assms(2) v in auto)
  have gotos: "remote_goto_err e v (add_blocks (tx_owned v + ?early) r) = Some (e, add_blocks ?early r)"
      "remote_goto_err e ?a (add_blocks (tx_owned ?a + ?early) r) = Some (e, add_blocks ?early r)"
      "remote_goto_err e ?b (add_blocks (tx_owned ?b + ?early) r) = Some (e, add_blocks ?early r)" for e
    by (rule goto, simp)+
  have left: "remote_left env (tr_err t) (Some t) ?early" if "tr_delta t = None" for t
    using that by (simp add: remote_left_def)
  show ?thesis
  proof (cases "te_raw_mem env")
    case False
    then have "B = Some (err_code RM_ERR_TOO_MUCH_REQUESTED, add_blocks {#B_Stream_X, B_Control, B_Hdr, B_Session, B_Prvt#} r)"
      unfolding assms(5) remote_request_def raw by (simp add: Some)
    moreover obtain t where "X = Some t" "tr_err t = err_code RM_ERR_TOO_MUCH_REQUESTED" "tr_delta t = None"
      using False by (simp add: assms(4) request_result_def Some tx_fail_def)
    ultimately show ?thesis
      using False by (intro both_left [where t = t and M = "{#B_Stream_X, B_Control, B_Hdr, B_Session, B_Prvt#}"])
        (simp_all add: remote_left_def)
  next
    case True
    obtain e ctl1 where w: "rm_tcp_write ctl (take (unat (h_len (p_hdr m))) (rm_serialize_msg_push [] m)) = (e, ctl1)"
      by (metis surj_pair)
    have mem: "\<not> \<not> te_raw_mem env" using True by simp
    show ?thesis
    proof (cases "unat (h_len (p_hdr m)) < length (rm_serialize_msg_push [] m)")
      case True
      then show ?thesis unfolding assms(4,5) request_result_def remote_request_def Some by (simp add: mem)
    next
      case fits: False
      note steps = assms(4,5) request_result_def remote_request_def Some option.case Let_def if_not_P [OF mem] if_not_P [OF fits]
        w prod.case own
      show ?thesis
      proof (cases "e = RM_ERR_OK \<and> te_ack_mem env \<and> te_buf_mem env")
        case False
        then have "\<exists>t. X = Some t \<and> tr_delta t = None \<and> B = Some (tr_err t, add_blocks ?early r)"
          unfolding steps gotos by (auto simp: tx_fail_def)
        then show ?thesis using left both_left [where M = ?early] by blast
      next
        case go: True
        then have go': "\<not> e \<noteq> RM_ERR_OK" "\<not> (\<not> te_ack_mem env \<or> \<not> te_buf_mem env)" "\<not> \<not> te_ack_mem env" "\<not> \<not> te_buf_mem env"
          by simp_all
        note steps = steps if_not_P [OF go'(1)] if_not_P [OF go'(2)] if_not_P [OF go'(3)] if_not_P [OF go'(4)]
        show ?thesis
        proof (cases "tx_wait_ack (te_hash32 env) ctl1")
          case None
          then show ?thesis unfolding steps by simp
        next
          case ack: (Some a)
          obtain res ctl2 where a: "a = (res, ctl2)" by (metis surj_pair)
          show ?thesis
          proof (cases res)
            case (Inl code)
            then have "\<exists>t. X = Some t \<and> tr_delta t = None \<and> B = Some (tr_err t, add_blocks ?early r)"
              unfolding steps ack a gotos by simp
            then show ?thesis using left both_left [where M = ?early] by blast
          next
            case (Inr ak)
            have w: "?b\<lparr>tv_buf := False\<rparr> = \<lparr>tv_ack_hdr = True, tv_buf = False, tv_s_f_x = False, tv_nodes = 0, tv_s = s\<rparr>"
              by (simp add: v)
            show ?thesis
              using tx_threads_left [OF assms(1,2) w, where env = env and tw = tw and h = h and ctx = "push_ctx L all tail send"
                  and f_x = f_x and x_sz = x_sz and ack = ak and ctl = ctl2 and rc = "rc\<lparr>msg_push_len := h_len (p_hdr m)\<rparr>"
                  and r = r]
              unfolding steps ack a Inr sum.case buf Option.bind.bind_lunit .
          qed
        qed
      qed
    qed
  qed
qed


lemma remote_push_blocks_ok:
  assumes "fifo_ok fq"
  shows "case rm_tx_remote_push env tw fq h xo y z L all tail send flags rco fs of
      None \<Rightarrow> remote_push_blocks env tw fq h xo y z L all tail send flags rco fs r = None
    | Some (e, res) \<Rightarrow> \<exists>M. remote_left env e res M \<and>
        remote_push_blocks env tw fq h xo y z L all tail send flags rco fs r = Some (e, add_blocks M r)"
proof (cases "\<exists>x rc f_x x_sz. xo = Some x \<and> rco = Some rc \<and> L \<noteq> 0 \<and> send \<noteq> 0 \<and> fopen_rb (te_sys env) fs x = Some f_x \<and>
    fstat_size f_x = Some x_sz \<and> x_sz \<noteq> 0 \<and> pe_session_ok (te_sys env)")
  case False
  show ?thesis
  proof (cases "\<exists>x rc f_x. xo = Some x \<and> rco = Some rc \<and> \<not> (L = 0 \<or> send = 0) \<and> fopen_rb (te_sys env) fs x = Some f_x")
    case True
    then obtain x rc f_x where a: "xo = Some x" "rco = Some rc" "\<not> (L = 0 \<or> send = 0)" "fopen_rb (te_sys env) fs x = Some f_x"
      by auto
    note steps = rm_tx_remote_push_def remote_push_blocks_def a(1,2,4) option.case prod.case Let_def if_not_P [OF a(3)]
    show ?thesis
    proof (cases "fstat_size f_x = Some 0")
      case True
      then show ?thesis unfolding steps by (auto simp: r_alloc_blocks remote_left_def intro: exI [of _ "{#B_Stream_X#}"])
    next
      case no: False
      have "fstat_size f_x = None \<or> (\<exists>n. fstat_size f_x = Some n \<and> n \<noteq> 0 \<and> \<not> pe_session_ok (te_sys env))"
        using False no a by (cases "fstat_size f_x") auto
      then show ?thesis unfolding steps by (auto simp: session_create_mset)
    qed
  next
    case no: False
    have "\<exists>e. rm_tx_remote_push env tw fq h xo y z L all tail send flags rco fs = Some (e, None) \<and>
        remote_push_blocks env tw fq h xo y z L all tail send flags rco fs r = Some (e, r)"
      using no
      by (cases xo; cases rco; cases "L = 0 \<or> send = 0") (auto simp: rm_tx_remote_push_def remote_push_blocks_def)
    then show ?thesis by (auto simp: remote_left_def intro!: exI [of _ "{#}"])
  qed
next
  case True
  then obtain x rc f_x x_sz where a: "xo = Some x" "rco = Some rc" "\<not> (L = 0 \<or> send = 0)" "fopen_rb (te_sys env) fs x = Some f_x"
      "fstat_size f_x = Some x_sz" "\<not> x_sz = 0" "pe_session_ok (te_sys env)" by auto
  obtain e ctl where c: "te_conn env = (e, ctl)" by (metis surj_pair)
  let ?s = "new_session RM_PUSH_TX (te_uuid env)"
  let ?v = "\<lparr>tv_ack_hdr = False, tv_buf = False, tv_s_f_x = False, tv_nodes = 0, tv_s = ?s\<rparr>"
  have own: "add_blocks {#B_Prvt, B_Session#} (r_alloc B_Stream_X r) = add_blocks (tx_owned ?v + {#B_Stream_X#}) r"
      "r_alloc B_Control (add_blocks (tx_owned ?v + {#B_Stream_X#}) r) = add_blocks (tx_owned ?v + {#B_Stream_X, B_Control#}) r"
    by (simp_all add: r_alloc_blocks tx_owned_def add_mset_commute)
  have goto: "remote_goto_err e ?v (add_blocks (tx_owned ?v + lost) r) = Some (e, add_blocks lost r)" for e lost
    by (rule remote_goto_err_ok) simp
  have ok: "\<not> \<not> pe_session_ok (te_sys env)" using a(7) by simp
  note steps = rm_tx_remote_push_def remote_push_blocks_def a(1,2,4,5) option.case prod.case Let_def if_not_P [OF a(3)]
    if_not_P [OF a(6)] if_not_P [OF ok] session_create_mset [OF disjI2 [OF refl]] if_P [OF a(7)] Option.bind.bind_lunit c own
  show ?thesis
  proof (cases "e = RM_ERR_OK")
    case False
    then show ?thesis unfolding steps if_P [OF False] goto by (auto simp: remote_left_def intro: exI [of _ "{#B_Stream_X#}"])
  next
    case eok: True
    then have neq: "\<not> e \<noteq> RM_ERR_OK" by simp
    show ?thesis
    proof (cases "te_msg_mem env")
      case False
      have "remote_push_blocks env tw fq h xo y z L all tail send flags rco fs r = Some (0, add_blocks {#B_Stream_X, B_Control#} r)"
        unfolding steps if_not_P [OF neq] rm_msg_push_alloc_def if_not_P [OF False] prod.case goto by simp
      moreover have "rm_tx_remote_push env tw fq h xo y z L all tail send flags rco fs = Some (0, Some (tx_fail RM_ERR_OK ctl rc))"
        unfolding steps if_not_P [OF neq] using False by (simp add: tx_fail_def)
      ultimately show ?thesis
        using False by (auto simp: remote_left_def tx_fail_def intro!: exI [of _ "{#B_Stream_X, B_Control#}"])
    next
      case True
      have mem: "\<not> \<not> te_msg_mem env" using True by simp
      have hdr: "r_alloc B_Hdr (add_blocks (tx_owned ?v + {#B_Stream_X, B_Control#}) r) =
          add_blocks (tx_owned ?v + {#B_Stream_X, B_Control, B_Hdr#}) r"
        by (simp add: r_alloc_blocks add_mset_commute)
      let ?X = "request_result env tw fq h x y z L all tail send flags f_x x_sz ctl rc"
      let ?B = "remote_request env tw fq h x y z L all tail send flags f_x x_sz ctl ?v
        (add_blocks (tx_owned ?v + {#B_Stream_X, B_Control, B_Hdr#}) r)"
      have "rm_tx_remote_push env tw fq h xo y z L all tail send flags rco fs = map_option (\<lambda>t. (tr_err t, Some t)) ?X"
        unfolding steps if_not_P [OF neq] if_not_P [OF mem] request_result_def ..
      moreover have "remote_push_blocks env tw fq h xo y z L all tail send flags rco fs r = ?B"
        unfolding steps if_not_P [OF neq] rm_msg_push_alloc_def if_P [OF True] hdr by simp
      moreover have "case ?X of None \<Rightarrow> ?B = None | Some t \<Rightarrow> \<exists>M. remote_left env (tr_err t) (Some t) M \<and> ?B = Some (tr_err t, add_blocks M r)"
        by (rule remote_request_left [OF assms _ refl refl refl]) simp
      ultimately show ?thesis by (cases ?X) auto
    qed
  qed
qed

section \<open>The property\<close>

text \<open>
  C18. A remote push does not clean up after itself. On every way out the session and the entries of the table are
  released at most once, with the error that \<open>rm_tx_remote_push\<close> returns; but whenever the connection to the
  receiver was made it stays open, also after success. A push that fails before the threads have the file, be it refused by the
  receiver, leaves the stream of the source, the request and its header; one whose threads fail leaves the
  request and its header, an entry of the table whose receipt failed, delta elements, and the window and the literal bytes
  of a producer that has failed in the loop of \<open>rm_rolling_ch_proc\<close>; one without memory
  for the serialized request leaves the session as well. One that ends before it is connected leaves at most the stream.
  A push whose serialized request does not fit into the length computed for it is outside defined behaviour,
  \<open>None\<close>, and nothing is claimed of it.
\<close>

theorem remote_push_leaves:
  assumes "fifo_ok fq" and "rm_tx_remote_push env tw fq h xo y z L all tail send flags rco fs = Some (e, res)"
  shows "\<exists>M. remote_push_blocks env tw fq h xo y z L all tail send flags rco fs r =
      Some (e, r\<lparr>rs_live := rs_live r + M\<rparr>) \<and> remote_left env e res M"
  using remote_push_blocks_ok [OF assms(1), of env tw h xo y z L all tail send flags rco fs r] assms(2)
  by (auto simp: add_blocks_def)

theorem remote_push_leaves_witness:
  "\<exists>answer N. set_mset N \<subseteq> {B_Elem, B_Bytes} \<and>
    remote_push_blocks (sample_te\<lparr>te_conn := (RM_ERR_OK, (sample_sock [IO_Chunk 5] [])\<lparr>sk_in := answer\<rparr>)\<rparr>)
      tw_lists fifo_lists (\<lambda>_. []) (Some ''x'') (Some ''/y'') None 1 0 0 1 0 (Some ctx_zero) [''x'' \<mapsto> [2, 1]]
      \<lparr>rs_live = {#}, rs_closed = []\<rparr> = Some (0, \<lparr>rs_live = {#B_Control#} + N, rs_closed = []\<rparr>)"
proof -
  let ?answer = "push_ack_bytes (\<lambda>_ _. 0) RM_ERR_OK 5000 (of_nat (nblocks 1 [1, 1])) @
    concat (map RM_CH_CH_WIRE (map (block_entry 1 [1, 1]) [0..<nblocks 1 [1, 1]])) @ []"
  let ?ctl = "(sample_sock [IO_Chunk 5] [])\<lparr>sk_in := ?answer\<rparr>"
  let ?te = "sample_te\<lparr>te_conn := (RM_ERR_OK, ?ctl)\<rparr>" and ?d = "sample_sock [] [IO_Chunk 3]"
  have te: "tx_healthy ?te" "request_ready ?te" "te_conn ?te = (RM_ERR_OK, ?ctl)"
      "te_delta ?te 5000 = (RM_ERR_OK, ?d)" "te_hash32 sample_te = (\<lambda>_ _. 0)"
    using sample_te_healthy(1) sample_te_ready(1) by (simp_all add: tx_healthy_def, simp_all add: sample_te_def)
  have socks: "write_good ?ctl" "rx_good ?ctl" "sk_out ?ctl = []" "tx_good ?d" "sk_out ?d = []" "sk_in ?ctl = ?answer"
    by (simp_all add: sample_sock_def write_good_def rx_good_def tx_good_def)
  have "\<exists>m r d ds. push_msg ?te ''x'' (Some ''/y'') None 1 0 (length [2, 1 :: u8]) = Some m \<and>
    rm_tx_remote_push ?te tw_lists fifo_lists (\<lambda>_. []) (Some ''x'') (Some ''/y'') None 1 0 0 1 0 (Some ctx_zero) [''x'' \<mapsto> [2, 1]] =
      Some (0, Some r) \<and>
    sk_out (tr_ctl r) = rm_serialize_msg_push [] m \<and> tr_delta r = Some d \<and>
    sk_out d = concat (map delta_wire ds) \<and> deltas_upto 1 [1, 1] [2, 1] (length [2, 1 :: u8]) ds"
    by (rule remote_push_run [where fs = "[''x'' \<mapsto> [2, 1]]" and xp = "''x''" and rest = "[]",
          OF te(1) fifo_lists_ok tw_lists_ok _ _ _ _ _ _ _ _ sample_no_collision c_name_small(1) c_name_small(1) c_name_small(2)
          te(2,3) socks(1-3) _ te(4) socks(4,5)])
      (simp_all add: tw_lists_def off_max_def te(5) socks(6))
  then obtain r d where run: "rm_tx_remote_push ?te tw_lists fifo_lists (\<lambda>_. []) (Some ''x'') (Some ''/y'') None 1 0 0 1 0
      (Some ctx_zero) [''x'' \<mapsto> [2, 1]] = Some (0, Some r)" "tr_delta r = Some d"
    by (elim exE conjE) (rule that; assumption)
  obtain M where M: "remote_push_blocks ?te tw_lists fifo_lists (\<lambda>_. []) (Some ''x'') (Some ''/y'') None 1 0 0 1 0 (Some ctx_zero)
      [''x'' \<mapsto> [2, 1]] \<lparr>rs_live = {#}, rs_closed = []\<rparr> = Some (0, \<lparr>rs_live = {#}, rs_closed = []\<rparr>\<lparr>rs_live := {#} + M\<rparr>)"
      "remote_left ?te 0 (Some r) M"
    using remote_push_leaves [OF fifo_lists_ok run(1), of "\<lparr>rs_live = {#}, rs_closed = []\<rparr>"] by auto
  from M(2) run(2) obtain N where "set_mset N \<subseteq> {B_Elem, B_Bytes}" "M = {#B_Control#} + N"
    by (auto simp: remote_left_def)
  with M(1) show ?thesis by (intro exI [of _ ?answer] exI [of _ N]) simp
qed

end
