(* ===== verification/RM_ReleaseRx.thy ===== *)
theory RM_ReleaseRx
  imports RM_Release
begin

text \<open>
  What the handler of an incoming push allocates, opens and releases, on every way out of \<open>rm_do_msg_push_rx\<close> of
  \<^verbatim>\<open>src/rm_do_msg.c\<close>. The control flow is that of \<open>RM_Receive\<close>, on the live
  blocks of \<open>RM_Life\<close>, among which the message of the work item is when the handler is called.
\<close>

section \<open>The streams and the session\<close>

text \<open>\<open>lfd\<close> is the descriptor of the delta port in the session, -1 when there is none.\<close>

definition rx_session :: "recv_env \<Rightarrow> recv_sess \<Rightarrow> int \<Rightarrow> life_session \<Rightarrow> life_session" where
  "rx_session env s lfd ls = ls\<lparr>ls_prvt := (ls_prvt ls)\<lparr>pv_msg := rv_msg s,
     pv_fd := (if rv_msg s then re_fd env else pv_fd (ls_prvt ls)), pv_delta_fd := lfd\<rparr>\<rparr>"

text \<open>Both ends of the handler free the session; neither closes a stream.\<close>

definition rx_end ::
    "recv_env \<Rightarrow> recv_sess \<Rightarrow> int \<Rightarrow> life_session \<Rightarrow> int \<Rightarrow> resources \<Rightarrow> (int \<times> resources) option" where
  "rx_end env s lfd ls err r = map_option (Pair err) (rm_session_free (rx_session env s lfd ls) r)"

definition open_streams :: "recv_sess \<Rightarrow> resources \<Rightarrow> resources" where
  "open_streams s r =
     (let r = (if rv_y s \<noteq> None then r_alloc B_Stream_Y r else r)
      in if rv_z s \<noteq> None then r_alloc B_Stream_Z r else r)"

text \<open>
  After the threads, which have closed the delta port: \<open>t\<close> is what they leave. The reference file is closed before the
  result is looked at.
\<close>

definition rx_finish ::
    "recv_env \<Rightarrow> rm_msg_push \<Rightarrow> recv_sess \<Rightarrow> files \<Rightarrow> string \<Rightarrow> int \<Rightarrow> life_session \<Rightarrow>
     rm_error \<times> rx_session \<times> sock \<Rightarrow> resources \<Rightarrow> (int \<times> resources) option" where
  "rx_finish env m s fs cwd lfd ls t r =
     (case t of (tx_err, x, _) \<Rightarrow>
        let r = r_close lfd r;
            fs = (case rs_z x of None \<Rightarrow> fs | Some z \<Rightarrow> fs(resolve cwd (rv_z_name s) := Some (fs_bytes z)))
        in if tx_err \<noteq> RM_ERR_OK then rx_end env s (- 1) ls (err_code RM_ERR_CH_CH_TX_THREAD) r
           else if map_option rp_status (rs_prvt x) \<noteq> Some RM_RX_STATUS_OK
           then rx_end env s (- 1) ls (err_code RM_ERR_DELTA_RX_THREAD) r
           else
             Option.bind (close_stream (rs_y x \<noteq> None) B_Stream_Y r) (\<lambda>r.
               if (case rs_z x of None \<Rightarrow> False | Some f \<Rightarrow> fstat_size f = None)
               then rx_end env s (- 1) ls (err_code RM_ERR_FSTAT_TMP) r
               else
                 Option.bind (close_stream (rs_z x \<noteq> None) B_Stream_Z r) (\<lambda>r.
                   case recv_replace env m (rs_y x \<noteq> None) (rs_z x) (rv_z_name s) cwd fs of
                     (err, _) \<Rightarrow> rx_end env s (- 1) ls (err_code err) r)))"

definition push_rx_blocks ::
    "recv_env \<Rightarrow> rm_msg_push \<Rightarrow> 'h node \<Rightarrow> int \<Rightarrow> resources \<Rightarrow> (int \<times> resources) option" where
  "push_rx_blocks env m n lfd r =
     Option.bind (rm_session_create RM_PUSH_RX (pe_session_ok (re_sys env), True) (re_uuid env) r) (\<lambda>(so, r).
       case so of
         None \<Rightarrow> None
       | Some ls \<Rightarrow>
           (case rm_session_assign_validate_from_msg_push env (recv_init RM_PUSH_RX) m (nd_files n) (nd_cwd n) of
              (err, s, fs, cwd) \<Rightarrow>
                let n1 = n\<lparr>nd_files := fs, nd_cwd := cwd\<rparr>; r = open_streams s r in
                if err \<noteq> RM_ERR_OK then rx_end env s (- 1) ls (err_code err) r
                else case re_listen env of
                  (lerr, port) \<Rightarrow>
                    if lerr \<noteq> 0 then rx_end env s (- 1) ls lerr r
                    else case recv_ack env (err_code RM_ERR_OK) port s n1 of
                      (aerr, n2) \<Rightarrow>
                        if aerr \<noteq> RM_ERR_OK then rx_end env s lfd ls (err_code RM_ERR_OK) r
                        else if \<not> re_tx_launch env then rx_end env s lfd ls (err_code RM_ERR_FAIL) r
                        else if \<not> re_rx_launch env then None
                        else Option.bind (recv_threads env m s (nd_ctl n2)) (\<lambda>t.
                          rx_finish env m s (nd_files n2) (nd_cwd n2) lfd ls t r)))"

section \<open>Lemmas\<close>

text \<open>Whatever the threads do with the streams, they neither open nor close one.\<close>

definition same_streams :: "stream option \<Rightarrow> stream option \<Rightarrow> stream option \<Rightarrow> stream option \<Rightarrow> bool" where
  "same_streams y z y' z' \<longleftrightarrow> (y' = None \<longleftrightarrow> y = None) \<and> (z' = None \<longleftrightarrow> z = None)"

lemma remote_rx_apply_streams: "remote_rx_apply d x = Some (e, x') \<Longrightarrow> same_streams (x_y x) (x_z x) (x_y x') (x_z x')"
  by (auto simp: remote_rx_apply_def rm_rx_process_delta_element_def same_streams_def split: option.splits if_splits prod.splits)

lemma remote_rx_loop_streams: "remote_rx_loop mem y_sz x = Some (e, x') \<Longrightarrow> same_streams (x_y x) (x_z x) (x_y x') (x_z x')"
proof (induction mem y_sz x rule: remote_rx_loop.induct)
  case (1 mem y_sz x)
  show ?case
  proof (cases "\<exists>d k s err x1. x_left x \<noteq> 0 \<and> remote_rx_element mem (x_k x) (ctx_L (x_ctx x)) (x_left x) y_sz (x_sock x) = Some (Inr d, k, s) \<and>
      remote_rx_apply d (x\<lparr>x_k := k, x_sock := s\<rparr>) = Some (err, x1) \<and> err = RM_ERR_OK")
    case True
    then obtain d k s x1 where a: "x_left x \<noteq> 0"
        "remote_rx_element mem (x_k x) (ctx_L (x_ctx x)) (x_left x) y_sz (x_sock x) = Some (Inr d, k, s)"
        "remote_rx_apply d (x\<lparr>x_k := k, x_sock := s\<rparr>) = Some (RM_ERR_OK, x1)" by blast
    from 1(2) a have "remote_rx_loop mem y_sz (x1\<lparr>x_left := left_after d (x_left x1)\<rparr>) = Some (e, x')"
      by (simp add: remote_rx_loop.simps [of mem y_sz x])
    from 1(1) [OF a(1,2) refl refl refl a(3) refl _ this] remote_rx_apply_streams [OF a(3)] show ?thesis
      by (simp add: same_streams_def)
  next
    case False
    then show ?thesis
      using 1(2) remote_rx_apply_streams
      by (auto simp: remote_rx_loop.simps [of mem y_sz x] same_streams_def split: option.splits if_splits prod.splits sum.splits)
  qed
qed

lemma delta_rx_finish_streams: "delta_rx_finish p e x s = Some s' \<Longrightarrow> rs_y s' = x_y x \<and> rs_z s' = x_z x"
  by (cases e) (auto simp: delta_rx_finish_def)

lemma delta_rx_remote_streams:
  "rm_session_delta_rx_f_remote mem conn s = Some (Some s') \<Longrightarrow> same_streams (rs_y s) (rs_z s) (rs_y s') (rs_z s')"
  by (auto simp: rm_session_delta_rx_f_remote_def Let_def same_streams_def split: option.splits if_splits
      dest!: delta_rx_finish_streams remote_rx_loop_streams)

lemma recv_threads_streams:
  assumes "recv_threads env m s ctl = Some (e, x, ctl')"
  shows "same_streams (rv_y s) (rv_z s) (rs_y x) (rs_z x)"
proof -
  obtain e y mx c where t: "rm_session_ch_ch_tx_f (re_mem_tx env) (rv_type s) True (re_fd env) (unat (p_L m)) (rv_y s) Mutex_Free ctl =
      Some (e, y, mx, c)"
    using assms by (auto simp: recv_threads_def split: option.splits)
  have y: "y = None \<longleftrightarrow> rv_y s = None"
  proof (cases "rv_y s")
    case (Some f)
    show ?thesis using t unfolding Some by (auto simp: rm_session_ch_ch_tx_f_def Let_def split: option.splits if_splits prod.splits)
  qed (use t in \<open>auto simp: rm_session_ch_ch_tx_f_def split: if_splits\<close>)
  have "same_streams y (rv_z s) (rs_y x) (rs_z x)"
    using assms t by (auto simp: recv_threads_def split: option.splits dest!: delta_rx_remote_streams)
  with y show ?thesis by (simp add: same_streams_def)
qed

text \<open>The session of a receiver, and freeing it.\<close>

definition new_rx_session :: "bytes \<Rightarrow> life_session" where
  "new_rx_session uuid = \<lparr>ls_type = RM_PUSH_RX, ls_id = take RM_UUID_LEN uuid, ls_prvt = rm_session_push_rx_init\<rparr>"

lemma rx_session_create:
  "rm_session_create RM_PUSH_RX (ok, True) uuid r =
     Some (if ok then (Some (new_rx_session uuid), add_blocks {#B_Prvt, B_Session#} r) else (None, r))"
  by (auto simp: rm_session_create_def Let_def r_alloc_blocks new_rx_session_def add_mset_commute)

lemma r_close_blocks [simp]: "r_close fd (add_blocks A r) = add_blocks A (r_close fd r)"
  by (simp add: r_close_def add_blocks_def)

definition msg_blocks :: "recv_sess \<Rightarrow> block multiset" where
  "msg_blocks s = (if rv_msg s then {#B_Msg, B_Hdr#} else {#})"

definition rx_closed :: "recv_env \<Rightarrow> recv_sess \<Rightarrow> int \<Rightarrow> resources \<Rightarrow> resources" where
  "rx_closed env s lfd r = r_close (if rv_msg s then re_fd env else - 1) (r_close lfd r)"

lemma rx_end_ok:
  "rx_end env s lfd (new_rx_session uuid) err (add_blocks ({#B_Prvt, B_Session#} + msg_blocks s + M) r) =
     Some (err, add_blocks M (rx_closed env s lfd r))"
  by (auto simp: rx_end_def rx_session_def new_rx_session_def rm_session_push_rx_init_def prvt_zero_def msg_blocks_def
      rm_session_free_def rm_session_push_rx_free_def rm_msg_push_free_def r_free_mset rx_closed_def free_mset_bind free_add)

definition opened :: "recv_sess \<Rightarrow> block multiset" where
  "opened s = (if rv_y s \<noteq> None then {#B_Stream_Y#} else {#}) + (if rv_z s \<noteq> None then {#B_Stream_Z#} else {#})"

lemma open_streams_blocks: "open_streams s r = add_blocks (opened s) r"
  by (simp add: open_streams_def opened_def r_alloc_blocks Let_def)

lemma r_close_none [simp]: "r_close (- 1) r = r"
  by (simp add: r_close_def)

lemma rx_finish_ok:
  assumes "same_streams (rv_y s) (rv_z s) (rs_y x) (rs_z x)"
    and "q = recv_finish st env m s n (e, x, ctl)" and "ls = new_rx_session uuid"
  shows "\<exists>M. M \<subseteq># opened s \<and> (rr_err q = 0 \<longrightarrow> M = {#}) \<and>
    rx_finish env m s (nd_files n) (nd_cwd n) lfd ls (e, x, ctl) (add_blocks ({#B_Prvt, B_Session#} + msg_blocks s + opened s) r) =
      Some (rr_err q, add_blocks M (rx_closed env s lfd r))"
proof -
  let ?own = "{#B_Prvt, B_Session#} + msg_blocks s"
  define fs where "fs = (case rs_z x of None \<Rightarrow> nd_files n
    | Some z \<Rightarrow> (nd_files n)(resolve (nd_cwd n) (rv_z_name s) := Some (fs_bytes z)))"
  let ?n = "n\<lparr>nd_files := fs, nd_ctl := ctl\<rparr>"
  have fin: "rx_end env s (- 1) ls err (add_blocks (?own + M) (r_close lfd r)) = Some (err, add_blocks M (rx_closed env s lfd r))" for err M
    using rx_end_ok [of env s "- 1" uuid err M "r_close lfd r"] assms(3) by (simp add: rx_closed_def)
  have code: "err_code e = 0 \<longleftrightarrow> e = RM_ERR_OK" for e by simp
  note q = assms(2) [unfolded recv_finish_def prod.case Let_def fs_def [symmetric]]
  note run = rx_finish_def prod.case Let_def fs_def [symmetric] r_close_blocks
  consider (ch) "e \<noteq> RM_ERR_OK" | (rx) "e = RM_ERR_OK" "map_option rp_status (rs_prvt x) \<noteq> Some RM_RX_STATUS_OK"
    | (ok) "e = RM_ERR_OK" "map_option rp_status (rs_prvt x) = Some RM_RX_STATUS_OK" by blast
  then show ?thesis
  proof cases
    case ch
    then have "rr_err q = err_code RM_ERR_CH_CH_TX_THREAD" unfolding q by (simp add: recv_end_def)
    moreover have "rx_finish env m s (nd_files n) (nd_cwd n) lfd ls (e, x, ctl) (add_blocks (?own + opened s) r) =
        Some (err_code RM_ERR_CH_CH_TX_THREAD, add_blocks (opened s) (rx_closed env s lfd r))"
      unfolding run if_P [OF ch] by (rule fin)
    ultimately show ?thesis by (intro exI [of _ "opened s"]) simp
  next
    case rx
    then have "rr_err q = err_code RM_ERR_DELTA_RX_THREAD" unfolding q by (simp add: recv_end_def)
    moreover have "rx_finish env m s (nd_files n) (nd_cwd n) lfd ls (e, x, ctl) (add_blocks (?own + opened s) r) =
        Some (err_code RM_ERR_DELTA_RX_THREAD, add_blocks (opened s) (rx_closed env s lfd r))"
      unfolding run using rx fin by simp
    ultimately show ?thesis by (intro exI [of _ "opened s"]) simp
  next
    case ok
    have oky: "close_stream (rs_y x \<noteq> None) B_Stream_Y (add_blocks (?own + opened s) r) =
        Some (add_blocks (?own + (if rv_z s \<noteq> None then {#B_Stream_Z#} else {#})) r)" for r
      unfolding close_stream_mset using assms(1) by (auto simp: same_streams_def opened_def free_add)
    have okz: "close_stream (rs_z x \<noteq> None) B_Stream_Z (add_blocks (?own + (if rv_z s \<noteq> None then {#B_Stream_Z#} else {#})) r) =
        Some (add_blocks ?own r)" for r
      unfolding close_stream_mset using assms(1) by (auto simp: same_streams_def free_add)
    obtain err fs1 where rep: "recv_replace env m (rs_y x \<noteq> None) (rs_z x) (rv_z_name s) (nd_cwd n) fs = (err, fs1)" by (metis surj_pair)
    have err: "rr_err q = err_code err" unfolding q using ok rep by (simp add: recv_end_def)
    have ok': "\<not> e \<noteq> RM_ERR_OK" "\<not> map_option rp_status (rs_prvt x) \<noteq> Some RM_RX_STATUS_OK" using ok by simp_all
    note run = run if_not_P [OF ok'(1)] if_not_P [OF ok'(2)] oky okz Option.bind.bind_lunit rep
    show ?thesis
    proof (cases "case rs_z x of None \<Rightarrow> False | Some f \<Rightarrow> fstat_size f = None")
      case True
      then have "err = RM_ERR_FSTAT_TMP" using rep by (simp add: recv_replace_def Let_def)
      then show ?thesis
        unfolding err run if_P [OF True] fin
        by (intro exI [of _ "if rv_z s \<noteq> None then {#B_Stream_Z#} else {#}"]) (auto simp: opened_def)
    next
      case False
      show ?thesis
        unfolding err run if_not_P [OF False]
        using fin [of "err_code err" "{#}"] by (intro exI [of _ "{#}"]) simp
    qed
  qed
qed

text \<open>
  C17. What the handler of a push leaves open. Whatever happens, the session is released, and the message of the work
  item with it as soon as the session has been given it. But the streams of the reference file and of the result are
  closed only after both threads have ended well: a request that is refused after its reference file could be opened
  leaves that stream open, so a sender can use up the descriptors of the daemon with requests that are refused. Nothing
  stays open after a push that has been carried out.
\<close>

theorem push_rx_leaves_streams:
  assumes "rm_do_msg_push_rx st env m n = Some q"
    and "rm_session_assign_validate_from_msg_push env (recv_init RM_PUSH_RX) m (nd_files n) (nd_cwd n) = (e, s, fs, cwd)"
  shows "\<exists>M c. push_rx_blocks env m n lfd (add_blocks {#B_Msg, B_Hdr#} r) =
      Some (rr_err q, c\<lparr>rs_live := rs_live r + (if rv_msg s then {#} else {#B_Msg, B_Hdr#}) + M\<rparr>) \<and>
    M \<subseteq># {#B_Stream_Y, B_Stream_Z#} \<and>
    (e \<noteq> RM_ERR_OK \<longrightarrow> M = (if rv_y s = None then {#} else {#B_Stream_Y#})) \<and>
    (rr_err q = 0 \<and> fst (re_listen env) = 0 \<and>
       fst (recv_ack env (err_code RM_ERR_OK) (snd (re_listen env)) s (n\<lparr>nd_files := fs, nd_cwd := cwd\<rparr>)) = RM_ERR_OK \<longrightarrow> M = {#})"
proof -
  let ?keep = "if rv_msg s then {#} else {#B_Msg, B_Hdr#}" and ?n = "n\<lparr>nd_files := fs, nd_cwd := cwd\<rparr>"
  let ?r = "add_blocks ?keep r" and ?ls = "new_rx_session (re_uuid env)"
  let ?run = "\<lambda>M l. push_rx_blocks env m n lfd (add_blocks {#B_Msg, B_Hdr#} r) = Some (rr_err q, add_blocks M (rx_closed env s l ?r))"
  have ok: "pe_session_ok (re_sys env)" using assms(1) by (simp add: rm_do_msg_push_rx_def split: if_splits)
  have own: "open_streams s (add_blocks {#B_Prvt, B_Session#} (add_blocks {#B_Msg, B_Hdr#} r)) =
      add_blocks ({#B_Prvt, B_Session#} + msg_blocks s + opened s) ?r"
    by (auto simp: open_streams_blocks msg_blocks_def add_mset_commute)
  obtain lerr port where l: "re_listen env = (lerr, port)" by (metis surj_pair)
  obtain aerr n2 where a: "recv_ack env (err_code RM_ERR_OK) port s ?n = (aerr, n2)" by (metis surj_pair)
  note steps = push_rx_blocks_def rx_session_create if_P [OF ok] Option.bind.bind_lunit prod.case option.case assms(2) Let_def own l a rx_end_ok
  have q: "rm_do_msg_push_rx st env m n = Some q" using assms(1) .
  consider (refused) "e \<noteq> RM_ERR_OK" | (listen) "e = RM_ERR_OK" "lerr \<noteq> 0" | (ack) "e = RM_ERR_OK" "lerr = 0" "aerr \<noteq> RM_ERR_OK"
    | (launch) "e = RM_ERR_OK" "lerr = 0" "aerr = RM_ERR_OK" "\<not> re_tx_launch env"
    | (threads) "e = RM_ERR_OK" "lerr = 0" "aerr = RM_ERR_OK" "re_tx_launch env" by blast
  then have "\<exists>M l. ?run M l \<and> M \<subseteq># opened s \<and> (e \<noteq> RM_ERR_OK \<longrightarrow> M = opened s) \<and>
      (rr_err q = 0 \<and> lerr = 0 \<and> aerr = RM_ERR_OK \<longrightarrow> M = {#})"
  proof cases
    case refused
    then have "rr_err q = err_code e" using q ok by (auto simp: rm_do_msg_push_rx_def assms(2) recv_end_def Let_def)
    with refused have "?run (opened s) (- 1)" "rr_err q \<noteq> 0" unfolding steps by simp_all
    then show ?thesis by blast
  next
    case listen
    then have "rr_err q = lerr" using q ok by (auto simp: rm_do_msg_push_rx_def assms(2) recv_end_def Let_def l)
    with listen have "?run (opened s) (- 1)" unfolding steps by simp
    with listen show ?thesis by blast
  next
    case ack
    then have "rr_err q = err_code RM_ERR_OK" using q ok a by (auto simp: rm_do_msg_push_rx_def assms(2) recv_end_def Let_def l)
    with ack have "?run (opened s) lfd" unfolding steps by simp
    with ack show ?thesis by blast
  next
    case launch
    then have e: "rr_err q = err_code RM_ERR_FAIL" using q ok a by (auto simp: rm_do_msg_push_rx_def assms(2) recv_end_def Let_def l)
    with launch have "?run (opened s) lfd" unfolding steps by simp
    with e launch show ?thesis by (intro exI [of _ "opened s"]) auto
  next
    case threads
    let ?n3 = "n2\<lparr>nd_core := rm_core_session_add st (nd_core n2) (recv_core st env s False)\<rparr>"
    obtain t where t: "re_rx_launch env" "recv_threads env m s (nd_ctl n2) = Some t" "q = recv_finish st env m s ?n3 t"
      using threads q ok a by (auto simp: rm_do_msg_push_rx_def assms(2) Let_def l split: if_splits)
    obtain te x ctl where tt: "t = (te, x, ctl)" by (metis prod_cases3)
    from rx_finish_ok [OF recv_threads_streams [OF t(2) [unfolded tt]] t(3) [unfolded tt] refl, where uuid = "re_uuid env" and lfd = lfd and r = ?r]
    obtain M where M: "M \<subseteq># opened s" "rr_err q = 0 \<longrightarrow> M = {#}"
        "rx_finish env m s (nd_files n2) (nd_cwd n2) lfd ?ls t (add_blocks ({#B_Prvt, B_Session#} + msg_blocks s + opened s) ?r) =
          Some (rr_err q, add_blocks M (rx_closed env s lfd ?r))"
      unfolding tt by auto
    have "?run M lfd" using threads t(1,2) M(3) unfolding steps by simp
    with M threads show ?thesis by blast
  qed
  then obtain M l where M: "?run M l" "M \<subseteq># opened s" "e \<noteq> RM_ERR_OK \<longrightarrow> M = opened s"
      "rr_err q = 0 \<and> lerr = 0 \<and> aerr = RM_ERR_OK \<longrightarrow> M = {#}" by blast
  have z: "rv_z s = None" if "e \<noteq> RM_ERR_OK"
    using assms(2) that
    by (auto simp: rm_session_assign_validate_from_msg_push_def validate_names_def validate_y_def validate_dir_def recv_init_def
        Let_def split: if_splits option.splits prod.splits)
  have sub: "opened s \<subseteq># {#B_Stream_Y, B_Stream_Z#}" by (auto simp: opened_def)
  have res: "add_blocks M (rx_closed env s l ?r) = rx_closed env s l r\<lparr>rs_live := rs_live r + ?keep + M\<rparr>"
    by (simp add: rx_closed_def add_blocks_def r_close_def)
  show ?thesis
    using M(1) [unfolded res] M(2-4) z subset_mset.order_trans [OF M(2) sub] a
    by (intro exI [of _ M] exI [of _ "rx_closed env s l r"]) (simp add: l opened_def)
qed


theorem push_rx_leaves_streams_witness:
  "\<exists>c. push_rx_blocks (sample_recv\<lparr>re_getcwd_ok := False\<rparr>) (sample_request [47, 121]) (sample_node [''/y'' \<mapsto> [1]]) 9
      (add_blocks {#B_Msg, B_Hdr#} \<lparr>rs_live = {#}, rs_closed = []\<rparr>) =
    Some (err_code RM_ERR_GETCWD, c\<lparr>rs_live := {#B_Stream_Y#}\<rparr>)"
proof -
  let ?env = "sample_recv\<lparr>re_getcwd_ok := False\<rparr>" and ?m = "sample_request [47, 121]" and ?n = "sample_node [''/y'' \<mapsto> [1]]"
  have name: "c_string [47, 121, 0] = ''/y''" by code_simp
  obtain s where v: "rm_session_assign_validate_from_msg_push ?env (recv_init RM_PUSH_RX) ?m (nd_files ?n) (nd_cwd ?n) =
      (RM_ERR_GETCWD, s, [''/y'' \<mapsto> [1]], ''/srv'')" "rv_y s \<noteq> None" "rv_msg s"
    by (simp add: rm_session_assign_validate_from_msg_push_def recv_init_def Let_def validate_names_def validate_y_def
        validate_dir_def fopen_rb_def resolve_def name sample_recv_def sample_env_def fstat_size_def open_stream_def
        RM_BIT_6_def)
  have "pe_session_ok (re_sys ?env)" "tx_good (nd_ctl ?n)" "sk_out (nd_ctl ?n) = []" by simp_all
  then obtain q where q: "rm_do_msg_push_rx sh_lists ?env ?m ?n = Some q" "rr_err q = err_code RM_ERR_GETCWD"
    using refused_run [OF _ _ _ v(1)] by blast
  show ?thesis
    using push_rx_leaves_streams [OF q(1) v(1), of 9 "\<lparr>rs_live = {#}, rs_closed = []\<rparr>"] v(2,3) q(2) by auto
qed

end
