(* ===== verification/RM_Report.thy ===== *)
theory RM_Report
  imports RM_Util RM_Receive RM_TxRemote RM_WQ
begin

text \<open>
  What the program says of a failure: the printing functions of \<^verbatim>\<open>src/rm_error.c\<close> and \<^verbatim>\<open>src/rm_signal.c\<close>, the
  lines the sender and the handler of a push log on their failure exits (\<^verbatim>\<open>src/rm_tx.c\<close>, \<^verbatim>\<open>src/rm_do_msg.c\<close>), and
  what the command line and the daemon print of a bad option. A text is the string that is given to the stream or to
  the log; a function that leaves the program returns its exit status as well.
\<close>

section \<open>Errors and signals\<close>

text \<open>\<open>None\<close> is a text that is \<open>NULL\<close>, which the assertions exclude, \<open>out\<close> the text of the standard error stream, \<open>strerror\<close> the text of \<open>errno\<close>.\<close>

definition rm_err :: "string option \<Rightarrow> string \<Rightarrow> string option" where
  "rm_err so out = map_option (\<lambda>s. out @ s @ [CHR 0x0A]) so"

definition rm_perr :: "string \<Rightarrow> string option \<Rightarrow> string \<Rightarrow> string option" where
  "rm_perr strerror so out = map_option (\<lambda>s. out @ s @ '' '' @ strerror @ [CHR 0x0A]) so"

definition rm_perr_abort :: "string \<Rightarrow> string option \<Rightarrow> string \<Rightarrow> (nat \<times> string) option" where
  "rm_perr_abort strerror so out = map_option (\<lambda>s. (1, out @ s @ '' '' @ strerror @ [CHR 0x0A])) so"

text \<open>The handler of a \<open>SIGINT\<close> ends the program with success.\<close>

definition rm_sigint_h :: "nat \<Rightarrow> string \<Rightarrow> nat \<times> string" where
  "rm_sigint_h pid out = (0, out @ ''[rm] Thread ['' @ c_decimal pid @ ''] received SIGINT'')"

section \<open>Options\<close>

text \<open>The same two functions are in the command line and in the daemon; without a name there is no hint.\<close>

definition range_error :: "char \<Rightarrow> nat \<Rightarrow> string \<Rightarrow> string" where
  "range_error argument value out =
     out @ [CHR 0x0A] @ ''ERR, argument ['' @ [argument] @ ''] too big ['' @ c_decimal value @ '']'' @ [CHR 0x0A, CHR 0x0A]"

definition help_hint :: "string option \<Rightarrow> string \<Rightarrow> string" where
  "help_hint name out =
     (case name of
        None \<Rightarrow> out
      | Some n \<Rightarrow> out @ [CHR 0x0A] @ ''Try '' @ n @ '' --help for more information.'' @ [CHR 0x0A])"

text \<open>An option that is not known, or misses its argument: \<open>c\<close> is \<open>optopt\<close>, 0 for a long option.\<close>

definition option_error :: "nat \<Rightarrow> string \<Rightarrow> string" where
  "option_error c out =
     out @ (if c \<in> {120, 121, 105} then ''Option -'' @ [char_of c] @ '' requires an argument.''
            else if 32 \<le> c \<and> c \<le> 126 then ''Unknown option '' @ [CHR 0x27, CHR ''-'', char_of c, CHR 0x27, CHR ''.'']
            else ''Are there any long options? Please check that you have typed them correctly.'') @ [CHR 0x0A]"

section \<open>The failure of a remote push\<close>

text \<open>
  The line the sender logs, if any: the error of the push, the status of the consumer of the delta elements and that of the
  receiver of the checksums. Some of these errors are also what the receiver has answered.
\<close>

definition tx_fail_text :: "int \<Rightarrow> rm_rx_status \<Rightarrow> rm_rx_status \<Rightarrow> string option" where
  "tx_fail_text err delta_rx ch_ch_rx =
     (if err = err_code RM_ERR_DELTA_RX_THREAD then
        Some (if delta_rx = RM_RX_STATUS_CONNECT_TIMEOUT then ''Connection timeout''
              else if delta_rx = RM_RX_STATUS_CONNECT_REFUSED then ''Connection refused''
              else if delta_rx = RM_RX_STATUS_CONNECT_HOSTUNREACH then ''Host unreachable''
              else if delta_rx = RM_RX_STATUS_CONNECT_GEN_ERR then ''Connection error''
              else ''General connection error'')
      else if err = err_code RM_ERR_CH_CH_RX_THREAD then
        Some (if ch_ch_rx = RM_RX_STATUS_CH_CH_RX_TCP_DISCONNECT then ''Receiver closed checksums channel prematurely''
              else ''Error on checksums channel'')
      else if err = err_code RM_ERR_TCP then Some ''TCP error on connection with receiver''
      else if err = err_code RM_ERR_TCP_DISCONNECT then Some ''Receiver closed connection prematurely''
      else if err = err_code RM_ERR_MEM then Some ''Not enough memory''
      else if err = err_code RM_ERR_WRITE then Some ''Can't write''
      else None)"

section \<open>The failure of a request\<close>

primrec rm_work_type_str :: "rm_work_type \<Rightarrow> string" where
  "rm_work_type_str RM_WORK_PROCESS_MSG_PUSH = ''RM_WORK_PROCESS_MSG_PUSH''"
| "rm_work_type_str RM_WORK_PROCESS_MSG_PULL = ''RM_WORK_PROCESS_MSG_PULL''"
| "rm_work_type_str RM_WORK_PROCESS_MSG_BYE = ''RM_WORK_PROCESS_MSG_BYE''"

primrec rm_tx_status_code :: "rm_tx_status \<Rightarrow> nat" where
  "rm_tx_status_code RM_TX_STATUS_OK = 0"
| "rm_tx_status_code RM_TX_STATUS_ROLLING_PROC_FAIL = 1"

primrec rm_rx_status_code :: "rm_rx_status \<Rightarrow> nat" where
  "rm_rx_status_code RM_RX_STATUS_OK = 0"
| "rm_rx_status_code RM_RX_STATUS_INTERNAL_ERR = 1"
| "rm_rx_status_code RM_RX_STATUS_DELTA_RX_ACCEPT_FAIL = 2"
| "rm_rx_status_code RM_RX_STATUS_DELTA_RX_TCP_FAIL = 3"
| "rm_rx_status_code RM_RX_STATUS_DELTA_PROC_FAIL = 4"
| "rm_rx_status_code RM_RX_STATUS_CH_CH_RX_TCP_DISCONNECT = 5"
| "rm_rx_status_code RM_RX_STATUS_CH_CH_RX_TCP_FAIL = 6"
| "rm_rx_status_code RM_RX_STATUS_CH_CH_RX_MEM = 7"
| "rm_rx_status_code RM_RX_STATUS_CONNECT_TIMEOUT = 8"
| "rm_rx_status_code RM_RX_STATUS_CONNECT_REFUSED = 9"
| "rm_rx_status_code RM_RX_STATUS_CONNECT_HOSTUNREACH = 10"
| "rm_rx_status_code RM_RX_STATUS_CONNECT_GEN_ERR = 11"

text \<open>The reasons that are named; \<open>@y\<close> and the like are names of files.\<close>

definition rx_reasons :: "(rm_error \<times> string) list" where
  "rx_reasons =
     [(RM_ERR_Y_Z_SYNC, ''request can't be handled, --leave option set (do not delete @y after @z has been synced) but @z name is not given or is same as @y''),
      (RM_ERR_Y_NULL, ''request can't be handled, @y file name must be specified''),
      (RM_ERR_FSTAT_Y, ''request can't be handled, can't fstat @y''),
      (RM_ERR_FSTAT_Z, ''can't fstat @z''),
      (RM_ERR_FSTAT_TMP, ''can't fstat @tmp''),
      (RM_ERR_OPEN_Z, ''request can't be handled, can't open @z''),
      (RM_ERR_OPEN_Y, ''request can't be handled, can't open @y (should transmitter set --force flag?)''),
      (RM_ERR_GETCWD, ''request can't be handled, can't get current working directory''),
      (RM_ERR_CHDIR_Z, ''request can't be handled, can't change current working directory to @z's dir''),
      (RM_ERR_CHDIR_Y, ''request can't be handled, can't change current working directory to @y's dir''),
      (RM_ERR_OPEN_TMP, ''request can't be handled''),
      (RM_ERR_WRITE, ''error sending PUSH ack''),
      (RM_ERR_BAD_CALL, ''request can't be handled, bad arguments''),
      (RM_ERR_UNLINK_Y, ''can't unlink @y''),
      (RM_ERR_RENAME_TMP_Y, ''can't rename @tmp to @y''),
      (RM_ERR_RENAME_TMP_Z, ''can't rename @tmp to @z'')]"

definition rx_reason :: "int \<Rightarrow> rm_tx_status \<Rightarrow> rm_rx_status \<Rightarrow> string" where
  "rx_reason err ch_ch_tx delta_rx =
     (case map_of (map (\<lambda>(e, t). (err_code e, t)) rx_reasons) err of
        Some t \<Rightarrow> t
      | None \<Rightarrow>
          if err = err_code RM_ERR_CH_CH_TX_THREAD
          then ''checksums tx thread failed with error ['' @ c_decimal (rm_tx_status_code ch_ch_tx) @ '']''
          else if err = err_code RM_ERR_DELTA_RX_THREAD
          then ''delta rx thread failed with error ['' @ c_decimal (rm_rx_status_code delta_rx) @ '']''
          else ''default'')"

text \<open>
  The lines of the failure exit of \<open>rm_do_msg_push_rx\<close>, with \<open>err\<close> printed as an unsigned number. The session is given by the
  two texts of its identifiers; \<open>None\<close> as the result is the use of a session that was not created, which only the line
  of \<open>RM_ERR_WRITE\<close> avoids.
\<close>

definition rx_fail_log :: "rm_work_type \<Rightarrow> (string \<times> string) option \<Rightarrow> int \<Rightarrow> rm_tx_status \<Rightarrow> rm_rx_status \<Rightarrow> string list option" where
  "rx_fail_log task session err ch_ch_tx delta_rx =
     (let head = ''['' @ rm_work_type_str task @ ''] [FAIL]: '';
          num = ''ERR ['' @ c_decimal (nat (err mod 2 ^ 32)) @ '']''
      in case session of
           Some (ssid1, ssid2) \<Rightarrow>
             Some [head @ ''['' @ ssid1 @ ''] -> ['' @ ssid2 @ ''], '' @ num @ '' : '' @ rx_reason err ch_ch_tx delta_rx]
         | None \<Rightarrow>
             if err = err_code RM_ERR_WRITE
             then Some [head @ num @ '', failed to create session'', head @ num @ '' : error sending PUSH ack'']
             else None)"

section \<open>What the lines say\<close>

text \<open>A connection that could not be made is reported by what \<open>connect\<close> has said, never as the last resort.\<close>

lemma connection_is_reported:
  "\<exists>t. tx_fail_text (err_code RM_ERR_DELTA_RX_THREAD) (connect_status e) st = Some t \<and> t \<noteq> ''General connection error''"
  by (auto simp: tx_fail_text_def connect_status_def split: rm_error.split)

lemma refusal_errors:
  assumes "rm_session_assign_validate_from_msg_push env (recv_init RM_PUSH_RX) m fs cwd = (e, s, fs', cwd')"
  shows "e \<in> {RM_ERR_OK, RM_ERR_BLOCK_SIZE, RM_ERR_X_ZERO_SIZE, RM_ERR_Y_Z_SYNC, RM_ERR_Y_NULL, RM_ERR_FSTAT_Y, RM_ERR_OPEN_Y,
    RM_ERR_GETCWD, RM_ERR_CHDIR_Z, RM_ERR_CHDIR_Y, RM_ERR_OPEN_TMP}"
  using assms
  by (auto simp: rm_session_assign_validate_from_msg_push_def validate_y_def validate_dir_def recv_init_def Let_def
      split: if_splits option.splits prod.splits)

lemma replace_errors:
  "fst (recv_replace env m b z zn cwd fs) \<in> {RM_ERR_OK, RM_ERR_FSTAT_TMP, RM_ERR_UNLINK_Y, RM_ERR_RENAME_TMP_Z, RM_ERR_RENAME_TMP_Y}"
  by (auto simp: recv_replace_def Let_def split: option.split)

text \<open>
  Every failure of the handler but three has a line of its own; those three, and an acknowledgement that
  cannot be sent, are logged as \<open>default\<close>, the latter with the number of \<open>RM_ERR_OK\<close>: the line for it is never written.
\<close>

definition named_errors :: "rm_error set" where
  "named_errors = fst ` set rx_reasons \<union> {RM_ERR_CH_CH_TX_THREAD, RM_ERR_DELTA_RX_THREAD} -
     {RM_ERR_WRITE, RM_ERR_BAD_CALL, RM_ERR_OPEN_Z, RM_ERR_FSTAT_Z}"

lemma handler_errors:
  assumes "rm_do_msg_push_rx st env m n = Some q" and "fst (re_listen env) = 0"
  shows "rr_err q \<in> err_code ` ({RM_ERR_OK, RM_ERR_BLOCK_SIZE, RM_ERR_X_ZERO_SIZE, RM_ERR_FAIL} \<union> named_errors)"
proof -
  let ?F = "{RM_ERR_OK, RM_ERR_CH_CH_TX_THREAD, RM_ERR_DELTA_RX_THREAD, RM_ERR_FSTAT_TMP, RM_ERR_UNLINK_Y, RM_ERR_RENAME_TMP_Z,
    RM_ERR_RENAME_TMP_Y}"
  let ?T = "{RM_ERR_OK, RM_ERR_BLOCK_SIZE, RM_ERR_X_ZERO_SIZE, RM_ERR_FAIL} \<union> named_errors"
  obtain e s fs cwd where v: "rm_session_assign_validate_from_msg_push env (recv_init RM_PUSH_RX) m (nd_files n) (nd_cwd n) =
      (e, s, fs, cwd)" by (metis prod_cases4)
  have named: "e \<in> ?T" "?F \<subseteq> ?T"
    using refusal_errors [OF v] by (auto simp: named_errors_def rx_reasons_def)
  have fin: "rr_err (recv_finish st env m s n' t) \<in> err_code ` ?F" for n' t
  proof -
    obtain a x ctl where t: "t = (a, x, ctl)" by (metis prod_cases3)
    show ?thesis
      using replace_errors [of env m "rs_y x \<noteq> None" "rs_z x" "rv_z_name s" "nd_cwd n'"]
      by (simp add: t recv_finish_def recv_end_def Let_def split: prod.split) (metis fst_conv)
  qed
  consider "rr_err q = err_code e" | "rr_err q = err_code RM_ERR_OK" | "rr_err q = err_code RM_ERR_FAIL" | n' t where "q = recv_finish st env m s n' t"
    using assms v by (auto simp: rm_do_msg_push_rx_def recv_end_def Let_def split: if_splits prod.splits)
  then show ?thesis
  proof cases
    case 4
    then show ?thesis using fin image_mono [OF named(2), of err_code] by blast
  qed (use named(1) in auto)
qed

lemma c_digit_0: "c_digit 0 = CHR ''0''"
  by code_simp

lemma failed_ack_is_not_reported:
  assumes "rm_do_msg_push_rx st env m n = Some q" and "fst (re_listen env) = 0"
  shows "rr_err q \<noteq> err_code RM_ERR_WRITE"
    and "rr_err q = err_code RM_ERR_OK \<Longrightarrow> rx_fail_log task (Some (a, b)) (rr_err q) tx rx =
      Some [''['' @ rm_work_type_str task @ ''] [FAIL]: ['' @ a @ ''] -> ['' @ b @ ''], ERR [0] : default'']"
  using handler_errors [OF assms]
  by (auto simp: named_errors_def rx_reasons_def rx_fail_log_def rx_reason_def err_code_def c_decimal.simps c_digit_0)

end
