(* ===== verification/RM_Race.thy ===== *)
theory RM_Race
  imports RM_Receive
begin

text \<open>
  Several workers carry out requests at the same time, and the working directory belongs to the process. The handler
  \<open>rm_do_msg_push_rx\<close> of \<^verbatim>\<open>src/rm_do_msg.c\<close> is cut where it looks at the shared state: up to the launch of its
  threads, the threads, and what follows them; a schedule says whose turn it is. Nobody else uses the name of a temporary file.
\<close>

section \<open>A handler in three steps\<close>

text \<open>
  \<open>J_Open\<close>: the session, the control connection and the temporary file, which stays the same file if the
  working directory changes; \<open>J_Sync\<close>: both threads have ended well; \<open>J_End\<close>: the number of the error.
\<close>

datatype stage = J_Wait | J_Open recv_sess sock string | J_Sync recv_sess rx_session | J_End int

record job =
  jb_env :: recv_env
  jb_msg :: rm_msg_push
  jb_ctl :: sock
  jb_stage :: stage

text \<open>\<open>None\<close> is what it is in \<open>rm_do_msg_push_rx\<close>.\<close>

definition job_open :: "recv_env \<Rightarrow> rm_msg_push \<Rightarrow> sock \<Rightarrow> files \<Rightarrow> string \<Rightarrow> (stage \<times> files \<times> string) option" where
  "job_open env m ctl fs cwd =
     (if \<not> pe_session_ok (re_sys env) then None
      else case rm_session_assign_validate_from_msg_push env (recv_init RM_PUSH_RX) m fs cwd of
        (err, s, fs1, cwd1) \<Rightarrow>
          if err \<noteq> RM_ERR_OK then Some (J_End (err_code err), fs1, cwd1)
          else case re_listen env of
            (lerr, port) \<Rightarrow>
              if lerr \<noteq> 0 then Some (J_End lerr, fs1, cwd1)
              else case rm_tcp_tx_msg_ack (re_hash32 env) ctl RM_PT_MSG_PUSH_ACK (err_code RM_ERR_OK) (Some (port, rv_ch_ch_n s)) of
                (aerr, ctl1) \<Rightarrow>
                  if aerr \<noteq> RM_ERR_OK then Some (J_End (err_code RM_ERR_OK), fs1, cwd1)
                  else if \<not> re_tx_launch env then Some (J_End (err_code RM_ERR_FAIL), fs1, cwd1)
                  else if \<not> re_rx_launch env then None
                  else Some (J_Open s ctl1 (resolve cwd1 (rv_z_name s)), fs1, cwd1))"

definition job_sync :: "recv_env \<Rightarrow> rm_msg_push \<Rightarrow> recv_sess \<Rightarrow> sock \<Rightarrow> string \<Rightarrow> files \<Rightarrow> (stage \<times> files) option" where
  "job_sync env m s ctl tmp fs =
     map_option (\<lambda>(tx_err, x, _).
         (if tx_err \<noteq> RM_ERR_OK then J_End (err_code RM_ERR_CH_CH_TX_THREAD)
          else if map_option rp_status (rs_prvt x) \<noteq> Some RM_RX_STATUS_OK then J_End (err_code RM_ERR_DELTA_RX_THREAD)
          else J_Sync s x,
          case rs_z x of None \<Rightarrow> fs | Some z \<Rightarrow> fs(tmp := Some (fs_bytes z))))
       (recv_threads env m s ctl)"

definition job_step :: "job \<Rightarrow> files \<Rightarrow> string \<Rightarrow> (stage \<times> files \<times> string) option" where
  "job_step j fs cwd =
     (case jb_stage j of
        J_Wait \<Rightarrow> job_open (jb_env j) (jb_msg j) (jb_ctl j) fs cwd
      | J_Open s ctl tmp \<Rightarrow> map_option (\<lambda>(st, fs1). (st, fs1, cwd)) (job_sync (jb_env j) (jb_msg j) s ctl tmp fs)
      | J_Sync s x \<Rightarrow>
          (case recv_replace (jb_env j) (jb_msg j) (rs_y x \<noteq> None) (rs_z x) (rv_z_name s) cwd fs of
             (err, fs1) \<Rightarrow> Some (J_End (err_code err), fs1, cwd))
      | J_End _ \<Rightarrow> None)"

section \<open>The process\<close>

record server =
  sv_files :: files
  sv_cwd :: string
  sv_jobs :: "job list"

text \<open>A turn of a handler that has ended, or never goes on, changes nothing. \<open>fold serve\<close> is the run of a schedule.\<close>

definition serve :: "nat \<Rightarrow> server \<Rightarrow> server" where
  "serve i sv =
     (if length (sv_jobs sv) \<le> i then sv
      else case job_step (sv_jobs sv ! i) (sv_files sv) (sv_cwd sv) of
        None \<Rightarrow> sv
      | Some (st, fs, cwd) \<Rightarrow>
          \<lparr>sv_files = fs, sv_cwd = cwd, sv_jobs = (sv_jobs sv)[i := (sv_jobs sv ! i)\<lparr>jb_stage := st\<rparr>]\<rparr>)"

text \<open>A handler that is left alone does what \<open>rm_do_msg_push_rx\<close> does.\<close>

lemma job_alone:
  assumes "rm_do_msg_push_rx st env m n = Some q"
  shows "\<exists>j. fold serve [0, 0, 0] \<lparr>sv_files = nd_files n, sv_cwd = nd_cwd n,
      sv_jobs = [\<lparr>jb_env = env, jb_msg = m, jb_ctl = nd_ctl n, jb_stage = J_Wait\<rparr>]\<rparr> =
    \<lparr>sv_files = nd_files (rr_node q), sv_cwd = nd_cwd (rr_node q), sv_jobs = [j]\<rparr> \<and> jb_stage j = J_End (rr_err q)"
proof -
  obtain err s fs cwd where v: "rm_session_assign_validate_from_msg_push env (recv_init RM_PUSH_RX) m (nd_files n) (nd_cwd n) =
      (err, s, fs, cwd)" by (metis prod_cases4)
  obtain lerr port where l: "re_listen env = (lerr, port)" by (metis surj_pair)
  obtain aerr ctl where a: "rm_tcp_tx_msg_ack (re_hash32 env) (nd_ctl n) RM_PT_MSG_PUSH_ACK (err_code RM_ERR_OK)
      (Some (port, rv_ch_ch_n s)) = (aerr, ctl)" by (metis surj_pair)
  have a': "rm_tcp_tx_msg_ack (re_hash32 env) (nd_ctl n) RM_PT_MSG_PUSH_ACK 0 (Some (port, rv_ch_ch_n s)) = (aerr, ctl)"
    using a by simp
  note whole = assms [unfolded rm_do_msg_push_rx_def v prod.case Let_def l recv_ack_def]
  note steps = serve_def job_step_def job_open_def v l a a'
  show ?thesis
  proof (cases "err = RM_ERR_OK \<and> lerr = 0 \<and> aerr = RM_ERR_OK \<and> re_tx_launch env")
    case False
    then show ?thesis
      using whole a a' by (auto simp: steps recv_end_def split: if_splits prod.splits)
  next
    case True
    then obtain t where t: "recv_threads env m s ctl = Some t" "pe_session_ok (re_sys env)" "re_rx_launch env"
        "q = recv_finish st env m s (n\<lparr>nd_files := fs, nd_cwd := cwd, nd_ctl := ctl,
          nd_core := rm_core_session_add st (nd_core n) (recv_core st env s False)\<rparr>) t"
      using whole a a' by (auto split: if_splits)
    obtain e x c where e: "t = (e, x, c)" by (metis prod_cases3)
    show ?thesis
      using True t by (auto simp: steps job_sync_def e recv_finish_def recv_end_def Let_def split: prod.split option.split)
  qed
qed

section \<open>Requests for one directory\<close>

text \<open>
  A request whose connections work and deliver the elements for \<open>x\<close>; \<open>yb\<close> is the old file. What it reads and writes: the
  temporary file, the reference file and the result.
\<close>

definition good_job :: "recv_env \<Rightarrow> rm_msg_push \<Rightarrow> sock \<Rightarrow> bytes \<Rightarrow> bytes \<Rightarrow> bool" where
  "good_job env m ctl yb x \<longleftrightarrow>
     recv_healthy env \<and> push_request m \<and> length yb < off_max \<and> tx_good ctl \<and> sk_out ctl = [] \<and>
     length x = unat (p_bytes m) \<and> length x \<le> off_max \<and>
     (\<exists>c ds rest. re_conn env = Some c \<and> rx_good c \<and> sk_in c = concat (map delta_wire ds) @ rest \<and>
        deltas_upto (unat (p_L m)) yb x (length x) ds \<and> (\<forall>d\<in>set ds. is_zero_diff d \<longrightarrow> length x = length yb))"

definition job_y :: "string \<Rightarrow> rm_msg_push \<Rightarrow> string" where
  "job_y D m = resolve D (c_string (p_y m))"

definition job_names :: "recv_env \<Rightarrow> string \<Rightarrow> rm_msg_push \<Rightarrow> string set" where
  "job_names env D m = {recv_tmp env D m, job_y D m, recv_dest D m}"

text \<open>How far a handler is, and what holds then of its session and of its files when everything works.\<close>

primrec stage_rank :: "stage \<Rightarrow> nat" where
  "stage_rank J_Wait = 0"
| "stage_rank (J_Open s ctl tmp) = 1"
| "stage_rank (J_Sync s x) = 2"
| "stage_rank (J_End e) = 3"

primrec job_inv :: "recv_env \<Rightarrow> rm_msg_push \<Rightarrow> string \<Rightarrow> bytes \<Rightarrow> bytes \<Rightarrow> files \<Rightarrow> stage \<Rightarrow> bool" where
  "job_inv env m D yb x fs J_Wait = ref_ok fs D m yb"
| "job_inv env m D yb x fs (J_Open s ctl tmp) =
     (tmp = recv_tmp env D m \<and> tx_good ctl \<and> rv_type s = RM_PUSH_RX \<and> y_ok (rv_y s) yb \<and>
      (rv_y s = None \<longleftrightarrow> fs (job_y D m) = None) \<and> (rv_y s = None \<longrightarrow> h_flags (p_hdr m) AND RM_BIT_4 \<noteq> 0) \<and>
      rv_y_sz s = length yb \<and> (\<exists>z. rv_z s = Some z \<and> healthy z \<and> fs_bytes z = []) \<and>
      rv_z_name s = pe_tmp (re_sys env) \<and> rv_ctx s = ctx_zero\<lparr>ctx_L := unat (p_L m)\<rparr>)"
| "job_inv env m D yb x fs (J_Sync s r) =
     (fs (recv_tmp env D m) = Some x \<and> rv_z_name s = pe_tmp (re_sys env) \<and> (\<exists>z. rs_z r = Some z \<and> healthy z) \<and>
      (rs_y r = None \<longleftrightarrow> fs (job_y D m) = None))"
| "job_inv env m D yb x fs (J_End e) = (e = 0 \<and> fs (recv_dest D m) = Some x)"

lemma job_inv_frame:
  assumes "job_inv env m D yb x fs st" and "\<forall>p\<in>job_names env D m. fs' p = fs p"
  shows "job_inv env m D yb x fs' st"
  using assms by (cases st) (auto simp: job_names_def ref_ok_def job_y_def)

text \<open>The first step does not need the directory to be the right one: it is \<open>D\<close> afterwards.\<close>

lemma job_open_ok:
  assumes "good_job env m ctl yb x" and "ref_ok fs cwd m yb"
  shows "\<exists>s ctl1. job_open env m ctl fs cwd =
      Some (J_Open s ctl1 (recv_tmp env cwd m), fs(recv_tmp env cwd m := Some []), recv_dir cwd m) \<and>
    tx_good ctl1 \<and> rv_type s = RM_PUSH_RX \<and> y_ok (rv_y s) yb \<and>
    (rv_y s = None \<longleftrightarrow> fs (job_y cwd m) = None) \<and> (rv_y s = None \<longrightarrow> h_flags (p_hdr m) AND RM_BIT_4 \<noteq> 0) \<and>
    rv_y_sz s = length yb \<and> (\<exists>z. rv_z s = Some z \<and> healthy z \<and> fs_bytes z = []) \<and>
    rv_z_name s = pe_tmp (re_sys env) \<and> rv_ctx s = ctx_zero\<lparr>ctx_L := unat (p_L m)\<rparr>"
proof -
  have g: "recv_healthy env" "push_request m" "tx_good ctl" "sk_out ctl = []" using assms(1) by (simp_all add: good_job_def)
  note env = g(1) [unfolded recv_healthy_def env_healthy_def]
  obtain s z where v: "rm_session_assign_validate_from_msg_push env (recv_init RM_PUSH_RX) m fs cwd =
      (RM_ERR_OK, s, fs(recv_tmp env cwd m := Some []), recv_dir cwd m)" "rv_type s = RM_PUSH_RX" "y_ok (rv_y s) yb"
      "rv_y s = None \<longleftrightarrow> fs (job_y cwd m) = None" "rv_y s = None \<longrightarrow> h_flags (p_hdr m) AND RM_BIT_4 \<noteq> 0"
      "rv_y_sz s = length yb" "rv_z s = Some z" "healthy z" "fs_bytes z = []" "rv_z_name s = pe_tmp (re_sys env)"
      "rv_ctx s = ctx_zero\<lparr>ctx_L := unat (p_L m)\<rparr>"
    using validate_ok [OF g(1,2) assms(2), folded job_y_def] by (elim exE conjE) (rule that; assumption)
  obtain port where l: "re_listen env = (0, port)" using env by (cases "re_listen env") auto
  let ?n = "\<lparr>nd_files = fs, nd_cwd = cwd, nd_core = undefined, nd_ctl = ctl\<rparr> :: nat node"
  obtain ctl1 where "recv_ack env (err_code RM_ERR_OK) port s ?n = (RM_ERR_OK, ?n\<lparr>nd_ctl := ctl1\<rparr>)" and tx: "tx_good ctl1"
    using recv_ack_ok [of ?n env RM_ERR_OK port s] g(3,4) by auto
  then have a: "rm_tcp_tx_msg_ack (re_hash32 env) ctl RM_PT_MSG_PUSH_ACK (err_code RM_ERR_OK) (Some (port, rv_ch_ch_n s)) =
      (RM_ERR_OK, ctl1)"
    by (simp add: recv_ack_def split: prod.splits)
  have "job_open env m ctl fs cwd =
      Some (J_Open s ctl1 (resolve (recv_dir cwd m) (rv_z_name s)), fs(recv_tmp env cwd m := Some []), recv_dir cwd m)"
    using env by (simp add: job_open_def v(1) l a [simplified])
  with v(2-) tx show ?thesis by (intro exI [of _ s] exI [of _ ctl1]) (simp add: recv_tmp_def)
qed

lemma job_sync_ok:
  assumes "good_job env m ctl0 yb x" and "job_inv env m D yb x fs (J_Open s ctl tmp)"
  shows "\<exists>r z. job_sync env m s ctl tmp fs = Some (J_Sync s r, fs(tmp := Some x)) \<and> rs_z r = Some z \<and> healthy z \<and>
    (rs_y r = None \<longleftrightarrow> rv_y s = None)"
proof -
  obtain c ds rest where g: "recv_healthy env" "push_request m" "length yb < off_max" "length x = unat (p_bytes m)"
      "length x \<le> off_max" "re_conn env = Some c" "rx_good c" "sk_in c = concat (map delta_wire ds) @ rest"
      "deltas_upto (unat (p_L m)) yb x (length x) ds" "\<forall>d\<in>set ds. is_zero_diff d \<longrightarrow> length x = length yb"
    using assms(1) unfolding good_job_def by blast
  have L: "0 < unat (p_L m)" using g(2) by (simp add: push_request_def unat_gt_0)
  obtain z where s: "tx_good ctl" "rv_type s = RM_PUSH_RX" "y_ok (rv_y s) yb" "rv_y s = None \<longrightarrow> h_flags (p_hdr m) AND RM_BIT_4 \<noteq> 0"
      "rv_y_sz s = length yb" "rv_ctx s = ctx_zero\<lparr>ctx_L := unat (p_L m)\<rparr>" "rv_z s = Some z" "healthy z" "fs_bytes z = []"
    using assms(2) by auto
  from recv_threads_ok [OF g(1) s(2,3) g(3) s(4,5) s(7-9) s(6) refl L s(1) g(6-9) g(4,5,10)]
  obtain r ctl' z' where thr: "recv_threads env m s ctl = Some (RM_ERR_OK, r, ctl')"
      "map_option rp_status (rs_prvt r) = Some RM_RX_STATUS_OK" "rs_z r = Some z'" "healthy z'" "fs_bytes z' = x"
      "rs_y r = None \<longleftrightarrow> rv_y s = None"
    by (elim exE conjE) (rule that; assumption)
  then show ?thesis by (intro exI [of _ r] exI [of _ z']) (simp add: job_sync_def)
qed

lemma job_step_ok:
  assumes "good_job env m ctl yb x" and "recv_dir D m = D" and "recv_tmp env D m \<noteq> job_y D m" and "recv_tmp env D m \<noteq> recv_dest D m"
    and "job_inv env m D yb x fs (jb_stage j)" and "stage_rank (jb_stage j) < 3"
    and "jb_env j = env" and "jb_msg j = m" and "jb_ctl j = ctl"
  shows "\<exists>st fs'. job_step j fs D = Some (st, fs', D) \<and> job_inv env m D yb x fs' st \<and>
    stage_rank st = Suc (stage_rank (jb_stage j)) \<and> (\<forall>p. p \<notin> job_names env D m \<longrightarrow> fs' p = fs p)"
proof (cases "jb_stage j")
  case J_Wait
  with assms(5) have "ref_ok fs D m yb" by simp
  from job_open_ok [OF assms(1) this] obtain s ctl1 where s: "job_open env m ctl fs D =
      Some (J_Open s ctl1 (recv_tmp env D m), fs(recv_tmp env D m := Some []), D)"
      "job_inv env m D yb x (fs(recv_tmp env D m := Some [])) (J_Open s ctl1 (recv_tmp env D m))"
    using assms(2,3) by (auto simp: not_sym [OF assms(3)])
  then show ?thesis using assms(7-9) J_Wait by (auto simp: job_step_def job_names_def)
next
  case (J_Open s ctl1 tmp)
  with assms(5) have inv: "job_inv env m D yb x fs (J_Open s ctl1 tmp)" by (simp only:)
  from job_sync_ok [OF assms(1) inv] obtain r z where r: "job_sync env m s ctl1 tmp fs = Some (J_Sync s r, fs(tmp := Some x))"
      "rs_z r = Some z" "healthy z" "rs_y r = None \<longleftrightarrow> rv_y s = None" by (elim exE conjE) (rule that; assumption)
  with inv assms(3) have "job_inv env m D yb x (fs(tmp := Some x)) (J_Sync s r)" by auto
  with r(1) show ?thesis using inv assms(7-9) J_Open by (auto simp: job_step_def job_names_def)
next
  case (J_Sync s r)
  with assms(5) obtain z where r: "fs (recv_tmp env D m) = Some x" "rv_z_name s = pe_tmp (re_sys env)" "rs_z r = Some z"
      "healthy z" "rs_y r = None \<longleftrightarrow> fs (job_y D m) = None" by auto
  have g: "recv_healthy env" "push_request m" using assms(1) by (simp_all add: good_job_def)
  have names: "resolve D (pe_tmp (re_sys env)) = recv_tmp env D m" "resolve D (c_string (p_y m)) = job_y D m"
      "resolve D (recv_name m) = recv_dest D m"
    using assms(2) by (simp_all add: recv_tmp_def job_y_def recv_dest_def)
  have "recv_replace env m (rs_y r \<noteq> None) (Some z) (pe_tmp (re_sys env)) D fs = (RM_ERR_OK,
      (if h_flags (p_hdr m) AND RM_BIT_6 = 0 \<and> 0 < p_z_sz m \<and> rs_y r \<noteq> None then fs(job_y D m := None) else fs)
        (recv_tmp env D m := None, recv_dest D m := Some x))"
    using recv_replace_ok [OF g r(4), of fs D "pe_tmp (re_sys env)" "rs_y r \<noteq> None", unfolded names] r(1,5) assms(3) by simp
  with r assms(7-9) J_Sync show ?thesis by (auto simp: job_step_def job_names_def)
qed (use assms(6) in simp)

text \<open>
  The handlers \<open>js\<close> at the start, all of them for the directory \<open>D\<close>, in which the process already is. No two of them
  mean the same file.
\<close>

definition one_directory :: "string \<Rightarrow> files \<Rightarrow> job list \<Rightarrow> (nat \<Rightarrow> bytes) \<Rightarrow> (nat \<Rightarrow> bytes) \<Rightarrow> bool" where
  "one_directory D fs js yb x \<longleftrightarrow>
     (\<forall>i<length js. let env = jb_env (js ! i); m = jb_msg (js ! i) in
        jb_stage (js ! i) = J_Wait \<and> good_job env m (jb_ctl (js ! i)) (yb i) (x i) \<and> recv_dir D m = D \<and> ref_ok fs D m (yb i) \<and>
        recv_tmp env D m \<noteq> job_y D m \<and> recv_tmp env D m \<noteq> recv_dest D m \<and>
        (\<forall>k<length js. k \<noteq> i \<longrightarrow> job_names env D m \<inter> job_names (jb_env (js ! k)) D (jb_msg (js ! k)) = {}))"

definition server_inv :: "string \<Rightarrow> files \<Rightarrow> job list \<Rightarrow> (nat \<Rightarrow> bytes) \<Rightarrow> (nat \<Rightarrow> bytes) \<Rightarrow> server \<Rightarrow> bool" where
  "server_inv D fs js yb x sv \<longleftrightarrow> sv_cwd sv = D \<and> length (sv_jobs sv) = length js \<and>
     (\<forall>i<length js. jb_env (sv_jobs sv ! i) = jb_env (js ! i) \<and> jb_msg (sv_jobs sv ! i) = jb_msg (js ! i) \<and>
        jb_ctl (sv_jobs sv ! i) = jb_ctl (js ! i) \<and>
        job_inv (jb_env (js ! i)) (jb_msg (js ! i)) D (yb i) (x i) (sv_files sv) (jb_stage (sv_jobs sv ! i))) \<and>
     (\<forall>p. (\<forall>i<length js. p \<notin> job_names (jb_env (js ! i)) D (jb_msg (js ! i))) \<longrightarrow> sv_files sv p = fs p)"

definition job_rank :: "server \<Rightarrow> nat \<Rightarrow> nat" where
  "job_rank sv i = stage_rank (jb_stage (sv_jobs sv ! i))"

lemma stage_rank_le: "stage_rank st \<le> 3"
  by (cases st) simp_all

lemma serve_inv:
  assumes "one_directory D fs js yb x" and "server_inv D fs js yb x sv"
  shows "server_inv D fs js yb x (serve i sv)"
    and "k < length js \<Longrightarrow> job_rank (serve i sv) k = (if k = i then min 3 (Suc (job_rank sv k)) else job_rank sv k)"
proof -
  let ?env = "jb_env (js ! i)" and ?m = "jb_msg (js ! i)" and ?st = "jb_stage (sv_jobs sv ! i)"
  have "server_inv D fs js yb x (serve i sv) \<and>
    (\<forall>k<length js. job_rank (serve i sv) k = (if k = i then min 3 (Suc (job_rank sv k)) else job_rank sv k))"
  proof (cases "i < length js \<and> stage_rank ?st < 3")
    case False
    have "serve i sv = sv"
    proof (cases "i < length js")
      case True
      with False have "stage_rank ?st = 3" using stage_rank_le [of ?st] by simp
      then obtain e where "?st = J_End e" by (cases ?st) simp_all
      then show ?thesis by (simp add: serve_def job_step_def)
    qed (use assms(2) in \<open>simp add: serve_def server_inv_def\<close>)
    then show ?thesis using False assms(2) stage_rank_le [of ?st] by (auto simp: job_rank_def)
  next
    case True
    have j: "jb_env (sv_jobs sv ! i) = ?env" "jb_msg (sv_jobs sv ! i) = ?m" "jb_ctl (sv_jobs sv ! i) = jb_ctl (js ! i)"
        "job_inv ?env ?m D (yb i) (x i) (sv_files sv) ?st" "length (sv_jobs sv) = length js" "sv_cwd sv = D"
      using assms(2) True by (simp_all add: server_inv_def)
    have one: "good_job ?env ?m (jb_ctl (js ! i)) (yb i) (x i)" "recv_dir D ?m = D" "recv_tmp ?env D ?m \<noteq> job_y D ?m"
        "recv_tmp ?env D ?m \<noteq> recv_dest D ?m"
        "\<And>k. k < length js \<Longrightarrow> k \<noteq> i \<Longrightarrow> job_names ?env D ?m \<inter> job_names (jb_env (js ! k)) D (jb_msg (js ! k)) = {}"
      using assms(1) True by (simp_all add: one_directory_def Let_def)
    from job_step_ok [OF one(1-4) j(4) _ j(1-3)] True obtain st fs' where st:
        "job_step (sv_jobs sv ! i) (sv_files sv) D = Some (st, fs', D)" "job_inv ?env ?m D (yb i) (x i) fs' st"
        "stage_rank st = Suc (stage_rank ?st)" "\<And>p. p \<notin> job_names ?env D ?m \<Longrightarrow> fs' p = sv_files sv p" by blast
    have s: "serve i sv = \<lparr>sv_files = fs', sv_cwd = D, sv_jobs = (sv_jobs sv)[i := (sv_jobs sv ! i)\<lparr>jb_stage := st\<rparr>]\<rparr>"
      using True st(1) j(5,6) by (simp add: serve_def)
    have frame: "job_inv (jb_env (js ! k)) (jb_msg (js ! k)) D (yb k) (x k) fs' (jb_stage (sv_jobs sv ! k))"
      if "k < length js" "k \<noteq> i" for k
    proof (rule job_inv_frame)
      show "job_inv (jb_env (js ! k)) (jb_msg (js ! k)) D (yb k) (x k) (sv_files sv) (jb_stage (sv_jobs sv ! k))"
        using assms(2) that(1) by (simp add: server_inv_def)
      show "\<forall>p\<in>job_names (jb_env (js ! k)) D (jb_msg (js ! k)). fs' p = sv_files sv p"
        using st(4) one(5) [OF that] by blast
    qed
    have out: "fs' p = fs p" if "\<forall>k<length js. p \<notin> job_names (jb_env (js ! k)) D (jb_msg (js ! k))" for p
      using that True st(4) [of p] assms(2) by (simp add: server_inv_def)
    have "server_inv D fs js yb x (serve i sv)"
      unfolding server_inv_def s using assms(2) j st(2) frame out True by (auto simp: nth_list_update server_inv_def)
    then show ?thesis using st(3) True j(5) stage_rank_le [of st] by (auto simp: job_rank_def s nth_list_update)
  qed
  then show "server_inv D fs js yb x (serve i sv)"
    and "k < length js \<Longrightarrow> job_rank (serve i sv) k = (if k = i then min 3 (Suc (job_rank sv k)) else job_rank sv k)"
    by blast+
qed

lemma schedule_inv:
  assumes "one_directory D fs js yb x" and "server_inv D fs js yb x sv"
  shows "server_inv D fs js yb x (fold serve is sv) \<and>
    (\<forall>k<length js. job_rank (fold serve is sv) k = min 3 (job_rank sv k + count_list is k))"
  using assms(2)
proof (induction "is" arbitrary: sv)
  case Nil
  then show ?case by (simp add: job_rank_def min_absorb2 stage_rank_le)
next
  case (Cons i "is")
  from Cons.IH [OF serve_inv(1) [OF assms(1) Cons.prems, of i]] serve_inv(2) [OF assms(1) Cons.prems, of _ i]
  show ?case by (auto simp: min_def)
qed

text \<open>The examples: handlers of the request of \<open>RM_Receive\<close>, each with a temporary file of its own.\<close>

definition sample_job :: "string \<Rightarrow> rm_msg_push \<Rightarrow> job" where
  "sample_job t m = \<lparr>jb_env = sample_recv\<lparr>re_sys := (sample_env [])\<lparr>pe_tmp := t\<rparr>\<rparr>, jb_msg = m,
     jb_ctl = nd_ctl (sample_node (\<lambda>_. None)), jb_stage = J_Wait\<rparr>"

lemma sample_job_simps [simp]:
  "jb_stage (sample_job t m) = J_Wait" "jb_msg (sample_job t m) = m" "pe_tmp (re_sys (jb_env (sample_job t m))) = t"
  by (simp_all add: sample_job_def)

lemma sample_good_job:
  assumes "push_request m" and "p_L m = 2" and "p_bytes m = 2"
  shows "good_job (jb_env (sample_job t m)) m (jb_ctl (sample_job t m)) [1, 2, 3] [9, 3]"
proof -
  have "recv_healthy (jb_env (sample_job t m))"
    using sample_recv_simps(1) by (simp add: sample_job_def recv_healthy_def env_healthy_def sample_env_def healthy_open)
  moreover have "re_conn (jb_env (sample_job t m)) = Some (sample_conn (concat (map delta_wire sample_ds) @ []) False)"
    by (simp add: sample_job_def)
  moreover have "tx_good (jb_ctl (sample_job t m))" "sk_out (jb_ctl (sample_job t m)) = []"
    by (simp_all add: sample_job_def)
  ultimately show ?thesis
    using assms sample_deltas sample_conn_good [of "concat (map delta_wire sample_ds) @ []"]
    by (auto simp: good_job_def off_max_def)
qed

text \<open>
  C14. Requests for one directory do not disturb each other, as long as no two of them mean the same file: the names of
  their old files, results and temporary files are different. Each alone would be carried out (its calls of the operating
  system succeed, the stream of its sender's elements arrives, with files of equal length if one of them is a zero
  difference). However many workers there are, and in whatever
  order they get their turns: no handler fails, the process stays in the directory, a handler that has had three turns has
  ended, the result of each that has ended is the file of its sender, and no other file has changed.
\<close>

theorem pushes_into_one_directory:
  assumes "one_directory D fs js yb x"
    and "sv = fold serve is \<lparr>sv_files = fs, sv_cwd = D, sv_jobs = js\<rparr>" and "i < length js"
  shows "sv_cwd sv = D \<and> (3 \<le> count_list is i \<longleftrightarrow> (\<exists>e. jb_stage (sv_jobs sv ! i) = J_End e)) \<and>
    (\<forall>e. jb_stage (sv_jobs sv ! i) = J_End e \<longrightarrow> e = 0 \<and> sv_files sv (recv_dest D (jb_msg (js ! i))) = Some (x i)) \<and>
    (\<forall>p. (\<forall>k<length js. p \<notin> job_names (jb_env (js ! k)) D (jb_msg (js ! k))) \<longrightarrow> sv_files sv p = fs p)"
proof -
  let ?start = "\<lparr>sv_files = fs, sv_cwd = D, sv_jobs = js\<rparr>"
  have "server_inv D fs js yb x ?start" using assms(1) by (simp add: server_inv_def one_directory_def Let_def)
  from schedule_inv [OF assms(1) this, of "is"] assms(2)
  have inv: "server_inv D fs js yb x sv" and rank: "job_rank sv i = min 3 (job_rank ?start i + count_list is i)"
    using assms(3) by auto
  have zero: "job_rank ?start i = 0" using assms(1,3) by (simp add: job_rank_def one_directory_def Let_def)
  have three: "stage_rank st = 3 \<longleftrightarrow> (\<exists>e. st = J_End e)" for st by (cases st) simp_all
  have "3 \<le> count_list is i \<longleftrightarrow> (\<exists>e. jb_stage (sv_jobs sv ! i) = J_End e)"
    unfolding three [symmetric] using rank zero by (simp add: job_rank_def min_def)
  moreover have "job_inv (jb_env (js ! i)) (jb_msg (js ! i)) D (yb i) (x i) (sv_files sv) (jb_stage (sv_jobs sv ! i))"
    using inv assms(3) by (simp add: server_inv_def)
  then have "e = 0 \<and> sv_files sv (recv_dest D (jb_msg (js ! i))) = Some (x i)" if "jb_stage (sv_jobs sv ! i) = J_End e" for e
    using that by simp
  ultimately show ?thesis using inv by (auto simp: server_inv_def)
qed

theorem pushes_into_one_directory_witness:
  "let sv = fold serve [0, 1, 1, 0, 1, 0] \<lparr>sv_files = [''/srv/a'' \<mapsto> [1, 2, 3], ''/srv/b'' \<mapsto> [1, 2, 3]], sv_cwd = ''/srv'',
      sv_jobs = [sample_job ''t'' (sample_request [97]), sample_job ''u'' (sample_request [98])]\<rparr>
   in sv_files sv ''/srv/a'' = Some [9, 3] \<and> jb_stage (sv_jobs sv ! 0) = J_End 0 \<and> sv_cwd sv = ''/srv''"
proof -
  let ?js = "[sample_job ''t'' (sample_request [97]), sample_job ''u'' (sample_request [98])]"
  let ?fs = "[''/srv/a'' \<mapsto> [1, 2, 3], ''/srv/b'' \<mapsto> [1, 2, 3 :: u8]]"
  let ?a = "sample_request [97]" and ?b = "sample_request [98]"
  have name: "c_string [97, 0] = ''a''" "c_string [98, 0] = ''b''" by code_simp+
  have dir: "dirname ''a'' = ''.''" "dirname ''b'' = ''.''" by code_simp+
  have req: "push_request ?a" "push_request ?b" by (simp_all add: push_request_def RM_BIT_6_def)
  have good: "good_job (jb_env (sample_job t ?a)) ?a (jb_ctl (sample_job t ?a)) [1, 2, 3] [9, 3]"
      "good_job (jb_env (sample_job t ?b)) ?b (jb_ctl (sample_job t ?b)) [1, 2, 3] [9, 3]" for t
    using sample_good_job req by simp_all
  have dirs: "recv_dir ''/srv'' ?a = ''/srv''" "recv_dir ''/srv'' ?b = ''/srv''"
    by (simp_all add: recv_dir_def recv_name_def name dir)
  have paths: "recv_tmp (jb_env (sample_job ''t'' ?a)) ''/srv'' ?a = ''/srv/t''" "job_y ''/srv'' ?a = ''/srv/a''"
      "recv_dest ''/srv'' ?a = ''/srv/a''" "recv_tmp (jb_env (sample_job ''u'' ?b)) ''/srv'' ?b = ''/srv/u''"
      "job_y ''/srv'' ?b = ''/srv/b''" "recv_dest ''/srv'' ?b = ''/srv/b''"
    by (simp_all add: recv_tmp_def job_y_def recv_dest_def dirs recv_name_def name resolve_def)
  have ref: "ref_ok ?fs ''/srv'' ?a [1, 2, 3]" "ref_ok ?fs ''/srv'' ?b [1, 2, 3]"
    by (simp_all add: ref_ok_def name resolve_def)
  have two: "(\<forall>k<length ?js. P k) \<longleftrightarrow> P 0 \<and> P 1" for P by (auto simp: less_Suc_eq)
  have "one_directory ''/srv'' ?fs ?js (\<lambda>_. [1, 2, 3]) (\<lambda>_. [9, 3])"
    unfolding one_directory_def Let_def two by (simp add: good dirs ref job_names_def) (simp add: paths)
  from pushes_into_one_directory [OF this refl, of 0 "[0, 1, 1, 0, 1, 0]"] show ?thesis
    by (auto simp: Let_def paths)
qed

section \<open>Requests for two directories\<close>

lemma resolve_relative: "p \<noteq> [] \<Longrightarrow> hd p \<noteq> CHR ''/'' \<Longrightarrow> resolve d p = d @ ''/'' @ p"
  by (simp add: resolve_def)

lemma resolve_absolute [simp]: "resolve d (CHR ''/'' # p) = CHR ''/'' # p"
  by (simp add: resolve_def)

text \<open>The end of a handler when the directory it finds itself in has no file of the name of its temporary one.\<close>

lemma replace_elsewhere:
  assumes "recv_healthy env" and "healthy z" and "0 < p_z_sz m" and "h_flags (p_hdr m) AND RM_BIT_6 = 0"
    and "fs (resolve cwd (c_string (p_y m))) \<noteq> None" and "fs (resolve cwd zn) = None"
  shows "recv_replace env m True (Some z) zn cwd fs = (RM_ERR_RENAME_TMP_Z, fs(resolve cwd (c_string (p_y m)) := None))"
  using assms by (simp add: recv_replace_def Let_def sys_unlink_def sys_rename_def recv_healthy_def env_healthy_def
      fstat_size_def healthy_def)



end
