(* ===== verification/Spec2Isabelle.thy ===== *)
theory Spec2Isabelle
  imports RM_Checksum RM_MD5 RM_File RM_Rx RM_Roll RM_Sync RM_RollEnds RM_Buffers RM_Match RM_Serialize RM_Tcp RM_Core RM_Wire
    RM_Exchange RM_WQ RM_Session RM_Push RM_Receive
    RM_TxRemote RM_Daemon RM_Util RM_Cmd RM_Connect RM_Life RM_Threads RM_Main RM_System
    RM_Release RM_ReleaseTx RM_ReleaseRx RM_Report RM_Race
begin

text \<open>
  A verification development for rsyncme, a file synchronization tool in C that implements the rsync
  algorithm. The receiver of a file has an old version \<open>y\<close>. It cuts \<open>y\<close> into blocks of \<open>L\<close> bytes and
  sends a fast and a strong checksum of each; the sender rolls the fast checksum over its file \<open>x\<close>,
  looks every window up, and sends delta elements (a reference to a block, a literal, a reference to
  the tail, or that nothing differs), from which the receiver rebuilds \<open>x\<close>. In a local push both sides are
  threads of one process.

  The parts of the program and the theories that model them:

  \<^item> \<open>RM_Prelude\<close>: lemmas on lists, options, words and sizes shared by everything, the collections of
    simplification rules, \<open>size_t\<close> arithmetic with its wrap-around.
  \<^item> \<open>RM_Defs\<close>: the error codes and the types of \<^verbatim>\<open>include/rm_defs.h\<close> and \<^verbatim>\<open>include/rm.h\<close>.
  \<^item> \<open>RM_Checksum\<close>, \<open>RM_MD5\<close>: the checksums of \<^verbatim>\<open>src/rm.c\<close> and \<^verbatim>\<open>src/md5.c\<close> on 32 bit words. Their
    rolling laws, the equivalence of the unrolled and the plain Adler checksum, and the refinement of
    the digest of the padded message by the incremental MD5.
  \<^item> \<open>RM_File\<close>: streams with faults, and the copies, positioned reads and comparisons of \<^verbatim>\<open>src/rm.c\<close>.
  \<^item> \<open>RM_Rx\<close>: \<^verbatim>\<open>src/rm_rx.c\<close>: filling the table of block checksums, and applying a delta element.
  \<^item> \<open>RM_Roll\<close>, \<open>RM_Sync\<close>: the rolling procedure \<open>rm_rolling_ch_proc\<close> of \<^verbatim>\<open>src/rm.c\<close>, cut into the blocks
    of its loop, and the proof that what it emits stands for the file.
  \<^item> \<open>RM_RollEnds\<close>: the procedure returns under every fault, with any table, memory and callback, and stays within the
    buffers it has allocated.
  \<^item> \<open>RM_Buffers\<close>: which of its two buffers a return leaves allocated: none when it reports success or has handed over the
    whole file; and the same for the producer thread.
  \<^item> \<open>RM_Match\<close>: the search finds every block that is in the table; a file made of known blocks is sent without a literal.
  \<^item> \<open>RM_Serialize\<close>: the message formats of \<^verbatim>\<open>src/rm_serialize.c\<close> with their round trips.
  \<^item> \<open>RM_Tcp\<close>: the transfer loops of \<^verbatim>\<open>src/rm_tcp.c\<close> on a connection that delivers in pieces, is
    interrupted, fails, is closed or blocks.
  \<^item> \<open>RM_Connect\<close>: connecting with and without a timeout, blocking modes and listening, the other half of
    \<^verbatim>\<open>src/rm_tcp.c\<close>, on a table of descriptors that shows which ones are left open.
  \<^item> \<open>RM_Core\<close>: validation of messages and the session table of \<^verbatim>\<open>src/rm_core.c\<close>.
  \<^item> \<open>RM_Wire\<close>: delta elements on the wire: \<open>rm_rx_tx_delta_element\<close> and the receiver thread
    \<open>rm_session_delta_rx_f_remote\<close> of \<^verbatim>\<open>src/rm_session.c\<close>.
  \<^item> \<open>RM_Exchange\<close>: the exchange of the checksums, \<open>rm_session_ch_ch_tx_f\<close> and \<open>rm_session_ch_ch_rx_f\<close>.
  \<^item> \<open>RM_Fifo\<close>: the contract of the external queue.
  \<^item> \<open>RM_WQ\<close>: the work queue of the daemon, \<^verbatim>\<open>src/rm_wq.c\<close>, with its workers as state machines.
  \<^item> \<open>RM_Session\<close>: the producer and consumer threads of a push, their queue, and the two callbacks as
    interpretations of one contract (\<open>delta_sink\<close>); the end to end theorems of the threads are here.
  \<^item> \<open>RM_Push\<close>: a local push, \<open>rm_tx_local_push\<close> of \<^verbatim>\<open>src/rm_tx.c\<close>, with the files it opens, creates, removes and
    renames.
  \<^item> \<open>RM_Receive\<close>: the receiver's side of a remote push, \<open>rm_do_msg_push_rx\<close> of \<^verbatim>\<open>src/rm_do_msg.c\<close>, with the validation
    of the request, \<open>rm_session_assign_validate_from_msg_push\<close> of \<^verbatim>\<open>src/rm_session.c\<close>.
  \<^item> \<open>RM_Race\<close>: several handlers at work at the same time, which share the files and the working directory of the
    process: the handler cut into steps, alone the same as \<open>rm_do_msg_push_rx\<close>, under every schedule.
  \<^item> \<open>RM_TxRemote\<close>: the sender's side, \<open>rm_tx_remote_push\<close> of \<^verbatim>\<open>src/rm_tx.c\<close>, and the theorems on both sides together.
  \<^item> \<open>RM_Daemon\<close>: \<^verbatim>\<open>src/rm_daemon.c\<close>: what becomes of a connection between the socket and the work queue, the
    signals and the main loop, starting and stopping.
  \<^item> \<open>RM_Threads\<close>: the consumer thread as one function with the guards before its loop, launching a thread, and the
    callbacks that transmit a checksum.
  \<^item> \<open>RM_Life\<close>: creating and freeing sessions, messages, work items and queues (\<^verbatim>\<open>src/rm_session.c\<close>,
    \<^verbatim>\<open>src/rm_do_msg.c\<close>, \<^verbatim>\<open>src/rm_wq.c\<close>) with the live blocks and the descriptors closed, and the pull handlers.
  \<^item> \<open>RM_Release\<close>, \<open>RM_ReleaseTx\<close>, \<open>RM_ReleaseRx\<close>: the control flow of the three pushes (\<open>rm_tx_local_push\<close>,
    \<open>rm_tx_remote_push\<close>, \<open>rm_do_msg_push_rx\<close>) on those blocks: on every return what is released, that nothing is
    released twice, and what is left open or allocated. The results are those of \<open>RM_Push\<close>, \<open>RM_TxRemote\<close>, \<open>RM_Receive\<close>.
  \<^item> \<open>RM_Report\<close>: what is said of a failure: \<^verbatim>\<open>src/rm_error.c\<close>, \<^verbatim>\<open>src/rm_signal.c\<close>, the lines both ends of a remote
    push log on their failure exits, and what is printed of a bad option.
  \<^item> \<open>RM_Util\<close>: \<^verbatim>\<open>src/rm_util.c\<close>: time differences, log lines and files, going into the background; with the
    decimal notation and \<open>strtoul\<close> of the C library.
  \<^item> \<open>RM_Cmd\<close>: the tool, \<^verbatim>\<open>src/rm_cmd.c\<close>: options, their checks and defaults, the request, the exit status.
  \<^item> \<open>RM_Main\<close>: \<open>main\<close> of \<^verbatim>\<open>src/rm_daemon.c\<close>: options, start, loop, exit.
  \<^item> \<open>RM_System\<close>: the tool and the daemon together, from the command line to the file on the other host.

  Modelling decisions. A \<open>size_t\<close> is a \<open>nat\<close> with its wrap-around written out (\<open>sz_add\<close>, \<open>sz_sub\<close>);
  checksums and message fields are words. A pointer that may be \<open>NULL\<close> is an option, undefined
  behaviour is \<open>None\<close> in the result of the function. Streams and connections carry a list of events that says how
  each call of the operating system ends, so a theorem without hypotheses on the events covers every
  fault; a memory oracle says which calls of \<open>malloc\<close> succeed. Assertions are not executed: the release
  build defines \<open>NDEBUG\<close>. Loops whose number of rounds depends on the peer or the data are
  \<open>partial_function (option)\<close>, where \<open>None\<close> also stands for never returning, or functions with a
  measure; the theorems state that a result is reached. No fuel is used; the dispatcher's bound of 255
  rounds (\<open>wq_pick\<close>) is the code's own and is proved to be enough.

  The buffers of the rolling procedure have the size they are allocated with, and an access beyond it is
  undefined. \<open>rm_calc_msg_len\<close> gets what its caller passes: the header, or, from \<open>rm_tx_remote_push\<close>, the message, whose
  first member is the address of the header. That address is a field of the environment, and the type that is read
  is its byte 4, on a little endian machine with 64 bit pointers; theorems on a remote push that succeeds ask this
  byte to be 0 (\<open>request_ready\<close>), and \<open>RM_TxRemote\<close> shows that otherwise the request overruns its buffer. Waiting on a
  condition may end without a signal, also while a worker that was stopped is joined.

  Not part of the repository, and therefore parameters with named hypotheses: the hash table, queue
  and hash of the twlist submodule (\<open>twhash_ok\<close>, \<open>fifo_ok\<close>, \<open>sess_table_ok\<close>, \<open>twhash_32\<close>). The hypothesis that the
  checksums tell the blocks of the two files apart is \<open>no_collision\<close>. A condition on the files, without which the code
  produces the wrong result, is \<open>zero_diff_safe\<close>: if a block of the old file is all of the new one, the old file begins with it.

  Not modelled: the texts of the usage and of the lines logged while all goes well (the form of a log line and the
  lines of a failure are). The calls of the operating system and of the C library
  (\<open>getopt_long\<close>, \<open>getaddrinfo\<close>, \<open>select\<close>, \<open>fork\<close>, \<open>vfprintf\<close>) are
  parameters that give their answers. Pull requests, \<open>rm_core_reload_config\<close> and \<open>rm_wq_queue_delayed_work\<close> do
  nothing in the code.
\<close>

end
